(* ===== verification/Prelude.thy ===== *)
theory Prelude
  imports Main
begin

text \<open>
  Shared vocabulary of the development: fallible results as sums with a bind, guards,
  SQL-style updates of a table kept as a list of rows, first-match lookup, and the
  collections of rewrite rules the component proofs draw on.
\<close>

section \<open>Collections\<close>

text \<open>
  \<open>frame_simps\<close>: what an operation leaves unchanged.
  \<open>inv_intros\<close>: an operation keeps an invariant.
\<close>

named_theorems frame_simps "fields and tables an operation does not write"
named_theorems inv_intros "preservation of an invariant by one operation"

section \<open>Fallible computations\<close>

text \<open>
  A Go function returning \<open>(T, error)\<close> is a function into \<open>'e + 't\<close>: \<open>Inl\<close> is the
  error return, \<open>Inr\<close> the value. \<open>rbind\<close> is the early return \<open>if err != nil\<close>.
\<close>

definition rbind :: "'e + 'a \<Rightarrow> ('a \<Rightarrow> 'e + 'b) \<Rightarrow> 'e + 'b" where
  "rbind m f = (case m of Inl e \<Rightarrow> Inl e | Inr x \<Rightarrow> f x)"

definition ensure :: "bool \<Rightarrow> 'e \<Rightarrow> 'e + unit" where
  "ensure b e = (if b then Inr () else Inl e)"

lemma rbind_simps [simp]:
  "rbind (Inl e) f = Inl e"
  "rbind (Inr x) f = f x"
  by (simp_all add: rbind_def)

lemma rbind_Inr_iff: "rbind m f = Inr y \<longleftrightarrow> (\<exists>x. m = Inr x \<and> f x = Inr y)"
  by (cases m) simp_all

lemma rbind_Inl_iff: "rbind m f = Inl e \<longleftrightarrow> m = Inl e \<or> (\<exists>x. m = Inr x \<and> f x = Inl e)"
  by (cases m) simp_all

lemma rbind_InrE [elim!]:
  assumes "rbind m f = Inr y"
  obtains x where "m = Inr x" and "f x = Inr y"
  using assms by (auto simp: rbind_Inr_iff)

lemma rbind_cong [fundef_cong]:
  assumes "m = m'" and "\<And>x. m' = Inr x \<Longrightarrow> f x = g x"
  shows "rbind m f = rbind m' g"
  using assms by (cases m') simp_all

lemma ensure_simps [simp]:
  "ensure True e = Inr ()"
  "ensure False e = Inl e"
  "ensure b e = Inr u \<longleftrightarrow> b"
  "ensure b e = Inl e' \<longleftrightarrow> \<not> b \<and> e' = e"
  by (auto simp: ensure_def)

definition is_ok :: "'e + 'a \<Rightarrow> bool" where
  "is_ok m = (case m of Inl _ \<Rightarrow> False | Inr _ \<Rightarrow> True)"

lemma is_ok_simps [simp]: "is_ok (Inr x)" "\<not> is_ok (Inl e)"
  by (simp_all add: is_ok_def)

text \<open>A loop over a slice that stops at the first error.\<close>

fun map_res :: "('a \<Rightarrow> 'e + 'b) \<Rightarrow> 'a list \<Rightarrow> 'e + 'b list" where
  "map_res f [] = Inr []"
| "map_res f (x # xs) = rbind (f x) (\<lambda>y. rbind (map_res f xs) (\<lambda>ys. Inr (y # ys)))"

lemma map_res_Inr_iff:
  "map_res f xs = Inr ys \<longleftrightarrow> list_all2 (\<lambda>x y. f x = Inr y) xs ys"
proof (induction xs arbitrary: ys)
  case Nil
  then show ?case by auto
next
  case (Cons x xs)
  then show ?case by (cases ys) (auto simp: rbind_Inr_iff)
qed

text \<open>A loop that threads a state and stops at the first error.\<close>

fun fold_res :: "('a \<Rightarrow> 's \<Rightarrow> 'e + 's) \<Rightarrow> 'a list \<Rightarrow> 's \<Rightarrow> 'e + 's" where
  "fold_res f [] s = Inr s"
| "fold_res f (x # xs) s = rbind (f x s) (fold_res f xs)"

lemma fold_res_invariant:
  assumes "fold_res f xs s = Inr s'" and "P s"
    and "\<And>x s s'. x \<in> set xs \<Longrightarrow> P s \<Longrightarrow> f x s = Inr s' \<Longrightarrow> P s'"
  shows "P s'"
  using assms by (induction xs arbitrary: s) auto

section \<open>Tables as lists of rows\<close>

text \<open>
  A table is the list of its rows. An \<open>UPDATE ... WHERE p\<close> rewrites the rows matching \<open>p\<close>
  and reports how many matched; a \<open>DELETE ... WHERE p\<close> drops them.
\<close>

definition update_where :: "('r \<Rightarrow> bool) \<Rightarrow> ('r \<Rightarrow> 'r) \<Rightarrow> 'r list \<Rightarrow> 'r list" where
  "update_where p f rs = map (\<lambda>r. if p r then f r else r) rs"

definition rows_matching :: "('r \<Rightarrow> bool) \<Rightarrow> 'r list \<Rightarrow> nat" where
  "rows_matching p rs = length (filter p rs)"

lemma rows_matching_pos: "0 < rows_matching p rs \<longleftrightarrow> (\<exists>r\<in>set rs. p r)"
  unfolding rows_matching_def by (induction rs) auto

lemma rows_matching_zero: "rows_matching p rs = 0 \<longleftrightarrow> (\<forall>r\<in>set rs. \<not> p r)"
  unfolding rows_matching_def by (simp add: filter_empty_conv)

lemma update_where_none: "rows_matching p rs = 0 \<Longrightarrow> update_where p f rs = rs"
  unfolding update_where_def rows_matching_zero by (rule map_idI) simp

lemma map_update_where:
  assumes "\<And>r. k (f r) = k r"
  shows "map k (update_where p f rs) = map k rs"
  unfolding update_where_def by (simp add: assms comp_def if_distrib cong: if_cong)

lemma set_update_where:
  "set (update_where p f rs) = (\<lambda>r. if p r then f r else r) ` set rs"
  by (simp add: update_where_def)

lemma length_update_where [simp]: "length (update_where p f rs) = length rs"
  by (simp add: update_where_def)

section \<open>First-match lookup\<close>

lemma find_SomeD:
  assumes "find p xs = Some x"
  shows "x \<in> set xs" and "p x"
  using assms by (auto simp: find_Some_iff in_set_conv_nth)

lemma find_key:
  assumes "distinct (map k xs)" and "x \<in> set xs"
  shows "find (\<lambda>y. k y = k x) xs = Some x"
  using assms by (induction xs) (auto simp: rev_image_eqI)

lemma find_key_iff:
  assumes "distinct (map k xs)"
  shows "find (\<lambda>y. k y = a) xs = Some x \<longleftrightarrow> x \<in> set xs \<and> k x = a"
proof
  show "find (\<lambda>y. k y = a) xs = Some x \<Longrightarrow> x \<in> set xs \<and> k x = a"
    by (auto dest: find_SomeD)
next
  assume "x \<in> set xs \<and> k x = a"
  then show "find (\<lambda>y. k y = a) xs = Some x"
    using find_key [OF assms] by auto
qed

lemma distinct_key_inj:
  assumes "distinct (map k xs)" and "x \<in> set xs" and "y \<in> set xs" and "k x = k y"
  shows "x = y"
  using assms by (auto simp: distinct_map dest: inj_onD)

lemma find_update_where:
  assumes "\<And>r. k (f r) = k r"
  shows "find (\<lambda>r. k r = a) (update_where p f rs)
    = map_option (\<lambda>r. if p r then f r else r) (find (\<lambda>r. k r = a) rs)"
  unfolding update_where_def by (induction rs) (auto simp: assms)

lemma find_cong_set: "(\<And>x. x \<in> set xs \<Longrightarrow> p x = q x) \<Longrightarrow> find p xs = find q xs"
  by (induction xs) auto

lemma find_append: "find p (xs @ ys) = (case find p xs of None \<Rightarrow> find p ys | Some x \<Rightarrow> Some x)"
  by (induction xs) auto

text \<open>The first row that is least under a key, which is what \<open>ORDER BY k LIMIT 1\<close> returns.\<close>

fun least_by :: "('a \<Rightarrow> 'k::linorder) \<Rightarrow> 'a list \<Rightarrow> 'a option" where
  "least_by k [] = None"
| "least_by k (x # xs) =
     (case least_by k xs of None \<Rightarrow> Some x | Some y \<Rightarrow> if k x \<le> k y then Some x else Some y)"

lemma least_by_None [simp]: "least_by k xs = None \<longleftrightarrow> xs = []"
  by (cases xs) (auto split: option.splits)

lemma least_by_Some:
  assumes "least_by k xs = Some x"
  shows "x \<in> set xs \<and> (\<forall>y\<in>set xs. k x \<le> k y)"
  using assms
proof (induction xs arbitrary: x)
  case Nil
  then show ?case by simp
next
  case (Cons a xs)
  show ?case
  proof (cases "least_by k xs")
    case None
    with Cons.prems show ?thesis by auto
  next
    case (Some y)
    with Cons.IH have "y \<in> set xs" and "\<forall>z\<in>set xs. k y \<le> k z" by auto
    with Cons.prems Some show ?thesis by (auto split: if_splits)
  qed
qed

end
