(* ===== verification/Lease_Spec.thy ===== *)
theory Lease_Spec
  imports Prelude Go_Time
begin

text \<open>
  What the lease protocol promises, apart from any table: who may work on which task. The state
  is the lease on each task, the promises made to workers (this token is good for this task until
  this instant, while nobody releases or revokes it) and the clock. The theorem of this theory is
  that two workers holding a running promise for one task hold the same token. The locale
  \<open>lease_ops\<close> is the contract a store's operations keep for the service to implement the protocol.
\<close>

section \<open>The protocol\<close>

type_synonym leases = "string \<Rightarrow> (string \<times> time) option"
type_synonym promises = "(string \<times> string \<times> time) set"

record protocol =
  sp_leases :: leases
  sp_told :: promises
  sp_now :: time

definition withdraw :: "promises \<Rightarrow> string \<Rightarrow> string \<Rightarrow> promises" where
  "withdraw ps k tok = {(k', tok', u) \<in> ps. \<not> (k' = k \<and> tok' = tok)}"

definition withdraw_all :: "promises \<Rightarrow> string set \<Rightarrow> promises" where
  "withdraw_all ps K = {(k, tok, u) \<in> ps. k \<notin> K}"

definition vacant :: "leases \<Rightarrow> time \<Rightarrow> string \<Rightarrow> bool" where
  "vacant l now k \<longleftrightarrow> (\<forall>tok e. l k = Some (tok, e) \<longrightarrow> e \<le> now)"

definition held :: "leases \<Rightarrow> time \<Rightarrow> string \<Rightarrow> string \<Rightarrow> bool" where
  "held l now k tok \<longleftrightarrow> (\<exists>e. l k = Some (tok, e) \<and> now < e)"

text \<open>
  A holder who renews is given a new date in place of the old one, and one who releases gives up
  what it was promised. \<open>revoke\<close> is an administrator's forced reclaim or the deletion of tasks:
  the only step that ends a lease its holder was promised. \<open>lapse\<close> clears a lease that has run
  out. Nothing but a running lease keeps \<open>take\<close> from handing the task to somebody else: earlier
  promises on it are left as they stand.
\<close>

inductive lease_step :: "protocol \<Rightarrow> protocol \<Rightarrow> bool" where
  tick: "sp_now p \<le> now \<Longrightarrow> lease_step p (p\<lparr>sp_now := now\<rparr>)"
| take: "vacant (sp_leases p) (sp_now p) k \<Longrightarrow>
    lease_step p (p\<lparr>sp_leases := (sp_leases p)(k \<mapsto> (tok, u)), sp_told := insert (k, tok, u) (sp_told p)\<rparr>)"
| renew: "held (sp_leases p) (sp_now p) k tok \<Longrightarrow>
    lease_step p (p\<lparr>sp_leases := (sp_leases p)(k \<mapsto> (tok, u)),
      sp_told := insert (k, tok, u) (withdraw (sp_told p) k tok)\<rparr>)"
| release: "held (sp_leases p) (sp_now p) k tok \<Longrightarrow>
    lease_step p (p\<lparr>sp_leases := (sp_leases p)(k := None), sp_told := withdraw (sp_told p) k tok\<rparr>)"
| lapse: "vacant (sp_leases p) (sp_now p) k \<Longrightarrow>
    lease_step p (p\<lparr>sp_leases := (sp_leases p)(k := None)\<rparr>)"
| revoke: "lease_step p (p\<lparr>sp_leases := (sp_leases p) |` (- K), sp_told := withdraw_all (sp_told p) K\<rparr>)"

inductive_cases lease_stepE: "lease_step p q"

section \<open>Safety\<close>

text \<open>A promise that still runs is backed by the lease: same token, same end.\<close>

definition backed :: "protocol \<Rightarrow> bool" where
  "backed p \<longleftrightarrow> (\<forall>(k, tok, u) \<in> sp_told p. sp_now p < u \<longrightarrow> sp_leases p k = Some (tok, u))"

lemma backedI:
  "(\<And>k tok u. (k, tok, u) \<in> sp_told p \<Longrightarrow> sp_now p < u \<Longrightarrow> sp_leases p k = Some (tok, u)) \<Longrightarrow> backed p"
  by (auto simp: backed_def)

lemma backedD: "backed p \<Longrightarrow> (k, tok, u) \<in> sp_told p \<Longrightarrow> sp_now p < u \<Longrightarrow> sp_leases p k = Some (tok, u)"
  by (auto simp: backed_def)

lemma backed_step [inv_intros]: "lease_step p q \<Longrightarrow> backed p \<Longrightarrow> backed q"
proof (induction rule: lease_step.induct)
  case (tick p now)
  then show ?case by (intro backedI) (auto dest: backedD)
next
  case (take p k tok u)
  then show ?case by (intro backedI) (fastforce dest: backedD simp: vacant_def)
next
  case (renew p k tok u)
  then show ?case by (intro backedI) (fastforce dest: backedD simp: held_def withdraw_def)
next
  case (release p k tok)
  then show ?case by (intro backedI) (fastforce dest: backedD simp: held_def withdraw_def)
next
  case (lapse p k)
  then show ?case by (intro backedI) (fastforce dest: backedD simp: vacant_def)
next
  case (revoke p K)
  then show ?case by (intro backedI) (auto dest: backedD simp: withdraw_all_def restrict_map_def)
qed

lemma backed_steps: "lease_step\<^sup>*\<^sup>* p q \<Longrightarrow> backed p \<Longrightarrow> backed q"
  by (induction rule: rtranclp_induct) (auto intro: backed_step)

lemma backed_exclusive:
  assumes "backed p" and "(k, tok, u) \<in> sp_told p" "sp_now p < u" and "(k, tok', u') \<in> sp_told p" "sp_now p < u'"
  shows "tok = tok' \<and> u = u'"
  using backedD [OF assms(1,2,3)] backedD [OF assms(1,4,5)] by simp

section \<open>The contract of a store\<close>

text \<open>
  \<open>board\<close> reads the leases off a store, \<open>inv\<close> is what the store keeps of its rows. Every operation
  returns whether a row matched. The claim decides with the caller's clock, renewal and release
  with the store's.
\<close>

locale lease_ops =
  fixes board :: "'s \<Rightarrow> leases" and inv :: "'s \<Rightarrow> bool"
    and take_op :: "string \<Rightarrow> string \<Rightarrow> time \<Rightarrow> time \<Rightarrow> 's \<Rightarrow> 's \<Rightarrow> bool \<Rightarrow> bool"
    and renew_op :: "time \<Rightarrow> string \<Rightarrow> string \<Rightarrow> time \<Rightarrow> 's \<Rightarrow> 's \<Rightarrow> bool \<Rightarrow> bool"
    and release_op :: "time \<Rightarrow> string \<Rightarrow> string \<Rightarrow> 's \<Rightarrow> 's \<Rightarrow> bool \<Rightarrow> bool"
    and clear_op :: "string \<Rightarrow> time \<Rightarrow> 's \<Rightarrow> 's \<Rightarrow> bool \<Rightarrow> bool"
    and revoke_op :: "string \<Rightarrow> 's \<Rightarrow> 's \<Rightarrow> bool \<Rightarrow> bool"
  assumes take_law: "inv s \<Longrightarrow> take_op k tok now until s s' b \<Longrightarrow>
      inv s' \<and> board s' = (if b then (board s)(k \<mapsto> (tok, until)) else board s) \<and>
      (b \<longrightarrow> vacant (board s) now k)"
    and renew_law: "inv s \<Longrightarrow> renew_op db k tok until s s' b \<Longrightarrow>
      inv s' \<and> board s' = (if b then (board s)(k \<mapsto> (tok, until)) else board s) \<and>
      (b \<longleftrightarrow> held (board s) db k tok)"
    and release_law: "inv s \<Longrightarrow> release_op db k tok s s' b \<Longrightarrow>
      inv s' \<and> board s' = (if b then (board s)(k := None) else board s) \<and>
      (b \<longleftrightarrow> held (board s) db k tok)"
    and clear_law: "inv s \<Longrightarrow> clear_op k stamp s s' b \<Longrightarrow>
      inv s' \<and> board s' = (if b then (board s)(k := None) else board s) \<and>
      (b \<longrightarrow> vacant (board s) stamp k)"
    and revoke_law: "inv s \<Longrightarrow> revoke_op k s s' b \<Longrightarrow>
      inv s' \<and> board s' = (if b then (board s)(k := None) else board s)"
begin

abbreviation view :: "'s \<Rightarrow> promises \<Rightarrow> time \<Rightarrow> protocol" where
  "view s told now \<equiv> \<lparr>sp_leases = board s, sp_told = told, sp_now = now\<rparr>"

lemma tick_view: "now \<le> now' \<Longrightarrow> lease_step (view s told now) (view s told now')"
  using lease_step.tick [of "view s told now" now'] by simp

lemma take_sim:
  assumes "inv s" and "take_op k tok now until s s' True" and "now \<le> db"
  shows "inv s'" and "lease_step (view s told db) (view s' (insert (k, tok, until) told) db)"
proof -
  note law = take_law [OF assms(1,2)]
  then show "inv s'" by simp
  have "vacant (board s) db k" using law assms(3) by (fastforce simp: vacant_def)
  with law show "lease_step (view s told db) (view s' (insert (k, tok, until) told) db)"
    using lease_step.take [of "view s told db" k tok until] by simp
qed

lemma renew_sim:
  assumes "inv s" and "renew_op db k tok until s s' True"
  shows "inv s'"
    and "lease_step (view s told db) (view s' (insert (k, tok, until) (withdraw told k tok)) db)"
  using renew_law [OF assms] lease_step.renew [of "view s told db" k tok until] by simp_all

lemma release_sim:
  assumes "inv s" and "release_op db k tok s s' True"
  shows "inv s'" and "lease_step (view s told db) (view s' (withdraw told k tok) db)"
  using release_law [OF assms] lease_step.release [of "view s told db" k tok] by simp_all

lemma clear_sim:
  assumes "inv s" and "clear_op k stamp s s' True" and "stamp \<le> db"
  shows "inv s'" and "lease_step (view s told db) (view s' told db)"
proof -
  note law = clear_law [OF assms(1,2)]
  then show "inv s'" by simp
  have "vacant (board s) db k" using law assms(3) by (fastforce simp: vacant_def)
  with law show "lease_step (view s told db) (view s' told db)"
    using lease_step.lapse [of "view s told db" k] by simp
qed

lemma revoke_sim:
  assumes "inv s" and "revoke_op k s s' True"
  shows "inv s'" and "lease_step (view s told db) (view s' (withdraw_all told {k}) db)"
proof -
  have "(board s)(k := None) = board s |` (- {k})" by (auto simp: restrict_map_def fun_eq_iff)
  with revoke_law [OF assms] show "inv s'" and "lease_step (view s told db) (view s' (withdraw_all told {k}) db)"
    using lease_step.revoke [of "view s told db" "{k}"] by simp_all
qed

text \<open>A token the lease does not carry, or one that has run out, renews and releases nothing.\<close>

lemma stale_refused:
  assumes "inv s" and "\<not> held (board s) db k tok"
  shows "renew_op db k tok until s s' b \<Longrightarrow> \<not> b \<and> board s' = board s"
    and "release_op db k tok s s' b \<Longrightarrow> \<not> b \<and> board s' = board s"
  using renew_law [OF assms(1)] release_law [OF assms(1)] assms(2) by fastforce+

text \<open>Of two claims at instants inside the first one's lease, the second is refused.\<close>

lemma second_claim_refused:
  assumes "inv s" and "take_op k tok now until s s1 True" and "take_op k tok' now' until' s1 s2 b" and "now' < until"
  shows "\<not> b \<and> board s2 = board s1"
proof -
  have "inv s1" and "board s1 k = Some (tok, until)" using take_law [OF assms(1,2)] by simp_all
  with take_law [OF \<open>inv s1\<close> assms(3)] assms(4) show ?thesis by (auto simp: vacant_def)
qed

end

end
