(* ===== verification/Errors.thy ===== *)
theory Errors
  imports Prelude "HOL-Library.AList"
begin

text \<open>
  The domain errors of \<open>internal/core/errors.go\<close>: the kinds, the error value with its
  details and wrapped cause, classification through the wrap chain, and the two tables
  every transport uses, HTTP status and process exit code.
  Message texts produced by \<open>fmt.Sprintf\<close> are carried as a string; the service theories
  leave it empty and keep the kind and the details, which is what callers branch on.
\<close>

section \<open>Kinds\<close>

datatype kind =
    KindInvalid | KindNotFound | KindConflict | KindUnauthenticated | KindForbidden
  | KindLeaseExpired | KindNoTaskAvailable | KindPrecondition | KindUpstream | KindInternal

definition Kinds :: "kind list" where
  "Kinds =
    [KindInvalid, KindNotFound, KindConflict, KindUnauthenticated, KindForbidden,
     KindLeaseExpired, KindNoTaskAvailable, KindPrecondition, KindUpstream, KindInternal]"

fun HTTPStatus :: "kind \<Rightarrow> nat" where
  "HTTPStatus KindInvalid = 400"
| "HTTPStatus KindUnauthenticated = 401"
| "HTTPStatus KindForbidden = 403"
| "HTTPStatus KindNotFound = 404"
| "HTTPStatus KindNoTaskAvailable = 404"
| "HTTPStatus KindConflict = 409"
| "HTTPStatus KindLeaseExpired = 409"
| "HTTPStatus KindPrecondition = 422"
| "HTTPStatus KindUpstream = 502"
| "HTTPStatus KindInternal = 500"

text \<open>\<open>ExitCode\<close> is also asked about the empty kind of a nil error, here \<open>None\<close>.\<close>

fun ExitCode :: "kind option \<Rightarrow> nat" where
  "ExitCode None = 0"
| "ExitCode (Some KindInvalid) = 2"
| "ExitCode (Some KindNotFound) = 3"
| "ExitCode (Some KindNoTaskAvailable) = 3"
| "ExitCode (Some KindConflict) = 4"
| "ExitCode (Some KindLeaseExpired) = 4"
| "ExitCode (Some KindUnauthenticated) = 5"
| "ExitCode (Some KindForbidden) = 5"
| "ExitCode (Some KindPrecondition) = 6"
| "ExitCode (Some KindUpstream) = 7"
| "ExitCode (Some KindInternal) = 1"

section \<open>Error values\<close>

text \<open>
  A detail or payload value is a string, a number (an instant included), a flag or a list of strings. A Go \<open>error\<close> is a domain error or
  a foreign one; both may wrap a cause.
\<close>

datatype detail = DStr string | DInt int | DBool bool | DStrs "string list"

datatype goerr =
    Domain (err_kind: kind) (err_message: string) (err_details: "(string \<times> detail) list")
      (err_cause: "goerr option")
  | Foreign string "goerr option"

type_synonym 'a res = "goerr + 'a"

definition newf :: "kind \<Rightarrow> string \<Rightarrow> goerr" where
  "newf k msg = Domain k msg [] None"

abbreviation fail :: "kind \<Rightarrow> goerr" where
  "fail k \<equiv> Domain k [] [] None"

abbreviation fail_with :: "kind \<Rightarrow> (string \<times> detail) list \<Rightarrow> goerr" where
  "fail_with k ds \<equiv> Domain k [] ds None"

text \<open>\<open>errors.As\<close>: the first domain error of the wrap chain.\<close>

fun as_domain :: "goerr \<Rightarrow> goerr option" where
  "as_domain (Domain k m ds c) = Some (Domain k m ds c)"
| "as_domain (Foreign m None) = None"
| "as_domain (Foreign m (Some c)) = as_domain c"

definition KindOf :: "goerr option \<Rightarrow> kind option" where
  "KindOf err = (case err of None \<Rightarrow> None
     | Some e \<Rightarrow> (case as_domain e of Some d \<Rightarrow> Some (err_kind d) | None \<Rightarrow> Some KindInternal))"

definition IsKind :: "goerr option \<Rightarrow> kind \<Rightarrow> bool" where
  "IsKind err k = (KindOf err = Some k)"

fun WithDetail :: "goerr \<Rightarrow> string \<Rightarrow> detail \<Rightarrow> goerr" where
  "WithDetail (Domain k m ds c) key v = Domain k m (AList.update key v ds) c"
| "WithDetail e key v = e"

fun Wrap :: "goerr \<Rightarrow> goerr \<Rightarrow> goerr" where
  "Wrap (Domain k m ds c) cause = Domain k m ds (Some cause)"
| "Wrap e cause = e"

definition DetailField :: string where "DetailField = ''field''"

text \<open>\<open>OnField\<close> mutates the domain error it finds, wherever it sits in the wrap chain.\<close>

fun OnField :: "goerr \<Rightarrow> string \<Rightarrow> goerr" where
  "OnField (Domain k m ds c) name = WithDetail (Domain k m ds c) DetailField (DStr name)"
| "OnField (Foreign m None) name = Foreign m None"
| "OnField (Foreign m (Some c)) name = Foreign m (Some (OnField c name))"

definition FieldOf :: "goerr \<Rightarrow> string" where
  "FieldOf err = (case as_domain err of None \<Rightarrow> []
     | Some d \<Rightarrow> (case map_of (err_details d) DetailField of Some (DStr s) \<Rightarrow> s | _ \<Rightarrow> []))"

section \<open>Lemmas\<close>

lemma KindOf_Domain [simp]: "KindOf (Some (Domain k m ds c)) = Some k"
  by (simp add: KindOf_def)

lemma as_domain_OnField:
  "as_domain (OnField e name) =
    map_option (\<lambda>d. WithDetail d DetailField (DStr name)) (as_domain e)"
  by (induction e name rule: OnField.induct) auto

lemma as_domain_cases: "as_domain e = None \<or> (\<exists>k m ds c. as_domain e = Some (Domain k m ds c))"
  by (induction e rule: as_domain.induct) auto

lemma KindOf_OnField: "KindOf (Some (OnField e name)) = KindOf (Some e)"
  using as_domain_cases [of e] by (auto simp: KindOf_def as_domain_OnField)

lemma FieldOf_OnField: "as_domain e \<noteq> None \<Longrightarrow> FieldOf (OnField e name) = name"
  using as_domain_cases [of e] by (auto simp: FieldOf_def as_domain_OnField update_conv)

text \<open>Every kind has an error status of its own class, and no error exits with success.\<close>

lemma HTTPStatus_class: "HTTPStatus k \<in> {400, 401, 403, 404, 409, 422, 500, 502}"
  by (cases k) simp_all

lemma ExitCode_Some_pos: "0 < ExitCode (Some k)"
  by (cases k) simp_all

end
