(* ===== verification/Workflow.thy ===== *)
theory Workflow
  imports Errors Go_Time "HOL-Library.Char_ord"
begin

text \<open>
  Workflows: the state machine a project's tasks follow (\<open>State\<close>, \<open>Transition\<close>,
  \<open>WorkflowDefinition\<close> and its methods in \<open>internal/core/types.go\<close>), the validation of a
  definition (\<open>WorkflowInput.Validate\<close> in \<open>internal/core/input.go\<close>, with the key shape
  of \<open>internal/core/ref.go\<close>) and the builtin workflow of \<open>internal/service/bootstrap.go\<close>.
  Strings are Go strings, that is byte sequences.
\<close>

section \<open>State categories\<close>

type_synonym category = string

definition CategoryTodo :: category where "CategoryTodo = ''todo''"
definition CategoryInProgress :: category where "CategoryInProgress = ''in_progress''"
definition CategoryBlocked :: category where "CategoryBlocked = ''blocked''"
definition CategoryWaiting :: category where "CategoryWaiting = ''waiting''"
definition CategoryDone :: category where "CategoryDone = ''done''"
definition CategoryCancelled :: category where "CategoryCancelled = ''cancelled''"

lemmas category_defs = CategoryTodo_def CategoryInProgress_def CategoryBlocked_def
  CategoryWaiting_def CategoryDone_def CategoryCancelled_def

definition stateCategories :: "category list" where
  "stateCategories =
    [CategoryTodo, CategoryInProgress, CategoryBlocked,
     CategoryWaiting, CategoryDone, CategoryCancelled]"

definition valid_category :: "category \<Rightarrow> bool" where
  "valid_category c \<longleftrightarrow> c = [] \<or> c \<in> set stateCategories"

section \<open>The definition\<close>

type_synonym scope = string

record state =
  s_key :: string
  s_label :: string
  s_terminal :: bool
  s_category :: category
  s_revert_on_lease_expiry :: bool
  s_revert_to :: string

record transition =
  tr_from :: string
  tr_to :: string
  tr_requires_scope :: scope
  tr_requires_comment :: bool

record workflow_definition =
  initial :: string
  states :: "state list"
  transitions :: "transition list"
  default_lease :: duration

record workflow =
  wf_id :: string
  wf_key :: string
  wf_name :: string
  wf_definition :: workflow_definition
  wf_builtin :: bool
  wf_created_at :: time
  wf_updated_at :: time

section \<open>Its methods\<close>

definition State :: "workflow_definition \<Rightarrow> string \<Rightarrow> state option" where
  "State d key = find (\<lambda>s. s_key s = key) (states d)"

definition HasState :: "workflow_definition \<Rightarrow> string \<Rightarrow> bool" where
  "HasState d key \<longleftrightarrow> State d key \<noteq> None"

definition IsTerminal :: "workflow_definition \<Rightarrow> string \<Rightarrow> bool" where
  "IsTerminal d key = (case State d key of None \<Rightarrow> False | Some s \<Rightarrow> s_terminal s)"

definition TerminalStates :: "workflow_definition \<Rightarrow> string list" where
  "TerminalStates d = map s_key (filter s_terminal (states d))"

definition CategoryOf :: "workflow_definition \<Rightarrow> string \<Rightarrow> category" where
  "CategoryOf d key = (case State d key of
     None \<Rightarrow> []
   | Some s \<Rightarrow>
       if s_category s \<noteq> [] then s_category s
       else if s_terminal s then CategoryDone
       else if s_key s = initial d then CategoryTodo
       else CategoryInProgress)"

definition CompletesWork :: "workflow_definition \<Rightarrow> string \<Rightarrow> bool" where
  "CompletesWork d key \<longleftrightarrow> IsTerminal d key \<and> CategoryOf d key = CategoryDone"

definition CanTransition :: "workflow_definition \<Rightarrow> string \<Rightarrow> string \<Rightarrow> transition option" where
  "CanTransition d from to = find (\<lambda>t. tr_from t = from \<and> tr_to t = to) (transitions d)"

section \<open>Keys and validation\<close>

definition is_letter :: "char \<Rightarrow> bool" where
  "is_letter c \<longleftrightarrow> (CHR ''a'' \<le> c \<and> c \<le> CHR ''z'') \<or> (CHR ''A'' \<le> c \<and> c \<le> CHR ''Z'')"

definition is_digit :: "char \<Rightarrow> bool" where
  "is_digit c \<longleftrightarrow> CHR ''0'' \<le> c \<and> c \<le> CHR ''9''"

definition validProjectKey :: "string \<Rightarrow> bool" where
  "validProjectKey s =
    (if s = [] \<or> 64 < length s then False
     else if \<not> is_letter (hd s) then False
     else if \<not> (\<forall>c\<in>set (tl s). is_letter c \<or> is_digit c \<or> c = CHR ''-'' \<or> c = CHR ''_'') then False
     else \<not> (last s = CHR ''-'' \<or> last s = CHR ''_''))"

definition validateKey :: "string \<Rightarrow> unit res" where
  "validateKey s = ensure (validProjectKey s) (fail KindInvalid)"

record workflow_input =
  wi_key :: string
  wi_name :: string
  wi_definition :: workflow_definition
  wi_migrate :: "string \<Rightarrow> string option"

fun validate_states :: "workflow_definition \<Rightarrow> string list \<Rightarrow> state list \<Rightarrow> string list res" where
  "validate_states d seen [] = Inr seen"
| "validate_states d seen (s # ss) =
    (if s_key s = [] then Inl (fail KindInvalid)
     else if s_key s \<in> set seen then Inl (fail KindInvalid)
     else if s_revert_to s \<noteq> [] \<and> \<not> HasState d (s_revert_to s) then Inl (fail KindInvalid)
     else if \<not> valid_category (s_category s) then Inl (fail KindInvalid)
     else validate_states d (s_key s # seen) ss)"

fun validate_transitions :: "string list \<Rightarrow> transition list \<Rightarrow> unit res" where
  "validate_transitions seen [] = Inr ()"
| "validate_transitions seen (t # ts) =
    (if tr_from t \<notin> set seen then Inl (fail KindInvalid)
     else if tr_to t \<notin> set seen then Inl (fail KindInvalid)
     else if tr_from t = tr_to t then Inl (fail KindInvalid)
     else validate_transitions seen ts)"

definition validate_workflow_input :: "workflow_input \<Rightarrow> unit res" where
  "validate_workflow_input inp =
    (let d = wi_definition inp in
     if wi_key inp = [] then Inl (fail KindInvalid)
     else rbind (validateKey (wi_key inp)) (\<lambda>_.
       if states d = [] then Inl (fail KindInvalid)
       else if initial d = [] then Inl (fail KindInvalid)
       else if \<not> HasState d (initial d) then Inl (fail KindInvalid)
       else rbind (validate_states d [] (states d)) (\<lambda>seen.
         rbind (validate_transitions seen (transitions d)) (\<lambda>_.
           ensure (TerminalStates d \<noteq> []) (fail KindInvalid)))))"

section \<open>The builtin workflow\<close>

definition plain_state :: "string \<Rightarrow> string \<Rightarrow> category \<Rightarrow> bool \<Rightarrow> state" where
  "plain_state k l c t = \<lparr>s_key = k, s_label = l, s_terminal = t, s_category = c,
     s_revert_on_lease_expiry = False, s_revert_to = []\<rparr>"

definition plain_edge :: "string \<Rightarrow> string \<Rightarrow> transition" where
  "plain_edge a b = \<lparr>tr_from = a, tr_to = b, tr_requires_scope = [], tr_requires_comment = False\<rparr>"

definition BuiltinWorkflow :: "duration \<Rightarrow> workflow_definition" where
  "BuiltinWorkflow defaultLease = \<lparr>
    initial = ''todo'',
    states = [
      plain_state ''todo'' ''To do'' CategoryTodo False,
      (plain_state ''doing'' ''Doing'' CategoryInProgress False)
        \<lparr>s_revert_on_lease_expiry := True, s_revert_to := ''todo''\<rparr>,
      plain_state ''blocked'' ''Blocked'' CategoryBlocked False,
      plain_state ''done'' ''Done'' CategoryDone True,
      plain_state ''cancelled'' ''Cancelled'' CategoryCancelled True],
    transitions = [
      plain_edge ''todo'' ''doing'', plain_edge ''todo'' ''blocked'', plain_edge ''todo'' ''cancelled'',
      plain_edge ''doing'' ''todo'', plain_edge ''doing'' ''blocked'', plain_edge ''doing'' ''done'',
      plain_edge ''doing'' ''cancelled'', plain_edge ''blocked'' ''todo'',
      plain_edge ''blocked'' ''doing'', plain_edge ''blocked'' ''cancelled'',
      plain_edge ''done'' ''todo'', plain_edge ''cancelled'' ''todo''],
    default_lease = defaultLease\<rparr>"

section \<open>Well-formed definitions\<close>

text \<open>What a workflow accepted by the validation satisfies, as one predicate.\<close>

definition wf_def :: "workflow_definition \<Rightarrow> bool" where
  "wf_def d \<longleftrightarrow>
    distinct (map s_key (states d)) \<and> [] \<notin> s_key ` set (states d) \<and>
    HasState d (initial d) \<and> initial d \<noteq> [] \<and>
    (\<forall>s\<in>set (states d). (s_revert_to s = [] \<or> HasState d (s_revert_to s)) \<and> valid_category (s_category s)) \<and>
    (\<forall>t\<in>set (transitions d). HasState d (tr_from t) \<and> HasState d (tr_to t) \<and> tr_from t \<noteq> tr_to t) \<and>
    (\<exists>s\<in>set (states d). s_terminal s)"

lemma HasState_iff: "HasState d k \<longleftrightarrow> k \<in> s_key ` set (states d)"
  by (auto simp: HasState_def State_def find_None_iff)

lemma State_SomeD: "State d k = Some s \<Longrightarrow> s \<in> set (states d) \<and> s_key s = k"
  unfolding State_def by (auto dest: find_SomeD)

lemma State_eq_iff:
  "distinct (map s_key (states d)) \<Longrightarrow> State d k = Some s \<longleftrightarrow> s \<in> set (states d) \<and> s_key s = k"
  unfolding State_def by (rule find_key_iff)

lemma CanTransition_SomeD:
  "CanTransition d a b = Some t \<Longrightarrow> t \<in> set (transitions d) \<and> tr_from t = a \<and> tr_to t = b"
  unfolding CanTransition_def by (auto dest: find_SomeD)

lemma CanTransition_None_iff:
  "CanTransition d a b = None \<longleftrightarrow> (\<forall>t\<in>set (transitions d). \<not> (tr_from t = a \<and> tr_to t = b))"
  by (auto simp: CanTransition_def find_None_iff)

lemma IsTerminal_HasState: "IsTerminal d k \<Longrightarrow> HasState d k"
  by (auto simp: IsTerminal_def HasState_def split: option.splits)

lemma validate_states_Inr_iff:
  "validate_states d seen ss = Inr out \<longleftrightarrow>
     out = rev (map s_key ss) @ seen \<and> distinct (map s_key ss) \<and>
     set (map s_key ss) \<inter> set seen = {} \<and> [] \<notin> s_key ` set ss \<and>
     (\<forall>s\<in>set ss. (s_revert_to s = [] \<or> HasState d (s_revert_to s)) \<and> valid_category (s_category s))"
  by (induction ss arbitrary: seen) auto

lemma validate_transitions_Inr_iff:
  "validate_transitions seen ts = Inr u \<longleftrightarrow>
     (\<forall>t\<in>set ts. tr_from t \<in> set seen \<and> tr_to t \<in> set seen \<and> tr_from t \<noteq> tr_to t)"
  by (induction ts) auto

lemma TerminalStates_Nil_iff: "TerminalStates d \<noteq> [] \<longleftrightarrow> (\<exists>s\<in>set (states d). s_terminal s)"
  by (auto simp: TerminalStates_def filter_empty_conv)

lemma validate_workflow_input_iff:
  "validate_workflow_input inp = Inr u \<longleftrightarrow> validProjectKey (wi_key inp) \<and> wf_def (wi_definition inp)"
proof -
  let ?d = "wi_definition inp"
  have "HasState ?d (initial ?d) \<Longrightarrow> states ?d \<noteq> []" by (auto simp: HasState_iff)
  moreover have "validProjectKey (wi_key inp) \<Longrightarrow> wi_key inp \<noteq> []" by (auto simp: validProjectKey_def)
  ultimately show ?thesis
    by (auto simp: validate_workflow_input_def Let_def wf_def_def validateKey_def rbind_Inr_iff
        validate_states_Inr_iff validate_transitions_Inr_iff TerminalStates_Nil_iff HasState_iff)
qed

lemma TerminalStates_iff:
  assumes "distinct (map s_key (states d))"
  shows "k \<in> set (TerminalStates d) \<longleftrightarrow> IsTerminal d k"
proof -
  have "IsTerminal d k \<longleftrightarrow> (\<exists>s. State d k = Some s \<and> s_terminal s)"
    by (auto simp: IsTerminal_def split: option.splits)
  then show ?thesis
    using State_eq_iff [OF assms] by (auto simp: TerminalStates_def)
qed

lemma CategoryOf_valid:
  assumes "wf_def d" and "HasState d k"
  shows "CategoryOf d k \<in> set stateCategories"
proof -
  from assms(2) obtain s where s: "State d k = Some s" by (auto simp: HasState_def)
  then have "valid_category (s_category s)"
    using assms(1) State_SomeD [OF s] by (auto simp: wf_def_def)
  with s show ?thesis
    by (auto simp: CategoryOf_def valid_category_def stateCategories_def)
qed

lemma BuiltinWorkflow_wf: "wf_def (BuiltinWorkflow dl)"
  by (simp add: wf_def_def BuiltinWorkflow_def HasState_iff plain_state_def plain_edge_def
      valid_category_def stateCategories_def category_defs)

end
