(* ===== verification/Lease.thy ===== *)
theory Lease
  imports Workflow
begin

text \<open>
  Lease lifetimes (\<open>internal/lease/lease.go\<close>): the bounds of an installation, how a tenant
  and a project narrow them, which level's length a claim is granted, the materialised
  expiry, and the service's assembly of those levels (\<open>leasePolicy\<close>, \<open>leaseGrant\<close> in
  \<open>internal/service/claim.go\<close>, the two checks of \<open>internal/service/leasescope.go\<close>). What a
  read of a task reports about its claim (\<open>internal/core/types.go\<close>) is here too.
\<close>

section \<open>Sources and policies\<close>

type_synonym lease_source = string

definition LeaseFromClaim :: lease_source where "LeaseFromClaim = ''claim''"
definition LeaseFromTask :: lease_source where "LeaseFromTask = ''task''"
definition LeaseFromProject :: lease_source where "LeaseFromProject = ''project''"
definition LeaseFromWorkflow :: lease_source where "LeaseFromWorkflow = ''workflow''"
definition LeaseFromTenant :: lease_source where "LeaseFromTenant = ''tenant''"
definition LeaseFromDeployment :: lease_source where "LeaseFromDeployment = ''deployment''"
definition LeaseFromBuiltin :: lease_source where "LeaseFromBuiltin = ''builtin''"

lemmas lease_sources = LeaseFromClaim_def LeaseFromTask_def LeaseFromProject_def
  LeaseFromWorkflow_def LeaseFromTenant_def LeaseFromDeployment_def LeaseFromBuiltin_def

record lease_grant =
  TTL :: duration
  g_source :: lease_source
  g_max :: duration
  g_max_source :: lease_source
  clamped :: bool

record policy =
  p_default :: duration
  p_max :: duration
  default_from :: lease_source
  max_from :: lease_source

record offer =
  o_claim :: duration
  o_task :: duration
  o_project :: duration
  o_workflow :: duration

definition DefaultTTL :: duration where "DefaultTTL = 30 * Minute"
definition MaxTTL :: duration where "MaxTTL = 24 * Hour"
definition RenewDivisor :: int where "RenewDivisor = 3"

definition DefaultPolicy :: policy where
  "DefaultPolicy = \<lparr>p_default = DefaultTTL, p_max = MaxTTL, default_from = [], max_from = []\<rparr>"

definition Cap :: "policy \<Rightarrow> duration \<Rightarrow> lease_source \<Rightarrow> policy" where
  "Cap p mx from =
    (if 0 < mx \<and> (p_max p \<le> 0 \<or> mx < p_max p) then p\<lparr>p_max := mx, max_from := from\<rparr> else p)"

definition Narrow :: "policy \<Rightarrow> duration \<Rightarrow> duration \<Rightarrow> policy" where
  "Narrow p def mx =
    (let out = (if 0 < def then p\<lparr>p_default := def, default_from := LeaseFromTenant\<rparr> else p)
     in Cap out mx LeaseFromTenant)"

definition sourceOr :: "lease_source \<Rightarrow> lease_source" where
  "sourceOr s = (if s = [] then LeaseFromBuiltin else s)"

section \<open>Granting a lease\<close>

text \<open>The levels in precedence order, and the first that names a length.\<close>

definition levels :: "offer \<Rightarrow> (duration \<times> lease_source) list" where
  "levels o' = [(o_claim o', LeaseFromClaim), (o_task o', LeaseFromTask),
     (o_project o', LeaseFromProject), (o_workflow o', LeaseFromWorkflow)]"

definition chosen :: "policy \<Rightarrow> offer \<Rightarrow> duration \<times> lease_source" where
  "chosen p o' = (case find (\<lambda>(d, _). d \<noteq> 0) (levels o') of
     Some level \<Rightarrow> level
   | None \<Rightarrow> if p_default p \<le> 0 then (DefaultTTL, LeaseFromBuiltin)
             else (p_default p, sourceOr (default_from p)))"

definition ceiling :: "policy \<Rightarrow> duration \<times> lease_source" where
  "ceiling p = (if p_max p \<le> 0 then (MaxTTL, LeaseFromBuiltin) else (p_max p, sourceOr (max_from p)))"

text \<open>\<open>Grant\<close> returns the grant beside the error in Go; every caller drops it on an error.\<close>

definition Grant :: "policy \<Rightarrow> offer \<Rightarrow> lease_grant res" where
  "Grant p o' =
    (let (limit, max_src) = ceiling p; (ttl, from) = chosen p o'; asked = (from = LeaseFromClaim)
     in if ttl \<le> 0 then Inl (fail KindInvalid)
        else if limit < ttl then
          (if asked then Inl (fail KindInvalid)
           else Inr \<lparr>TTL = limit, g_source = from, g_max = limit, g_max_source = max_src, clamped = True\<rparr>)
        else Inr \<lparr>TTL = ttl, g_source = from, g_max = limit, g_max_source = max_src, clamped = False\<rparr>)"

definition Resolve :: "policy \<Rightarrow> duration \<Rightarrow> duration \<Rightarrow> duration res" where
  "Resolve p perClaim wflow =
    rbind (Grant p \<lparr>o_claim = perClaim, o_task = 0, o_project = 0, o_workflow = wflow\<rparr>)
      (\<lambda>g. Inr (TTL g))"

definition RenewInterval :: "duration \<Rightarrow> duration" where
  "RenewInterval ttl =
    (if ttl \<le> 0 then 0
     else let iv = quo ttl RenewDivisor in if 0 < iv then iv else ttl)"

definition Precision :: duration where "Precision = Microsecond"

definition Until :: "time \<Rightarrow> duration \<Rightarrow> time" where
  "Until now ttl = Truncate (Add now ttl) Precision"

section \<open>The levels as the service reads them\<close>

definition workflowLease :: "workflow option \<Rightarrow> duration" where
  "workflowLease w = (case w of None \<Rightarrow> 0
     | Some w \<Rightarrow> if wf_builtin w then 0 else default_lease (wf_definition w))"

text \<open>The tenant row is read as its two lease columns.\<close>

definition leasePolicy :: "policy \<Rightarrow> duration \<Rightarrow> duration \<Rightarrow> policy" where
  "leasePolicy pol t_default t_max =
    (let pol = (if p_default pol \<le> 0
                then pol\<lparr>p_default := DefaultTTL, default_from := LeaseFromBuiltin\<rparr> else pol);
         pol = (if p_max pol \<le> 0 then pol\<lparr>p_max := MaxTTL, max_from := LeaseFromBuiltin\<rparr> else pol)
     in Narrow pol t_default t_max)"

definition leaseGrant ::
  "policy \<Rightarrow> duration \<Rightarrow> duration \<Rightarrow> workflow \<Rightarrow> duration \<Rightarrow> duration \<Rightarrow> lease_grant res" where
  "leaseGrant pol pr_default pr_max w t_lease perClaim =
    Grant (Cap pol pr_max LeaseFromProject)
      \<lparr>o_claim = perClaim, o_task = t_lease, o_project = pr_default, o_workflow = workflowLease (Some w)\<rparr>"

definition checkProjectLease :: "policy \<Rightarrow> duration \<Rightarrow> duration \<Rightarrow> unit res" where
  "checkProjectLease pol pr_default pr_max =
    (if pr_default < 0 then Inl (fail_with KindInvalid [(DetailField, DStr ''lease_default'')])
     else if pr_max < 0 then Inl (fail_with KindInvalid [(DetailField, DStr ''lease_max'')])
     else if 0 < pr_max \<and> p_max pol < pr_max
       then Inl (fail_with KindInvalid [(DetailField, DStr ''lease_max'')])
     else if 0 < pr_default \<and> p_max (Cap pol pr_max LeaseFromProject) < pr_default
       then Inl (fail_with KindInvalid [(DetailField, DStr ''lease_default'')])
     else Inr ())"

definition checkTaskLease ::
  "policy \<Rightarrow> duration \<Rightarrow> duration \<Rightarrow> workflow \<Rightarrow> duration \<Rightarrow> unit res" where
  "checkTaskLease pol pr_default pr_max w t_lease =
    (if t_lease < 0 then Inl (fail_with KindInvalid [(DetailField, DStr ''lease'')])
     else if t_lease = 0 then Inr ()
     else rbind (leaseGrant pol pr_default pr_max w t_lease 0) (\<lambda>g.
       if clamped g then Inl (fail_with KindInvalid [(DetailField, DStr ''lease'')]) else Inr ()))"

section \<open>What a read reports\<close>

definition LeaseExpiryEvidenceWindow :: duration where "LeaseExpiryEvidenceWindow = 24 * Hour"

text \<open>Over the claim columns of a task: holder, expiry, and when a lease last ran out.\<close>

definition ClaimedAtTime :: "string \<Rightarrow> time option \<Rightarrow> time \<Rightarrow> bool" where
  "ClaimedAtTime holder expires now =
    (if holder = [] then False else case expires of None \<Rightarrow> False | Some e \<Rightarrow> After e now)"

definition ClaimExpiredRecently :: "string \<Rightarrow> time option \<Rightarrow> time option \<Rightarrow> time \<Rightarrow> bool" where
  "ClaimExpiredRecently holder expires expired now =
    (case expired of None \<Rightarrow> False
     | Some e \<Rightarrow> if ClaimedAtTime holder expires now then False
                 else Sub now e < LeaseExpiryEvidenceWindow)"

section \<open>Lemmas\<close>

definition effective_max :: "policy \<Rightarrow> duration" where
  "effective_max p = (if p_max p \<le> 0 then MaxTTL else p_max p)"

lemma MaxTTL_pos: "0 < MaxTTL" and DefaultTTL_pos: "0 < DefaultTTL" and DefaultTTL_le: "DefaultTTL \<le> MaxTTL"
  by (simp_all add: MaxTTL_def DefaultTTL_def go_units)

lemma effective_max_pos: "0 < effective_max p"
  by (simp add: effective_max_def MaxTTL_pos)

lemma ceiling_max: "fst (ceiling p) = effective_max p"
  by (simp add: ceiling_def effective_max_def)

lemma Grant_InrD:
  assumes "Grant p o' = Inr g"
  shows "chosen p o' = (d, src) \<Longrightarrow> 0 < d \<and> TTL g = min d (g_max g) \<and> g_source g = src \<and>
      (clamped g \<longleftrightarrow> g_max g < d) \<and> (src = LeaseFromClaim \<longrightarrow> TTL g = d)"
    and "g_max g = effective_max p" and "g_max_source g = snd (ceiling p)"
  using assms ceiling_max [of p] by (auto simp: Grant_def Let_def split: prod.splits if_splits)

lemma Grant_bounds:
  assumes "Grant p o' = Inr g"
  shows "0 < TTL g" and "TTL g \<le> g_max g" and "g_max g = effective_max p"
  using Grant_InrD [OF assms] effective_max_pos [of p] by (metis min_less_iff_conj min.cobounded2 prod.exhaust)+

lemma chosen_eq:
  "chosen p o' =
    (if o_claim o' \<noteq> 0 then (o_claim o', LeaseFromClaim)
     else if o_task o' \<noteq> 0 then (o_task o', LeaseFromTask)
     else if o_project o' \<noteq> 0 then (o_project o', LeaseFromProject)
     else if o_workflow o' \<noteq> 0 then (o_workflow o', LeaseFromWorkflow)
     else if p_default p \<le> 0 then (DefaultTTL, LeaseFromBuiltin)
     else (p_default p, sourceOr (default_from p)))"
  by (simp add: chosen_def levels_def)

lemma Cap_max_le: "0 < p_max p \<Longrightarrow> p_max (Cap p mx s) \<le> p_max p"
  by (auto simp: Cap_def)

lemma Cap_max_pos: "0 < p_max p \<Longrightarrow> 0 < p_max (Cap p mx s)"
  by (auto simp: Cap_def)

lemma Cap_max_min: "0 < p_max p \<Longrightarrow> 0 < mx \<Longrightarrow> p_max (Cap p mx s) = min mx (p_max p)"
  by (auto simp: Cap_def)

lemma Cap_default [simp]: "p_default (Cap p mx s) = p_default p" "default_from (Cap p mx s) = default_from p"
  by (simp_all add: Cap_def)

lemma leasePolicy_pos: "0 < p_max (leasePolicy pol d m) \<and> 0 < p_default (leasePolicy pol d m)"
  using MaxTTL_pos DefaultTTL_pos
  by (auto simp: leasePolicy_def Narrow_def Let_def Cap_def)

lemma Until_le: "Until now ttl \<le> now + ttl"
  using Truncate_le by (simp add: Until_def Add_def)

lemma Until_gt: "now + ttl - Microsecond < Until now ttl"
  using Truncate_gt [of Microsecond "now + ttl"] by (simp add: Until_def Add_def Precision_def go_units)

lemma Until_dvd: "Microsecond dvd Until now ttl"
  unfolding Until_def Precision_def by (rule Truncate_dvd) (simp add: Microsecond_def)

section \<open>Properties\<close>

text \<open>
  C14: A granted lease is positive and never longer than the lowest ceiling in force: the
  deployment's (or the builtin day), the tenant's and the project's. Holds for every claim,
  whatever level the length came from, because a configured length over the ceiling is
  clamped and a claimed one refused.
\<close>

theorem leaseGrant_within_every_ceiling:
  assumes "leaseGrant (leasePolicy pol t_default t_max) pr_default pr_max w t_lease perClaim = Inr g"
  shows "0 < TTL g \<and> TTL g \<le> (if 0 < p_max pol then p_max pol else MaxTTL) \<and>
    (0 < t_max \<longrightarrow> TTL g \<le> t_max) \<and> (0 < pr_max \<longrightarrow> TTL g \<le> pr_max)"
proof -
  let ?p = "leasePolicy pol t_default t_max"
  let ?q = "Cap ?p pr_max LeaseFromProject"
  have pos: "0 < p_max ?p" using leasePolicy_pos by blast
  have "0 < p_max ?q" using pos by (rule Cap_max_pos)
  then have "0 < TTL g" and "TTL g \<le> p_max ?q"
    using Grant_bounds [OF assms [unfolded leaseGrant_def]] by (simp_all add: effective_max_def)
  moreover have "p_max ?q \<le> p_max ?p" and "0 < pr_max \<longrightarrow> p_max ?q \<le> pr_max"
    using pos by (auto simp: Cap_def)
  moreover have "p_max ?p \<le> (if 0 < p_max pol then p_max pol else MaxTTL)"
    and "0 < t_max \<longrightarrow> p_max ?p \<le> t_max"
    using MaxTTL_pos by (auto simp: leasePolicy_def Narrow_def Cap_def Let_def)
  ultimately show ?thesis by auto
qed

theorem leaseGrant_within_every_ceiling_witness:
  "\<exists>g. leaseGrant (leasePolicy DefaultPolicy 0 (2 * Hour)) Hour (3 * Hour)
       \<lparr>wf_id = [], wf_key = [], wf_name = [], wf_definition = BuiltinWorkflow Minute, wf_builtin = True,
         wf_created_at = 0, wf_updated_at = 0\<rparr> (5 * Hour) 0 = Inr g \<and> TTL g \<le> 2 * Hour"
proof -
  let ?w = "\<lparr>wf_id = [], wf_key = [], wf_name = [], wf_definition = BuiltinWorkflow Minute, wf_builtin = True,
         wf_created_at = 0, wf_updated_at = 0\<rparr>"
  have "leaseGrant (leasePolicy DefaultPolicy 0 (2 * Hour)) Hour (3 * Hour) ?w (5 * Hour) 0
    = Inr \<lparr>TTL = 2 * Hour, g_source = LeaseFromTask, g_max = 2 * Hour, g_max_source = LeaseFromTenant,
        clamped = True\<rparr>" (is "_ = Inr ?g")
    by (simp add: leaseGrant_def leasePolicy_def DefaultPolicy_def Narrow_def Cap_def Grant_def
        chosen_eq ceiling_def workflowLease_def sourceOr_def lease_sources DefaultTTL_def MaxTTL_def go_units)
  moreover from leaseGrant_within_every_ceiling [OF this] have "TTL ?g \<le> 2 * Hour"
    by (simp add: go_units)
  ultimately show ?thesis by blast
qed

text \<open>
  C15: Which level a granted lease's length comes from: the claim's own figure, then the
  task's, the project's and an authored workflow's, then the policy default; a builtin
  workflow's figure never counts. The length is that figure, or the ceiling when the figure
  is over it, and only a claim's own figure is never cut.
\<close>

theorem leaseGrant_precedence:
  assumes "leaseGrant pol pr_default pr_max w t_lease perClaim = Inr g" and "0 < p_default pol"
  shows "\<exists>d. (d, g_source g) =
      (if perClaim \<noteq> 0 then (perClaim, LeaseFromClaim)
       else if t_lease \<noteq> 0 then (t_lease, LeaseFromTask)
       else if pr_default \<noteq> 0 then (pr_default, LeaseFromProject)
       else if \<not> wf_builtin w \<and> default_lease (wf_definition w) \<noteq> 0
         then (default_lease (wf_definition w), LeaseFromWorkflow)
       else (p_default pol, sourceOr (default_from pol))) \<and>
    TTL g = min d (g_max g) \<and> (clamped g \<longleftrightarrow> g_max g < d) \<and>
    (g_source g = LeaseFromClaim \<longrightarrow> TTL g = d)"
proof -
  let ?q = "Cap pol pr_max LeaseFromProject"
  let ?o = "\<lparr>o_claim = perClaim, o_task = t_lease, o_project = pr_default, o_workflow = workflowLease (Some w)\<rparr>"
  obtain d src where c: "chosen ?q ?o = (d, src)" by fastforce
  note G = Grant_InrD [OF assms(1) [unfolded leaseGrant_def]]
  from G(1) [OF c] c assms(2) show ?thesis
    by (intro exI [of _ d]) (simp add: chosen_eq workflowLease_def split: if_splits)
qed

theorem leaseGrant_precedence_witness:
  "\<exists>g. leaseGrant (leasePolicy DefaultPolicy 0 0) Hour 0
       \<lparr>wf_id = [], wf_key = [], wf_name = [], wf_definition = BuiltinWorkflow Minute, wf_builtin = False,
         wf_created_at = 0, wf_updated_at = 0\<rparr> 0 0 = Inr g \<and> g_source g = LeaseFromProject"
proof -
  let ?w = "\<lparr>wf_id = [], wf_key = [], wf_name = [], wf_definition = BuiltinWorkflow Minute, wf_builtin = False,
         wf_created_at = 0, wf_updated_at = 0\<rparr>"
  have g: "leaseGrant (leasePolicy DefaultPolicy 0 0) Hour 0 ?w 0 0
    = Inr \<lparr>TTL = Hour, g_source = LeaseFromProject, g_max = 24 * Hour, g_max_source = LeaseFromBuiltin,
        clamped = False\<rparr>"
    by (simp add: leaseGrant_def leasePolicy_def DefaultPolicy_def Narrow_def Cap_def Grant_def
        chosen_eq ceiling_def workflowLease_def sourceOr_def lease_sources DefaultTTL_def MaxTTL_def go_units)
  then show ?thesis
    using leaseGrant_precedence [OF g] leasePolicy_pos by (auto simp: go_units)
qed

text \<open>
  C34: A lease of at least a microsecond expires strictly after the instant it was granted,
  never later than asked, at most a microsecond early, and on a microsecond boundary, so both
  storage engines hold the instant its holder was told.
\<close>

theorem Until_bounds:
  assumes "Microsecond \<le> ttl"
  shows "After (Until now ttl) now \<and> Until now ttl \<le> now + ttl \<and>
    now + ttl - Until now ttl < Microsecond \<and> Until now ttl mod Microsecond = 0"
  using assms Until_gt [of now ttl] Until_le [of now ttl] Until_dvd [of now ttl]
  by (auto simp: After_def mod_eq_0_iff_dvd)

theorem Until_bounds_witness: "After (Until 1999 Microsecond) 1999 \<and> Until 1999 Microsecond = 2000"
  using Until_bounds [of Microsecond 1999]
  by (simp add: Until_def Truncate_def Precision_def Microsecond_def Add_def)

end
