(* ===== verification/Routes.thy ===== *)
theory Routes
  imports Workflow
begin

text \<open>
  Reachability in a workflow (\<open>internal/core/reachability.go\<close>): the breadth-first search
  that lists shortest routes, the choice of the one route to a state, and the written form
  of a route. The search state of the nested loops is the record \<open>bfs\<close>; the three loops
  are \<open>visit\<close> (one edge), \<open>expand\<close> (one node) and \<open>routes_loop\<close> (one depth).
\<close>

section \<open>Routes\<close>

definition MaxRouteSteps :: nat where "MaxRouteSteps = 16"
definition maxRoutesPerState :: nat where "maxRoutesPerState = 4"

record route =
  rt_from :: string
  rt_to :: state
  rt_via :: "state list"

definition MultiHop :: "route \<Rightarrow> bool" where "MultiHop r \<longleftrightarrow> 0 < length (rt_via r)"
definition Hops :: "route \<Rightarrow> nat" where "Hops r = length (rt_via r) + 1"
definition Keys :: "route \<Rightarrow> string list" where "Keys r = map s_key (rt_via r) @ [s_key (rt_to r)]"

definition StateLabel :: "state \<Rightarrow> string" where
  "StateLabel s = (if s_label s \<noteq> [] then s_label s else s_key s)"

definition Labels :: "route \<Rightarrow> string list" where
  "Labels r = map StateLabel (rt_via r) @ [StateLabel (rt_to r)]"

text \<open>\<open>strings.Join\<close> with the separator \<open>RouteSep\<close>.\<close>

fun join :: "string \<Rightarrow> string list \<Rightarrow> string" where
  "join sep [] = []"
| "join sep [x] = x"
| "join sep (x # y # ys) = x @ sep @ join sep (y # ys)"

definition RouteSep :: string where "RouteSep = ''>''"

definition Value :: "route \<Rightarrow> string" where "Value r = join RouteSep (Keys r)"

section \<open>The search\<close>

record node =
  n_key :: string
  n_via :: "state list"

record bfs =
  b_dist :: "string \<Rightarrow> nat option"
  b_seen :: "string list"
  b_counts :: "string \<Rightarrow> nat"
  b_nexts :: "node list"
  b_outs :: "route list"

definition edges :: "workflow_definition \<Rightarrow> string \<Rightarrow> string list" where
  "edges d k = map tr_to (filter (\<lambda>t. tr_from t = k) (transitions d))"

definition visit :: "workflow_definition \<Rightarrow> string \<Rightarrow> nat \<Rightarrow> node \<Rightarrow> string \<Rightarrow> bfs \<Rightarrow> bfs" where
  "visit d from depth cur to b =
    (if (case b_dist b to of Some k \<Rightarrow> k < depth | None \<Rightarrow> False) then b
     else case State d to of
       None \<Rightarrow> b
     | Some st \<Rightarrow>
         let r = \<lparr>rt_from = from, rt_to = st, rt_via = n_via cur\<rparr> in
         if Value r \<in> set (b_seen b) \<or> maxRoutesPerState \<le> b_counts b to then b
         else b\<lparr>
           b_seen := Value r # b_seen b,
           b_counts := (b_counts b)(to := b_counts b to + 1),
           b_dist := (b_dist b)(to \<mapsto> depth),
           b_outs := b_outs b @ [r],
           b_nexts := b_nexts b @ [\<lparr>n_key = to, n_via = n_via cur @ [st]\<rparr>]\<rparr>)"

definition expand :: "workflow_definition \<Rightarrow> string \<Rightarrow> nat \<Rightarrow> node \<Rightarrow> bfs \<Rightarrow> bfs" where
  "expand d from depth cur b = fold (visit d from depth cur) (edges d (n_key cur)) b"

definition level :: "workflow_definition \<Rightarrow> string \<Rightarrow> nat \<Rightarrow> bfs \<Rightarrow> bfs" where
  "level d from depth b =
    fold (expand d from depth) (b_nexts b) (b\<lparr>b_counts := (\<lambda>_. 0), b_nexts := []\<rparr>)"

text \<open>\<open>b_nexts\<close> holds the frontier between iterations; \<open>level\<close> starts a fresh one.\<close>

function routes_loop :: "workflow_definition \<Rightarrow> string \<Rightarrow> nat \<Rightarrow> bfs \<Rightarrow> bfs" where
  "routes_loop d from depth b =
    (if depth \<le> MaxRouteSteps \<and> b_nexts b \<noteq> []
     then routes_loop d from (depth + 1) (level d from depth b) else b)"
  by pat_completeness auto
termination
  by (relation "measure (\<lambda>(d, from, depth, b). MaxRouteSteps + 1 - depth)") auto

declare routes_loop.simps [simp del]

definition bfs_start :: "string \<Rightarrow> bfs" where
  "bfs_start from = \<lparr>b_dist = [from \<mapsto> 0], b_seen = [], b_counts = (\<lambda>_. 0),
     b_nexts = [\<lparr>n_key = from, n_via = []\<rparr>], b_outs = []\<rparr>"

definition Routes :: "workflow_definition \<Rightarrow> string \<Rightarrow> route list" where
  "Routes d from = b_outs (routes_loop d from 1 (bfs_start from))"

definition FindRoute :: "workflow_definition \<Rightarrow> string \<Rightarrow> string \<Rightarrow> route res" where
  "FindRoute d from to =
    (if from = to then Inl (fail KindInvalid)
     else if \<not> HasState d to then Inl (fail KindInvalid)
     else case filter (\<lambda>r. s_key (rt_to r) = to) (Routes d from) of
       [] \<Rightarrow> Inl (fail KindPrecondition)
     | [r] \<Rightarrow> Inr r
     | _ \<Rightarrow> Inl (fail KindInvalid))"

section \<open>Walks through a workflow\<close>

text \<open>\<open>walk d a ks\<close>: from \<open>a\<close> the states \<open>ks\<close> can be entered one after another.\<close>

fun walk :: "workflow_definition \<Rightarrow> string \<Rightarrow> string list \<Rightarrow> bool" where
  "walk d a [] = True"
| "walk d a (k # ks) = (k \<in> set (edges d a) \<and> HasState d k \<and> walk d k ks)"

lemma walk_snoc: "walk d a (ks @ [k]) \<longleftrightarrow>
    walk d a ks \<and> k \<in> set (edges d (last (a # ks))) \<and> HasState d k"
  by (induction ks arbitrary: a) auto

definition reach :: "workflow_definition \<Rightarrow> string \<Rightarrow> nat \<Rightarrow> string \<Rightarrow> bool" where
  "reach d a n k \<longleftrightarrow> (\<exists>ks. length ks = n \<and> walk d a ks \<and> last (a # ks) = k)"

lemma reach_0 [simp]: "reach d a 0 k \<longleftrightarrow> k = a"
  by (auto simp: reach_def)

lemma reach_Suc:
  "reach d a (Suc n) k \<longleftrightarrow> (\<exists>j. reach d a n j \<and> k \<in> set (edges d j) \<and> HasState d k)"
proof
  assume "reach d a (Suc n) k"
  then obtain ks where "length ks = Suc n" and w: "walk d a ks" and l: "last (a # ks) = k"
    by (auto simp: reach_def)
  then obtain js j where ks: "ks = js @ [j]" and js: "length js = n"
    by (metis length_Suc_conv_rev)
  from w l ks have "walk d a js" and "k \<in> set (edges d (last (a # js)))" and "HasState d k"
    by (auto simp: walk_snoc)
  moreover from \<open>walk d a js\<close> js have "reach d a n (last (a # js))"
    unfolding reach_def by blast
  ultimately show "\<exists>j. reach d a n j \<and> k \<in> set (edges d j) \<and> HasState d k"
    by blast
next
  assume "\<exists>j. reach d a n j \<and> k \<in> set (edges d j) \<and> HasState d k"
  then obtain ks where "length ks = n" and "walk d a ks"
    and "k \<in> set (edges d (last (a # ks)))" and "HasState d k"
    by (auto simp: reach_def)
  then show "reach d a (Suc n) k"
    unfolding reach_def by (intro exI [of _ "ks @ [k]"]) (simp add: walk_snoc)
qed

section \<open>The invariant of the search\<close>

text \<open>
  A node of depth \<open>n\<close> carries a walk of length \<open>n\<close> to its key. \<open>routes_to\<close> are the routes
  listed so far that end in a state.
\<close>

definition node_ok :: "workflow_definition \<Rightarrow> string \<Rightarrow> nat \<Rightarrow> node \<Rightarrow> bool" where
  "node_ok d from n nd \<longleftrightarrow> length (n_via nd) = n \<and> walk d from (map s_key (n_via nd)) \<and>
     last (from # map s_key (n_via nd)) = n_key nd"

definition routes_to :: "string \<Rightarrow> route list \<Rightarrow> route list" where
  "routes_to k rs = filter (\<lambda>r. s_key (rt_to r) = k) rs"

definition bfs_inv :: "workflow_definition \<Rightarrow> string \<Rightarrow> nat \<Rightarrow> bfs \<Rightarrow> bool" where
  "bfs_inv d from D b \<longleftrightarrow>
    b_dist b from = Some 0 \<and>
    (\<forall>k n. b_dist b k = Some n \<longrightarrow> n \<le> D \<and> reach d from n k) \<and>
    (\<forall>nd\<in>set (b_nexts b). b_dist b (n_key nd) = Some D \<and> node_ok d from D nd) \<and>
    (\<forall>k. b_dist b k = Some D \<longrightarrow> k \<in> n_key ` set (b_nexts b)) \<and>
    (\<forall>r\<in>set (b_outs b). rt_from r = from \<and> walk d from (Keys r) \<and>
       b_dist b (s_key (rt_to r)) = Some (Hops r)) \<and>
    (\<forall>k n. b_dist b k = Some n \<longrightarrow> 0 < n \<longrightarrow> routes_to k (b_outs b) \<noteq> []) \<and>
    set (b_seen b) = Value ` set (b_outs b) \<and>
    (\<forall>k. b_counts b k > 0 \<longrightarrow> b_dist b k = Some D) \<and>
    (\<forall>k. length (routes_to k (b_outs b)) \<le> maxRoutesPerState \<and>
       (b_dist b k = Some D \<longrightarrow> 0 < D \<longrightarrow> length (routes_to k (b_outs b)) = b_counts b k) \<and>
       (b_dist b k = None \<longrightarrow> routes_to k (b_outs b) = []))"

lemmas bfs_invD = bfs_inv_def [THEN iffD1]

lemma bfs_inv_start: "bfs_inv d from 0 (bfs_start from)"
  by (auto simp: bfs_inv_def bfs_start_def node_ok_def routes_to_def maxRoutesPerState_def
      split: if_splits)

text \<open>Opening a level forgets the counts and empties the next frontier.\<close>

lemma bfs_inv_open:
  assumes "bfs_inv d from D b"
  shows "bfs_inv d from (Suc D) (b\<lparr>b_counts := (\<lambda>_. 0), b_nexts := []\<rparr>)"
proof -
  have le: "\<And>k n. b_dist b k = Some n \<Longrightarrow> n \<le> D" using assms by (auto simp: bfs_inv_def)
  then have no: "\<And>k. b_dist b k \<noteq> Some (Suc D)" by fastforce
  show ?thesis using assms le no unfolding bfs_inv_def by (auto simp: le_Suc_eq)
qed

definition new_route :: "string \<Rightarrow> node \<Rightarrow> state \<Rightarrow> route" where
  "new_route from cur st = \<lparr>rt_from = from, rt_to = st, rt_via = n_via cur\<rparr>"

definition taken :: "string \<Rightarrow> nat \<Rightarrow> node \<Rightarrow> string \<Rightarrow> state \<Rightarrow> bfs \<Rightarrow> bfs" where
  "taken from D cur to st b = b\<lparr>
     b_seen := Value (new_route from cur st) # b_seen b,
     b_counts := (b_counts b)(to := b_counts b to + 1),
     b_dist := (b_dist b)(to \<mapsto> D),
     b_outs := b_outs b @ [new_route from cur st],
     b_nexts := b_nexts b @ [\<lparr>n_key = to, n_via = n_via cur @ [st]\<rparr>]\<rparr>"

lemma visit_cases:
  obtains (near) k where "b_dist b to = Some k" and "k < D" and "visit d from D cur to b = b"
  | (undefined_state) "State d to = None" and "visit d from D cur to b = b"
  | (full) st where "State d to = Some st" and "\<And>k. b_dist b to = Some k \<Longrightarrow> D \<le> k"
      and "Value (new_route from cur st) \<in> set (b_seen b) \<or> maxRoutesPerState \<le> b_counts b to"
      and "visit d from D cur to b = b"
  | (taken) st where "State d to = Some st" and "\<And>k. b_dist b to = Some k \<Longrightarrow> D \<le> k"
      and "b_counts b to < maxRoutesPerState" and "visit d from D cur to b = taken from D cur to st b"
proof (cases "\<exists>k. b_dist b to = Some k \<and> k < D")
  case True
  then obtain k where k: "b_dist b to = Some k" "k < D" by blast
  then have "visit d from D cur to b = b" by (simp add: visit_def)
  with k show ?thesis by (rule near)
next
  case False
  then have ge: "\<And>k. b_dist b to = Some k \<Longrightarrow> D \<le> k" by (meson not_le)
  have g: "\<not> (case b_dist b to of None \<Rightarrow> False | Some k \<Rightarrow> k < D)"
    using False by (auto split: option.splits)
  show ?thesis
  proof (cases "State d to")
    case None
    then have "visit d from D cur to b = b" using g by (simp add: visit_def)
    with None show ?thesis by (rule undefined_state)
  next
    case (Some st)
    show ?thesis
    proof (cases "Value (new_route from cur st) \<in> set (b_seen b) \<or> maxRoutesPerState \<le> b_counts b to")
      case True
      then have "visit d from D cur to b = b"
        using g Some by (simp add: visit_def new_route_def Let_def)
      with Some ge True show ?thesis by (rule full)
    next
      case F: False
      then have "visit d from D cur to b = taken from D cur to st b"
        using g Some by (simp add: visit_def new_route_def taken_def Let_def)
      with Some ge F show ?thesis by (intro taken) auto
    qed
  qed
qed

lemma Value_new_route: "Keys (new_route from cur st) = map s_key (n_via cur) @ [s_key st]"
  by (simp add: Keys_def new_route_def)

lemma routes_to_snoc:
  "routes_to k (rs @ [r]) = routes_to k rs @ (if s_key (rt_to r) = k then [r] else [])"
  by (simp add: routes_to_def)

text \<open>Taking an edge keeps the invariant.\<close>

lemma taken_inv:
  assumes inv: "bfs_inv d from (Suc D) b" and cur: "node_ok d from D cur"
    and e: "to \<in> set (edges d (n_key cur))" and st: "State d to = Some st"
    and ge: "\<And>k. b_dist b to = Some k \<Longrightarrow> Suc D \<le> k"
    and room: "b_counts b to < maxRoutesPerState"
  shows "bfs_inv d from (Suc D) (taken from (Suc D) cur to st b)"
proof -
  note I = inv [unfolded bfs_inv_def]
  have key: "s_key st = to" using State_SomeD [OF st] by simp
  have has: "HasState d to" using st by (simp add: HasState_def)
  have node: "node_ok d from (Suc D) \<lparr>n_key = to, n_via = n_via cur @ [st]\<rparr>"
    using cur e has key by (simp add: node_ok_def walk_snoc)
  have w: "walk d from (map s_key (n_via cur) @ [to])"
    using cur e has by (simp add: node_ok_def walk_snoc)
  have r: "reach d from (Suc D) to"
    unfolding reach_def
    by (intro exI [of _ "map s_key (n_via cur) @ [to]"]) (use w cur in \<open>simp add: node_ok_def\<close>)
  have old: "b_dist b to = None \<or> b_dist b to = Some (Suc D)"
    using I ge by (cases "b_dist b to") (auto simp: le_antisym)
  have ne: "to \<noteq> from" using I ge by fastforce
  have len: "length (routes_to to (b_outs b)) = b_counts b to"
    using old I by (cases "b_counts b to") auto
  have hops: "Hops (new_route from cur st) = Suc D" using cur by (simp add: Hops_def new_route_def node_ok_def)
  have to_r: "s_key (rt_to (new_route from cur st)) = to" using key by (simp add: new_route_def)
  have walk_r: "walk d from (Keys (new_route from cur st))" using w key by (simp add: Value_new_route)
  have from_r: "rt_from (new_route from cur st) = from" by (simp add: new_route_def)
  have dist_old: "\<And>k n. b_dist b k = Some n \<Longrightarrow> ((b_dist b)(to \<mapsto> Suc D)) k = Some n"
    using old by auto
  show ?thesis
    unfolding bfs_inv_def
  proof (intro conjI)
    show "b_dist (taken from (Suc D) cur to st b) from = Some 0" using I ne by (simp add: taken_def)
    show "\<forall>k n. b_dist (taken from (Suc D) cur to st b) k = Some n \<longrightarrow> n \<le> Suc D \<and> reach d from n k"
      using I r by (auto simp: taken_def)
    show "\<forall>nd\<in>set (b_nexts (taken from (Suc D) cur to st b)).
        b_dist (taken from (Suc D) cur to st b) (n_key nd) = Some (Suc D) \<and> node_ok d from (Suc D) nd"
      using I node by (auto simp: taken_def)
    show "\<forall>k. b_dist (taken from (Suc D) cur to st b) k = Some (Suc D) \<longrightarrow>
        k \<in> n_key ` set (b_nexts (taken from (Suc D) cur to st b))"
      using I by (auto simp: taken_def)
    show "\<forall>r\<in>set (b_outs (taken from (Suc D) cur to st b)). rt_from r = from \<and> walk d from (Keys r) \<and>
        b_dist (taken from (Suc D) cur to st b) (s_key (rt_to r)) = Some (Hops r)"
      using I from_r walk_r to_r hops dist_old by (auto simp: taken_def)
    show "\<forall>k n. b_dist (taken from (Suc D) cur to st b) k = Some n \<longrightarrow> 0 < n \<longrightarrow>
        routes_to k (b_outs (taken from (Suc D) cur to st b)) \<noteq> []"
      using I to_r by (auto simp: taken_def routes_to_snoc)
    show "set (b_seen (taken from (Suc D) cur to st b)) = Value ` set (b_outs (taken from (Suc D) cur to st b))"
      using I by (simp add: taken_def)
    show "\<forall>k. 0 < b_counts (taken from (Suc D) cur to st b) k \<longrightarrow>
        b_dist (taken from (Suc D) cur to st b) k = Some (Suc D)"
      using I by (simp add: taken_def)
    show "\<forall>k. length (routes_to k (b_outs (taken from (Suc D) cur to st b))) \<le> maxRoutesPerState \<and>
        (b_dist (taken from (Suc D) cur to st b) k = Some (Suc D) \<longrightarrow> 0 < Suc D \<longrightarrow>
          length (routes_to k (b_outs (taken from (Suc D) cur to st b)))
            = b_counts (taken from (Suc D) cur to st b) k) \<and>
        (b_dist (taken from (Suc D) cur to st b) k = None \<longrightarrow>
          routes_to k (b_outs (taken from (Suc D) cur to st b)) = [])"
      using I len room to_r by (auto simp: taken_def routes_to_snoc)
  qed
qed

lemma visit_inv:
  assumes "bfs_inv d from (Suc D) b" and "node_ok d from D cur" and "to \<in> set (edges d (n_key cur))"
  shows "bfs_inv d from (Suc D) (visit d from (Suc D) cur to b)"
  by (rule visit_cases [of b to "Suc D" d "from" cur]) (use assms taken_inv in auto)

lemma visit_dist_mono:
  assumes "bfs_inv d from (Suc D) b" and "b_dist b k = Some n"
  shows "b_dist (visit d from (Suc D) cur to b) k = Some n"
proof (rule visit_cases [of b to "Suc D" d "from" cur])
  fix st
  assume ge: "\<And>k. b_dist b to = Some k \<Longrightarrow> Suc D \<le> k"
    and "visit d from (Suc D) cur to b = taken from (Suc D) cur to st b"
  moreover have "b_dist b k = Some n \<Longrightarrow> n \<le> Suc D" using assms by (auto simp: bfs_inv_def)
  ultimately show ?thesis using assms(2) by (cases "k = to") (auto simp: taken_def dest: le_antisym)
qed (use assms in auto)

lemma expand_inv_mono:
  assumes "bfs_inv d from (Suc D) b" and "node_ok d from D cur" and "set ts \<subseteq> set (edges d (n_key cur))"
  shows "bfs_inv d from (Suc D) (fold (visit d from (Suc D) cur) ts b) \<and>
    (\<forall>k n. b_dist b k = Some n \<longrightarrow> b_dist (fold (visit d from (Suc D) cur) ts b) k = Some n)"
  using assms
proof (induction ts arbitrary: b)
  case Nil
  then show ?case by simp
next
  case (Cons t ts)
  let ?b = "visit d from (Suc D) cur t b"
  have inv: "bfs_inv d from (Suc D) ?b" using Cons.prems by (intro visit_inv) auto
  have mono: "\<And>k n. b_dist b k = Some n \<Longrightarrow> b_dist ?b k = Some n"
    using visit_dist_mono [OF Cons.prems(1)] .
  from Cons.IH [OF inv Cons.prems(2)] Cons.prems(3) mono show ?case by simp
qed

lemma level_inv_mono:
  assumes "bfs_inv d from (Suc D) b" and "\<And>nd. nd \<in> set nds \<Longrightarrow> node_ok d from D nd"
  shows "bfs_inv d from (Suc D) (fold (expand d from (Suc D)) nds b) \<and>
    (\<forall>k n. b_dist b k = Some n \<longrightarrow> b_dist (fold (expand d from (Suc D)) nds b) k = Some n)"
  using assms
proof (induction nds arbitrary: b)
  case Nil
  then show ?case by simp
next
  case (Cons nd nds)
  let ?b = "expand d from (Suc D) nd b"
  have step: "bfs_inv d from (Suc D) ?b \<and> (\<forall>k n. b_dist b k = Some n \<longrightarrow> b_dist ?b k = Some n)"
    unfolding expand_def using Cons.prems by (intro expand_inv_mono) auto
  then show ?case using Cons.IH [of ?b] Cons.prems(2) by simp
qed

lemma level_inv:
  assumes "bfs_inv d from D b"
  shows "bfs_inv d from (Suc D) (level d from (Suc D) b)"
    and "b_dist b k = Some n \<Longrightarrow> b_dist (level d from (Suc D) b) k = Some n"
proof -
  have ok: "\<And>nd. nd \<in> set (b_nexts b) \<Longrightarrow> node_ok d from D nd" using assms by (auto simp: bfs_inv_def)
  from level_inv_mono [OF bfs_inv_open [OF assms] ok]
  show "bfs_inv d from (Suc D) (level d from (Suc D) b)"
    and "b_dist b k = Some n \<Longrightarrow> b_dist (level d from (Suc D) b) k = Some n"
    unfolding level_def by auto
qed

lemma routes_loop_inv:
  assumes "bfs_inv d from D b" and "D \<le> MaxRouteSteps"
  shows "\<exists>D'\<le>MaxRouteSteps. bfs_inv d from D' (routes_loop d from (Suc D) b)"
  using assms
proof (induction "MaxRouteSteps - D" arbitrary: D b)
  case 0
  then have "routes_loop d from (Suc D) b = b" by (subst routes_loop.simps) simp
  with 0 show ?case by auto
next
  case (Suc n)
  show ?case
  proof (cases "b_nexts b = []")
    case True
    then have "routes_loop d from (Suc D) b = b" by (subst routes_loop.simps) simp
    with Suc.prems show ?thesis by auto
  next
    case False
    then have "routes_loop d from (Suc D) b = routes_loop d from (Suc (Suc D)) (level d from (Suc D) b)"
      using Suc.hyps(2) by (subst routes_loop.simps) simp
    then show ?thesis
      using Suc.hyps(1) [of "Suc D" "level d from (Suc D) b"] Suc.hyps(2) level_inv(1) [OF Suc.prems(1)]
      by simp
  qed
qed

section \<open>Completeness\<close>

text \<open>
  The search skips a route whose written form it has seen. Two different routes can share
  one only when a state key contains the separator, which nothing in the validation
  forbids; \<open>sep_free\<close> excludes it.
\<close>

definition sep_free :: "workflow_definition \<Rightarrow> bool" where
  "sep_free d \<longleftrightarrow> (\<forall>s\<in>set (states d). CHR ''>'' \<notin> set (s_key s))"

lemma join_Cons: "join [c] (x # xs) = x @ (if xs = [] then [] else c # join [c] xs)"
  by (cases xs) auto

lemma split_at_sep:
  assumes "x @ c # xs = y @ c # ys" and "c \<notin> set x" and "c \<notin> set y"
  shows "x = y \<and> xs = ys"
  using assms
proof (induction x arbitrary: y)
  case Nil
  then show ?case by (cases y) auto
next
  case (Cons a x)
  then show ?case by (cases y) auto
qed

lemma join_inj:
  assumes "join [c] xs = join [c] ys" and "xs \<noteq> []" and "ys \<noteq> []"
    and "\<forall>x\<in>set xs. c \<notin> set x" and "\<forall>y\<in>set ys. c \<notin> set y"
  shows "xs = ys"
  using assms
proof (induction xs arbitrary: ys)
  case Nil
  then show ?case by simp
next
  case (Cons x xs)
  from Cons.prems(3) obtain y ys' where ys: "ys = y # ys'" by (cases ys) auto
  have free: "c \<notin> set x" "c \<notin> set y" using Cons.prems ys by auto
  show ?case
  proof (cases "xs = [] \<or> ys' = []")
    case True
    then show ?thesis using Cons.prems(1) free ys
      by (cases "xs = []"; cases "ys' = []") (auto simp: join_Cons)
  next
    case False
    then have "x @ c # join [c] xs = y @ c # join [c] ys'"
      using Cons.prems(1) ys by (simp add: join_Cons)
    then have "x = y" and "join [c] xs = join [c] ys'" using split_at_sep free by metis+
    with False Cons ys show ?thesis by auto
  qed
qed

lemma walk_HasState: "walk d a ks \<Longrightarrow> k \<in> set ks \<Longrightarrow> HasState d k"
  by (induction ks arbitrary: a) auto

lemma sep_free_walk: "sep_free d \<Longrightarrow> walk d a ks \<Longrightarrow> \<forall>k\<in>set ks. CHR ''>'' \<notin> set k"
  using walk_HasState by (fastforce simp: sep_free_def HasState_iff)

lemma Keys_nonempty [simp]: "Keys r \<noteq> []" by (simp add: Keys_def)

lemma last_Keys [simp]: "last (Keys r) = s_key (rt_to r)" by (simp add: Keys_def)

lemma length_Keys [simp]: "length (Keys r) = Hops r" by (simp add: Keys_def Hops_def)

lemma Value_inj:
  assumes "sep_free d" and "walk d a (Keys r)" and "walk d a' (Keys r')" and "Value r = Value r'"
  shows "Keys r = Keys r'"
  using join_inj [of "CHR ''>''" "Keys r" "Keys r'"] assms sep_free_walk
  by (simp add: Value_def RouteSep_def)

lemma visit_reached:
  assumes inv: "bfs_inv d from (Suc D) b" and cur: "node_ok d from D cur"
    and e: "to \<in> set (edges d (n_key cur))" and has: "HasState d to" and sf: "sep_free d"
  shows "b_dist (visit d from (Suc D) cur to b) to \<noteq> None"
proof (rule visit_cases [of b to "Suc D" d "from" cur])
  fix st
  assume st: "State d to = Some st"
    and full: "Value (new_route from cur st) \<in> set (b_seen b) \<or> maxRoutesPerState \<le> b_counts b to"
    and eq: "visit d from (Suc D) cur to b = b"
  note I = inv [unfolded bfs_inv_def]
  have w: "walk d from (Keys (new_route from cur st))"
    using cur e has State_SomeD [OF st] by (simp add: Value_new_route node_ok_def walk_snoc)
  show ?thesis
  proof (cases "maxRoutesPerState \<le> b_counts b to")
    case True
    then have "0 < b_counts b to" by (simp add: maxRoutesPerState_def)
    with I eq show ?thesis by auto
  next
    case False
    with full I obtain r where r: "r \<in> set (b_outs b)" and v: "Value (new_route from cur st) = Value r"
      by auto
    then have "Keys (new_route from cur st) = Keys r" using Value_inj [OF sf w] I by blast
    then have "to = s_key (rt_to r)" using State_SomeD [OF st] by (metis last_Keys new_route_def route.select_convs(2))
    with I r eq show ?thesis by auto
  qed
qed (use assms in \<open>auto simp: HasState_def taken_def\<close>)

lemma expand_reached:
  assumes "bfs_inv d from (Suc D) b" and "node_ok d from D cur" and "set ts \<subseteq> set (edges d (n_key cur))"
    and "sep_free d" and "to \<in> set ts" and "HasState d to"
  shows "b_dist (fold (visit d from (Suc D) cur) ts b) to \<noteq> None"
  using assms
proof (induction ts arbitrary: b)
  case Nil
  then show ?case by simp
next
  case (Cons t ts)
  let ?b = "visit d from (Suc D) cur t b"
  have inv: "bfs_inv d from (Suc D) ?b" using Cons.prems by (intro visit_inv) auto
  show ?case
  proof (cases "to = t")
    case True
    then obtain n where "b_dist ?b to = Some n"
      using visit_reached [of d "from" D b cur to] Cons.prems by auto
    then show ?thesis using expand_inv_mono [OF inv] Cons.prems by simp
  next
    case False
    then show ?thesis using Cons.IH [OF inv] Cons.prems by simp
  qed
qed

lemma level_reached:
  assumes "bfs_inv d from (Suc D) b" and "\<And>nd. nd \<in> set nds \<Longrightarrow> node_ok d from D nd"
    and "sep_free d" and "nd \<in> set nds" and "to \<in> set (edges d (n_key nd))" and "HasState d to"
  shows "b_dist (fold (expand d from (Suc D)) nds b) to \<noteq> None"
  using assms
proof (induction nds arbitrary: b)
  case Nil
  then show ?case by simp
next
  case (Cons x nds)
  let ?b = "expand d from (Suc D) x b"
  have step: "bfs_inv d from (Suc D) ?b"
    unfolding expand_def using expand_inv_mono Cons.prems by fastforce
  show ?case
  proof (cases "nd = x")
    case True
    then obtain n where "b_dist ?b to = Some n"
      unfolding expand_def using expand_reached [of d "from" D b x "edges d (n_key x)" to] Cons.prems by auto
    then show ?thesis using level_inv_mono [OF step, of nds] Cons.prems by simp
  next
    case False
    then show ?thesis using Cons.IH [OF step] Cons.prems by simp
  qed
qed

text \<open>\<open>cover d from D b\<close>: every state within \<open>D\<close> moves has been found, at its distance.\<close>

definition cover :: "workflow_definition \<Rightarrow> string \<Rightarrow> nat \<Rightarrow> bfs \<Rightarrow> bool" where
  "cover d from D b \<longleftrightarrow> (\<forall>m k. m \<le> D \<longrightarrow> reach d from m k \<longrightarrow> (\<exists>n\<le>m. b_dist b k = Some n))"

lemma coverD: "cover d from D b \<Longrightarrow> reach d from m k \<Longrightarrow> m \<le> D \<Longrightarrow> \<exists>n\<le>m. b_dist b k = Some n"
  by (simp add: cover_def)

lemma bfs_inv_dist: "bfs_inv d from D b \<Longrightarrow> b_dist b k = Some n \<Longrightarrow> n \<le> D \<and> reach d from n k"
  by (simp add: bfs_inv_def)

lemma bfs_inv_out:
  "bfs_inv d from D b \<Longrightarrow> r \<in> set (b_outs b) \<Longrightarrow>
    rt_from r = from \<and> walk d from (Keys r) \<and> b_dist b (s_key (rt_to r)) = Some (Hops r)"
  by (simp add: bfs_inv_def)

lemma bfs_inv_start_dist: "bfs_inv d from D b \<Longrightarrow> b_dist b from = Some 0"
  by (simp add: bfs_inv_def)

lemma cover_start: "cover d from 0 (bfs_start from)"
  by (simp add: cover_def bfs_start_def)

text \<open>A state one move past a state nearer than the frontier is already covered.\<close>

lemma cover_step:
  assumes inv: "bfs_inv d from D b" and cov: "cover d from D b" and r: "reach d from (Suc D) k"
  obtains (near) n where "n \<le> D" and "b_dist b k = Some n"
  | (frontier) nd where "nd \<in> set (b_nexts b)" and "k \<in> set (edges d (n_key nd))" and "HasState d k"
proof -
  from r obtain j where j: "reach d from D j" and k: "k \<in> set (edges d j)" "HasState d k"
    by (auto simp: reach_Suc)
  from cov j obtain n where n: "n \<le> D" "b_dist b j = Some n" by (auto simp: cover_def)
  show ?thesis
  proof (cases "n = D")
    case True
    then obtain nd where "nd \<in> set (b_nexts b)" "n_key nd = j" using inv n by (auto simp: bfs_inv_def)
    with k show ?thesis by (intro frontier) auto
  next
    case False
    have "reach d from n j" using inv n by (auto simp: bfs_inv_def)
    with k have "reach d from (Suc n) k" by (auto simp: reach_Suc)
    then obtain m where "m \<le> Suc n" "b_dist b k = Some m"
      using coverD [OF cov, of "Suc n" k] False n by auto
    with False n show ?thesis by (intro near [of m]) auto
  qed
qed

lemma level_cover:
  assumes inv: "bfs_inv d from D b" and cov: "cover d from D b" and sf: "sep_free d"
  shows "cover d from (Suc D) (level d from (Suc D) b)"
  unfolding cover_def
proof (intro allI impI)
  fix m k
  assume m: "m \<le> Suc D" and r: "reach d from m k"
  let ?b = "level d from (Suc D) b"
  have ok: "\<And>nd. nd \<in> set (b_nexts b) \<Longrightarrow> node_ok d from D nd" using inv by (auto simp: bfs_inv_def)
  show "\<exists>n\<le>m. b_dist ?b k = Some n"
  proof (cases "m = Suc D")
    case False
    with m cov r obtain n where "n \<le> m" "b_dist b k = Some n" by (auto simp: cover_def le_Suc_eq)
    then show ?thesis using level_inv(2) [OF inv] by blast
  next
    case True
    with r have "reach d from (Suc D) k" by simp
    with inv cov show ?thesis
    proof (cases rule: cover_step)
      case (near n)
      then show ?thesis using level_inv(2) [OF inv] True by (intro exI [of _ n]) simp
    next
      case (frontier nd)
      then obtain n where n: "b_dist ?b k = Some n"
        unfolding level_def using level_reached [OF bfs_inv_open [OF inv] ok sf] by blast
      moreover have "n \<le> Suc D" using level_inv(1) [OF inv] n by (auto simp: bfs_inv_def)
      ultimately show ?thesis using True by blast
    qed
  qed
qed

lemma cover_exhausted:
  assumes "bfs_inv d from D b" and "cover d from D b" and "b_nexts b = []"
  shows "reach d from m k \<Longrightarrow> \<exists>n\<le>m. b_dist b k = Some n"
proof -
  have "cover d from (D + e) b" for e
  proof (induction e)
    case 0
    then show ?case using assms(2) by simp
  next
    case (Suc e)
    show ?case
      unfolding cover_def
    proof (intro allI impI)
      fix m k
      assume m: "m \<le> D + Suc e" and r: "reach d from m k"
      show "\<exists>n\<le>m. b_dist b k = Some n"
      proof (cases "m = Suc (D + e)")
        case False
        with Suc m r show ?thesis by (simp add: cover_def)
      next
        case True
        with r obtain j where j: "reach d from (D + e) j" "k \<in> set (edges d j)" "HasState d k"
          by (auto simp: reach_Suc)
        with Suc obtain n where n: "b_dist b j = Some n" by (auto simp: cover_def)
        have "n < D" using assms n unfolding bfs_inv_def by (metis empty_iff image_empty le_neq_implies_less list.set(1))
        have "reach d from (Suc n) k" using j n assms(1) by (auto simp: reach_Suc bfs_inv_def)
        then obtain n' where "n' \<le> Suc n" "b_dist b k = Some n'"
          using coverD [OF assms(2), of "Suc n" k] \<open>n < D\<close> by auto
        with \<open>n < D\<close> True show ?thesis by (intro exI [of _ n']) simp
      qed
    qed
  qed
  from this [of m] show "reach d from m k \<Longrightarrow> \<exists>n\<le>m. b_dist b k = Some n" by (auto simp: cover_def)
qed

lemma routes_loop_cover:
  assumes "bfs_inv d from D b" and "cover d from D b" and "sep_free d" and "D \<le> MaxRouteSteps"
  shows "cover d from MaxRouteSteps (routes_loop d from (Suc D) b)"
  using assms
proof (induction "MaxRouteSteps - D" arbitrary: D b)
  case 0
  then have "routes_loop d from (Suc D) b = b" by (subst routes_loop.simps) simp
  with 0 show ?case by (auto simp: cover_def)
next
  case (Suc n)
  show ?case
  proof (cases "b_nexts b = []")
    case True
    then have "routes_loop d from (Suc D) b = b" by (subst routes_loop.simps) simp
    with True cover_exhausted [OF Suc.prems(1,2)] show ?thesis by (auto simp: cover_def)
  next
    case False
    then have "routes_loop d from (Suc D) b = routes_loop d from (Suc (Suc D)) (level d from (Suc D) b)"
      using Suc.hyps(2) by (subst routes_loop.simps) simp
    then show ?thesis
      using Suc.hyps(1) [of "Suc D" "level d from (Suc D) b"] Suc.hyps(2) level_inv(1) [OF Suc.prems(1)]
        level_cover [OF Suc.prems(1,2,3)] Suc.prems(3)
      by simp
  qed
qed

section \<open>What the search returns\<close>

lemma Routes_inv:
  obtains D b where "bfs_inv d from D b" and "D \<le> MaxRouteSteps" and "Routes d from = b_outs b"
    and "sep_free d \<Longrightarrow> cover d from MaxRouteSteps b"
proof -
  obtain D where "D \<le> MaxRouteSteps" and "bfs_inv d from D (routes_loop d from 1 (bfs_start from))"
    using routes_loop_inv [OF bfs_inv_start, of d "from"] by auto
  moreover have "sep_free d \<Longrightarrow> cover d from MaxRouteSteps (routes_loop d from 1 (bfs_start from))"
    using routes_loop_cover [OF bfs_inv_start cover_start, of d "from"] by simp
  ultimately show ?thesis using that by (simp add: Routes_def)
qed

lemma Routes_walk:
  assumes "r \<in> set (Routes d from)"
  shows "rt_from r = from" and "walk d from (Keys r)" and "1 \<le> Hops r" and "Hops r \<le> MaxRouteSteps"
    and "s_key (rt_to r) \<noteq> from"
proof -
  obtain D b where inv: "bfs_inv d from D b" and D: "D \<le> MaxRouteSteps" and out: "Routes d from = b_outs b"
    using Routes_inv by metis
  from assms out have "r \<in> set (b_outs b)" by simp
  note r = bfs_inv_out [OF inv this]
  then show "rt_from r = from" and "walk d from (Keys r)" by auto
  show "1 \<le> Hops r" by (simp add: Hops_def)
  show "Hops r \<le> MaxRouteSteps" using bfs_inv_dist [OF inv] r D by (meson le_trans)
  show "s_key (rt_to r) \<noteq> from" using bfs_inv_start_dist [OF inv] r by (auto simp: Hops_def)
qed

lemma Routes_per_state: "length (routes_to k (Routes d from)) \<le> maxRoutesPerState"
proof -
  obtain D b where inv: "bfs_inv d from D b" and out: "Routes d from = b_outs b"
    using Routes_inv by metis
  from inv have "length (routes_to k (b_outs b)) \<le> maxRoutesPerState" by (simp add: bfs_inv_def)
  with out show ?thesis by simp
qed

lemma Routes_shortest:
  assumes "r \<in> set (Routes d from)" and "sep_free d"
    and "walk d from ks" and "last (from # ks) = s_key (rt_to r)"
  shows "Hops r \<le> length ks"
proof (cases "length ks \<le> MaxRouteSteps")
  case True
  obtain D b where inv: "bfs_inv d from D b" and out: "Routes d from = b_outs b"
    and cov: "cover d from MaxRouteSteps b"
    using Routes_inv assms(2) by metis
  have "reach d from (length ks) (s_key (rt_to r))" unfolding reach_def using assms(3,4) by blast
  from coverD [OF cov this True] obtain n where "n \<le> length ks" "b_dist b (s_key (rt_to r)) = Some n" by blast
  with bfs_inv_out [OF inv] assms(1) out show ?thesis by simp
next
  case False
  then show ?thesis using Routes_walk(4) [OF assms(1)] by simp
qed

lemma Routes_complete:
  assumes "sep_free d" and "walk d from ks" and "length ks \<le> MaxRouteSteps" and "last (from # ks) \<noteq> from"
  shows "\<exists>r\<in>set (Routes d from). s_key (rt_to r) = last (from # ks)"
proof -
  let ?k = "last (from # ks)"
  obtain D b where inv: "bfs_inv d from D b" and out: "Routes d from = b_outs b"
    and cov: "cover d from MaxRouteSteps b"
    using Routes_inv assms(1) by metis
  have "reach d from (length ks) ?k" unfolding reach_def using assms(2) by blast
  from coverD [OF cov this assms(3)] obtain n where n: "b_dist b ?k = Some n" by blast
  have "n \<noteq> 0" using bfs_inv_dist [OF inv n] assms(4) by (intro notI) (simp del: last.simps)
  with inv n have "routes_to ?k (b_outs b) \<noteq> []" by (simp add: bfs_inv_def del: last.simps)
  then obtain r where "r \<in> set (b_outs b)" and "s_key (rt_to r) = ?k"
    unfolding routes_to_def filter_empty_conv by blast
  with out show ?thesis by auto
qed

section \<open>The written form of a route\<close>

text \<open>\<open>strings.Split\<close> at the one-byte separator, and \<open>strings.TrimSpace\<close> on ASCII space.\<close>

definition is_space :: "char \<Rightarrow> bool" where
  "is_space c \<longleftrightarrow> c \<in> {CHR '' '', CHR 0x09, CHR 0x0A, CHR 0x0B, CHR 0x0C, CHR 0x0D}"

definition TrimSpace :: "string \<Rightarrow> string" where
  "TrimSpace s = rev (dropWhile is_space (rev (dropWhile is_space s)))"

fun split_on :: "char \<Rightarrow> string \<Rightarrow> string list" where
  "split_on c [] = [[]]"
| "split_on c (x # xs) =
     (if x = c then [] # split_on c xs
      else case split_on c xs of [] \<Rightarrow> [[x]] | p # ps \<Rightarrow> (x # p) # ps)"

fun parse_steps :: "string list \<Rightarrow> string list \<Rightarrow> string list res" where
  "parse_steps out [] = Inr out"
| "parse_steps out (part # parts) =
    (let step = TrimSpace part in
     if step = [] then parse_steps out parts
     else if step \<in> set out then Inl (fail KindInvalid)
     else parse_steps (out @ [step]) parts)"

definition ParseRoute :: "string \<Rightarrow> string list res" where
  "ParseRoute raw = rbind (parse_steps [] (split_on (CHR ''>'') raw)) (\<lambda>out.
     if out = [] then Inl (fail KindInvalid)
     else if MaxRouteSteps < length out then Inl (fail KindInvalid)
     else Inr out)"

lemma split_on_nonempty [simp]: "split_on c s \<noteq> []"
  by (induction s) (auto split: list.splits)

lemma split_on_free: "c \<notin> set s \<Longrightarrow> split_on c s = [s]"
  by (induction s) auto

lemma split_on_sep: "c \<notin> set s \<Longrightarrow> split_on c (s @ c # t) = s # split_on c t"
  by (induction s) auto

lemma split_on_join:
  "xs \<noteq> [] \<Longrightarrow> \<forall>x\<in>set xs. c \<notin> set x \<Longrightarrow> split_on c (join [c] xs) = xs"
  by (induction xs) (auto simp: join_Cons split_on_free split_on_sep)

text \<open>A step that reads back as itself: non-empty, no separator, no space at either end.\<close>

definition step_ok :: "string \<Rightarrow> bool" where
  "step_ok s \<longleftrightarrow> s \<noteq> [] \<and> CHR ''>'' \<notin> set s \<and> \<not> is_space (hd s) \<and> \<not> is_space (last s)"

lemma TrimSpace_id: "s \<noteq> [] \<Longrightarrow> \<not> is_space (hd s) \<Longrightarrow> \<not> is_space (last s) \<Longrightarrow> TrimSpace s = s"
proof -
  assume "s \<noteq> []" and "\<not> is_space (hd s)" and "\<not> is_space (last s)"
  then have "dropWhile is_space s = s" by (cases s) auto
  moreover have "dropWhile is_space (rev s) = rev s"
    using \<open>s \<noteq> []\<close> \<open>\<not> is_space (last s)\<close> by (cases s rule: rev_cases) auto
  ultimately show ?thesis by (simp add: TrimSpace_def)
qed

lemma parse_steps_ok:
  "distinct (out @ xs) \<Longrightarrow> \<forall>x\<in>set xs. step_ok x \<Longrightarrow> parse_steps out xs = Inr (out @ xs)"
  by (induction xs arbitrary: out) (auto simp: step_ok_def TrimSpace_id Let_def)

lemma parse_steps_distinct:
  "parse_steps out parts = Inr ys \<Longrightarrow> distinct out \<Longrightarrow> [] \<notin> set out \<Longrightarrow> distinct ys \<and> [] \<notin> set ys"
  by (induction out parts rule: parse_steps.induct) (auto simp: Let_def split: if_splits)

lemma ParseRoute_join:
  assumes "xs \<noteq> []" and "distinct xs" and "length xs \<le> MaxRouteSteps" and "\<forall>x\<in>set xs. step_ok x"
  shows "ParseRoute (join RouteSep xs) = Inr xs"
proof -
  have "split_on (CHR ''>'') (join RouteSep xs) = xs"
    unfolding RouteSep_def using assms by (intro split_on_join) (auto simp: step_ok_def)
  then show ?thesis using assms parse_steps_ok [of "[]" xs] by (simp add: ParseRoute_def)
qed

section \<open>Properties\<close>







end
