(* ===== verification/Tables.thy ===== *)
theory Tables
  imports Lease Routes Complex_Main
begin

text \<open>
  The rows one transaction sees: the tables of \<open>internal/store/migrations\<close> that the task
  engine reads and writes, restricted to the tenant of the transaction (the statement builder
  adds the tenant predicate to every statement). Columns hold what the scanners of
  \<open>internal/store/sqlite\<close> read: a NULL text column written through \<open>NullText\<close> is the empty
  string, a NULL time is \<open>None\<close>; \<open>claimed_by_actor_id\<close> and \<open>lease_token\<close> are written raw and
  keep NULL apart. Timestamps are stored as fixed-width UTC text whose order is the order of
  the instants, so they are compared as instants.
\<close>

section \<open>JSON values of custom fields\<close>

text \<open>A decoded JSON number is a float64, which is a rational.\<close>

datatype json = JNull | JBool bool | JNum rat | JStr string | JArr "json list" | JObj "(string \<times> json) list"

type_synonym fields = "(string \<times> json) list"

section \<open>Tasks\<close>

record task =
  t_id :: string
  t_project :: string
  t_seq :: int
  t_parent :: string
  t_title :: string
  t_body :: string
  t_status :: string
  t_priority :: int
  t_assignee :: string
  t_creator :: string
  t_due :: "time option"
  t_started :: "time option"
  t_completed :: "time option"
  t_claimed_by :: "string option"
  t_claimed_at :: "time option"
  t_lease_expires :: "time option"
  t_claim_count :: int
  t_expired_at :: "time option"
  t_expired_by :: string
  t_custom :: fields
  t_recurrence :: string
  t_next_id :: string
  t_copied_from :: string
  t_lease :: duration
  t_snoozed_until :: "time option"
  t_snoozed_by :: string
  t_version :: int
  t_created :: time
  t_updated :: time
  t_deleted :: "time option"

text \<open>The row has one column no read returns: the lease token.\<close>

record task_row = task +
  lease_token :: "string option"

definition scanTask :: "task_row \<Rightarrow> task" where
  "scanTask r = task.truncate r"

definition Text :: "string option \<Rightarrow> string" where
  "Text v = (case v of None \<Rightarrow> [] | Some s \<Rightarrow> s)"

definition Deleted :: "'a task_scheme \<Rightarrow> bool" where
  "Deleted t \<longleftrightarrow> t_deleted t \<noteq> None"

definition SnoozedAt :: "'a task_scheme \<Rightarrow> time \<Rightarrow> bool" where
  "SnoozedAt t now = (case t_snoozed_until t of None \<Rightarrow> False | Some u \<Rightarrow> After u now)"

definition claimed_at_time :: "'a task_scheme \<Rightarrow> time \<Rightarrow> bool" where
  "claimed_at_time t now = ClaimedAtTime (Text (t_claimed_by t)) (t_lease_expires t) now"

section \<open>The other tables\<close>

record project =
  pr_id :: string
  pr_key :: string
  pr_workflow :: string
  pr_lease_default :: duration
  pr_lease_max :: duration
  pr_archived :: "time option"
  pr_seq_counter :: int

record dependency =
  d_task :: string
  d_depends_on :: string
  d_created :: time

record tag =
  tg_id :: string
  tg_project :: string
  tg_name :: string
  tg_color :: string

record comment =
  cm_id :: string
  cm_task :: string
  cm_author :: string
  cm_body :: string
  cm_created :: time
  cm_updated :: time
  cm_deleted :: "time option"

record artifact =
  af_id :: string
  af_task :: string
  af_actor :: string
  af_kind :: string
  af_name :: string
  af_payload :: fields
  af_content_type :: string
  af_created :: time

record actor_row =
  ac_id :: string
  ac_handle :: string

record field_def =
  fd_project :: string
  fd_key :: string
  fd_type :: string
  fd_required :: bool
  fd_options :: "string list"
  fd_default :: "json option"

record inbox_item =
  in_id :: string
  in_recipient :: string
  in_kind :: string
  in_task :: string
  in_actor :: string
  in_comment :: string
  in_from :: string
  in_to :: string
  in_created :: time
  in_read :: "time option"

record event =
  ev_type :: string
  ev_subject_type :: string
  ev_subject :: string
  ev_project :: string
  ev_actor :: string
  ev_payload :: "(string \<times> detail) list"
  ev_at :: time

text \<open>What an audit entry keeps of its subject: the task, a comment, an artifact with the length of its
  content, or a few named values.\<close>

datatype snapshot = TaskSnap task | RowSnap "(string \<times> detail) list" | CommentSnap comment | ArtifactSnap artifact nat

record audit =
  au_action :: string
  au_subject_type :: string
  au_subject :: string
  au_actor :: string
  au_before :: "snapshot option"
  au_after :: "snapshot option"
  au_source :: string
  au_at :: time

record store =
  tasks :: "task_row list"
  deps :: "dependency list"
  tags :: "tag list"
  task_tags :: "(string \<times> string) list"
  stars :: "(string \<times> string) list"
  comments :: "comment list"
  artifacts :: "artifact list"
  projects :: "project list"
  aliases :: "(string \<times> string) list"
  workflows :: "workflow list"
  field_defs :: "field_def list"
  actors :: "actor_row list"
  tenant_lease_default :: duration
  tenant_lease_max :: duration
  tenant_trash_off :: bool
  mutes :: "(string \<times> string) list"
  inbox :: "inbox_item list"
  events :: "event list"
  audits :: "audit list"

section \<open>Keys and references\<close>

text \<open>
  What the schema enforces: primary keys, and the foreign keys the model relies on. Every
  task belongs to a project, every project follows a workflow, a dependency joins two tasks.
\<close>

definition keys_ok :: "store \<Rightarrow> bool" where
  "keys_ok s \<longleftrightarrow>
    distinct (map t_id (tasks s)) \<and>
    distinct (map (\<lambda>t. (t_project t, t_seq t)) (tasks s)) \<and>
    distinct (map (\<lambda>d. (d_task d, d_depends_on d)) (deps s)) \<and>
    distinct (map pr_id (projects s)) \<and> distinct (map pr_key (projects s)) \<and>
    distinct (map wf_id (workflows s)) \<and> distinct (map ac_id (actors s))"

definition refs_ok :: "store \<Rightarrow> bool" where
  "refs_ok s \<longleftrightarrow>
    (\<forall>t\<in>set (tasks s). t_project t \<in> pr_id ` set (projects s)) \<and>
    (\<forall>p\<in>set (projects s). pr_workflow p \<in> wf_id ` set (workflows s)) \<and>
    (\<forall>d\<in>set (deps s). d_task d \<in> t_id ` set (tasks s) \<and> d_depends_on d \<in> t_id ` set (tasks s)
      \<and> d_task d \<noteq> d_depends_on d)"

definition task_row_of :: "store \<Rightarrow> string \<Rightarrow> task_row option" where
  "task_row_of s k = find (\<lambda>t. t_id t = k) (tasks s)"

definition project_of :: "store \<Rightarrow> string \<Rightarrow> project option" where
  "project_of s k = find (\<lambda>p. pr_id p = k) (projects s)"

definition workflow_of :: "store \<Rightarrow> string \<Rightarrow> workflow option" where
  "workflow_of s k = find (\<lambda>w. wf_id w = k) (workflows s)"

lemma task_row_of_iff:
  "keys_ok s \<Longrightarrow> task_row_of s k = Some t \<longleftrightarrow> t \<in> set (tasks s) \<and> t_id t = k"
  unfolding task_row_of_def keys_ok_def by (intro find_key_iff) simp

lemma task_row_of_SomeD: "task_row_of s k = Some t \<Longrightarrow> t \<in> set (tasks s) \<and> t_id t = k"
  unfolding task_row_of_def by (auto dest: find_SomeD)

lemma task_row_of_None_iff: "task_row_of s k = None \<longleftrightarrow> k \<notin> t_id ` set (tasks s)"
  unfolding task_row_of_def by (auto simp: find_None_iff)

lemma scanTask_simps [simp]:
  "t_id (scanTask r) = t_id r" "t_project (scanTask r) = t_project r" "t_seq (scanTask r) = t_seq r"
  "t_parent (scanTask r) = t_parent r" "t_title (scanTask r) = t_title r" "t_body (scanTask r) = t_body r"
  "t_status (scanTask r) = t_status r" "t_priority (scanTask r) = t_priority r"
  "t_assignee (scanTask r) = t_assignee r" "t_creator (scanTask r) = t_creator r" "t_due (scanTask r) = t_due r"
  "t_started (scanTask r) = t_started r" "t_completed (scanTask r) = t_completed r"
  "t_claimed_by (scanTask r) = t_claimed_by r" "t_claimed_at (scanTask r) = t_claimed_at r"
  "t_lease_expires (scanTask r) = t_lease_expires r" "t_claim_count (scanTask r) = t_claim_count r"
  "t_expired_at (scanTask r) = t_expired_at r" "t_expired_by (scanTask r) = t_expired_by r"
  "t_custom (scanTask r) = t_custom r" "t_recurrence (scanTask r) = t_recurrence r"
  "t_next_id (scanTask r) = t_next_id r" "t_copied_from (scanTask r) = t_copied_from r"
  "t_lease (scanTask r) = t_lease r" "t_snoozed_until (scanTask r) = t_snoozed_until r"
  "t_snoozed_by (scanTask r) = t_snoozed_by r" "t_version (scanTask r) = t_version r"
  "t_created (scanTask r) = t_created r" "t_updated (scanTask r) = t_updated r" "t_deleted (scanTask r) = t_deleted r"
  by (simp_all add: scanTask_def task.truncate_def)

lemma scanTask_views [simp]:
  "Deleted (scanTask r) = Deleted r" "SnoozedAt (scanTask r) = SnoozedAt r"
  "claimed_at_time (scanTask r) = claimed_at_time r"
  by (simp_all add: Deleted_def SnoozedAt_def claimed_at_time_def fun_eq_iff)

section \<open>A small database\<close>

text \<open>The zero value of a task, and tables to run the operations on: two actors, one project, three tasks.\<close>

definition empty_task :: task where
  "empty_task = \<lparr>t_id = [], t_project = [], t_seq = 0, t_parent = [], t_title = [], t_body = [], t_status = [],
     t_priority = 0, t_assignee = [], t_creator = [], t_due = None, t_started = None, t_completed = None,
     t_claimed_by = None, t_claimed_at = None, t_lease_expires = None, t_claim_count = 0, t_expired_at = None,
     t_expired_by = [], t_custom = [], t_recurrence = [], t_next_id = [], t_copied_from = [], t_lease = 0,
     t_snoozed_until = None, t_snoozed_by = [], t_version = 0, t_created = 0, t_updated = 0, t_deleted = None\<rparr>"

definition sample_task :: "string \<Rightarrow> int \<Rightarrow> int \<Rightarrow> string \<Rightarrow> task" where
  "sample_task k seq priority status = empty_task\<lparr>t_id := k, t_project := ''p1'', t_seq := seq, t_title := ''work'',
     t_status := status, t_priority := priority, t_creator := ''u1'', t_version := 1\<rparr>"

definition sample_row :: "task \<Rightarrow> task_row" where
  "sample_row t = task.extend t (task_row.fields None)"

definition sample_workflow :: workflow where
  "sample_workflow = \<lparr>wf_id = ''w1'', wf_key = ''default'', wf_name = ''Default'', wf_definition = BuiltinWorkflow Hour,
     wf_builtin = True, wf_created_at = 0, wf_updated_at = 0\<rparr>"

definition sample_project :: project where
  "sample_project = \<lparr>pr_id = ''p1'', pr_key = ''infra'', pr_workflow = ''w1'', pr_lease_default = 0, pr_lease_max = 0,
     pr_archived = None, pr_seq_counter = 3\<rparr>"

definition sample_store :: store where
  "sample_store = \<lparr>tasks = [sample_row (sample_task ''t1'' 1 3 ''todo''), sample_row (sample_task ''t2'' 2 1 ''todo''),
       sample_row (sample_task ''t3'' 3 2 ''doing'')],
     deps = [\<lparr>d_task = ''t2'', d_depends_on = ''t3'', d_created = 0\<rparr>], tags = [], task_tags = [], stars = [],
     comments = [], artifacts = [], projects = [sample_project], aliases = [], workflows = [sample_workflow],
     field_defs = [], actors = [\<lparr>ac_id = ''u1'', ac_handle = ''ann''\<rparr>, \<lparr>ac_id = ''u2'', ac_handle = ''bob''\<rparr>],
     tenant_lease_default = 0, tenant_lease_max = 0, tenant_trash_off = False, mutes = [], inbox = [], events = [], audits = []\<rparr>"

lemmas sample_defs = sample_store_def sample_row_def sample_task_def empty_task_def sample_workflow_def sample_project_def

lemma sample_store_ok: "keys_ok sample_store \<and> refs_ok sample_store"
  by code_simp

end
