(* ===== verification/Task_Ref.thy ===== *)
theory Task_Ref
  imports Routes
begin

text \<open>
  Task references (\<open>internal/core/ref.go\<close>): an identifier, or a project key and a number
  such as \<open>infra-42\<close>; with the decimal conversions of \<open>strconv\<close> they rest on, int64 range
  included. \<open>strings.ToLower\<close> and \<open>strings.TrimSpace\<close> act on ASCII here; a key is ASCII once
  it is valid.
\<close>

section \<open>Decimal numbers\<close>

definition digit :: "nat \<Rightarrow> char" where "digit n = char_of (48 + n)"
definition digit_value :: "char \<Rightarrow> nat" where "digit_value c = of_char c - 48"

fun format_nat :: "nat \<Rightarrow> string" where
  "format_nat n = (if n < 10 then [digit n] else format_nat (n div 10) @ [digit (n mod 10)])"

declare format_nat.simps [simp del]

definition FormatInt :: "int \<Rightarrow> string" where
  "FormatInt i = (if i < 0 then CHR ''-'' # format_nat (nat (- i)) else format_nat (nat i))"

definition parse_nat :: "string \<Rightarrow> nat" where
  "parse_nat s = foldl (\<lambda>acc c. acc * 10 + digit_value c) 0 s"

definition digits_only :: "string \<Rightarrow> bool" where
  "digits_only s \<longleftrightarrow> s \<noteq> [] \<and> (\<forall>c\<in>set s. is_digit c)"

text \<open>\<open>strconv.ParseInt(s, 10, 64)\<close>: an optional sign, digits, and the int64 range.\<close>

definition ParseInt :: "string \<Rightarrow> int option" where
  "ParseInt s =
    (let (neg, ds) = (case s of [] \<Rightarrow> (False, [])
           | c # cs \<Rightarrow> if c = CHR ''-'' then (True, cs) else if c = CHR ''+'' then (False, cs) else (False, s));
         v = (if neg then - int (parse_nat ds) else int (parse_nat ds))
     in if digits_only ds \<and> in_int64 v then Some v else None)"

section \<open>References\<close>

record task_ref =
  ref_id :: string
  ref_key :: string
  ref_seq :: int

definition id_ref :: "string \<Rightarrow> task_ref" where
  "id_ref k = \<lparr>ref_id = k, ref_key = [], ref_seq = 0\<rparr>"

definition IsID :: "task_ref \<Rightarrow> bool" where "IsID r \<longleftrightarrow> ref_id r \<noteq> []"

definition ref_string :: "task_ref \<Rightarrow> string" where
  "ref_string r =
    (if IsID r then ref_id r
     else if ref_key r = [] then []
     else ref_key r @ ''-'' @ FormatInt (ref_seq r))"

definition valid_ref :: "task_ref \<Rightarrow> bool" where
  "valid_ref r \<longleftrightarrow> IsID r \<or> (ref_key r \<noteq> [] \<and> 0 < ref_seq r)"

definition lower :: "char \<Rightarrow> char" where
  "lower c = (if CHR ''A'' \<le> c \<and> c \<le> CHR ''Z'' then char_of (of_char c + (32 :: nat)) else c)"

definition ToLower :: "string \<Rightarrow> string" where "ToLower s = map lower s"

definition validID :: "string \<Rightarrow> bool" where
  "validID s \<longleftrightarrow> 8 \<le> length s \<and> length s \<le> 64 \<and> (\<forall>c\<in>set s. is_digit c \<or> is_letter c)"

text \<open>\<open>strings.LastIndex\<close>: the text before and after the last dash, when neither is empty.\<close>

definition split_last_dash :: "string \<Rightarrow> (string \<times> string) option" where
  "split_last_dash s =
    (let num = rev (takeWhile (\<lambda>c. c \<noteq> CHR ''-'') (rev s));
         key = take (length s - length num - 1) s
     in if CHR ''-'' \<in> set s \<and> key \<noteq> [] \<and> num \<noteq> [] then Some (key, num) else None)"

definition ParseTaskRef :: "string \<Rightarrow> task_ref res" where
  "ParseTaskRef raw =
    (let s = TrimSpace raw;
         as_id = (if \<not> validID s then Inl (fail KindInvalid) else Inr (id_ref s))
     in if s = [] then Inl (fail KindInvalid)
        else case split_last_dash s of None \<Rightarrow> as_id
          | Some (key, num) \<Rightarrow> (case ParseInt num of None \<Rightarrow> as_id
              | Some seq \<Rightarrow>
                  if seq \<le> 0 then Inl (fail KindInvalid)
                  else if \<not> validProjectKey key then Inl (fail KindInvalid)
                  else Inr \<lparr>ref_id = [], ref_key = ToLower key, ref_seq = seq\<rparr>))"

section \<open>Lemmas\<close>

lemma digit_range: "n < 10 \<Longrightarrow> is_digit (digit n) \<and> digit_value (digit n) = n"
proof -
  assume n: "n < 10"
  then have "(of_char (digit n) :: nat) = 48 + n" by (simp add: digit_def)
  then show ?thesis by (simp add: is_digit_def digit_value_def less_eq_char_def) (use n in simp)
qed

lemma parse_nat_snoc: "parse_nat (s @ [c]) = parse_nat s * 10 + digit_value c"
  by (simp add: parse_nat_def)

lemma format_nat_props: "parse_nat (format_nat n) = n \<and> digits_only (format_nat n)"
proof (induction n rule: format_nat.induct)
  case (1 n)
  show ?case
  proof (cases "n < 10")
    case True
    then show ?thesis
      using digit_range [of n] by (subst (1 2) format_nat.simps) (simp add: parse_nat_def digits_only_def)
  next
    case False
    then show ?thesis
      using 1 digit_range [of "n mod 10"]
      by (subst (1 2) format_nat.simps) (auto simp: parse_nat_snoc digits_only_def)
  qed
qed

lemma digit_not_sign: "is_digit c \<Longrightarrow> c \<noteq> CHR ''-'' \<and> c \<noteq> CHR ''+''"
  by (auto simp: is_digit_def less_eq_char_def)

lemma ParseInt_FormatInt: "0 \<le> i \<Longrightarrow> in_int64 i \<Longrightarrow> ParseInt (FormatInt i) = Some i"
proof -
  assume "0 \<le> i" and "in_int64 i"
  let ?s = "format_nat (nat i)"
  obtain c cs where s: "?s = c # cs" and "is_digit c"
    using format_nat_props [of "nat i"] by (cases ?s) (auto simp: digits_only_def)
  with digit_not_sign [of c] have "ParseInt ?s = (if digits_only ?s \<and> in_int64 (int (parse_nat ?s))
      then Some (int (parse_nat ?s)) else None)"
    by (simp add: ParseInt_def Let_def)
  then show ?thesis
    using format_nat_props [of "nat i"] \<open>0 \<le> i\<close> \<open>in_int64 i\<close> by (simp add: FormatInt_def)
qed

lemma split_last_dash_join:
  assumes "k \<noteq> []" and "ds \<noteq> []" and "CHR ''-'' \<notin> set ds"
  shows "split_last_dash (k @ ''-'' @ ds) = Some (k, ds)"
proof -
  have "takeWhile (\<lambda>c. c \<noteq> CHR ''-'') (rev (k @ ''-'' @ ds)) = rev ds"
    using assms(3) by (simp add: takeWhile_append)
  then show ?thesis using assms by (simp add: split_last_dash_def Let_def)
qed

lemma split_last_dash_None: "CHR ''-'' \<notin> set s \<Longrightarrow> split_last_dash s = None"
  by (simp add: split_last_dash_def)

lemma alnum_not_space: "is_digit c \<or> is_letter c \<Longrightarrow> \<not> is_space c \<and> c \<noteq> CHR ''-''"
  by (auto simp: is_digit_def is_letter_def is_space_def less_eq_char_def)

lemma ToLower_validKey_chars:
  "validProjectKey k \<Longrightarrow> \<not> is_space (hd k)"
  using alnum_not_space by (auto simp: validProjectKey_def split: if_splits)

section \<open>Properties\<close>

text \<open>
  C35: A task reference survives being written and read: a project reference with a valid
  lower-case key and a positive int64 number, and an identifier of the accepted shape, both
  parse back from their written form to themselves; and whatever parses is a reference that
  addresses something.
\<close>

theorem ParseTaskRef_roundtrip:
  "(validProjectKey key \<and> ToLower key = key \<and> 0 < n \<and> n \<le> max_int64 \<longrightarrow>
      ParseTaskRef (ref_string \<lparr>ref_id = [], ref_key = key, ref_seq = n\<rparr>)
        = Inr \<lparr>ref_id = [], ref_key = key, ref_seq = n\<rparr>) \<and>
    (validID k \<longrightarrow> ParseTaskRef (ref_string (id_ref k)) = Inr (id_ref k)) \<and>
    (ParseTaskRef raw = Inr r \<longrightarrow> valid_ref r)"
proof (intro conjI impI)
  assume a: "validProjectKey key \<and> ToLower key = key \<and> 0 < n \<and> n \<le> max_int64"
  let ?s = "key @ ''-'' @ FormatInt n"
  have k: "key \<noteq> []" using a by (auto simp: validProjectKey_def)
  have d: "digits_only (FormatInt n)" using a format_nat_props by (simp add: FormatInt_def)
  then have "FormatInt n \<noteq> []" and nd: "CHR ''-'' \<notin> set (FormatInt n)"
    using digit_not_sign by (auto simp: digits_only_def)
  then have split: "split_last_dash ?s = Some (key, FormatInt n)"
    using k by (intro split_last_dash_join)
  have "is_digit (last ?s)" using d \<open>FormatInt n \<noteq> []\<close> by (simp add: digits_only_def)
  then have "\<not> is_space (last ?s)" using alnum_not_space by blast
  moreover have "\<not> is_space (hd ?s)" using ToLower_validKey_chars a k by simp
  ultimately have trim: "TrimSpace ?s = ?s" by (intro TrimSpace_id) simp_all
  have "ParseInt (FormatInt n) = Some n"
    using a by (intro ParseInt_FormatInt) (auto simp: min_int64_def)
  with a k trim split show "ParseTaskRef (ref_string \<lparr>ref_id = [], ref_key = key, ref_seq = n\<rparr>)
      = Inr \<lparr>ref_id = [], ref_key = key, ref_seq = n\<rparr>"
    by (simp add: ref_string_def IsID_def ParseTaskRef_def)
next
  assume v: "validID k"
  then have ne: "k \<noteq> []" and all: "\<forall>c\<in>set k. is_digit c \<or> is_letter c" by (auto simp: validID_def)
  then have nd: "CHR ''-'' \<notin> set k" using alnum_not_space by blast
  have "TrimSpace k = k"
    using ne all alnum_not_space by (intro TrimSpace_id) auto
  then show "ParseTaskRef (ref_string (id_ref k)) = Inr (id_ref k)"
    using v ne split_last_dash_None [OF nd] by (simp add: ParseTaskRef_def ref_string_def id_ref_def IsID_def)
next
  assume "ParseTaskRef raw = Inr r"
  then show "valid_ref r"
    by (auto simp: ParseTaskRef_def Let_def valid_ref_def IsID_def id_ref_def validProjectKey_def ToLower_def
        split: if_splits option.splits)
qed

theorem ParseTaskRef_roundtrip_witness:
  "ParseTaskRef ''infra-42'' = Inr \<lparr>ref_id = [], ref_key = ''infra'', ref_seq = 42\<rparr>"
proof -
  have "validProjectKey ''infra''" "ToLower ''infra'' = ''infra''" "FormatInt 42 = ''42''" by code_simp+
  then show ?thesis
    using ParseTaskRef_roundtrip [of "''infra''" 42 "[]" "[]" "id_ref []"]
    by (simp add: ref_string_def IsID_def max_int64_def)
qed

end
