(* ===== verification/Task_Store.thy ===== *)
theory Task_Store
  imports Tables Task_Ref "HOL-Library.List_Lexorder" "HOL-Library.Product_Lexorder"
begin

text \<open>
  The statements the task engine runs (\<open>internal/store/sqlite/task.go\<close>, \<open>claim.go\<close>,
  \<open>taskrel.go\<close>, \<open>snooze.go\<close>, \<open>alias.go\<close>, \<open>project.go\<close>, \<open>auth.go\<close>): reads, the conditional
  updates of the lease columns, task writes and dependency edges. Every operation is a function
  on the tables; \<open>db\<close> is the reading of the store's own clock (\<open>t.now()\<close>), apart from the
  \<open>now\<close> its caller passes. A unique or foreign key violation is the error \<open>mapErr\<close> makes of it.
\<close>

section \<open>Reads\<close>

definition GetActor :: "store \<Rightarrow> string \<Rightarrow> actor_row res" where
  "GetActor s k = (case find (\<lambda>a. ac_id a = k) (actors s) of
     None \<Rightarrow> Inl (fail KindNotFound) | Some a \<Rightarrow> Inr a)"

definition GetActorByHandle :: "store \<Rightarrow> string \<Rightarrow> actor_row res" where
  "GetActorByHandle s h = (case find (\<lambda>a. ac_handle a = h) (actors s) of
     None \<Rightarrow> Inl (fail KindNotFound) | Some a \<Rightarrow> Inr a)"

definition ProjectAliasTarget :: "store \<Rightarrow> string \<Rightarrow> string res" where
  "ProjectAliasTarget s key = (case map_of (aliases s) key of
     None \<Rightarrow> Inl (fail KindNotFound) | Some p \<Rightarrow> Inr p)"

definition GetProject :: "store \<Rightarrow> string \<Rightarrow> project res" where
  "GetProject s ref = (case find (\<lambda>p. pr_id p = ref \<or> pr_key p = ref) (projects s) of
     Some p \<Rightarrow> Inr p
   | None \<Rightarrow> rbind (ProjectAliasTarget s ref) (\<lambda>k.
       case project_of s k of None \<Rightarrow> Inl (fail KindNotFound) | Some p \<Rightarrow> Inr p))"

definition GetWorkflowByID :: "store \<Rightarrow> string \<Rightarrow> workflow res" where
  "GetWorkflowByID s k = (case workflow_of s k of None \<Rightarrow> Inl (fail KindNotFound) | Some w \<Rightarrow> Inr w)"

text \<open>A task is read joined with its project, by identifier, by key and number, or by a kept key.\<close>

definition task_with_project :: "store \<Rightarrow> (task_row \<Rightarrow> project \<Rightarrow> bool) \<Rightarrow> task_row option" where
  "task_with_project s p = find (\<lambda>t. case project_of s (t_project t) of
     None \<Rightarrow> False | Some pr \<Rightarrow> p t pr) (tasks s)"

definition GetTask :: "store \<Rightarrow> task_ref \<Rightarrow> task res" where
  "GetTask s r =
    (if \<not> valid_ref r then Inl (fail KindInvalid)
     else let row = (if IsID r then task_with_project s (\<lambda>t _. t_id t = ref_id r)
            else case task_with_project s (\<lambda>t pr. pr_key pr = ref_key r \<and> t_seq t = ref_seq r) of
              Some t \<Rightarrow> Some t
            | None \<Rightarrow> (case ProjectAliasTarget s (ref_key r) of
                Inl _ \<Rightarrow> None
              | Inr k \<Rightarrow> task_with_project s (\<lambda>t _. t_project t = k \<and> t_seq t = ref_seq r)))
     in case row of None \<Rightarrow> Inl (fail KindNotFound) | Some t \<Rightarrow> Inr (scanTask t))"

definition task_ref_text :: "store \<Rightarrow> task \<Rightarrow> string" where
  "task_ref_text s t = (case project_of s (t_project t) of
     None \<Rightarrow> [] | Some p \<Rightarrow> pr_key p @ ''-'' @ FormatInt (t_seq t))"

text \<open>The relations a read fills in: tags, dependencies and the blocked flag.\<close>

definition tag_names :: "store \<Rightarrow> string \<Rightarrow> string list" where
  "tag_names s k = map tg_name (filter (\<lambda>l. (k, tg_id l) \<in> set (task_tags s)) (tags s))"

definition DependsOn :: "store \<Rightarrow> string \<Rightarrow> string list" where
  "DependsOn s k = map d_depends_on (filter (\<lambda>d. d_task d = k) (deps s))"

definition Blocked :: "store \<Rightarrow> string \<Rightarrow> bool" where
  "Blocked s k \<longleftrightarrow> (\<exists>d\<in>set (deps s). d_task d = k \<and>
     (\<exists>dep\<in>set (tasks s). t_id dep = d_depends_on d \<and> t_deleted dep = None \<and> t_completed dep = None))"

definition Children :: "store \<Rightarrow> string \<Rightarrow> task list" where
  "Children s k = map scanTask (sort_key t_seq
     (filter (\<lambda>t. t_parent t = k \<and> t_deleted t = None) (tasks s)))"

section \<open>Claiming\<close>

definition unclaimed :: "time \<Rightarrow> task_row \<Rightarrow> bool" where
  "unclaimed now r \<longleftrightarrow> t_claimed_by r = None \<or>
     (case t_lease_expires r of None \<Rightarrow> True | Some e \<Rightarrow> e \<le> now)"

definition awake :: "time \<Rightarrow> task_row \<Rightarrow> bool" where
  "awake now r \<longleftrightarrow> (case t_snoozed_until r of None \<Rightarrow> True | Some u \<Rightarrow> u \<le> now)"

record claim_row =
  cr_task :: string
  cr_actor :: string
  cr_now :: time
  cr_until :: time
  cr_token :: string

definition actor_exists :: "store \<Rightarrow> string \<Rightarrow> bool" where
  "actor_exists s k \<longleftrightarrow> k \<in> ac_id ` set (actors s)"

definition take_lease :: "string \<Rightarrow> time \<Rightarrow> time \<Rightarrow> string \<Rightarrow> task_row \<Rightarrow> task_row" where
  "take_lease holder now until token r = r\<lparr>
     t_claimed_by := Some holder, t_claimed_at := Some now, t_lease_expires := Some until,
     lease_token := Some token, t_expired_at := None, t_expired_by := [], t_updated := now,
     t_claim_count := t_claim_count r + 1\<rparr>"

text \<open>\<open>claimed_by_actor_id\<close> references the actors table.\<close>

definition ClaimTask :: "claim_row \<Rightarrow> store \<Rightarrow> (store \<times> bool) res" where
  "ClaimTask c s =
    (let p = (\<lambda>r. t_id r = cr_task c \<and> t_deleted r = None \<and> unclaimed (cr_now c) r);
         n = rows_matching p (tasks s)
     in if 0 < n \<and> \<not> actor_exists s (cr_actor c) then Inl (fail KindPrecondition)
        else Inr (s\<lparr>tasks := update_where p
          (take_lease (cr_actor c) (cr_now c) (cr_until c) (cr_token c)) (tasks s)\<rparr>, 0 < n))"

record claim_next_row =
  cn_projects :: "string list"
  cn_tags :: "string list"
  cn_statuses :: "string list"
  cn_terminal :: "(string \<times> string list) list"
  cn_actor :: string
  cn_now :: time
  cn_until :: time
  cn_token :: string

definition terminalPredicate :: "store \<Rightarrow> (string \<times> string list) list \<Rightarrow> string \<Rightarrow> string \<Rightarrow> bool" where
  "terminalPredicate s terminal status project \<longleftrightarrow>
    (\<exists>wp\<in>set (projects s). pr_id wp = project \<and>
       (\<exists>(w, sts)\<in>set terminal. pr_workflow wp = w \<and> status \<in> set sts))"

definition blockedByDependency :: "store \<Rightarrow> (string \<times> string list) list \<Rightarrow> task_row \<Rightarrow> bool" where
  "blockedByDependency s terminal r \<longleftrightarrow>
    (\<exists>d\<in>set (deps s). d_task d = t_id r \<and>
       (\<exists>dep\<in>set (tasks s). t_id dep = d_depends_on d \<and> t_deleted dep = None \<and>
          \<not> terminalPredicate s terminal (t_status dep) (t_project dep)))"

definition eligible :: "claim_next_row \<Rightarrow> store \<Rightarrow> task_row \<Rightarrow> bool" where
  "eligible c s r \<longleftrightarrow>
    t_deleted r = None \<and> unclaimed (cn_now c) r \<and> awake (cn_now c) r \<and>
    \<not> blockedByDependency s (cn_terminal c) r \<and>
    \<not> terminalPredicate s (cn_terminal c) (t_status r) (t_project r) \<and>
    (cn_projects c = [] \<or> t_project r \<in> set (cn_projects c)) \<and>
    (cn_statuses c = [] \<or> t_status r \<in> set (cn_statuses c)) \<and>
    (cn_tags c = [] \<or> (\<exists>l\<in>set (tags s). (t_id r, tg_id l) \<in> set (task_tags s) \<and> tg_name l \<in> set (cn_tags c)))"

definition queue_key :: "task_row \<Rightarrow> int \<times> int \<times> string" where
  "queue_key r = (t_priority r, t_created r, t_id r)"

definition ClaimNextTask :: "claim_next_row \<Rightarrow> store \<Rightarrow> (store \<times> string option) res" where
  "ClaimNextTask c s =
    (case least_by queue_key (filter (eligible c s) (tasks s)) of
       None \<Rightarrow> Inr (s, None)
     | Some pick \<Rightarrow>
         let p = (\<lambda>r. t_id r = t_id pick \<and> unclaimed (cn_now c) r);
             s' = s\<lparr>tasks := update_where p
               (take_lease (cn_actor c) (cn_now c) (cn_until c) (cn_token c)) (tasks s)\<rparr>
         in if rows_matching p (tasks s) = 0 then Inr (s, None)
            else if \<not> actor_exists s (cn_actor c) then Inl (fail KindPrecondition)
            else (case find (\<lambda>r. lease_token r = Some (cn_token c)) (tasks s') of
                    None \<Rightarrow> Inl (fail KindNotFound)
                  | Some r \<Rightarrow> Inr (s', Some (t_id r))))"

section \<open>Renewing, releasing, clearing and reclaiming\<close>

definition live :: "time \<Rightarrow> task_row \<Rightarrow> bool" where
  "live now r \<longleftrightarrow> (case t_lease_expires r of None \<Rightarrow> False | Some e \<Rightarrow> now < e)"

definition lapsed :: "time \<Rightarrow> task_row \<Rightarrow> bool" where
  "lapsed now r \<longleftrightarrow> (case t_lease_expires r of None \<Rightarrow> False | Some e \<Rightarrow> e \<le> now)"

definition holds :: "string \<Rightarrow> string \<Rightarrow> time \<Rightarrow> task_row \<Rightarrow> bool" where
  "holds k token db r \<longleftrightarrow> t_id r = k \<and> lease_token r = Some token \<and> live db r"

definition RenewLease :: "time \<Rightarrow> string \<Rightarrow> string \<Rightarrow> time \<Rightarrow> store \<Rightarrow> (store \<times> bool) res" where
  "RenewLease db k token until s =
    (if token = [] then Inl (fail KindInvalid)
     else Inr (s\<lparr>tasks := update_where (holds k token db)
            (\<lambda>r. r\<lparr>t_lease_expires := Some until, t_updated := db\<rparr>) (tasks s)\<rparr>,
          0 < rows_matching (holds k token db) (tasks s)))"

definition drop_lease :: "time \<Rightarrow> task_row \<Rightarrow> task_row" where
  "drop_lease stamp r = r\<lparr>t_claimed_by := None, t_claimed_at := None, t_lease_expires := None,
     lease_token := None, t_updated := stamp\<rparr>"

definition ReleaseLease :: "time \<Rightarrow> string \<Rightarrow> string \<Rightarrow> store \<Rightarrow> (store \<times> bool) res" where
  "ReleaseLease db k token s =
    (if token = [] then Inl (fail KindInvalid)
     else Inr (s\<lparr>tasks := update_where (holds k token db) (drop_lease db) (tasks s)\<rparr>,
          0 < rows_matching (holds k token db) (tasks s)))"

definition claimStillThere :: "string \<Rightarrow> store \<Rightarrow> unit res" where
  "claimStillThere k s = ensure (0 < rows_matching (\<lambda>r. t_id r = k) (tasks s)) (fail KindNotFound)"

definition ClearClaim :: "time \<Rightarrow> string \<Rightarrow> string \<Rightarrow> time \<Rightarrow> store \<Rightarrow> (store \<times> bool) res" where
  "ClearClaim db k holder stamp s =
    (let p = (\<lambda>r. t_id r = k \<and> lapsed stamp r)
     in if 0 < rows_matching p (tasks s)
        then Inr (s\<lparr>tasks := update_where p
          (\<lambda>r. (drop_lease db r)\<lparr>t_expired_at := Some stamp, t_expired_by := holder\<rparr>) (tasks s)\<rparr>, True)
        else rbind (claimStillThere k s) (\<lambda>_. Inr (s, False)))"

definition ForceReclaim :: "string \<Rightarrow> string \<Rightarrow> time \<Rightarrow> store \<Rightarrow> (store \<times> bool) res" where
  "ForceReclaim k holder stamp s =
    (let p = (\<lambda>r. t_id r = k \<and> t_deleted r = None \<and> t_claimed_by r = Some holder \<and> live stamp r)
     in if 0 < rows_matching p (tasks s)
        then Inr (s\<lparr>tasks := update_where p (drop_lease stamp) (tasks s)\<rparr>, True)
        else rbind (claimStillThere k s) (\<lambda>_. Inr (s, False)))"

definition DefaultPageLimit :: nat where "DefaultPageLimit = 50"

definition expiry_key :: "task_row \<Rightarrow> int \<times> string" where
  "expiry_key r = (case t_lease_expires r of None \<Rightarrow> 0 | Some e \<Rightarrow> e, t_id r)"

definition ExpiredLeases :: "time \<Rightarrow> int \<Rightarrow> store \<Rightarrow> task list" where
  "ExpiredLeases now limit s =
    (let n = (if limit \<le> 0 then DefaultPageLimit else nat limit)
     in map scanTask (take n (sort_key expiry_key
          (filter (\<lambda>r. t_deleted r = None \<and> lapsed now r \<and> project_of s (t_project r) \<noteq> None) (tasks s)))))"

end
