(* ===== verification/Task_Writes.thy ===== *)
theory Task_Writes
  imports Task_Store
begin

text \<open>
  The statements that write tasks and what hangs off them (\<open>internal/store/sqlite/task.go\<close>,
  \<open>taskrel.go\<close>, \<open>snooze.go\<close>, \<open>internal/store/sql/queries_deps.go\<close>): creating, updating,
  deleting, restoring, moving and snoozing tasks, dependency edges and the walk over them,
  tags, comments and artifacts. Constraint violations are checked in the order SQLite reports
  them: CHECK, then unique keys, then foreign keys. A deleted row takes with it what the schema
  cascades to.
\<close>

section \<open>Columns\<close>

text \<open>\<open>NullTimeText\<close> stores a zero time as NULL; \<open>DurationText\<close> stores no duration that is not positive.\<close>

definition null_time :: "time option \<Rightarrow> time option" where
  "null_time t = (case t of None \<Rightarrow> None | Some u \<Rightarrow> if IsZero u then None else Some u)"

definition null_text :: "string \<Rightarrow> string option" where
  "null_text s = (if s = [] then None else Some s)"

definition stored_duration :: "duration \<Rightarrow> duration" where
  "stored_duration d = (if d \<le> 0 then 0 else d)"

definition task_exists :: "store \<Rightarrow> string \<Rightarrow> bool" where
  "task_exists s k \<longleftrightarrow> k \<in> t_id ` set (tasks s)"

section \<open>Creating\<close>

definition NextSeq :: "string \<Rightarrow> store \<Rightarrow> (store \<times> int) res" where
  "NextSeq project s = (case project_of s project of
     None \<Rightarrow> Inl (fail KindNotFound)
   | Some p \<Rightarrow> Inr (s\<lparr>projects := update_where (\<lambda>p. pr_id p = project)
         (\<lambda>p. p\<lparr>pr_seq_counter := pr_seq_counter p + 1\<rparr>) (projects s)\<rparr>, pr_seq_counter p + 1))"

definition new_row :: "task \<Rightarrow> task_row" where
  "new_row t = task.extend (t\<lparr>
     t_due := null_time (t_due t), t_started := null_time (t_started t),
     t_completed := null_time (t_completed t), t_claimed_by := null_text (Text (t_claimed_by t)),
     t_claimed_at := null_time (t_claimed_at t), t_lease_expires := null_time (t_lease_expires t),
     t_expired_at := None, t_expired_by := [], t_lease := stored_duration (t_lease t),
     t_snoozed_until := null_time (t_snoozed_until t), t_deleted := null_time (t_deleted t)\<rparr>)
     (task_row.fields None)"

definition insert_task :: "task_row \<Rightarrow> store \<Rightarrow> store res" where
  "insert_task r s =
    (if \<not> (1 \<le> t_priority r \<and> t_priority r \<le> 5) then Inl (fail KindInternal)
     else if task_exists s (t_id r) then Inl (fail KindConflict)
     else if (t_project r, t_seq r) \<in> (\<lambda>t. (t_project t, t_seq t)) ` set (tasks s) then Inl (fail KindConflict)
     else if t_project r \<notin> pr_id ` set (projects s) \<or> \<not> actor_exists s (t_creator r) \<or>
         (t_parent r \<noteq> [] \<and> t_parent r \<noteq> t_id r \<and> \<not> task_exists s (t_parent r)) \<or>
         (t_assignee r \<noteq> [] \<and> \<not> actor_exists s (t_assignee r)) \<or>
         (case t_claimed_by r of None \<Rightarrow> False | Some a \<Rightarrow> \<not> actor_exists s a) \<or>
         (t_snoozed_by r \<noteq> [] \<and> \<not> actor_exists s (t_snoozed_by r))
       then Inl (fail KindPrecondition)
     else Inr (s\<lparr>tasks := tasks s @ [r]\<rparr>))"

text \<open>\<open>fresh\<close> is the identifier the generator gives a task that brings none.\<close>

definition CreateTask :: "time \<Rightarrow> string \<Rightarrow> task \<Rightarrow> store \<Rightarrow> (store \<times> task) res" where
  "CreateTask db fresh t s =
    (let t = (if t_id t = [] then t\<lparr>t_id := fresh\<rparr> else t) in
     rbind (if t_seq t = 0 then rbind (NextSeq (t_project t) s) (\<lambda>(s, n). Inr (s, t\<lparr>t_seq := n\<rparr>))
            else Inr (s, t)) (\<lambda>(s, t).
     let t = t\<lparr>t_priority := (if t_priority t = 0 then 3 else t_priority t),
               t_version := (if t_version t = 0 then 1 else t_version t),
               t_created := (if IsZero (t_created t) then db else t_created t), t_updated := db\<rparr>
     in rbind (insert_task (new_row t) s) (\<lambda>s. Inr (s, t))))"

section \<open>Updating\<close>

definition write_columns :: "time \<Rightarrow> task \<Rightarrow> task_row \<Rightarrow> task_row" where
  "write_columns db t r = r\<lparr>
     t_parent := t_parent t, t_title := t_title t, t_body := t_body t, t_status := t_status t,
     t_priority := t_priority t, t_assignee := t_assignee t, t_due := null_time (t_due t),
     t_started := null_time (t_started t), t_completed := null_time (t_completed t),
     t_custom := t_custom t, t_recurrence := t_recurrence t, t_next_id := t_next_id t,
     t_lease := stored_duration (t_lease t), t_updated := db, t_version := t_version r + 1\<rparr>"

definition UpdateTask :: "time \<Rightarrow> task \<Rightarrow> store \<Rightarrow> (store \<times> task) res" where
  "UpdateTask db t s =
    (let p = (\<lambda>r. t_id r = t_id t) in
     if rows_matching p (tasks s) = 0 then Inl (fail KindNotFound)
     else if \<not> (1 \<le> t_priority t \<and> t_priority t \<le> 5) then Inl (fail KindInternal)
     else if (t_parent t \<noteq> [] \<and> \<not> task_exists s (t_parent t)) \<or>
         (t_assignee t \<noteq> [] \<and> \<not> actor_exists s (t_assignee t)) then Inl (fail KindPrecondition)
     else Inr (s\<lparr>tasks := update_where p (write_columns db t) (tasks s)\<rparr>,
          t\<lparr>t_updated := db, t_version := t_version t + 1\<rparr>))"

definition MoveTask :: "time \<Rightarrow> string \<Rightarrow> string \<Rightarrow> int \<Rightarrow> string \<Rightarrow> store \<Rightarrow> store res" where
  "MoveTask db k project seq status s =
    (let p = (\<lambda>r. t_id r = k) in
     if rows_matching p (tasks s) = 0 then Inl (fail KindNotFound)
     else if (\<exists>r\<in>set (tasks s). t_id r \<noteq> k \<and> t_project r = project \<and> t_seq r = seq) then Inl (fail KindConflict)
     else if project \<notin> pr_id ` set (projects s) then Inl (fail KindPrecondition)
     else Inr (s\<lparr>tasks := update_where p (\<lambda>r. r\<lparr>t_project := project, t_seq := seq, t_status := status,
         t_updated := db, t_version := t_version r + 1\<rparr>) (tasks s)\<rparr>))"

section \<open>Deleting and restoring\<close>

definition cascade_delete :: "string \<Rightarrow> store \<Rightarrow> store" where
  "cascade_delete k s = s\<lparr>
     tasks := update_where (\<lambda>r. t_parent r = k) (\<lambda>r. r\<lparr>t_parent := []\<rparr>) (filter (\<lambda>r. t_id r \<noteq> k) (tasks s)),
     deps := filter (\<lambda>d. d_task d \<noteq> k \<and> d_depends_on d \<noteq> k) (deps s),
     task_tags := filter (\<lambda>(t, _). t \<noteq> k) (task_tags s),
     stars := filter (\<lambda>(t, _). t \<noteq> k) (stars s),
     comments := filter (\<lambda>c. cm_task c \<noteq> k) (comments s),
     artifacts := filter (\<lambda>a. af_task a \<noteq> k) (artifacts s),
     inbox := filter (\<lambda>i. in_task i \<noteq> k) (inbox s)\<rparr>"

definition DeleteTask :: "time \<Rightarrow> string \<Rightarrow> bool \<Rightarrow> store \<Rightarrow> store res" where
  "DeleteTask db k hard s =
    (if hard then
       (if \<not> task_exists s k then Inl (fail KindNotFound) else Inr (cascade_delete k s))
     else let p = (\<lambda>r. t_id r = k \<and> t_deleted r = None) in
       if rows_matching p (tasks s) = 0 then Inl (fail KindNotFound)
       else Inr (s\<lparr>tasks := update_where p (\<lambda>r. r\<lparr>t_deleted := Some db, t_updated := db\<rparr>) (tasks s)\<rparr>))"

definition RestoreTask :: "time \<Rightarrow> string \<Rightarrow> store \<Rightarrow> store res" where
  "RestoreTask db k s =
    (let p = (\<lambda>r. t_id r = k \<and> t_deleted r \<noteq> None) in
     if rows_matching p (tasks s) = 0 then Inl (fail KindNotFound)
     else Inr (s\<lparr>tasks := update_where p (\<lambda>r. r\<lparr>t_deleted := None, t_updated := db\<rparr>) (tasks s)\<rparr>))"

section \<open>Snoozing\<close>

definition SetSnooze :: "time \<Rightarrow> string \<Rightarrow> time option \<Rightarrow> string \<Rightarrow> store \<Rightarrow> store res" where
  "SetSnooze db k until by_actor s =
    (let b = (if until = None then [] else by_actor); p = (\<lambda>r. t_id r = k \<and> t_deleted r = None) in
     if rows_matching p (tasks s) = 0 then Inl (fail KindNotFound)
     else if b \<noteq> [] \<and> \<not> actor_exists s b then Inl (fail KindPrecondition)
     else Inr (s\<lparr>tasks := update_where p
       (\<lambda>r. r\<lparr>t_snoozed_until := null_time until, t_snoozed_by := b, t_updated := db\<rparr>) (tasks s)\<rparr>))"

definition snooze_key :: "task_row \<Rightarrow> int \<times> string" where
  "snooze_key r = (case t_snoozed_until r of None \<Rightarrow> 0 | Some u \<Rightarrow> u, t_id r)"

definition ExpiredSnoozes :: "time \<Rightarrow> int \<Rightarrow> store \<Rightarrow> task list" where
  "ExpiredSnoozes now limit s =
    (let n = (if limit \<le> 0 then DefaultPageLimit else nat limit)
     in map scanTask (take n (sort_key snooze_key
       (filter (\<lambda>r. t_deleted r = None \<and> t_snoozed_until r \<noteq> None \<and> awake now r \<and>
          project_of s (t_project r) \<noteq> None) (tasks s)))))"

definition WakeSnooze :: "string \<Rightarrow> time \<Rightarrow> store \<Rightarrow> store \<times> bool" where
  "WakeSnooze k until s =
    (let p = (\<lambda>r. t_id r = k \<and> t_snoozed_until r = Some until)
     in (s\<lparr>tasks := update_where p (\<lambda>r. r\<lparr>t_snoozed_until := None, t_snoozed_by := []\<rparr>) (tasks s)\<rparr>,
         0 < rows_matching p (tasks s)))"

section \<open>Dependencies\<close>

definition AddDependency :: "time \<Rightarrow> string \<Rightarrow> string \<Rightarrow> store \<Rightarrow> (store \<times> dependency) res" where
  "AddDependency db k on s =
    (let d = \<lparr>d_task = k, d_depends_on = on, d_created = db\<rparr> in
     if k = on then Inl (fail KindInvalid)
     else if (\<exists>e\<in>set (deps s). d_task e = k \<and> d_depends_on e = on) then Inl (fail KindConflict)
     else if \<not> task_exists s k \<or> \<not> task_exists s on then Inl (fail KindPrecondition)
     else Inr (s\<lparr>deps := deps s @ [d]\<rparr>, d))"

definition RemoveDependency :: "string \<Rightarrow> string \<Rightarrow> store \<Rightarrow> store res" where
  "RemoveDependency k on s =
    (if \<not> (\<exists>e\<in>set (deps s). d_task e = k \<and> d_depends_on e = on) then Inl (fail KindNotFound)
     else Inr (s\<lparr>deps := filter (\<lambda>e. \<not> (d_task e = k \<and> d_depends_on e = on)) (deps s)\<rparr>))"

text \<open>
  The recursive query: \<open>reachable\<close> starts with the direct dependencies of \<open>from\<close> and takes in
  those of every task found, each row once, until a round adds nothing. \<open>rounds\<close> of it, as many
  as there are edges and one, are enough.
\<close>

definition direct :: "dependency list \<Rightarrow> string \<Rightarrow> string list" where
  "direct es k = map d_depends_on (filter (\<lambda>e. d_task e = k) es)"

fun reach_rounds :: "nat \<Rightarrow> dependency list \<Rightarrow> string list \<Rightarrow> string list" where
  "reach_rounds 0 es found = found"
| "reach_rounds (Suc n) es found =
    reach_rounds n es (remdups (found @ concat (map (direct es) found)))"

definition DependencyPathExists :: "string \<Rightarrow> string \<Rightarrow> store \<Rightarrow> bool" where
  "DependencyPathExists from to s \<longleftrightarrow>
    to \<in> set (reach_rounds (length (deps s)) (deps s) (direct (deps s) from))"

section \<open>Tags, comments and artifacts\<close>

definition PutTag :: "string \<Rightarrow> tag \<Rightarrow> store \<Rightarrow> store \<times> tag" where
  "PutTag fresh l s =
    (let p = (\<lambda>r. tg_name r = tg_name l \<and> tg_project r = tg_project l) in
     case find p (tags s) of
       Some old \<Rightarrow> (s\<lparr>tags := update_where p (\<lambda>r. r\<lparr>tg_color := tg_color l\<rparr>) (tags s)\<rparr>, l\<lparr>tg_id := tg_id old\<rparr>)
     | None \<Rightarrow> let l = (if tg_id l = [] then l\<lparr>tg_id := fresh\<rparr> else l) in (s\<lparr>tags := tags s @ [l]\<rparr>, l))"

definition AttachTag :: "string \<Rightarrow> string \<Rightarrow> store \<Rightarrow> store res" where
  "AttachTag k tag_id s =
    (if (k, tag_id) \<in> set (task_tags s) then Inr s
     else if \<not> task_exists s k \<or> tag_id \<notin> tg_id ` set (tags s) then Inl (fail KindPrecondition)
     else Inr (s\<lparr>task_tags := task_tags s @ [(k, tag_id)]\<rparr>))"

definition DetachTag :: "string \<Rightarrow> string \<Rightarrow> store \<Rightarrow> store res" where
  "DetachTag k tag_id s =
    (if (k, tag_id) \<notin> set (task_tags s) then Inl (fail KindNotFound)
     else Inr (s\<lparr>task_tags := filter (\<lambda>x. x \<noteq> (k, tag_id)) (task_tags s)\<rparr>))"

definition attachTaskLabel :: "string \<Rightarrow> string \<Rightarrow> string \<Rightarrow> store \<Rightarrow> store res" where
  "attachTaskLabel fresh k name s =
    (let l = \<lparr>tg_id = [], tg_project = [], tg_name = TrimSpace name, tg_color = []\<rparr> in
     if tg_name l = [] then Inl (fail KindInvalid)
     else let (s, l) = PutTag fresh l s in AttachTag k (tg_id l) s)"

definition CreateComment :: "time \<Rightarrow> string \<Rightarrow> string \<Rightarrow> string \<Rightarrow> string \<Rightarrow> store \<Rightarrow> (store \<times> comment) res" where
  "CreateComment db fresh k author body s =
    (let c = \<lparr>cm_id = fresh, cm_task = k, cm_author = author, cm_body = body, cm_created = db,
       cm_updated = db, cm_deleted = None\<rparr> in
     if fresh \<in> cm_id ` set (comments s) then Inl (fail KindConflict)
     else if \<not> task_exists s k \<or> \<not> actor_exists s author then Inl (fail KindPrecondition)
     else Inr (s\<lparr>comments := comments s @ [c]\<rparr>, c))"

definition PutArtifact :: "time \<Rightarrow> string \<Rightarrow> artifact \<Rightarrow> store \<Rightarrow> (store \<times> artifact) res" where
  "PutArtifact db fresh a s =
    (let a = a\<lparr>af_content_type := (if af_content_type a = [] then ''application/json'' else af_content_type a),
               af_created := (if IsZero (af_created a) then db else af_created a)\<rparr>;
         refs = (task_exists s (af_task a) \<and> actor_exists s (af_actor a)) in
     if af_id a \<noteq> [] \<and> af_id a \<in> af_id ` set (artifacts s) then
       (if \<not> refs then Inl (fail KindPrecondition)
        else Inr (s\<lparr>artifacts := update_where (\<lambda>x. af_id x = af_id a)
          (\<lambda>x. a\<lparr>af_created := af_created x\<rparr>) (artifacts s)\<rparr>, a))
     else let a = (if af_id a = [] then a\<lparr>af_id := fresh\<rparr> else a) in
       if af_id a \<in> af_id ` set (artifacts s) then Inl (fail KindConflict)
       else if \<not> refs then Inl (fail KindPrecondition)
       else Inr (s\<lparr>artifacts := artifacts s @ [a]\<rparr>, a))"

end
