(* ===== verification/Lease_Board.thy ===== *)
theory Lease_Board
  imports Lease_Spec Task_Writes
begin

text \<open>
  The tables implement the lease protocol: reading the token and expiry columns of a task as its
  lease, each conditional update of \<open>internal/store/sqlite/claim.go\<close> keeps the contract of
  \<open>Lease_Spec\<close>, and no other write touches a lease. What the updates rely on is that task
  identifiers are unique and that a row nobody has claimed carries no token.
\<close>

section \<open>The board\<close>

definition row_lease :: "task_row \<Rightarrow> (string \<times> time) option" where
  "row_lease r = (case (lease_token r, t_lease_expires r) of
     (Some tok, Some e) \<Rightarrow> Some (tok, e) | _ \<Rightarrow> None)"

definition board :: "store \<Rightarrow> leases" where
  "board s k = Option.bind (task_row_of s k) row_lease"

definition lease_inv :: "store \<Rightarrow> bool" where
  "lease_inv s \<longleftrightarrow> distinct (map t_id (tasks s)) \<and>
     (\<forall>r\<in>set (tasks s). t_claimed_by r = None \<longrightarrow> lease_token r = None)"

lemma row_of_inv:
  "lease_inv s \<Longrightarrow> task_row_of s k = Some r \<longleftrightarrow> r \<in> set (tasks s) \<and> t_id r = k"
  unfolding task_row_of_def lease_inv_def by (rule find_key_iff) simp

lemma row_lease_simps [simp]:
  "row_lease (take_lease holder now until tok r) = Some (tok, until)"
  "row_lease (drop_lease stamp r) = None"
  by (simp_all add: row_lease_def take_lease_def drop_lease_def)

lemma row_ids [simp]:
  "t_id (take_lease holder now until tok r) = t_id r"
  "t_id (drop_lease stamp r) = t_id r"
  "t_id (write_columns db t r) = t_id r"
  by (simp_all add: take_lease_def drop_lease_def write_columns_def)

lemma row_lease_frame [simp]:
  "row_lease (write_columns db t r) = row_lease r"
  "row_lease (new_row t) = None"
  by (simp_all add: row_lease_def write_columns_def new_row_def task.extend_def task_row.fields_def split: option.splits)

section \<open>Updates\<close>

text \<open>An update of the rows of one task, decided on the row.\<close>

lemma board_update_one:
  assumes "lease_inv s"
    and "\<And>r. t_id (f r) = t_id r"
    and "\<And>r. p r \<Longrightarrow> t_id r = k"
    and "\<And>r. p r \<Longrightarrow> row_lease (f r) = x"
  shows "board (s\<lparr>tasks := update_where p f (tasks s)\<rparr>) =
    (if 0 < rows_matching p (tasks s) then (board s)(k := x) else board s)"
proof
  fix j
  let ?s = "s\<lparr>tasks := update_where p f (tasks s)\<rparr>"
  have row: "task_row_of ?s j = map_option (\<lambda>r. if p r then f r else r) (task_row_of s j)"
    unfolding task_row_of_def by (simp add: find_update_where assms(2))
  show "board ?s j = (if 0 < rows_matching p (tasks s) then (board s)(k := x) else board s) j"
  proof (cases "task_row_of s j")
    case None
    then have "\<forall>r\<in>set (tasks s). t_id r \<noteq> j" by (auto simp: task_row_of_None_iff)
    with None row assms(3) show ?thesis by (auto simp: board_def rows_matching_pos)
  next
    case (Some r)
    then have r: "r \<in> set (tasks s)" "t_id r = j" using row_of_inv [OF assms(1)] by auto
    have uniq: "r' = r" if "r' \<in> set (tasks s)" "t_id r' = j" for r'
      using row_of_inv [OF assms(1)] that Some by (metis option.inject)
    show ?thesis
    proof (cases "p r")
      case True
      with r have "0 < rows_matching p (tasks s)" and "j = k" using assms(3) by (auto simp: rows_matching_pos)
      with True row Some assms(4) show ?thesis by (simp add: board_def)
    next
      case False
      then have "j = k \<Longrightarrow> \<not> 0 < rows_matching p (tasks s)"
        using uniq assms(3) by (auto simp: rows_matching_pos)
      with False row Some show ?thesis by (auto simp: board_def)
    qed
  qed
qed

lemma lease_inv_update:
  assumes "lease_inv s" and "\<And>r. t_id (f r) = t_id r"
    and "\<And>r. r \<in> set (tasks s) \<Longrightarrow> p r \<Longrightarrow> t_claimed_by (f r) = None \<Longrightarrow> lease_token (f r) = None"
  shows "lease_inv (s\<lparr>tasks := update_where p f (tasks s)\<rparr>)"
  using assms by (auto simp: lease_inv_def map_update_where set_update_where)

lemma matching_row:
  assumes "lease_inv s" and "\<And>r. p r \<Longrightarrow> t_id r = k" and "0 < rows_matching p (tasks s)"
  obtains r where "task_row_of s k = Some r" and "p r" and "board s k = row_lease r"
proof -
  from assms(3) obtain r where r: "r \<in> set (tasks s)" "p r" by (auto simp: rows_matching_pos)
  with assms(2) have "t_id r = k" by blast
  with r have "task_row_of s k = Some r" by (simp add: row_of_inv [OF assms(1)])
  with r that show thesis by (simp add: board_def)
qed

lemma vacant_unclaimed:
  assumes "lease_inv s" and "task_row_of s k = Some r" and "unclaimed now r"
  shows "vacant (board s) now k"
proof -
  have "r \<in> set (tasks s)" using assms(1,2) by (simp add: row_of_inv)
  with assms show ?thesis
    by (auto simp: vacant_def board_def row_lease_def unclaimed_def lease_inv_def split: option.splits)
qed

lemma vacant_lapsed:
  assumes "task_row_of s k = Some r" and "lapsed now r"
  shows "vacant (board s) now k"
  using assms by (auto simp: vacant_def board_def row_lease_def lapsed_def split: option.splits)

lemma holds_held:
  assumes "lease_inv s"
  shows "0 < rows_matching (holds k tok db) (tasks s) \<longleftrightarrow> held (board s) db k tok"
proof
  assume "0 < rows_matching (holds k tok db) (tasks s)"
  with assms obtain r where "task_row_of s k = Some r" "holds k tok db r"
    by (auto simp: holds_def elim: matching_row [where p = "holds k tok db" and k = k])
  then show "held (board s) db k tok"
    by (auto simp: held_def board_def row_lease_def holds_def live_def split: option.splits)
next
  assume "held (board s) db k tok"
  then obtain r where "task_row_of s k = Some r" "lease_token r = Some tok" "live db r"
    by (auto simp: held_def board_def row_lease_def live_def bind_eq_Some_conv split: option.splits)
  then show "0 < rows_matching (holds k tok db) (tasks s)"
    by (auto simp: rows_matching_pos holds_def row_of_inv [OF assms])
qed

section \<open>The conditional updates keep the contract\<close>

lemma ClaimTask_law:
  assumes "lease_inv s" and "ClaimTask c s = Inr (s', b)"
  shows "lease_inv s'"
    and "board s' = (if b then (board s)(cr_task c \<mapsto> (cr_token c, cr_until c)) else board s)"
    and "b \<Longrightarrow> vacant (board s) (cr_now c) (cr_task c)"
proof -
  define p where "p = (\<lambda>r. t_id r = cr_task c \<and> t_deleted r = None \<and> unclaimed (cr_now c) r)"
  let ?f = "take_lease (cr_actor c) (cr_now c) (cr_until c) (cr_token c)"
  have s': "s' = s\<lparr>tasks := update_where p ?f (tasks s)\<rparr>" and b: "b \<longleftrightarrow> 0 < rows_matching p (tasks s)"
    using assms(2) by (auto simp: ClaimTask_def p_def Let_def split: if_splits)
  show "lease_inv s'"
    unfolding s' by (rule lease_inv_update [OF assms(1)]) (simp_all add: take_lease_def)
  show "board s' = (if b then (board s)(cr_task c \<mapsto> (cr_token c, cr_until c)) else board s)"
    unfolding s' b by (rule board_update_one [OF assms(1)]) (simp_all add: p_def)
  assume b
  with b obtain r where "task_row_of s (cr_task c) = Some r" "p r"
    using matching_row [OF assms(1), of p "cr_task c"] by (auto simp: p_def)
  then show "vacant (board s) (cr_now c) (cr_task c)"
    using vacant_unclaimed [OF assms(1)] by (simp add: p_def)
qed

lemma RenewLease_law:
  assumes "lease_inv s" and "RenewLease db k tok until s = Inr (s', b)"
  shows "lease_inv s'"
    and "board s' = (if b then (board s)(k \<mapsto> (tok, until)) else board s)"
    and "b \<longleftrightarrow> held (board s) db k tok"
proof -
  let ?f = "\<lambda>r. r\<lparr>t_lease_expires := Some until, t_updated := db\<rparr>"
  have s': "s' = s\<lparr>tasks := update_where (holds k tok db) ?f (tasks s)\<rparr>"
    and b: "b \<longleftrightarrow> 0 < rows_matching (holds k tok db) (tasks s)"
    using assms(2) by (auto simp: RenewLease_def split: if_splits)
  show "lease_inv s'"
    unfolding s' using assms(1) by (intro lease_inv_update) (auto simp: lease_inv_def)
  show "board s' = (if b then (board s)(k \<mapsto> (tok, until)) else board s)"
    unfolding s' b by (rule board_update_one [OF assms(1)]) (simp_all add: holds_def row_lease_def)
  show "b \<longleftrightarrow> held (board s) db k tok" unfolding b by (rule holds_held [OF assms(1)])
qed

lemma ReleaseLease_law:
  assumes "lease_inv s" and "ReleaseLease db k tok s = Inr (s', b)"
  shows "lease_inv s'"
    and "board s' = (if b then (board s)(k := None) else board s)"
    and "b \<longleftrightarrow> held (board s) db k tok"
proof -
  have s': "s' = s\<lparr>tasks := update_where (holds k tok db) (drop_lease db) (tasks s)\<rparr>"
    and b: "b \<longleftrightarrow> 0 < rows_matching (holds k tok db) (tasks s)"
    using assms(2) by (auto simp: ReleaseLease_def split: if_splits)
  show "lease_inv s'"
    unfolding s' by (rule lease_inv_update [OF assms(1)]) (simp_all add: drop_lease_def)
  show "board s' = (if b then (board s)(k := None) else board s)"
    unfolding s' b by (rule board_update_one [OF assms(1)]) (simp_all add: holds_def)
  show "b \<longleftrightarrow> held (board s) db k tok" unfolding b by (rule holds_held [OF assms(1)])
qed

lemma ClearClaim_law:
  assumes "lease_inv s" and "ClearClaim db k holder stamp s = Inr (s', b)"
  shows "lease_inv s'"
    and "board s' = (if b then (board s)(k := None) else board s)"
    and "b \<Longrightarrow> vacant (board s) stamp k"
proof -
  define p where "p = (\<lambda>r. t_id r = k \<and> lapsed stamp r)"
  let ?f = "\<lambda>r. (drop_lease db r)\<lparr>t_expired_at := Some stamp, t_expired_by := holder\<rparr>"
  have s': "s' = s\<lparr>tasks := update_where p ?f (tasks s)\<rparr>" and b: "b \<longleftrightarrow> 0 < rows_matching p (tasks s)"
    using assms(2)
    by (auto simp: ClearClaim_def p_def Let_def claimStillThere_def update_where_none rbind_Inr_iff split: if_splits)
  show "lease_inv s'"
    unfolding s' by (rule lease_inv_update [OF assms(1)]) (simp_all add: drop_lease_def)
  show "board s' = (if b then (board s)(k := None) else board s)"
    unfolding s' b by (rule board_update_one [OF assms(1)]) (simp_all add: p_def row_lease_def drop_lease_def)
  assume b
  with b obtain r where "task_row_of s k = Some r" "p r"
    using matching_row [OF assms(1), of p k] by (auto simp: p_def)
  then show "vacant (board s) stamp k" using vacant_lapsed by (simp add: p_def)
qed

lemma ForceReclaim_law:
  assumes "lease_inv s" and "ForceReclaim k holder stamp s = Inr (s', b)"
  shows "lease_inv s'" and "board s' = (if b then (board s)(k := None) else board s)"
proof -
  define p where "p = (\<lambda>r. t_id r = k \<and> t_deleted r = None \<and> t_claimed_by r = Some holder \<and> live stamp r)"
  have s': "s' = s\<lparr>tasks := update_where p (drop_lease stamp) (tasks s)\<rparr>"
    and b: "b \<longleftrightarrow> 0 < rows_matching p (tasks s)"
    using assms(2)
    by (auto simp: ForceReclaim_def p_def Let_def claimStillThere_def update_where_none rbind_Inr_iff split: if_splits)
  show "lease_inv s'"
    unfolding s' by (rule lease_inv_update [OF assms(1)]) (simp_all add: drop_lease_def)
  show "board s' = (if b then (board s)(k := None) else board s)"
    unfolding s' b by (rule board_update_one [OF assms(1)]) (simp_all add: p_def)
qed

interpretation sq: lease_ops board lease_inv
  "\<lambda>k tok now until s s' b. \<exists>c. cr_task c = k \<and> cr_token c = tok \<and> cr_now c = now \<and> cr_until c = until \<and>
     ClaimTask c s = Inr (s', b)"
  "\<lambda>db k tok until s s' b. RenewLease db k tok until s = Inr (s', b)"
  "\<lambda>db k tok s s' b. ReleaseLease db k tok s = Inr (s', b)"
  "\<lambda>k stamp s s' b. \<exists>db holder. ClearClaim db k holder stamp s = Inr (s', b)"
  "\<lambda>k s s' b. \<exists>holder stamp. ForceReclaim k holder stamp s = Inr (s', b)"
proof (unfold_locales, goal_cases)
  case (1 s k tok now until s' b)
  then show ?case using ClaimTask_law [of s _ s' b] by auto
next
  case (2 s db k tok until s' b)
  then show ?case using RenewLease_law [of s db k tok until s' b] by auto
next
  case (3 s db k tok s' b)
  then show ?case using ReleaseLease_law [of s db k tok s' b] by auto
next
  case (4 s k stamp s' b)
  then show ?case using ClearClaim_law [of s _ k _ stamp s' b] by auto
next
  case (5 s k s' b)
  then show ?case using ForceReclaim_law [of s k _ _ s' b] by auto
qed

section \<open>Writes that leave every lease alone\<close>

text \<open>\<open>lease_frame\<close>: the invariant is kept and the board is the same. It composes.\<close>

definition lease_frame :: "store \<Rightarrow> store \<Rightarrow> bool" where
  "lease_frame s s' \<longleftrightarrow> (lease_inv s \<longrightarrow> lease_inv s' \<and> board s' = board s)"

lemma lease_frame_refl [inv_intros, simp]: "lease_frame s s"
  by (simp add: lease_frame_def)

lemma lease_frame_trans [trans]: "lease_frame s s' \<Longrightarrow> lease_frame s' s'' \<Longrightarrow> lease_frame s s''"
  by (auto simp: lease_frame_def)

lemma lease_frame_tasks: "tasks s' = tasks s \<Longrightarrow> lease_frame s s'"
  by (simp add: lease_frame_def lease_inv_def board_def task_row_of_def fun_eq_iff)

lemma lease_frame_update:
  assumes "\<And>r. t_id (f r) = t_id r" and "\<And>r. row_lease (f r) = row_lease r"
    and "\<And>r. t_claimed_by (f r) = t_claimed_by r" and "\<And>r. lease_token (f r) = lease_token r"
    and "tasks s' = update_where p f (tasks s)"
  shows "lease_frame s s'"
proof -
  have "board s' = board s"
    unfolding board_def task_row_of_def assms(5) find_update_where [of t_id f, OF assms(1)]
    by (auto simp: fun_eq_iff bind_map_option comp_def assms(2) if_distrib [of row_lease] cong: if_cong)
  then show ?thesis
    by (auto simp: lease_frame_def lease_inv_def assms map_update_where set_update_where)
qed

lemma NextSeq_frame [inv_intros]: "NextSeq p s = Inr (s', n) \<Longrightarrow> lease_frame s s'"
  by (rule lease_frame_tasks) (auto simp: NextSeq_def split: option.splits)

lemma insert_task_frame [inv_intros]:
  assumes "insert_task (new_row t) s = Inr s'"
  shows "lease_frame s s'"
proof -
  have fresh: "\<not> task_exists s (t_id (new_row t))" and s': "s' = s\<lparr>tasks := tasks s @ [new_row t]\<rparr>"
    using assms by (auto simp: insert_task_def split: if_splits)
  have "lease_token (new_row t) = None" by (simp add: new_row_def task.extend_def task_row.fields_def)
  moreover have "board s' = board s"
  proof
    fix k
    show "board s' k = board s k"
      unfolding board_def task_row_of_def s' by (simp add: find_append split: option.splits)
  qed
  ultimately show ?thesis
    using fresh by (auto simp: lease_frame_def lease_inv_def s' task_exists_def)
qed

lemma CreateTask_frame [inv_intros]: "CreateTask db fresh t s = Inr (s', t') \<Longrightarrow> lease_frame s s'"
  by (auto simp: CreateTask_def Let_def split: if_splits prod.splits
      elim: lease_frame_trans [OF NextSeq_frame insert_task_frame] insert_task_frame)

lemma UpdateTask_frame [inv_intros]: "UpdateTask db t s = Inr (s', t') \<Longrightarrow> lease_frame s s'"
  by (rule lease_frame_update [where f = "write_columns db t" and p = "\<lambda>r. t_id r = t_id t"])
    (auto simp: UpdateTask_def Let_def write_columns_def row_lease_def split: if_splits)

lemma MoveTask_frame [inv_intros]: "MoveTask db k p n st s = Inr s' \<Longrightarrow> lease_frame s s'"
  by (rule lease_frame_update [where p = "\<lambda>r. t_id r = k" and f = "\<lambda>r. r\<lparr>t_project := p, t_seq := n,
        t_status := st, t_updated := db, t_version := t_version r + 1\<rparr>"])
    (auto simp: MoveTask_def Let_def row_lease_def split: if_splits)

lemma DeleteTask_soft_frame [inv_intros]: "DeleteTask db k False s = Inr s' \<Longrightarrow> lease_frame s s'"
  by (rule lease_frame_update [where p = "\<lambda>r. t_id r = k \<and> t_deleted r = None"
        and f = "\<lambda>r. r\<lparr>t_deleted := Some db, t_updated := db\<rparr>"])
    (auto simp: DeleteTask_def Let_def row_lease_def split: if_splits)

lemma RestoreTask_frame [inv_intros]: "RestoreTask db k s = Inr s' \<Longrightarrow> lease_frame s s'"
  by (rule lease_frame_update [where p = "\<lambda>r. t_id r = k \<and> t_deleted r \<noteq> None"
        and f = "\<lambda>r. r\<lparr>t_deleted := None, t_updated := db\<rparr>"])
    (auto simp: RestoreTask_def Let_def row_lease_def split: if_splits)

lemma SetSnooze_frame [inv_intros]: "SetSnooze db k u a s = Inr s' \<Longrightarrow> lease_frame s s'"
  by (rule lease_frame_update [where p = "\<lambda>r. t_id r = k \<and> t_deleted r = None"
        and f = "\<lambda>r. r\<lparr>t_snoozed_until := null_time u, t_snoozed_by := (if u = None then [] else a), t_updated := db\<rparr>"])
    (auto simp: SetSnooze_def Let_def row_lease_def split: if_splits)

lemma WakeSnooze_frame [inv_intros]: "WakeSnooze k u s = (s', b) \<Longrightarrow> lease_frame s s'"
  by (rule lease_frame_update [where p = "\<lambda>r. t_id r = k \<and> t_snoozed_until r = Some u"
        and f = "\<lambda>r. r\<lparr>t_snoozed_until := None, t_snoozed_by := []\<rparr>"])
    (auto simp: WakeSnooze_def Let_def row_lease_def)

lemma AddDependency_frame [inv_intros]: "AddDependency db k j s = Inr (s', d) \<Longrightarrow> lease_frame s s'"
  by (rule lease_frame_tasks) (auto simp: AddDependency_def Let_def split: if_splits)

lemma RemoveDependency_frame [inv_intros]: "RemoveDependency k j s = Inr s' \<Longrightarrow> lease_frame s s'"
  by (rule lease_frame_tasks) (auto simp: RemoveDependency_def split: if_splits)

lemma AttachTag_frame [inv_intros]: "AttachTag k l s = Inr s' \<Longrightarrow> lease_frame s s'"
  by (rule lease_frame_tasks) (auto simp: AttachTag_def split: if_splits)

lemma PutTag_frame [inv_intros]: "PutTag fresh l s = (s', l') \<Longrightarrow> lease_frame s s'"
  by (rule lease_frame_tasks) (auto simp: PutTag_def Let_def split: option.splits)

lemma DetachTag_frame [inv_intros]: "DetachTag k l s = Inr s' \<Longrightarrow> lease_frame s s'"
  by (rule lease_frame_tasks) (auto simp: DetachTag_def split: if_splits)

lemma attachTaskLabel_frame [inv_intros]: "attachTaskLabel fresh k n s = Inr s' \<Longrightarrow> lease_frame s s'"
  by (auto simp: attachTaskLabel_def Let_def split: if_splits prod.splits
      elim: lease_frame_trans [OF PutTag_frame AttachTag_frame])

lemma CreateComment_frame [inv_intros]: "CreateComment db fresh k a b s = Inr (s', c) \<Longrightarrow> lease_frame s s'"
  by (rule lease_frame_tasks) (auto simp: CreateComment_def Let_def split: if_splits)

lemma PutArtifact_frame [inv_intros]: "PutArtifact db fresh a s = Inr (s', x) \<Longrightarrow> lease_frame s s'"
  by (rule lease_frame_tasks) (auto simp: PutArtifact_def Let_def split: if_splits)

text \<open>A deletion for good takes the row and its lease with it, and no other lease.\<close>

lemma cascade_delete_board:
  assumes "lease_inv s"
  shows "lease_inv (cascade_delete k s)" and "board (cascade_delete k s) = (board s)(k := None)"
proof -
  let ?f = "\<lambda>r. if t_parent r = k then r\<lparr>t_parent := []\<rparr> else r"
  have ts: "tasks (cascade_delete k s) = map ?f (filter (\<lambda>r. t_id r \<noteq> k) (tasks s))"
    by (simp add: cascade_delete_def update_where_def)
  have f: "t_id (?f r) = t_id r" "row_lease (?f r) = row_lease r" "t_claimed_by (?f r) = t_claimed_by r"
    "lease_token (?f r) = lease_token r" for r
    by (cases "t_parent r = k"; simp add: row_lease_def)+
  show "lease_inv (cascade_delete k s)"
    using assms by (auto simp: lease_inv_def ts comp_def f distinct_map inj_on_def)
  have row: "find (\<lambda>r. t_id r = j) (map ?f (filter (\<lambda>r. t_id r \<noteq> k) rs)) =
      (if j = k then None else map_option ?f (find (\<lambda>r. t_id r = j) rs))" for j rs
    by (induction rs) auto
  show "board (cascade_delete k s) = (board s)(k := None)"
    unfolding fun_eq_iff board_def task_row_of_def ts row by (simp add: bind_map_option comp_def f)
qed

lemma DeleteTask_hard_board:
  assumes "DeleteTask db k True s = Inr s'" and "lease_inv s"
  shows "lease_inv s'" and "board s' = (board s)(k := None)"
  using assms cascade_delete_board by (auto simp: DeleteTask_def split: if_splits)

end
