(* ===== verification/Authz.thy ===== *)
theory Authz
  imports Workflow
begin

text \<open>
  Authorization: the vocabulary of scopes and roles and the actor
  (\<open>internal/core/identity.go\<close>), the actions with the scope each requires and the actions a
  project-pinned token may still perform (\<open>internal/authz/action.go\<close>), and the policy
  (\<open>internal/authz/policy.go\<close>). Scopes and actions are strings in the code (a token row may
  hold any), so they are strings here; the actor of a call travels in a context, which is the
  record \<open>call_ctx\<close>.
\<close>

section \<open>Scopes and roles\<close>

definition ScopeAll :: scope where "ScopeAll = ''*''"
definition ScopeTaskRead :: scope where "ScopeTaskRead = ''task:read''"
definition ScopeTaskWrite :: scope where "ScopeTaskWrite = ''task:write''"
definition ScopeTaskTransition :: scope where "ScopeTaskTransition = ''task:transition''"
definition ScopeTaskClaim :: scope where "ScopeTaskClaim = ''task:claim''"
definition ScopeTaskDelete :: scope where "ScopeTaskDelete = ''task:delete''"
definition ScopeTaskReclaim :: scope where "ScopeTaskReclaim = ''task:reclaim''"
definition ScopeProjectRead :: scope where "ScopeProjectRead = ''project:read''"
definition ScopeProjectWrite :: scope where "ScopeProjectWrite = ''project:write''"
definition ScopeWorkflowRead :: scope where "ScopeWorkflowRead = ''workflow:read''"
definition ScopeWorkflowWrite :: scope where "ScopeWorkflowWrite = ''workflow:write''"
definition ScopeCommentWrite :: scope where "ScopeCommentWrite = ''comment:write''"
definition ScopeArtifactWrite :: scope where "ScopeArtifactWrite = ''artifact:write''"
definition ScopeEventSubscribe :: scope where "ScopeEventSubscribe = ''event:subscribe''"
definition ScopeUserAdmin :: scope where "ScopeUserAdmin = ''user:admin''"
definition ScopeTOTPAdmin :: scope where "ScopeTOTPAdmin = ''totp:admin''"
definition ScopeTokenAdmin :: scope where "ScopeTokenAdmin = ''token:admin''"
definition ScopeWebhookAdmin :: scope where "ScopeWebhookAdmin = ''webhook:admin''"
definition ScopeTenantAdmin :: scope where "ScopeTenantAdmin = ''tenant:admin''"
definition ScopeSyncAdmin :: scope where "ScopeSyncAdmin = ''sync:admin''"
definition ScopeAuditRead :: scope where "ScopeAuditRead = ''audit:read''"
definition ScopeExport :: scope where "ScopeExport = ''export''"
definition ScopeImport :: scope where "ScopeImport = ''import''"
definition ScopeGlobalAdmin :: scope where "ScopeGlobalAdmin = ''global:admin''"
definition ScopeAccountRead :: scope where "ScopeAccountRead = ''account:read''"

lemmas scope_defs = ScopeAll_def
  ScopeTaskRead_def ScopeTaskWrite_def ScopeTaskTransition_def ScopeTaskClaim_def ScopeTaskDelete_def
  ScopeTaskReclaim_def ScopeProjectRead_def ScopeProjectWrite_def ScopeWorkflowRead_def ScopeWorkflowWrite_def
  ScopeCommentWrite_def ScopeArtifactWrite_def ScopeEventSubscribe_def ScopeUserAdmin_def ScopeTOTPAdmin_def
  ScopeTokenAdmin_def ScopeWebhookAdmin_def ScopeTenantAdmin_def ScopeSyncAdmin_def ScopeAuditRead_def
  ScopeExport_def ScopeImport_def ScopeGlobalAdmin_def ScopeAccountRead_def

definition AllScopes :: "scope list" where
  "AllScopes =
    [ScopeTaskRead, ScopeTaskWrite, ScopeTaskTransition, ScopeTaskClaim,
     ScopeTaskDelete, ScopeTaskReclaim, ScopeProjectRead, ScopeProjectWrite,
     ScopeWorkflowRead, ScopeWorkflowWrite, ScopeCommentWrite, ScopeArtifactWrite,
     ScopeEventSubscribe, ScopeUserAdmin, ScopeTOTPAdmin, ScopeTokenAdmin,
     ScopeWebhookAdmin, ScopeTenantAdmin, ScopeSyncAdmin, ScopeAuditRead,
     ScopeExport, ScopeImport, ScopeGlobalAdmin, ScopeAccountRead]"

definition RoleViewer :: string where "RoleViewer = ''viewer''"
definition RoleMember :: string where "RoleMember = ''member''"
definition RoleAdmin :: string where "RoleAdmin = ''admin''"

lemmas role_defs = RoleViewer_def RoleMember_def RoleAdmin_def

definition Roles :: "string list" where "Roles = [RoleViewer, RoleMember, RoleAdmin]"
definition valid_role :: "string \<Rightarrow> bool" where "valid_role r \<longleftrightarrow> r \<in> set Roles"

definition role_scopes :: "string \<Rightarrow> scope list" where
  "role_scopes r =
    (if r = RoleViewer then
       [ScopeTaskRead, ScopeProjectRead, ScopeWorkflowRead, ScopeEventSubscribe, ScopeAuditRead]
     else if r = RoleMember then
       [ScopeTaskRead, ScopeTaskWrite, ScopeTaskTransition, ScopeTaskClaim,
        ScopeProjectRead, ScopeWorkflowRead, ScopeCommentWrite, ScopeArtifactWrite,
        ScopeEventSubscribe, ScopeAuditRead, ScopeExport]
     else if r = RoleAdmin then [ScopeAll]
     else [])"

section \<open>Actors\<close>

definition ActorUser :: string where "ActorUser = ''user''"
definition ActorAgent :: string where "ActorAgent = ''agent''"
definition ActorSystem :: string where "ActorSystem = ''system''"

definition valid_actor_kind :: "string \<Rightarrow> bool" where
  "valid_actor_kind k \<longleftrightarrow> k \<in> {ActorUser, ActorAgent, ActorSystem}"

record actor =
  a_id :: string
  a_tenant :: string
  a_kind :: string
  a_handle :: string
  a_scopes :: "scope list"
  a_role :: string
  a_token :: string
  a_project :: string

text \<open>The receiver is a pointer that may be nil.\<close>

definition HasScope :: "actor option \<Rightarrow> scope \<Rightarrow> bool" where
  "HasScope a s = (case a of None \<Rightarrow> False
     | Some a \<Rightarrow>
         if s = ScopeGlobalAdmin \<or> s = ScopeAccountRead then s \<in> set (a_scopes a)
         else if ScopeAll \<in> set (a_scopes a) then True
         else if s \<in> set (a_scopes a) then True
         else if ScopeAll \<in> set (role_scopes (a_role a)) then True
         else s \<in> set (role_scopes (a_role a)))"

definition ScopedToProject :: "actor option \<Rightarrow> bool" where
  "ScopedToProject a = (case a of None \<Rightarrow> False | Some a \<Rightarrow> a_project a \<noteq> [])"

definition SystemActor :: "string \<Rightarrow> actor" where
  "SystemActor tenant = \<lparr>a_id = ''system'', a_tenant = tenant, a_kind = ActorSystem,
     a_handle = ''system'', a_scopes = [ScopeAll], a_role = [], a_token = [], a_project = []\<rparr>"

section \<open>The context of a call\<close>

text \<open>
  The context values, each present once set: actor, tenant, source, audience and the mark of
  a process that opened the database itself. The trimming of \<open>strings.TrimSpace\<close> is a
  parameter-free test here: a scope is valid when some character is not a space.
\<close>

record call_ctx =
  c_actor :: "actor option"
  c_tenant :: "string option"
  c_source :: string
  c_direct_store :: bool

definition background :: call_ctx where
  "background = \<lparr>c_actor = None, c_tenant = None, c_source = [], c_direct_store = False\<rparr>"

definition blank :: "string \<Rightarrow> bool" where
  "blank s \<longleftrightarrow> (\<forall>c\<in>set s. c \<in> {CHR '' '', CHR 0x09, CHR 0x0A, CHR 0x0B, CHR 0x0C, CHR 0x0D})"

definition WithActor :: "call_ctx \<Rightarrow> actor option \<Rightarrow> call_ctx" where
  "WithActor ctx a =
    (let ctx = ctx\<lparr>c_actor := a\<rparr> in
     case a of None \<Rightarrow> ctx
     | Some a \<Rightarrow> if a_tenant a \<noteq> [] then ctx\<lparr>c_tenant := Some (a_tenant a)\<rparr> else ctx)"

definition RequireActor :: "call_ctx \<Rightarrow> actor res" where
  "RequireActor ctx = (case c_actor ctx of None \<Rightarrow> Inl (fail KindUnauthenticated) | Some a \<Rightarrow> Inr a)"

definition TenantFrom :: "call_ctx \<Rightarrow> string option" where
  "TenantFrom ctx = (case c_tenant ctx of None \<Rightarrow> None | Some t \<Rightarrow> if blank t then None else Some t)"

definition RequireTenant :: "call_ctx \<Rightarrow> string res" where
  "RequireTenant ctx = (case TenantFrom ctx of None \<Rightarrow> Inl (fail KindInvalid) | Some t \<Rightarrow> Inr t)"

definition SourceSystem :: string where "SourceSystem = ''system''"

definition SourceFrom :: "call_ctx \<Rightarrow> string" where
  "SourceFrom ctx = (if c_source ctx \<noteq> [] then c_source ctx else SourceSystem)"

section \<open>Actions\<close>

definition ActionTaskRead :: string where "ActionTaskRead = ''task.read''"
definition ActionTaskCreate :: string where "ActionTaskCreate = ''task.create''"
definition ActionTaskUpdate :: string where "ActionTaskUpdate = ''task.update''"
definition ActionTaskTransition :: string where "ActionTaskTransition = ''task.transition''"
definition ActionTaskClaim :: string where "ActionTaskClaim = ''task.claim''"
definition ActionTaskDelete :: string where "ActionTaskDelete = ''task.delete''"
definition ActionTaskReclaim :: string where "ActionTaskReclaim = ''task.reclaim''"
definition ActionTaskStar :: string where "ActionTaskStar = ''task.star''"
definition ActionViewArrange :: string where "ActionViewArrange = ''view.arrange''"
definition ActionFilterSave :: string where "ActionFilterSave = ''filter.save''"
definition ActionFilterManage :: string where "ActionFilterManage = ''filter.manage''"
definition ActionCalendarFeed :: string where "ActionCalendarFeed = ''calendar.feed''"
definition ActionInboxRead :: string where "ActionInboxRead = ''inbox.read''"
definition ActionTemplateTenantWrite :: string where "ActionTemplateTenantWrite = ''template.tenant.write''"
definition ActionProjectRead :: string where "ActionProjectRead = ''project.read''"
definition ActionProjectWrite :: string where "ActionProjectWrite = ''project.write''"
definition ActionWorkflowRead :: string where "ActionWorkflowRead = ''workflow.read''"
definition ActionWorkflowWrite :: string where "ActionWorkflowWrite = ''workflow.write''"
definition ActionFieldWrite :: string where "ActionFieldWrite = ''field.write''"
definition ActionCommentWrite :: string where "ActionCommentWrite = ''comment.write''"
definition ActionArtifactWrite :: string where "ActionArtifactWrite = ''artifact.write''"
definition ActionEventSubscribe :: string where "ActionEventSubscribe = ''event.subscribe''"
definition ActionAuditRead :: string where "ActionAuditRead = ''audit.read''"
definition ActionUserAdmin :: string where "ActionUserAdmin = ''user.admin''"
definition ActionTOTPAdmin :: string where "ActionTOTPAdmin = ''totp.admin''"
definition ActionTokenAdmin :: string where "ActionTokenAdmin = ''token.admin''"
definition ActionWebhookAdmin :: string where "ActionWebhookAdmin = ''webhook.admin''"
definition ActionTenantAdmin :: string where "ActionTenantAdmin = ''tenant.admin''"
definition ActionSyncAdmin :: string where "ActionSyncAdmin = ''sync.admin''"
definition ActionGlobalAdmin :: string where "ActionGlobalAdmin = ''global.admin''"
definition ActionAccountRead :: string where "ActionAccountRead = ''account.read''"
definition ActionExport :: string where "ActionExport = ''export''"
definition ActionImport :: string where "ActionImport = ''import''"
definition ActionRetentionWrite :: string where "ActionRetentionWrite = ''retention.write''"
definition ActionServerRead :: string where "ActionServerRead = ''server.read''"
definition ActionTaskExport :: string where "ActionTaskExport = ''task.export''"
definition ActionTaskImport :: string where "ActionTaskImport = ''task.import''"

lemmas action_defs =
  ActionTaskRead_def ActionTaskCreate_def ActionTaskUpdate_def ActionTaskTransition_def
  ActionTaskClaim_def ActionTaskDelete_def ActionTaskReclaim_def ActionTaskStar_def
  ActionViewArrange_def ActionFilterSave_def ActionFilterManage_def ActionCalendarFeed_def
  ActionInboxRead_def ActionTemplateTenantWrite_def ActionProjectRead_def ActionProjectWrite_def
  ActionWorkflowRead_def ActionWorkflowWrite_def ActionFieldWrite_def ActionCommentWrite_def
  ActionArtifactWrite_def ActionEventSubscribe_def ActionAuditRead_def ActionUserAdmin_def
  ActionTOTPAdmin_def ActionTokenAdmin_def ActionWebhookAdmin_def ActionTenantAdmin_def
  ActionSyncAdmin_def ActionGlobalAdmin_def ActionAccountRead_def ActionExport_def
  ActionImport_def ActionRetentionWrite_def ActionServerRead_def ActionTaskExport_def
  ActionTaskImport_def

definition actionScopes :: "(string \<times> scope) list" where
  "actionScopes =
    [(ActionTaskRead, ScopeTaskRead),
     (ActionTaskCreate, ScopeTaskWrite),
     (ActionTaskUpdate, ScopeTaskWrite),
     (ActionTaskTransition, ScopeTaskTransition),
     (ActionTaskClaim, ScopeTaskClaim),
     (ActionTaskDelete, ScopeTaskDelete),
     (ActionTaskReclaim, ScopeTaskReclaim),
     (ActionTaskStar, ScopeTaskRead),
     (ActionViewArrange, ScopeTaskRead),
     (ActionFilterSave, ScopeTaskRead),
     (ActionFilterManage, ScopeTenantAdmin),
     (ActionCalendarFeed, ScopeTaskRead),
     (ActionInboxRead, ScopeTaskRead),
     (ActionTemplateTenantWrite, ScopeTaskWrite),
     (ActionProjectRead, ScopeProjectRead),
     (ActionProjectWrite, ScopeProjectWrite),
     (ActionWorkflowRead, ScopeWorkflowRead),
     (ActionWorkflowWrite, ScopeWorkflowWrite),
     (ActionFieldWrite, ScopeProjectWrite),
     (ActionCommentWrite, ScopeCommentWrite),
     (ActionArtifactWrite, ScopeArtifactWrite),
     (ActionEventSubscribe, ScopeEventSubscribe),
     (ActionAuditRead, ScopeAuditRead),
     (ActionUserAdmin, ScopeUserAdmin),
     (ActionTOTPAdmin, ScopeTOTPAdmin),
     (ActionTokenAdmin, ScopeTokenAdmin),
     (ActionWebhookAdmin, ScopeWebhookAdmin),
     (ActionTenantAdmin, ScopeTenantAdmin),
     (ActionSyncAdmin, ScopeSyncAdmin),
     (ActionGlobalAdmin, ScopeGlobalAdmin),
     (ActionAccountRead, ScopeAccountRead),
     (ActionExport, ScopeExport),
     (ActionImport, ScopeImport),
     (ActionRetentionWrite, ScopeTenantAdmin),
     (ActionServerRead, ScopeTenantAdmin),
     (ActionTaskExport, ScopeExport),
     (ActionTaskImport, ScopeImport)]"

definition Scope :: "string \<Rightarrow> scope option" where
  "Scope a = map_of actionScopes a"

definition projectConfinable :: "string list" where
  "projectConfinable =
    [ActionTaskRead, ActionTaskCreate, ActionTaskUpdate, ActionTaskTransition,
     ActionTaskClaim, ActionTaskDelete, ActionTaskReclaim, ActionTaskStar,
     ActionProjectRead, ActionProjectWrite, ActionWorkflowRead, ActionFieldWrite,
     ActionCommentWrite, ActionArtifactWrite, ActionTaskExport, ActionTaskImport]"

definition ProjectConfinable :: "string \<Rightarrow> bool" where
  "ProjectConfinable a \<longleftrightarrow> a \<in> set projectConfinable"

definition allActions :: "string list" where
  "allActions =
    [ActionTaskRead, ActionTaskCreate, ActionTaskUpdate, ActionTaskTransition,
     ActionTaskClaim, ActionTaskDelete, ActionTaskReclaim, ActionTaskStar,
     ActionViewArrange, ActionFilterSave, ActionFilterManage, ActionCalendarFeed,
     ActionInboxRead, ActionTemplateTenantWrite, ActionProjectRead, ActionProjectWrite,
     ActionWorkflowRead, ActionWorkflowWrite, ActionFieldWrite, ActionCommentWrite,
     ActionArtifactWrite, ActionEventSubscribe, ActionAuditRead, ActionUserAdmin,
     ActionTOTPAdmin, ActionTokenAdmin, ActionWebhookAdmin, ActionTenantAdmin,
     ActionSyncAdmin, ActionGlobalAdmin, ActionAccountRead, ActionExport,
     ActionImport, ActionRetentionWrite, ActionServerRead, ActionTaskExport,
     ActionTaskImport]"

section \<open>The policy\<close>

record resource =
  r_tenant :: string
  r_project :: string
  r_owner :: string

abbreviation no_resource :: resource where
  "no_resource \<equiv> \<lparr>r_tenant = [], r_project = [], r_owner = []\<rparr>"

definition deny :: "string \<Rightarrow> resource \<Rightarrow> goerr" where
  "deny action r =
    (let e = WithDetail (fail KindForbidden) ''action'' (DStr action);
         e = (case Scope action of None \<Rightarrow> e | Some s \<Rightarrow> WithDetail e ''scope'' (DStr s));
         e = (if r_project r \<noteq> [] then WithDetail e ''project_id'' (DStr (r_project r)) else e)
     in if r_owner r \<noteq> [] then WithDetail e ''owner_id'' (DStr (r_owner r)) else e)"

definition Can :: "actor option \<Rightarrow> string \<Rightarrow> resource \<Rightarrow> unit res" where
  "Can a action r = (case a of None \<Rightarrow> Inl (fail KindUnauthenticated)
     | Some act \<Rightarrow>
         if action = ActionGlobalAdmin then Inl (deny action r)
         else if action = ActionAccountRead then Inl (deny action r)
         else if r_tenant r \<noteq> [] \<and> r_tenant r \<noteq> a_tenant act then Inl (fail KindNotFound)
         else if ScopedToProject a \<and> \<not> ProjectConfinable action then Inl (deny action r)
         else if ScopedToProject a \<and> r_project r \<noteq> [] \<and> r_project r \<noteq> a_project act
           then Inl (deny action r)
         else case Scope action of None \<Rightarrow> Inl (deny action r)
           | Some s \<Rightarrow> if HasScope a s then Inr () else Inl (deny action r))"

record standing =
  direct_store :: bool
  global_admin :: bool

definition CanGlobal :: "actor option \<Rightarrow> standing \<Rightarrow> unit res" where
  "CanGlobal a st = (case a of None \<Rightarrow> Inl (fail KindUnauthenticated)
     | Some act \<Rightarrow>
         if direct_store st \<and> a_token act = [] then Inr ()
         else if ScopedToProject a then Inl (deny ActionGlobalAdmin no_resource)
         else if \<not> global_admin st then Inl (deny ActionGlobalAdmin no_resource)
         else if a_token act \<noteq> [] \<and> \<not> HasScope a ScopeGlobalAdmin
           then Inl (deny ActionGlobalAdmin no_resource)
         else Inr ())"

definition CanReadAccount :: "actor option \<Rightarrow> unit res" where
  "CanReadAccount a = (case a of None \<Rightarrow> Inl (fail KindUnauthenticated)
     | Some act \<Rightarrow>
         if a_token act = [] then Inr ()
         else if ScopedToProject a then Inl (deny ActionAccountRead no_resource)
         else if \<not> HasScope a ScopeAccountRead then Inl (deny ActionAccountRead no_resource)
         else Inr ())"

definition Allowed :: "actor option \<Rightarrow> string \<Rightarrow> resource \<Rightarrow> bool" where
  "Allowed a action r \<longleftrightarrow> Can a action r = Inr ()"

section \<open>Lemmas\<close>

lemma deny_kind: "KindOf (Some (deny action r)) = Some KindForbidden"
  by (auto simp: deny_def Let_def split: option.splits)

lemma Can_Some_iff:
  "Can (Some a) action r = Inr () \<longleftrightarrow>
    action \<noteq> ActionGlobalAdmin \<and> action \<noteq> ActionAccountRead \<and>
    (r_tenant r = [] \<or> r_tenant r = a_tenant a) \<and>
    (a_project a \<noteq> [] \<longrightarrow> ProjectConfinable action \<and> (r_project r = [] \<or> r_project r = a_project a)) \<and>
    (\<exists>s. Scope action = Some s \<and> HasScope (Some a) s)"
  by (auto simp: Can_def ScopedToProject_def split: option.splits)

lemma Can_error_kind:
  "Can a action r = Inl e \<Longrightarrow> KindOf (Some e) \<in> Some ` {KindUnauthenticated, KindForbidden, KindNotFound}"
  using deny_kind [of action r] by (auto simp: Can_def split: option.splits if_splits)

text \<open>Every action has a scope, and the vocabularies list each name once.\<close>

lemma dom_actionScopes: "dom (map_of actionScopes) = set allActions"
  unfolding dom_map_of_conv_image_fst actionScopes_def allActions_def
  by (simp only: list.set list.simps image_insert image_empty fst_conv insert_commute)

lemma Scope_cases: "Scope action = Some s \<Longrightarrow> (action, s) \<in> set actionScopes"
  unfolding Scope_def by (rule map_of_SomeD)

text \<open>Finite facts about the tables, by evaluation.\<close>

definition confinable_scopes :: "scope list" where
  "confinable_scopes =
    [ScopeTaskRead, ScopeTaskWrite, ScopeTaskTransition, ScopeTaskClaim, ScopeTaskDelete, ScopeTaskReclaim,
     ScopeProjectRead, ScopeProjectWrite, ScopeWorkflowRead, ScopeCommentWrite, ScopeArtifactWrite,
     ScopeExport, ScopeImport]"

definition tenant_wide_actions :: "string list" where
  "tenant_wide_actions =
    [ActionExport, ActionImport, ActionTokenAdmin, ActionUserAdmin, ActionTenantAdmin, ActionAuditRead]"

lemma confinable_table:
  "list_all (\<lambda>b. (case Scope b of None \<Rightarrow> False | Some s \<Rightarrow> List.member confinable_scopes s) \<and>
     \<not> List.member tenant_wide_actions b) projectConfinable"
  by code_simp

lemma distinct_actionScopes: "distinct (map fst actionScopes)"
  by code_simp

lemma Scope_iff: "Scope action = Some s \<longleftrightarrow> (action, s) \<in> set actionScopes"
  unfolding Scope_def using distinct_actionScopes by (metis map_of_eq_Some_iff)

lemma global_scopes_table:
  "filter (\<lambda>(b, s). s = ScopeGlobalAdmin \<or> s = ScopeAccountRead) actionScopes
    = [(ActionGlobalAdmin, ScopeGlobalAdmin), (ActionAccountRead, ScopeAccountRead)]"
  by code_simp

definition role_actions :: "string \<Rightarrow> string list" where
  "role_actions r = map fst (filter (\<lambda>(b, s). List.member (role_scopes r) s) actionScopes)"

text \<open>
  For a role that lists its scopes, what an unpinned actor with no scopes of its own may do in
  its tenant is what the table gives for those scopes.
\<close>

lemma Allowed_role:
  assumes "a_scopes a = []" and "a_project a = []" and "r_tenant r = [] \<or> r_tenant r = a_tenant a"
    and "list_all (\<lambda>s. s \<noteq> ScopeAll \<and> s \<noteq> ScopeGlobalAdmin \<and> s \<noteq> ScopeAccountRead) (role_scopes (a_role a))"
  shows "Allowed (Some a) action r \<longleftrightarrow> action \<in> set (role_actions (a_role a))"
proof -
  have no: "ScopeAll \<notin> set (role_scopes (a_role a))"
    "ScopeGlobalAdmin \<notin> set (role_scopes (a_role a))" "ScopeAccountRead \<notin> set (role_scopes (a_role a))"
    using assms(4) by (auto simp: list_all_iff)
  have "(ActionGlobalAdmin, ScopeGlobalAdmin) \<in> set actionScopes"
    "(ActionAccountRead, ScopeAccountRead) \<in> set actionScopes"
    by (simp_all add: actionScopes_def)
  then have sc: "Scope ActionGlobalAdmin = Some ScopeGlobalAdmin" "Scope ActionAccountRead = Some ScopeAccountRead"
    by (simp_all add: Scope_iff)
  have "HasScope (Some a) s \<longleftrightarrow> s \<in> set (role_scopes (a_role a))" for s
    using assms(1) no by (auto simp: HasScope_def)
  then have "Allowed (Some a) action r \<longleftrightarrow> action \<noteq> ActionGlobalAdmin \<and> action \<noteq> ActionAccountRead \<and>
      (\<exists>s. Scope action = Some s \<and> s \<in> set (role_scopes (a_role a)))"
    using assms(2,3) by (simp add: Allowed_def Can_Some_iff)
  also have "\<dots> \<longleftrightarrow> (\<exists>s. Scope action = Some s \<and> s \<in> set (role_scopes (a_role a)))"
    using sc no by auto
  also have "\<dots> \<longleftrightarrow> action \<in> set (role_actions (a_role a))"
    unfolding Scope_iff role_actions_def by force
  finally show ?thesis .
qed

lemma role_actions_viewer:
  "role_actions RoleViewer =
    [ActionTaskRead, ActionTaskStar, ActionViewArrange, ActionFilterSave, ActionCalendarFeed,
     ActionInboxRead, ActionProjectRead, ActionWorkflowRead, ActionEventSubscribe, ActionAuditRead]"
  by code_simp

lemma role_actions_member:
  "role_actions RoleMember =
    [ActionTaskRead, ActionTaskCreate, ActionTaskUpdate, ActionTaskTransition, ActionTaskClaim, ActionTaskStar,
     ActionViewArrange, ActionFilterSave, ActionCalendarFeed, ActionInboxRead, ActionTemplateTenantWrite,
     ActionProjectRead, ActionWorkflowRead, ActionCommentWrite, ActionArtifactWrite, ActionEventSubscribe,
     ActionAuditRead, ActionExport, ActionTaskExport]"
  by code_simp

lemma role_scopes_plain:
  "list_all (\<lambda>s. s \<noteq> ScopeAll \<and> s \<noteq> ScopeGlobalAdmin \<and> s \<noteq> ScopeAccountRead)
     (role_scopes RoleViewer @ role_scopes RoleMember)"
  by code_simp

section \<open>Properties\<close>

text \<open>
  C31: Confinement of a project-pinned actor and of tenants: whatever scopes it carries, an
  actor pinned to a project is only ever allowed actions whose scope lies in the list
  \<open>confinable_scopes\<close>, which holds no administrative scope, and none of the actions that reach
  the whole tenant (exporting or importing it, minting tokens, reading its audit log); only on
  its own project when the resource names one, and never on a resource of another tenant.
\<close>

theorem Can_pinned_confined:
  assumes "Can (Some a) action r = Inr ()" and "a_project a \<noteq> []"
  shows "(\<exists>s\<in>set confinable_scopes. Scope action = Some s \<and> HasScope (Some a) s) \<and>
    action \<notin> set tenant_wide_actions \<and>
    (r_project r \<noteq> [] \<longrightarrow> r_project r = a_project a) \<and> (r_tenant r \<noteq> [] \<longrightarrow> r_tenant r = a_tenant a)"
proof -
  have "action \<in> set projectConfinable" and "\<exists>s. Scope action = Some s \<and> HasScope (Some a) s"
    using assms by (auto simp: Can_Some_iff ProjectConfinable_def)
  with confinable_table assms show ?thesis
    by (fastforce simp: list_all_iff Can_Some_iff)
qed

definition pinned_agent :: actor where
  "pinned_agent = \<lparr>a_id = ''bot'', a_tenant = ''t1'', a_kind = ActorAgent, a_handle = ''bot'',
     a_scopes = [ScopeAll], a_role = [], a_token = ''tok'', a_project = ''infra''\<rparr>"

theorem Can_pinned_confined_witness:
  "Can (Some pinned_agent) ActionTaskClaim \<lparr>r_tenant = ''t1'', r_project = ''infra'', r_owner = []\<rparr> = Inr () \<and>
   (\<exists>s. Scope ActionTaskClaim = Some s \<and> HasScope (Some pinned_agent) s)"
proof -
  have 1: "Can (Some pinned_agent) ActionTaskClaim \<lparr>r_tenant = ''t1'', r_project = ''infra'', r_owner = []\<rparr> = Inr ()"
    by code_simp
  have "a_project pinned_agent \<noteq> []" by (simp add: pinned_agent_def)
  with 1 Can_pinned_confined [OF 1] show ?thesis by blast
qed

text \<open>
  C32: No wildcard carries the two installation-wide authorities: a call made with a token is
  admitted as a global admin, or to its owner's account, only when the token names that scope
  and is not pinned, whatever role or other scopes it has and however it reached the store; and
  no scope or role reaches either through \<open>Can\<close>.
\<close>

theorem wildcard_never_global:
  assumes "a_token a \<noteq> []"
  shows "(CanGlobal (Some a) st = Inr () \<longleftrightarrow>
      a_project a = [] \<and> global_admin st \<and> ScopeGlobalAdmin \<in> set (a_scopes a)) \<and>
    (CanReadAccount (Some a) = Inr () \<longleftrightarrow> a_project a = [] \<and> ScopeAccountRead \<in> set (a_scopes a)) \<and>
    \<not> Allowed (Some a) ActionGlobalAdmin r \<and> \<not> Allowed (Some a) ActionAccountRead r"
  using assms
  by (auto simp: CanGlobal_def CanReadAccount_def Allowed_def Can_Some_iff HasScope_def ScopedToProject_def)

theorem wildcard_never_global_witness:
  "CanGlobal (Some (pinned_agent\<lparr>a_project := []\<rparr>)) \<lparr>direct_store = True, global_admin = True\<rparr> \<noteq> Inr ()"
  using wildcard_never_global
    [of "pinned_agent\<lparr>a_project := []\<rparr>" "\<lparr>direct_store = True, global_admin = True\<rparr>" no_resource]
  by (simp add: pinned_agent_def scope_defs)

text \<open>
  C33: What a role allows, exactly: an unpinned viewer with no scopes of its own may perform the
  ten reading actions in its tenant and no other; a member adds the work on tasks, comments and
  artifacts and the exports, but neither deletes nor takes a lease away from its holder, nor
  administers anything.
\<close>

theorem role_authority:
  assumes "a_scopes a = []" and "a_project a = []" and "r_tenant r = [] \<or> r_tenant r = a_tenant a"
  shows "(a_role a = RoleViewer \<longrightarrow> (Allowed (Some a) action r \<longleftrightarrow>
      action \<in> {ActionTaskRead, ActionTaskStar, ActionViewArrange, ActionFilterSave, ActionCalendarFeed,
        ActionInboxRead, ActionProjectRead, ActionWorkflowRead, ActionEventSubscribe, ActionAuditRead})) \<and>
    (a_role a = RoleMember \<longrightarrow> (Allowed (Some a) action r \<longleftrightarrow>
      action \<in> {ActionTaskRead, ActionTaskStar, ActionViewArrange, ActionFilterSave, ActionCalendarFeed,
        ActionInboxRead, ActionProjectRead, ActionWorkflowRead, ActionEventSubscribe, ActionAuditRead,
        ActionTaskCreate, ActionTaskUpdate, ActionTaskTransition, ActionTaskClaim, ActionCommentWrite,
        ActionArtifactWrite, ActionTemplateTenantWrite, ActionExport, ActionTaskExport}))"
proof (intro conjI impI)
  assume "a_role a = RoleViewer"
  then show "Allowed (Some a) action r \<longleftrightarrow>
      action \<in> {ActionTaskRead, ActionTaskStar, ActionViewArrange, ActionFilterSave, ActionCalendarFeed,
        ActionInboxRead, ActionProjectRead, ActionWorkflowRead, ActionEventSubscribe, ActionAuditRead}"
    using Allowed_role [OF assms, of action] role_scopes_plain role_actions_viewer by simp
next
  assume "a_role a = RoleMember"
  then show "Allowed (Some a) action r \<longleftrightarrow>
      action \<in> {ActionTaskRead, ActionTaskStar, ActionViewArrange, ActionFilterSave, ActionCalendarFeed,
        ActionInboxRead, ActionProjectRead, ActionWorkflowRead, ActionEventSubscribe, ActionAuditRead,
        ActionTaskCreate, ActionTaskUpdate, ActionTaskTransition, ActionTaskClaim, ActionCommentWrite,
        ActionArtifactWrite, ActionTemplateTenantWrite, ActionExport, ActionTaskExport}"
    using Allowed_role [OF assms, of action] role_scopes_plain role_actions_member by auto
qed

definition viewer_user :: actor where
  "viewer_user = \<lparr>a_id = ''u1'', a_tenant = ''t1'', a_kind = ActorUser, a_handle = ''eve'',
     a_scopes = [], a_role = RoleViewer, a_token = [], a_project = []\<rparr>"

theorem role_authority_witness:
  "Allowed (Some viewer_user) ActionTaskRead no_resource"
  using role_authority [of viewer_user no_resource ActionTaskRead]
  by (simp add: viewer_user_def)

end
