(* ===== verification/Mutation.thy ===== *)
theory Mutation
  imports Task_Store Authz
begin

text \<open>
  One write transaction of the service (\<open>internal/service/tx.go\<close>, \<open>local.go\<close>): the mutation
  that queues events, audit entries and inbox notes while it runs, the inbox it resolves them
  into (\<open>inbox.go\<close>), and the commit that makes all of it visible together or not at all.
  What the outside world supplies to a call is the record \<open>env\<close>: the reading of the service's
  clock, that of the store's clock during the transaction, a minted lease token and the
  identifiers the generator hands out.
\<close>

section \<open>The environment and the mutation\<close>

record env =
  e_now :: time
  e_db :: time
  e_token :: string
  e_ids :: "nat \<Rightarrow> string"
  e_policy :: policy

record inbox_note =
  nt_recipient :: string
  nt_kind :: string
  nt_task :: task
  nt_comment :: string
  nt_from :: string
  nt_to :: string

record mutation =
  m_store :: store
  m_env :: env
  m_actor :: actor
  m_source :: string
  m_next :: nat
  m_events :: "event list"
  m_audits :: "audit list"
  m_notes :: "inbox_note list"

abbreviation m_now :: "mutation \<Rightarrow> time" where "m_now m \<equiv> e_now (m_env m)"
abbreviation m_db :: "mutation \<Rightarrow> time" where "m_db m \<equiv> e_db (m_env m)"

definition new_id :: "mutation \<Rightarrow> mutation \<times> string" where
  "new_id m = (m\<lparr>m_next := m_next m + 1\<rparr>, e_ids (m_env m) (m_next m))"

text \<open>Running a statement of the store inside the mutation.\<close>

definition on_store :: "(store \<Rightarrow> (store \<times> 'a) res) \<Rightarrow> mutation \<Rightarrow> (mutation \<times> 'a) res" where
  "on_store f m = rbind (f (m_store m)) (\<lambda>(s, x). Inr (m\<lparr>m_store := s\<rparr>, x))"

section \<open>Events and audit entries\<close>

definition withActor :: "actor \<Rightarrow> (string \<times> detail) list \<Rightarrow> (string \<times> detail) list" where
  "withActor a payload =
    (if a_handle a = [] then payload
     else if map_of payload ''actor_handle'' \<noteq> None then payload
     else payload @ [(''actor_handle'', DStr (a_handle a))])"

definition Event :: "string \<Rightarrow> string \<Rightarrow> string \<Rightarrow> string \<Rightarrow> (string \<times> detail) list \<Rightarrow> mutation \<Rightarrow> mutation" where
  "Event typ subject_type subject project payload m =
    m\<lparr>m_events := m_events m @ [\<lparr>ev_type = typ, ev_subject_type = subject_type, ev_subject = subject,
      ev_project = project, ev_actor = a_id (m_actor m), ev_payload = withActor (m_actor m) payload,
      ev_at = m_now m\<rparr>]\<rparr>"

definition Audit :: "string \<Rightarrow> string \<Rightarrow> string \<Rightarrow> snapshot option \<Rightarrow> snapshot option \<Rightarrow> mutation \<Rightarrow> mutation" where
  "Audit action subject_type subject before after m =
    m\<lparr>m_audits := m_audits m @ [\<lparr>au_action = action, au_subject_type = subject_type, au_subject = subject,
      au_actor = a_id (m_actor m), au_before = before, au_after = after, au_source = m_source m,
      au_at = m_now m\<rparr>]\<rparr>"

definition refOf :: "store \<Rightarrow> snapshot option \<Rightarrow> string" where
  "refOf s v = (case v of Some (TaskSnap t) \<Rightarrow> task_ref_text s t | _ \<Rightarrow> [])"

definition withRef ::
  "store \<Rightarrow> (string \<times> detail) list \<Rightarrow> snapshot option \<Rightarrow> snapshot option \<Rightarrow> (string \<times> detail) list" where
  "withRef s payload before after =
    (if map_of payload ''ref'' \<noteq> None then payload
     else let r = (if refOf s after = [] then refOf s before else refOf s after)
          in if r = [] then payload else payload @ [(''ref'', DStr r)])"

definition Record ::
  "string \<Rightarrow> string \<Rightarrow> string \<Rightarrow> string \<Rightarrow> snapshot option \<Rightarrow> snapshot option \<Rightarrow> (string \<times> detail) list \<Rightarrow>
    mutation \<Rightarrow> mutation" where
  "Record action typ subject project before after payload m =
    Event typ ''task'' subject project (withRef (m_store m) payload before after)
      (Audit action ''task'' subject before after m)"

section \<open>Inbox notes\<close>

definition InboxMention :: string where "InboxMention = ''mention''"
definition InboxAssigned :: string where "InboxAssigned = ''assigned''"
definition InboxStatus :: string where "InboxStatus = ''status''"
definition InboxComment :: string where "InboxComment = ''comment''"

definition inboxKinds :: "string list" where
  "inboxKinds = [InboxMention, InboxAssigned, InboxStatus, InboxComment]"

text \<open>\<open>slices.Index\<close>, or the length when absent.\<close>

fun index_of :: "'a \<Rightarrow> 'a list \<Rightarrow> nat" where
  "index_of x [] = 0"
| "index_of x (y # ys) = (if x = y then 0 else Suc (index_of x ys))"

definition Rank :: "string \<Rightarrow> nat" where "Rank k = index_of k inboxKinds"

definition task_note :: "task \<Rightarrow> string \<Rightarrow> inbox_note" where
  "task_note t kind = \<lparr>nt_recipient = [], nt_kind = kind, nt_task = t, nt_comment = [], nt_from = [], nt_to = []\<rparr>"

definition notify :: "inbox_note \<Rightarrow> string list \<Rightarrow> mutation \<Rightarrow> mutation" where
  "notify n recipients m =
    m\<lparr>m_notes := m_notes m @ map (\<lambda>r. n\<lparr>nt_recipient := r\<rparr>) (filter (\<lambda>r. r \<noteq> []) recipients)\<rparr>"

text \<open>
  \<open>mentionPattern\<close>: an at-sign at the start or after a byte that is no word character, at-sign
  or dot, then a handle. \<open>mentions_from True\<close> stands at the start of the text.
\<close>

definition word_char :: "char \<Rightarrow> bool" where
  "word_char c \<longleftrightarrow> is_letter c \<or> is_digit c \<or> c = CHR ''_''"

definition handle_char :: "char \<Rightarrow> bool" where
  "handle_char c \<longleftrightarrow> word_char c \<or> c = CHR ''.'' \<or> c = CHR ''-''"

definition handle_start :: "string \<Rightarrow> bool" where
  "handle_start s = (case s of [] \<Rightarrow> False | c # _ \<Rightarrow> is_letter c \<or> is_digit c)"

function mentions_from :: "bool \<Rightarrow> string \<Rightarrow> string list" where
  "mentions_from start [] = []"
| "mentions_from start (x # xs) =
    (if start \<and> x = CHR ''@'' \<and> handle_start xs
       then takeWhile handle_char xs # mentions_from False (dropWhile handle_char xs)
     else if \<not> word_char x \<and> x \<noteq> CHR ''@'' \<and> x \<noteq> CHR ''.'' \<and> xs \<noteq> [] \<and> hd xs = CHR ''@'' \<and> handle_start (tl xs)
       then takeWhile handle_char (tl xs) # mentions_from False (dropWhile handle_char (tl xs))
     else mentions_from False xs)"
  by pat_completeness auto
termination
proof (relation "measure (\<lambda>(_, s). length s)", goal_cases)
  case 1
  then show ?case by simp
next
  case (2 start x xs)
  then show ?case by (simp add: le_imp_less_Suc length_dropWhile_le)
next
  case (3 start x xs)
  have "length (dropWhile handle_char (tl xs)) \<le> length (tl xs)" by (rule length_dropWhile_le)
  then show ?case by simp
next
  case 4
  then show ?case by simp
qed

definition trim_handle :: "string \<Rightarrow> string" where
  "trim_handle h = ToLower (rev (dropWhile (\<lambda>c. c \<in> {CHR ''.'', CHR ''-'', CHR ''_''}) (rev h)))"

definition mentions :: "string \<Rightarrow> string list" where
  "mentions text = rev (remdups (rev (filter (\<lambda>h. h \<noteq> []) (map trim_handle (mentions_from True text)))))"

definition newMentions :: "string \<Rightarrow> string \<Rightarrow> string list" where
  "newMentions text earlier = filter (\<lambda>h. h \<notin> set (mentions earlier)) (mentions text)"

definition notifyMentions :: "inbox_note \<Rightarrow> string \<Rightarrow> string \<Rightarrow> mutation \<Rightarrow> mutation" where
  "notifyMentions n text earlier m =
    fold (\<lambda>h m. case GetActorByHandle (m_store m) h of
        Inl _ \<Rightarrow> m
      | Inr a \<Rightarrow> notify (n\<lparr>nt_kind := InboxMention\<rparr>) [ac_id a] m) (newMentions text earlier) m"

definition maxStarrers :: nat where "maxStarrers = 5000"

definition TaskStarrers :: "store \<Rightarrow> string \<Rightarrow> string list" where
  "TaskStarrers s k = take maxStarrers (sort (map snd (filter (\<lambda>(t, _). t = k) (stars s))))"

definition notifyComment :: "task \<Rightarrow> string \<Rightarrow> string \<Rightarrow> mutation \<Rightarrow> mutation" where
  "notifyComment t comment_id body m =
    (let n = (task_note t [])\<lparr>nt_comment := comment_id\<rparr>;
         m = notifyMentions n body [] m
     in notify (n\<lparr>nt_kind := InboxComment\<rparr>) (t_assignee t # TaskStarrers (m_store m) (t_id t)) m)"

definition notifyStatus :: "task \<Rightarrow> string \<Rightarrow> string \<Rightarrow> mutation \<Rightarrow> mutation" where
  "notifyStatus t from to m =
    (if from = to then m
     else notify ((task_note t InboxStatus)\<lparr>nt_from := from, nt_to := to\<rparr>) [t_assignee t] m)"

definition notifyAssigned :: "task \<Rightarrow> mutation \<Rightarrow> mutation" where
  "notifyAssigned t m = notify (task_note t InboxAssigned) [t_assignee t] m"

section \<open>Delivering the notes\<close>

definition systemActorID :: string where "systemActorID = ''system''"

definition Mutes :: "store \<Rightarrow> string \<Rightarrow> string \<Rightarrow> bool" where
  "Mutes s recipient kind \<longleftrightarrow> (recipient, kind) \<in> set (mutes s)"

definition eligibleNotes :: "mutation \<Rightarrow> inbox_note list" where
  "eligibleNotes m = filter (\<lambda>n.
      nt_recipient n \<noteq> a_id (m_actor m) \<and> nt_recipient n \<noteq> systemActorID \<and>
      actor_exists (m_store m) (nt_recipient n) \<and>
      \<not> Mutes (m_store m) (nt_recipient n) (nt_kind n)) (m_notes m)"

text \<open>\<open>best\<close> and \<open>order\<close> of the loop as one list: the strongest note per recipient and task.\<close>

definition note_key :: "inbox_note \<Rightarrow> string \<times> string" where
  "note_key n = (nt_recipient n, t_id (nt_task n))"

fun place :: "inbox_note \<Rightarrow> inbox_note list \<Rightarrow> inbox_note list" where
  "place n [] = [n]"
| "place n (b # bs) =
    (if note_key b = note_key n then (if Rank (nt_kind n) < Rank (nt_kind b) then n else b) # bs
     else b # place n bs)"

definition strongest :: "inbox_note list \<Rightarrow> inbox_note list" where
  "strongest ns = fold place ns []"

definition note_item :: "mutation \<Rightarrow> string \<Rightarrow> inbox_note \<Rightarrow> inbox_item" where
  "note_item m k n = \<lparr>in_id = k, in_recipient = nt_recipient n, in_kind = nt_kind n, in_task = t_id (nt_task n),
     in_actor = a_id (m_actor m), in_comment = nt_comment n, in_from = nt_from n, in_to = nt_to n,
     in_created = m_now m, in_read = None\<rparr>"

definition create_item :: "inbox_note \<Rightarrow> mutation \<Rightarrow> mutation" where
  "create_item n m = (let (m, k) = new_id m;  s = m_store m
     in m\<lparr>m_store := s\<lparr>inbox := inbox s @ [note_item m k n]\<rparr>\<rparr>)"

definition EventInboxUpdated :: string where "EventInboxUpdated = ''inbox.updated''"

definition deliverInbox :: "mutation \<Rightarrow> mutation" where
  "deliverInbox m =
    (case strongest (eligibleNotes m) of
       [] \<Rightarrow> m
     | b # bs \<Rightarrow>
         let t = nt_task b; m = fold create_item (b # bs) m
         in Event EventInboxUpdated ''inbox'' (t_id t) (t_project t)
              [(''recipients'', DStrs (rev (remdups (rev (map nt_recipient (b # bs)))))),
               (''ref'', DStr (task_ref_text (m_store m) t)), (''task_id'', DStr (t_id t))] m)"

section \<open>Committing\<close>

text \<open>\<open>flush\<close>: the notes, then the audit entries, then the events, in the same transaction.\<close>

definition flush :: "mutation \<Rightarrow> store" where
  "flush m =
    (let m = deliverInbox m; s = m_store m
     in s\<lparr>audits := audits s @ m_audits m, events := events s @ m_events m\<rparr>)"

definition begin_tx :: "env \<Rightarrow> call_ctx \<Rightarrow> actor \<Rightarrow> store \<Rightarrow> mutation" where
  "begin_tx e ctx a s = \<lparr>m_store = s, m_env = e, m_actor = a, m_source = SourceFrom ctx, m_next = 0,
     m_events = [], m_audits = [], m_notes = []\<rparr>"

definition write_tx ::
  "env \<Rightarrow> call_ctx \<Rightarrow> actor \<Rightarrow> (mutation \<Rightarrow> (mutation \<times> 'a) res) \<Rightarrow> store \<Rightarrow> store \<times> 'a res" where
  "write_tx e ctx a f s = (case f (begin_tx e ctx a s) of
     Inl err \<Rightarrow> (s, Inl err)
   | Inr (m, x) \<Rightarrow> (flush m, Inr x))"

definition authorize :: "call_ctx \<Rightarrow> string \<Rightarrow> resource \<Rightarrow> actor res" where
  "authorize ctx action r =
    rbind (RequireActor ctx) (\<lambda>a.
      let r = (if r_tenant r = [] then r\<lparr>r_tenant := a_tenant a\<rparr> else r)
      in rbind (Can (Some a) action r) (\<lambda>_. Inr a))"

text \<open>Every task of the tables belongs to the tenant the call acts in.\<close>

definition task_resource :: "actor \<Rightarrow> task \<Rightarrow> resource" where
  "task_resource a t = \<lparr>r_tenant = a_tenant a, r_project = t_project t, r_owner = t_creator t\<rparr>"

definition authorizeTask :: "call_ctx \<Rightarrow> string \<Rightarrow> task \<Rightarrow> unit res" where
  "authorizeTask ctx action t =
    rbind (RequireActor ctx) (\<lambda>a. rbind (authorize ctx action (task_resource a t)) (\<lambda>_. Inr ()))"

section \<open>What the bookkeeping leaves alone\<close>

lemma on_store_Inr_iff:
  "on_store f m = Inr (m', x) \<longleftrightarrow> (\<exists>s. f (m_store m) = Inr (s, x) \<and> m' = m\<lparr>m_store := s\<rparr>)"
  by (auto simp: on_store_def rbind_Inr_iff)

lemma Event_frame [simp, frame_simps]:
  "m_store (Event t st k p pl m) = m_store m" "m_env (Event t st k p pl m) = m_env m"
  "m_actor (Event t st k p pl m) = m_actor m" "m_source (Event t st k p pl m) = m_source m"
  "m_next (Event t st k p pl m) = m_next m" "m_audits (Event t st k p pl m) = m_audits m"
  "m_notes (Event t st k p pl m) = m_notes m"
  by (simp_all add: Event_def)

lemma Audit_frame [simp, frame_simps]:
  "m_store (Audit a st k b af m) = m_store m" "m_env (Audit a st k b af m) = m_env m"
  "m_actor (Audit a st k b af m) = m_actor m" "m_source (Audit a st k b af m) = m_source m"
  "m_next (Audit a st k b af m) = m_next m" "m_events (Audit a st k b af m) = m_events m"
  "m_notes (Audit a st k b af m) = m_notes m"
  by (simp_all add: Audit_def)

lemma Record_frame [simp, frame_simps]:
  "m_store (Record a t k p b af pl m) = m_store m" "m_env (Record a t k p b af pl m) = m_env m"
  "m_actor (Record a t k p b af pl m) = m_actor m" "m_source (Record a t k p b af pl m) = m_source m"
  "m_next (Record a t k p b af pl m) = m_next m" "m_notes (Record a t k p b af pl m) = m_notes m"
  by (simp_all add: Record_def)

lemma Record_queues:
  "length (m_audits (Record a t k p b af pl m)) = Suc (length (m_audits m))"
  "length (m_events (Record a t k p b af pl m)) = Suc (length (m_events m))"
  by (simp_all add: Record_def Event_def Audit_def)

lemma notify_frame [simp, frame_simps]:
  "m_store (notify n rs m) = m_store m" "m_env (notify n rs m) = m_env m" "m_actor (notify n rs m) = m_actor m"
  "m_source (notify n rs m) = m_source m" "m_next (notify n rs m) = m_next m"
  "m_audits (notify n rs m) = m_audits m" "m_events (notify n rs m) = m_events m"
  by (simp_all add: notify_def)

text \<open>Two mutations that differ only in their notes.\<close>

definition notes_only :: "mutation \<Rightarrow> mutation \<Rightarrow> bool" where
  "notes_only m m' \<longleftrightarrow> m' = m\<lparr>m_notes := m_notes m'\<rparr>"

lemma notes_only_notify: "notes_only m (notify n rs m)"
  by (simp add: notes_only_def notify_def)

lemma notes_only_trans: "notes_only m m' \<Longrightarrow> notes_only m' m'' \<Longrightarrow> notes_only m m''"
  by (cases m, cases m', cases m'') (simp add: notes_only_def)

lemma notes_only_refl: "notes_only m m"
  by (simp add: notes_only_def)

lemma notes_only_notifyMentions: "notes_only m (notifyMentions n text earlier m)"
proof -
  let ?f = "\<lambda>h m. case GetActorByHandle (m_store m) h of Inl _ \<Rightarrow> m
      | Inr a \<Rightarrow> notify (n\<lparr>nt_kind := InboxMention\<rparr>) [ac_id a] m"
  have step: "notes_only m (?f h m)" for h m
    by (simp add: notes_only_notify notes_only_refl split: sum.split)
  have "notes_only m (fold ?f hs m)" for hs
    by (induction hs arbitrary: m) (auto intro: notes_only_refl notes_only_trans [OF step])
  then show ?thesis unfolding notifyMentions_def .
qed

lemma notes_only_notifyComment: "notes_only m (notifyComment t c b m)"
  unfolding notifyComment_def Let_def
  by (rule notes_only_trans [OF notes_only_notifyMentions notes_only_notify])

lemma notes_only_notifyStatus: "notes_only m (notifyStatus t a b m)"
  by (simp add: notifyStatus_def notes_only_notify notes_only_refl)

lemma notes_only_notifyAssigned: "notes_only m (notifyAssigned t m)"
  by (simp add: notifyAssigned_def notes_only_notify)

lemma notes_only_frame:
  assumes "notes_only m m'"
  shows "m_store m' = m_store m \<and> m_env m' = m_env m \<and> m_actor m' = m_actor m \<and> m_source m' = m_source m \<and>
    m_next m' = m_next m \<and> m_audits m' = m_audits m \<and> m_events m' = m_events m"
  using assms by (cases m, cases m') (simp add: notes_only_def)

lemmas notifyComment_frame [simp, frame_simps] = notes_only_frame [OF notes_only_notifyComment, THEN conjunct1]
  notes_only_frame [OF notes_only_notifyComment, THEN conjunct2, THEN conjunct1]
  notes_only_frame [OF notes_only_notifyComment, THEN conjunct2, THEN conjunct2, THEN conjunct1]

lemmas notifyStatus_frame [simp, frame_simps] = notes_only_frame [OF notes_only_notifyStatus, THEN conjunct1]
  notes_only_frame [OF notes_only_notifyStatus, THEN conjunct2, THEN conjunct1]
  notes_only_frame [OF notes_only_notifyStatus, THEN conjunct2, THEN conjunct2, THEN conjunct1]

lemmas notifyAssigned_frame [simp, frame_simps] = notes_only_frame [OF notes_only_notifyAssigned, THEN conjunct1]
  notes_only_frame [OF notes_only_notifyAssigned, THEN conjunct2, THEN conjunct1]
  notes_only_frame [OF notes_only_notifyAssigned, THEN conjunct2, THEN conjunct2, THEN conjunct1]

lemmas notifyMentions_frame [simp, frame_simps] = notes_only_frame [OF notes_only_notifyMentions, THEN conjunct1]
  notes_only_frame [OF notes_only_notifyMentions, THEN conjunct2, THEN conjunct1]
  notes_only_frame [OF notes_only_notifyMentions, THEN conjunct2, THEN conjunct2, THEN conjunct1]

section \<open>Delivery\<close>

fun items_from :: "mutation \<Rightarrow> nat \<Rightarrow> inbox_note list \<Rightarrow> inbox_item list" where
  "items_from m i [] = []"
| "items_from m i (n # ns) = note_item m (e_ids (m_env m) i) n # items_from m (Suc i) ns"

lemma items_from_cong: "m_env m' = m_env m \<Longrightarrow> m_actor m' = m_actor m \<Longrightarrow> items_from m' i ns = items_from m i ns"
  by (induction ns arbitrary: i) (simp_all add: note_item_def)

lemma map_items_from:
  "map (\<lambda>x. (in_recipient x, in_task x)) (items_from m i ns) = map note_key ns"
  "x \<in> set (items_from m i ns) \<Longrightarrow> \<exists>n\<in>set ns. in_recipient x = nt_recipient n \<and> in_kind x = nt_kind n \<and> in_actor x = a_id (m_actor m)"
  by (induction ns arbitrary: i) (auto simp: note_item_def note_key_def)

lemma item_of_note:
  "n \<in> set ns \<Longrightarrow> \<exists>x\<in>set (items_from m i ns). in_recipient x = nt_recipient n \<and> in_task x = t_id (nt_task n) \<and>
    in_kind x = nt_kind n"
  by (induction ns arbitrary: i) (auto simp: note_item_def)

lemma fold_create_item:
  "fold create_item ns m =
    m\<lparr>m_store := (m_store m)\<lparr>inbox := inbox (m_store m) @ items_from m (m_next m) ns\<rparr>, m_next := m_next m + length ns\<rparr>"
proof (induction ns arbitrary: m)
  case Nil
  then show ?case by simp
next
  case (Cons n ns)
  have eq: "create_item n m = m\<lparr>m_next := Suc (m_next m), m_store := (m_store m)\<lparr>inbox := inbox (m_store m) @
      [note_item m (e_ids (m_env m) (m_next m)) n]\<rparr>\<rparr>"
    by (simp add: create_item_def new_id_def Let_def note_item_def)
  have "items_from (create_item n m) i ns = items_from m i ns" for i
    unfolding eq by (rule items_from_cong) simp_all
  then show ?case unfolding fold_Cons comp_def Cons.IH eq by simp
qed

lemma deliverInbox_store:
  "m_store (deliverInbox m) = (m_store m)\<lparr>inbox := inbox (m_store m) @ items_from m (m_next m) (strongest (eligibleNotes m))\<rparr>"
  by (cases "strongest (eligibleNotes m)") (simp_all add: deliverInbox_def Let_def fold_create_item del: fold_Cons)

lemma deliverInbox_audits: "m_audits (deliverInbox m) = m_audits m"
  by (cases "strongest (eligibleNotes m)") (simp_all add: deliverInbox_def Let_def fold_create_item del: fold_Cons)

lemma flush_eq:
  "flush m = (m_store m)\<lparr>inbox := inbox (flush m), events := events (flush m), audits := audits (flush m)\<rparr>"
  by (simp add: flush_def deliverInbox_store Let_def)

lemma flush_tasks [simp, frame_simps]:
  "tasks (flush m) = tasks (m_store m)" "deps (flush m) = deps (m_store m)"
  "projects (flush m) = projects (m_store m)" "workflows (flush m) = workflows (m_store m)"
  "actors (flush m) = actors (m_store m)" "comments (flush m) = comments (m_store m)"
  "artifacts (flush m) = artifacts (m_store m)" "tags (flush m) = tags (m_store m)"
  "task_tags (flush m) = task_tags (m_store m)" "aliases (flush m) = aliases (m_store m)"
  by (simp_all add: flush_def deliverInbox_store Let_def)

lemma flush_audits: "audits (flush m) = audits (m_store m) @ m_audits m"
  by (simp add: flush_def deliverInbox_store deliverInbox_audits Let_def)

lemma flush_inbox:
  "inbox (flush m) = inbox (m_store m) @ items_from m (m_next m) (strongest (eligibleNotes m))"
  by (simp add: flush_def deliverInbox_store Let_def)

section \<open>One item per recipient and task\<close>

lemma place_keys: "map note_key (place n bs) =
    (if note_key n \<in> set (map note_key bs) then map note_key bs else map note_key bs @ [note_key n])"
  by (induction bs) auto

lemma place_subset: "set (place n bs) \<subseteq> insert n (set bs)"
  by (induction bs) auto

lemma place_covers:
  "b \<in> insert n (set bs) \<Longrightarrow> \<exists>b'\<in>set (place n bs). note_key b' = note_key b \<and> Rank (nt_kind b') \<le> Rank (nt_kind b)"
  by (induction bs) (auto split: if_splits)

lemma strongest_place:
  "distinct (map note_key bs) \<Longrightarrow>
    distinct (map note_key (fold place ns bs)) \<and> set (fold place ns bs) \<subseteq> set ns \<union> set bs \<and>
    (\<forall>b\<in>set ns \<union> set bs. \<exists>b'\<in>set (fold place ns bs). note_key b' = note_key b \<and> Rank (nt_kind b') \<le> Rank (nt_kind b))"
proof (induction ns arbitrary: bs)
  case Nil
  then show ?case by auto
next
  case (Cons n ns)
  have "distinct (map note_key (place n bs))" using Cons.prems by (simp add: place_keys del: set_map)
  note IH = Cons.IH [OF this]
  have "\<exists>b'\<in>set (fold place ns (place n bs)). note_key b' = note_key b \<and> Rank (nt_kind b') \<le> Rank (nt_kind b)"
    if b: "b \<in> set (n # ns) \<union> set bs" for b
  proof (cases "b \<in> set ns")
    case True
    with IH show ?thesis by blast
  next
    case False
    then have "b \<in> insert n (set bs)" using b by auto
    then obtain b1 where b1: "b1 \<in> set (place n bs)" "note_key b1 = note_key b" "Rank (nt_kind b1) \<le> Rank (nt_kind b)"
      using place_covers by blast
    with IH obtain b2 where "b2 \<in> set (fold place ns (place n bs))" "note_key b2 = note_key b1"
      "Rank (nt_kind b2) \<le> Rank (nt_kind b1)" by blast
    with b1 show ?thesis by (metis le_trans)
  qed
  moreover have "set (fold place ns (place n bs)) \<subseteq> set (n # ns) \<union> set bs"
    using IH place_subset [of n bs] by auto
  ultimately show ?case using IH by simp
qed

lemmas strongest_facts = strongest_place [of "[]", simplified, folded strongest_def]

text \<open>
  C38: Committing a mutation appends inbox items of which no two are for the same recipient and
  task; none is for the actor itself or the system, nor of a kind its recipient has muted; and
  every note that may be delivered is represented by an item of its recipient and task whose
  kind ranks at least as high.
\<close>

theorem flush_inbox_once:
  "\<exists>items. inbox (flush m) = inbox (m_store m) @ items \<and>
     distinct (map (\<lambda>i. (in_recipient i, in_task i)) items) \<and>
     (\<forall>i\<in>set items. in_recipient i \<noteq> a_id (m_actor m) \<and> in_recipient i \<noteq> systemActorID \<and>
        \<not> Mutes (m_store m) (in_recipient i) (in_kind i)) \<and>
     (\<forall>n\<in>set (m_notes m). nt_recipient n \<notin> {a_id (m_actor m), systemActorID} \<longrightarrow>
        actor_exists (m_store m) (nt_recipient n) \<longrightarrow> \<not> Mutes (m_store m) (nt_recipient n) (nt_kind n) \<longrightarrow>
        (\<exists>i\<in>set items. in_recipient i = nt_recipient n \<and> in_task i = t_id (nt_task n) \<and>
           Rank (in_kind i) \<le> Rank (nt_kind n)))"
proof (intro exI conjI ballI impI)
  let ?b = "strongest (eligibleNotes m)"
  let ?items = "items_from m (m_next m) ?b"
  show "inbox (flush m) = inbox (m_store m) @ ?items" by (rule flush_inbox)
  show "distinct (map (\<lambda>i. (in_recipient i, in_task i)) ?items)"
    using strongest_facts by (simp add: map_items_from)
  fix i assume "i \<in> set ?items"
  then obtain n where n: "n \<in> set ?b" "in_recipient i = nt_recipient n" "in_kind i = nt_kind n"
    using map_items_from(2) by blast
  then have "n \<in> set (eligibleNotes m)" using strongest_facts by blast
  with n show "in_recipient i \<noteq> a_id (m_actor m)" "in_recipient i \<noteq> systemActorID"
    "\<not> Mutes (m_store m) (in_recipient i) (in_kind i)" by (auto simp: eligibleNotes_def)
next
  fix n assume n: "n \<in> set (m_notes m)" "nt_recipient n \<notin> {a_id (m_actor m), systemActorID}"
    "actor_exists (m_store m) (nt_recipient n)" "\<not> Mutes (m_store m) (nt_recipient n) (nt_kind n)"
  let ?b = "strongest (eligibleNotes m)"
  have "n \<in> set (eligibleNotes m)" using n by (auto simp: eligibleNotes_def)
  then obtain b where b: "b \<in> set ?b" "note_key b = note_key n" "Rank (nt_kind b) \<le> Rank (nt_kind n)"
    using strongest_facts by blast
  then show "\<exists>i\<in>set (items_from m (m_next m) ?b). in_recipient i = nt_recipient n \<and>
      in_task i = t_id (nt_task n) \<and> Rank (in_kind i) \<le> Rank (nt_kind n)"
    using item_of_note [OF b(1), of m "m_next m"] by (fastforce simp: note_key_def)
qed

definition sample_actor :: actor where
  "sample_actor = \<lparr>a_id = ''u1'', a_tenant = ''ten'', a_kind = ''user'', a_handle = ''ann'', a_scopes = [''*''],
     a_role = ''admin'', a_token = [], a_project = []\<rparr>"

definition sample_ctx :: call_ctx where
  "sample_ctx = \<lparr>c_actor = Some sample_actor, c_tenant = Some ''ten'', c_source = ''http'', c_direct_store = False\<rparr>"

definition sample_env :: "time \<Rightarrow> string \<Rightarrow> env" where
  "sample_env now token = \<lparr>e_now = now, e_db = now, e_token = token, e_ids = (\<lambda>n. CHR ''n'' # FormatInt (int n)),
     e_policy = DefaultPolicy\<rparr>"

definition sample_mutation :: mutation where
  "sample_mutation =
    notify (task_note (sample_task ''t1'' 1 3 ''todo'') InboxAssigned) [''u2'', ''u1'']
      (notify (task_note (sample_task ''t1'' 1 3 ''todo'') InboxComment) [''u2'']
        (begin_tx (sample_env 0 ''k'') sample_ctx sample_actor sample_store))"

theorem flush_inbox_once_witness:
  "\<exists>i\<in>set (inbox (flush sample_mutation)). in_recipient i = ''u2'' \<and> in_task i = ''t1'' \<and>
     Rank (in_kind i) \<le> Rank InboxAssigned"
proof -
  let ?n = "(task_note (sample_task ''t1'' 1 3 ''todo'') InboxAssigned)\<lparr>nt_recipient := ''u2''\<rparr>"
  have n: "?n \<in> set (m_notes sample_mutation)" by code_simp
  have r: "nt_recipient ?n \<notin> {a_id (m_actor sample_mutation), systemActorID}" by code_simp
  have a: "actor_exists (m_store sample_mutation) (nt_recipient ?n)" by code_simp
  have u: "\<not> Mutes (m_store sample_mutation) (nt_recipient ?n) (nt_kind ?n)" by code_simp
  have t: "nt_recipient ?n = ''u2''" "t_id (nt_task ?n) = ''t1''" "nt_kind ?n = InboxAssigned" by code_simp+
  from flush_inbox_once [of sample_mutation] n r a u show ?thesis
    unfolding t by (elim exE conjE) (drule bspec [OF _ n], fastforce simp: t task_note_def sample_task_def)
qed

end
