(* ===== verification/Claims.thy ===== *)
theory Claims
  imports Mutation
begin

text \<open>
  Claiming work (\<open>internal/service/claim.go\<close>, \<open>reclaim.go\<close>): the handlers that take, renew,
  release, sweep and force away a lease, each one transaction, with the checks and the errors
  of the code in its order. Looking up actors, projects and statuses is from \<open>actor.go\<close>,
  \<open>project.go\<close> and \<open>filterref.go\<close>.
\<close>

section \<open>Lookups\<close>

definition lookupActor :: "store \<Rightarrow> string \<Rightarrow> actor_row res" where
  "lookupActor s raw =
    (let ref = TrimSpace raw in
     if ref = [] then Inl (fail KindInvalid)
     else case GetActor s ref of
       Inr a \<Rightarrow> Inr a
     | Inl e \<Rightarrow> if \<not> IsKind (Some e) KindNotFound then Inl e
               else GetActorByHandle s (ToLower ref))"

definition lookupProject :: "store \<Rightarrow> string \<Rightarrow> project res" where
  "lookupProject s raw =
    (let ref = TrimSpace raw in
     if ref = [] then Inl (fail KindInvalid)
     else case GetProject s ref of
       Inr p \<Rightarrow> Inr p
     | Inl e \<Rightarrow> if \<not> IsKind (Some e) KindNotFound then Inl e
               else if ToLower ref \<noteq> ref then GetProject s (ToLower ref)
               else Inl e)"

definition ListWorkflows :: "store \<Rightarrow> workflow list" where
  "ListWorkflows s = sort_key wf_key (workflows s)"

definition claimWorkflow :: "store \<Rightarrow> string \<Rightarrow> workflow res" where
  "claimWorkflow s project = rbind (GetProject s project) (\<lambda>p. GetWorkflowByID s (pr_workflow p))"

text \<open>\<open>loadStatuses\<close> and \<open>mapStatuses\<close>: the first spelling of a status wins.\<close>

definition canonical_status :: "store \<Rightarrow> string \<Rightarrow> string option" where
  "canonical_status s folded =
    find (\<lambda>k. ToLower k = folded) (concat (map (\<lambda>w. map s_key (states (wf_definition w))) (ListWorkflows s)))"

definition resolveStatusList :: "store \<Rightarrow> string list \<Rightarrow> string list res" where
  "resolveStatusList s terms = map_res (\<lambda>term.
     let trimmed = TrimSpace term in
     if trimmed = [] then Inr term
     else case canonical_status s (ToLower trimmed) of
       None \<Rightarrow> Inl (fail KindNotFound) | Some k \<Rightarrow> Inr k) terms"

definition claimTarget :: "call_ctx \<Rightarrow> store \<Rightarrow> task_ref \<Rightarrow> task res" where
  "claimTarget ctx s ref =
    rbind (GetTask s ref) (\<lambda>t.
      if Deleted t then Inl (fail KindNotFound)
      else rbind (RequireActor ctx) (\<lambda>a.
        rbind (Can (Some a) ActionTaskClaim (task_resource a t)) (\<lambda>_. Inr t)))"

definition claimScope :: "store \<Rightarrow> actor \<Rightarrow> string list \<Rightarrow> string list res" where
  "claimScope s a refs =
    (if refs = [] then
       (if ScopedToProject (Some a)
        then rbind (GetProject s (a_project a)) (\<lambda>_. Inr [a_project a])
        else Inr [])
     else map_res (\<lambda>ref. rbind (lookupProject s ref) (\<lambda>p.
       rbind (Can (Some a) ActionTaskClaim \<lparr>r_tenant = a_tenant a, r_project = pr_id p, r_owner = []\<rparr>)
         (\<lambda>_. Inr (pr_id p)))) refs)"

definition claimTerminal :: "store \<Rightarrow> (string \<times> string list) list" where
  "claimTerminal s =
    filter (\<lambda>(_, sts). sts \<noteq> []) (map (\<lambda>w. (wf_id w, TerminalStates (wf_definition w))) (ListWorkflows s))"

definition claimHolder :: "store \<Rightarrow> actor \<Rightarrow> string \<Rightarrow> string res" where
  "claimHolder s a raw =
    (let onBehalfOf = TrimSpace raw in
     if onBehalfOf = [] \<or> onBehalfOf = a_id a then Inr (a_id a)
     else rbind (lookupActor s onBehalfOf) (\<lambda>h. Inr (ac_id h)))"

section \<open>Leases inside a transaction\<close>

definition tx_policy :: "mutation \<Rightarrow> policy" where
  "tx_policy m =
    leasePolicy (e_policy (m_env m)) (tenant_lease_default (m_store m)) (tenant_lease_max (m_store m))"

definition task_grant :: "mutation \<Rightarrow> task \<Rightarrow> duration \<Rightarrow> lease_grant res" where
  "task_grant m t perClaim =
    rbind (GetProject (m_store m) (t_project t)) (\<lambda>p.
      rbind (GetWorkflowByID (m_store m) (pr_workflow p)) (\<lambda>w.
        leaseGrant (tx_policy m) (pr_lease_default p) (pr_lease_max p) w (t_lease t) perClaim))"

record claim =
  cl_task :: task
  cl_token :: string
  cl_expires :: time
  cl_lease :: lease_grant

definition finishedTask :: "task \<Rightarrow> goerr" where
  "finishedTask t = fail_with KindConflict [(''status'', DStr (t_status t))]"

definition snoozedTask :: "task \<Rightarrow> goerr" where
  "snoozedTask t = fail_with KindPrecondition
    [(''snoozed_until'', DInt (case t_snoozed_until t of None \<Rightarrow> 0 | Some u \<Rightarrow> u))]"

definition staleLease :: goerr where "staleLease = fail KindLeaseExpired"

definition claimRefused :: "task \<Rightarrow> string \<Rightarrow> time \<Rightarrow> goerr" where
  "claimRefused t holder now =
    (if \<not> claimed_at_time t now then fail KindConflict
     else if Text (t_claimed_by t) = holder
       then fail_with KindConflict [(''claimed_by'', DStr (Text (t_claimed_by t)))]
     else fail_with KindConflict
       [(''claimed_by'', DStr (Text (t_claimed_by t))),
        (''lease_expires_at'', DInt (case t_lease_expires t of None \<Rightarrow> 0 | Some e \<Rightarrow> e))])"

definition EventTaskClaimed :: string where "EventTaskClaimed = ''task.claimed''"
definition EventTaskUpdated :: string where "EventTaskUpdated = ''task.updated''"
definition EventTaskTransitioned :: string where "EventTaskTransitioned = ''task.transitioned''"
definition EventTaskReleased :: string where "EventTaskReleased = ''task.released''"
definition EventTaskLeaseExpired :: string where "EventTaskLeaseExpired = ''task.lease_expired''"
definition EventTaskReclaimed :: string where "EventTaskReclaimed = ''task.reclaimed''"

definition recordClaim ::
  "mutation \<Rightarrow> task \<Rightarrow> string \<Rightarrow> time \<Rightarrow> lease_grant \<Rightarrow> (mutation \<times> claim) res" where
  "recordClaim m before token until g =
    rbind (GetTask (m_store m) (id_ref (t_id before))) (\<lambda>claimed.
      let payload = [(''claimed_by'', DStr (Text (t_claimed_by claimed))), (''lease_expires_at'', DInt until)]
      in rbind (if Text (t_claimed_by claimed) \<noteq> a_id (m_actor m)
                then rbind (lookupActor (m_store m) (Text (t_claimed_by claimed)))
                  (\<lambda>h. Inr (payload @ [(''claimed_by_handle'', DStr (ac_handle h))]))
                else Inr payload)
        (\<lambda>payload. Inr (Record ''task.claim'' EventTaskClaimed (t_id claimed) (t_project claimed)
            (Some (TaskSnap before)) (Some (TaskSnap claimed)) payload m,
          \<lparr>cl_task = claimed, cl_token = token, cl_expires = until, cl_lease = g\<rparr>)))"

section \<open>Claiming one task\<close>

record claim_input =
  ci_ttl :: duration
  ci_actor :: string

definition claim_task_tx :: "call_ctx \<Rightarrow> task_ref \<Rightarrow> claim_input \<Rightarrow> mutation \<Rightarrow> (mutation \<times> claim) res" where
  "claim_task_tx ctx ref inp m =
    rbind (claimTarget ctx (m_store m) ref) (\<lambda>t.
    rbind (claimWorkflow (m_store m) (t_project t)) (\<lambda>w.
    if IsTerminal (wf_definition w) (t_status t) then Inl (finishedTask t)
    else if SnoozedAt t (m_now m) then Inl (snoozedTask t)
    else rbind (task_grant m t (ci_ttl inp)) (\<lambda>g.
    rbind (claimHolder (m_store m) (m_actor m) (ci_actor inp)) (\<lambda>holder.
    let token = e_token (m_env m); until = Until (m_now m) (TTL g) in
    rbind (on_store (ClaimTask \<lparr>cr_task = t_id t, cr_actor = holder, cr_now = m_now m,
        cr_until = until, cr_token = token\<rparr>) m) (\<lambda>(m, ok).
    if \<not> ok then Inl (claimRefused t holder (m_now m))
    else recordClaim m t token until g)))))"

definition service_ClaimTask ::
  "env \<Rightarrow> call_ctx \<Rightarrow> task_ref \<Rightarrow> claim_input \<Rightarrow> store \<Rightarrow> store \<times> claim res" where
  "service_ClaimTask e ctx ref inp s =
    (case authorize ctx ActionTaskClaim no_resource of
       Inl err \<Rightarrow> (s, Inl err)
     | Inr a \<Rightarrow> write_tx e ctx a (claim_task_tx ctx ref inp) s)"

section \<open>Claiming the next task of the queue\<close>

record claim_next_input =
  ni_projects :: "string list"
  ni_tags :: "string list"
  ni_statuses :: "string list"
  ni_ttl :: duration
  ni_actor :: string

text \<open>The answer of \<open>RenewLease\<close>, whether it matched the row, is dropped as the code drops it.\<close>

definition applyTaskLease ::
  "task \<Rightarrow> duration \<Rightarrow> string \<Rightarrow> time \<Rightarrow> mutation \<Rightarrow> (mutation \<times> lease_grant \<times> time) res" where
  "applyTaskLease t perClaim token until m =
    rbind (task_grant m t perClaim) (\<lambda>g.
      let revised = Until (m_now m) (TTL g) in
      if revised = until then Inr (m, g, until)
      else rbind (on_store (RenewLease (m_db m) (t_id t) token revised) m)
        (\<lambda>(m, _). Inr (m, g, revised)))"

definition claimNextOnce ::
  "claim_next_input \<Rightarrow> mutation \<Rightarrow> (mutation \<times> claim option) res" where
  "claimNextOnce inp m =
    (let s = m_store m; a = m_actor m in
    rbind (claimScope s a (ni_projects inp)) (\<lambda>projects.
    rbind (resolveStatusList s (ni_statuses inp)) (\<lambda>statuses.
    rbind (claimHolder s a (ni_actor inp)) (\<lambda>holder.
    rbind (Resolve (tx_policy m) (ni_ttl inp) 0) (\<lambda>ttl.
    let token = e_token (m_env m); until = Until (m_now m) ttl in
    rbind (on_store (ClaimNextTask \<lparr>cn_projects = projects, cn_tags = ni_tags inp, cn_statuses = statuses,
        cn_terminal = claimTerminal s, cn_actor = holder, cn_now = m_now m, cn_until = until,
        cn_token = token\<rparr>) m) (\<lambda>(m, found).
    case found of None \<Rightarrow> Inr (m, None)
    | Some k \<Rightarrow>
        rbind (GetTask (m_store m) (id_ref k)) (\<lambda>t.
        rbind (applyTaskLease t (ni_ttl inp) token until m) (\<lambda>(m, g, until).
        rbind (recordClaim m t token until g) (\<lambda>(m, c). Inr (m, Some c))))))))))"

definition claimNextAttempts :: nat where "claimNextAttempts = 3"

fun claim_next_loop ::
  "env list \<Rightarrow> call_ctx \<Rightarrow> actor \<Rightarrow> claim_next_input \<Rightarrow> store \<Rightarrow> store \<times> claim res" where
  "claim_next_loop [] ctx a inp s = (s, Inl (fail KindNoTaskAvailable))"
| "claim_next_loop (e # es) ctx a inp s =
    (case write_tx e ctx a (claimNextOnce inp) s of
       (s', Inl err) \<Rightarrow> (s', Inl err)
     | (s', Inr (Some c)) \<Rightarrow> (s', Inr c)
     | (s', Inr None) \<Rightarrow> claim_next_loop es ctx a inp s')"

text \<open>Each attempt is its own transaction with its own environment, \<open>envs i\<close> for the i-th.\<close>

definition service_ClaimNext ::
  "(nat \<Rightarrow> env) \<Rightarrow> call_ctx \<Rightarrow> claim_next_input \<Rightarrow> store \<Rightarrow> store \<times> claim res" where
  "service_ClaimNext envs ctx inp s =
    (case authorize ctx ActionTaskClaim no_resource of
       Inl err \<Rightarrow> (s, Inl err)
     | Inr a \<Rightarrow> (case Resolve (e_policy (envs 0)) (ni_ttl inp) 0 of
         Inl err \<Rightarrow> (s, Inl err)
       | Inr _ \<Rightarrow> claim_next_loop (map envs [0..<claimNextAttempts]) ctx a inp s))"

end
