(* ===== verification/Calendar.thy ===== *)
theory Calendar
  imports Go_Time
begin

text \<open>
  The civil calendar of Go's \<open>time\<close> package in UTC, as far as the program uses it:
  \<open>Date\<close> building an instant from components that may lie outside their usual ranges,
  \<open>Time.Date\<close>, \<open>Clock\<close>, \<open>Nanosecond\<close> and \<open>Weekday\<close> taking one apart. Day \<open>0\<close> is
  0001-01-01, a Monday, in the proleptic Gregorian calendar.
\<close>

definition Day :: duration where "Day = 24 * Hour"

definition is_leap :: "int \<Rightarrow> bool" where
  "is_leap y \<longleftrightarrow> y mod 4 = 0 \<and> (y mod 100 \<noteq> 0 \<or> y mod 400 = 0)"

definition days_before_year :: "int \<Rightarrow> int" where
  "days_before_year y = 365 * (y - 1) + (y - 1) div 4 - (y - 1) div 100 + (y - 1) div 400"

text \<open>Days of the year before a month, \<open>1\<close> to \<open>12\<close>; \<open>13\<close> gives the whole year.\<close>

definition days_before_month :: "int \<Rightarrow> int \<Rightarrow> int" where
  "days_before_month y m =
    (let l = (if is_leap y then 1 else 0) in
     if m \<le> 1 then 0 else if m = 2 then 31 else if m = 3 then 59 + l else if m = 4 then 90 + l
     else if m = 5 then 120 + l else if m = 6 then 151 + l else if m = 7 then 181 + l
     else if m = 8 then 212 + l else if m = 9 then 243 + l else if m = 10 then 273 + l
     else if m = 11 then 304 + l else if m = 12 then 334 + l else 365 + l)"

definition days_in_month :: "int \<Rightarrow> int \<Rightarrow> int" where
  "days_in_month y m = days_before_month y (m + 1) - days_before_month y m"

definition day_number :: "int \<Rightarrow> int \<Rightarrow> int \<Rightarrow> int" where
  "day_number y m d = days_before_year y + days_before_month y m + d - 1"

text \<open>\<open>time.Date\<close> carries months into the year and lets every other component overflow.\<close>

definition norm_year :: "int \<Rightarrow> int \<Rightarrow> int" where "norm_year y m = y + (m - 1) div 12"
definition norm_month :: "int \<Rightarrow> int" where "norm_month m = (m - 1) mod 12 + 1"

definition Date :: "int \<Rightarrow> int \<Rightarrow> int \<Rightarrow> duration \<Rightarrow> time" where
  "Date y m d clock = day_number (norm_year y m) (norm_month m) d * Day + clock"

definition day_of :: "time \<Rightarrow> int" where "day_of t = t div Day"
definition clock_of :: "time \<Rightarrow> duration" where "clock_of t = t mod Day"

definition year_of_day :: "int \<Rightarrow> int" where
  "year_of_day n = (let y = 400 * n div 146097 + 1 in if days_before_year (y + 1) \<le> n then y + 1 else y)"

definition month_of_yday :: "int \<Rightarrow> int \<Rightarrow> int" where
  "month_of_yday y k =
    (if k < days_before_month y 2 then 1 else if k < days_before_month y 3 then 2
     else if k < days_before_month y 4 then 3 else if k < days_before_month y 5 then 4
     else if k < days_before_month y 6 then 5 else if k < days_before_month y 7 then 6
     else if k < days_before_month y 8 then 7 else if k < days_before_month y 9 then 8
     else if k < days_before_month y 10 then 9 else if k < days_before_month y 11 then 10
     else if k < days_before_month y 12 then 11 else 12)"

definition Year :: "time \<Rightarrow> int" where "Year t = year_of_day (day_of t)"

definition year_day :: "time \<Rightarrow> int" where "year_day t = day_of t - days_before_year (Year t)"

definition Month :: "time \<Rightarrow> int" where "Month t = month_of_yday (Year t) (year_day t)"

definition Day_of_month :: "time \<Rightarrow> int" where
  "Day_of_month t = year_day t - days_before_month (Year t) (Month t) + 1"

text \<open>Sunday is \<open>0\<close>.\<close>

definition Weekday :: "time \<Rightarrow> int" where "Weekday t = (day_of t + 1) mod 7"

section \<open>Lemmas\<close>

lemma Day_pos: "0 < Day"
  by (simp add: Day_def Hour_def)

lemma div_bounds: "0 < k \<Longrightarrow> k * (a div k) \<le> a \<and> a < k * (a div k) + (k :: int)"
  using pos_mod_sign [of k a] pos_mod_bound [of k a] mult_div_mod_eq [of k a] by linarith

lemma is_leap_iff: "is_leap y \<longleftrightarrow> 4 dvd y \<and> (\<not> 100 dvd y \<or> 400 dvd y)"
  by (simp add: is_leap_def dvd_eq_mod_eq_0)

lemma days_before_year_Suc: "days_before_year (y + 1) = days_before_year y + (if is_leap y then 366 else 365)"
proof -
  have step: "y div k = (y - 1) div k + (if k dvd y then 1 else 0)" if "0 < k" for k :: int
  proof (cases "k dvd y")
    case True
    then obtain c where y: "y = k * c" by blast
    have "(y - 1) div k = c - 1"
      using that y by (intro int_div_pos_eq [of _ _ _ "k - 1"]) (simp_all add: algebra_simps)
    with True y that show ?thesis by simp
  next
    case False
    then have "y mod k \<noteq> 0" by (simp add: dvd_eq_mod_eq_0)
    moreover have "0 \<le> y mod k" using that by simp
    ultimately have "0 < y mod k" by simp
    have "(y - 1) div k = y div k"
    proof (intro int_div_pos_eq [of _ _ _ "y mod k - 1"])
      show "y - 1 = k * (y div k) + (y mod k - 1)" by simp
      show "0 \<le> y mod k - 1" using \<open>0 < y mod k\<close> by simp
      show "y mod k - 1 < k" using pos_mod_bound [of k y] that by linarith
    qed
    with False show ?thesis by simp
  qed
  have d: "400 dvd y \<Longrightarrow> 100 dvd y" "100 dvd y \<Longrightarrow> 4 dvd y"
    by (auto elim: dvd_trans [rotated])
  have "days_before_year (y + 1) = 365 * y + y div 4 - y div 100 + y div 400"
    by (simp add: days_before_year_def)
  also have "\<dots> = 365 * y + ((y - 1) div 4 + (if 4 dvd y then 1 else 0))
      - ((y - 1) div 100 + (if 100 dvd y then 1 else 0)) + ((y - 1) div 400 + (if 400 dvd y then 1 else 0))"
    by (simp only: step [of 4, symmetric] step [of 100, symmetric] step [of 400, symmetric] zero_less_numeral)
  also have "\<dots> = days_before_year y + (365 + (if 4 dvd y then 1 else 0) - (if 100 dvd y then 1 else 0)
      + (if 400 dvd y then 1 else 0))"
    by (simp only: days_before_year_def) (simp only: algebra_simps)
  also have "365 + (if 4 dvd y then 1 else 0) - (if 100 dvd y then 1 else 0) + (if 400 dvd y then 1 else 0)
      = (if is_leap y then 366 else (365 :: int))"
    unfolding is_leap_iff using d by presburger
  finally show ?thesis .
qed

lemma days_before_month_Suc:
  "1 \<le> m \<Longrightarrow> m \<le> 12 \<Longrightarrow> days_before_month y (m + 1) = days_before_month y m + days_in_month y m"
  by (simp add: days_in_month_def)

lemma month_cases: "1 \<le> m \<Longrightarrow> m \<le> 12 \<Longrightarrow>
    (m = 1 \<or> m = 2 \<or> m = 3 \<or> m = 4 \<or> m = 5 \<or> m = 6 \<or> m = 7 \<or> m = 8 \<or> m = 9 \<or> m = 10 \<or> m = 11 \<or> m = (12::int))"
  by arith

lemma days_in_month_bounds:
  assumes "1 \<le> m" and "m \<le> 12"
  shows "28 \<le> days_in_month y m \<and> days_in_month y m \<le> 31"
  using month_cases [OF assms]
  by (elim disjE) (simp_all add: days_in_month_def days_before_month_def Let_def)

lemma days_before_month_13: "days_before_month y 13 = (if is_leap y then 366 else 365)"
  by (simp add: days_before_month_def)

lemma days_before_year_near:
  "146097 * (y - 1) - 699 \<le> 400 * days_before_year y \<and> 400 * days_before_year y \<le> 146097 * (y - 1) + 396"
proof -
  define q a b c where "q = y - 1" and "a = q div 4" and "b = q div 100" and "c = q div 400"
  have "4 * a \<le> q" "q < 4 * a + 4" "100 * b \<le> q" "q < 100 * b + 100" "400 * c \<le> q" "q < 400 * c + 400"
    using div_bounds [of 4 q] div_bounds [of 100 q] div_bounds [of 400 q] by (simp_all add: a_def b_def c_def)
  moreover have "days_before_year y = 365 * q + a - b + c"
    by (simp add: days_before_year_def q_def a_def b_def c_def)
  ultimately show ?thesis unfolding q_def [symmetric] by simp
qed

lemma year_of_day_bounds: "days_before_year (year_of_day n) \<le> n \<and> n < days_before_year (year_of_day n + 1)"
proof -
  define q where "q = 400 * n div 146097"
  have q: "146097 * q \<le> 400 * n" "400 * n < 146097 * q + 146097"
    using div_bounds [of 146097 "400 * n"] by (simp_all add: q_def)
  have lo: "days_before_year (q + 1) \<le> n" using days_before_year_near [of "q + 1"] q by simp
  have "n \<le> days_before_year (q + 2) + 1" using days_before_year_near [of "q + 2"] q by simp
  then have hi: "n < days_before_year (q + 2 + 1)"
    using days_before_year_Suc [of "q + 2"] by (auto split: if_splits)
  have "year_of_day n = (if days_before_year (q + 2) \<le> n then q + 2 else q + 1)"
    by (simp add: year_of_day_def Let_def q_def add.commute)
  then show ?thesis using lo hi by (auto simp: add.commute)
qed

lemma days_before_year_mono: "y \<le> z \<Longrightarrow> days_before_year y + 365 * (z - y) \<le> days_before_year z"
proof (induction "nat (z - y)" arbitrary: z)
  case 0
  then show ?case by simp
next
  case (Suc k)
  then have "days_before_year y + 365 * (z - 1 - y) \<le> days_before_year (z - 1)"
    by (intro Suc.hyps(1)) auto
  then show ?case using days_before_year_Suc [of "z - 1"] by (auto split: if_splits simp: algebra_simps)
qed

lemma year_of_day_unique:
  assumes "days_before_year y \<le> n" and "n < days_before_year (y + 1)"
  shows "year_of_day n = y"
proof (rule ccontr)
  assume "year_of_day n \<noteq> y"
  then consider "year_of_day n + 1 \<le> y" | "y + 1 \<le> year_of_day n" by linarith
  then show False
  proof cases
    case 1
    then have "0 \<le> 365 * (y - (year_of_day n + 1))" by simp
    then show False
      using days_before_year_mono [OF 1] year_of_day_bounds [of n] assms by linarith
  next
    case 2
    then have "0 \<le> 365 * (year_of_day n - (y + 1))" by simp
    then show False
      using days_before_year_mono [OF 2] year_of_day_bounds [of n] assms by linarith
  qed
qed

lemma days_before_month_13_le: "1 \<le> m \<Longrightarrow> m \<le> 13 \<Longrightarrow> days_before_month y m \<le> days_before_month y 13"
  by (simp add: days_before_month_def Let_def)

lemma month_of_yday_unique:
  assumes "1 \<le> m" and "m \<le> 12" and "days_before_month y m \<le> k" and "k < days_before_month y (m + 1)"
  shows "month_of_yday y k = m"
  using month_cases [OF assms(1,2)] assms(3,4)
  by (elim disjE) (simp_all add: month_of_yday_def days_before_month_def Let_def split: if_splits)

lemma month_of_yday_bounds:
  assumes "0 \<le> k" and "k < days_before_month y 13"
  shows "1 \<le> month_of_yday y k \<and> month_of_yday y k \<le> 12 \<and>
    days_before_month y (month_of_yday y k) \<le> k \<and> k < days_before_month y (month_of_yday y k + 1)"
proof -
  have 1: "days_before_month y 1 = 0" by (simp add: days_before_month_def)
  show ?thesis
    unfolding month_of_yday_def using assms 1 by (simp add: not_less)
qed

definition valid_date :: "int \<Rightarrow> int \<Rightarrow> int \<Rightarrow> bool" where
  "valid_date y m d \<longleftrightarrow> 1 \<le> m \<and> m \<le> 12 \<and> 1 \<le> d \<and> d \<le> days_in_month y m"

lemma yday_bounds:
  assumes "valid_date y m d"
  shows "0 \<le> days_before_month y m + d - 1" and "days_before_month y m + d - 1 < days_before_month y 13"
proof -
  have m: "1 \<le> m" "m \<le> 12" and d: "1 \<le> d" "d \<le> days_in_month y m" using assms by (auto simp: valid_date_def)
  have "0 \<le> days_before_month y m" by (simp add: days_before_month_def Let_def)
  with d show "0 \<le> days_before_month y m + d - 1" by simp
  have "days_before_month y (m + 1) \<le> days_before_month y 13" using m by (intro days_before_month_13_le) auto
  then show "days_before_month y m + d - 1 < days_before_month y 13"
    using days_before_month_Suc [OF m, of y] d by linarith
qed

text \<open>Taking a built date apart gives its components back.\<close>

lemma Date_components:
  assumes "valid_date y m d" and "0 \<le> c" and "c < Day"
  shows "Year (Date y m d c) = y" and "Month (Date y m d c) = m" and "Day_of_month (Date y m d c) = d"
    and "clock_of (Date y m d c) = c" and "day_of (Date y m d c) = day_number y m d"
proof -
  have m: "1 \<le> m" "m \<le> 12" using assms by (auto simp: valid_date_def)
  then have norm: "norm_year y m = y" "norm_month m = m" by (simp_all add: norm_year_def norm_month_def)
  show dn: "day_of (Date y m d c) = day_number y m d"
    using assms Day_pos by (simp add: day_of_def Date_def norm)
  show "clock_of (Date y m d c) = c" using assms by (simp add: clock_of_def Date_def)
  have b: "0 \<le> days_before_month y m + d - 1" "days_before_month y m + d - 1 < days_before_month y 13"
    using yday_bounds [OF assms(1)] by auto
  show y: "Year (Date y m d c) = y"
    unfolding Year_def dn
    using b days_before_year_Suc [of y] by (intro year_of_day_unique) (auto simp: day_number_def days_before_month_13)
  have yd: "year_day (Date y m d c) = days_before_month y m + d - 1"
    by (simp add: year_day_def dn y day_number_def)
  show mo: "Month (Date y m d c) = m"
    unfolding Month_def y yd
    using assms(1) days_before_month_Suc [OF m, of y]
    by (intro month_of_yday_unique) (auto simp: valid_date_def)
  show "Day_of_month (Date y m d c) = d" by (simp add: Day_of_month_def y mo yd)
qed

lemma civil_valid: "valid_date (Year t) (Month t) (Day_of_month t)"
  and civil_day: "day_of t = day_number (Year t) (Month t) (Day_of_month t)"
proof -
  have "0 \<le> year_day t" and "year_day t < days_before_month (Year t) 13"
    using year_of_day_bounds [of "day_of t"] days_before_year_Suc [of "Year t"]
    by (auto simp: year_day_def Year_def days_before_month_13)
  note b = month_of_yday_bounds [OF this]
  then show "valid_date (Year t) (Month t) (Day_of_month t)"
    using days_before_month_Suc [of "Month t" "Year t"]
    by (auto simp: valid_date_def Month_def Day_of_month_def)
  show "day_of t = day_number (Year t) (Month t) (Day_of_month t)"
    by (simp add: day_number_def Day_of_month_def year_day_def)
qed

lemma clock_bounds: "0 \<le> clock_of t" "clock_of t < Day"
  using Day_pos by (simp_all add: clock_of_def)

lemma time_split: "t = day_of t * Day + clock_of t"
  by (simp add: day_of_def clock_of_def)

lemma Date_self: "Date (Year t) (Month t) (Day_of_month t) (clock_of t) = t"
proof -
  have "1 \<le> Month t" "Month t \<le> 12" using civil_valid by (auto simp: valid_date_def)
  then show ?thesis
    using civil_day [of t] time_split [of t] by (simp add: Date_def norm_year_def norm_month_def)
qed

end
