(* ===== verification/Recurrence.thy ===== *)
theory Recurrence
  imports Calendar Task_Ref
begin

text \<open>
  Repeat rules (\<open>internal/core/recurrence.go\<close>): the strict parser, the canonical spelling, and
  the date of the next occurrence. Loops that search for an occurrence are \<open>search\<close>, whose
  \<open>None\<close> means that the loop does not end; \<open>Next\<close> is shown to end on every rule that parses.
  The floating-point hours of \<open>estimate\<close> are taken as the exact quotient: a lower bound of
  the step searched from is all that is used of it, and the margin of one step absorbs a
  rounded quotient. Instants are in UTC, as the service's clock and the stored due dates are.
\<close>

section \<open>Rules\<close>

definition UnitDay :: string where "UnitDay = ''day''"
definition UnitWeek :: string where "UnitWeek = ''week''"
definition UnitMonth :: string where "UnitMonth = ''month''"
definition UnitYear :: string where "UnitYear = ''year''"

lemmas unit_defs = UnitDay_def UnitWeek_def UnitMonth_def UnitYear_def

definition MaxRecurrenceNumber :: int where "MaxRecurrenceNumber = 1000"

record rule =
  r_interval :: int
  r_unit :: string
  r_weekdays :: "int list"
  r_month_day :: int
  r_after_done :: bool
  r_until :: "time option"
  r_count :: int

definition shorthands :: "(string \<times> string) list" where
  "shorthands = [(''daily'', UnitDay), (''weekly'', UnitWeek), (''monthly'', UnitMonth), (''yearly'', UnitYear)]"

definition unitWords :: "(string \<times> string) list" where
  "unitWords =
    [(''day'', UnitDay), (''days'', UnitDay), (''week'', UnitWeek), (''weeks'', UnitWeek),
     (''month'', UnitMonth), (''months'', UnitMonth), (''year'', UnitYear), (''years'', UnitYear)]"

definition weekdayWords :: "(string \<times> int) list" where
  "weekdayWords =
    [(''mon'', 1), (''monday'', 1), (''tue'', 2), (''tuesday'', 2), (''wed'', 3), (''wednesday'', 3),
     (''thu'', 4), (''thursday'', 4), (''fri'', 5), (''friday'', 5), (''sat'', 6), (''saturday'', 6),
     (''sun'', 0), (''sunday'', 0)]"

definition weekdayNames :: "string list" where
  "weekdayNames = [''sun'', ''mon'', ''tue'', ''wed'', ''thu'', ''fri'', ''sat'']"

section \<open>Dates written YYYY-MM-DD\<close>

definition two_digits :: "char \<Rightarrow> char \<Rightarrow> int option" where
  "two_digits a b = (if is_digit a \<and> is_digit b
     then Some (int (digit_value a * 10 + digit_value b)) else None)"

definition parse_date :: "string \<Rightarrow> time option" where
  "parse_date s = (case s of
     [a, b, c, d, s1, e, f, s2, g, h] \<Rightarrow>
       (case (two_digits a b, two_digits c d, two_digits e f, two_digits g h) of
          (Some c1, Some c2, Some m, Some dd) \<Rightarrow>
            (if s1 = CHR ''-'' \<and> s2 = CHR ''-'' \<and> valid_date (c1 * 100 + c2) m dd
             then Some (Date (c1 * 100 + c2) m dd 0) else None)
        | _ \<Rightarrow> None)
   | _ \<Rightarrow> None)"

definition pad2 :: "int \<Rightarrow> string" where
  "pad2 n = [digit (nat (n div 10 mod 10)), digit (nat (n mod 10))]"

text \<open>The layout pads the year to four digits; the rule's dates lie between the years 0 and 9999.\<close>

definition format_date :: "time \<Rightarrow> string" where
  "format_date t = pad2 (Year t div 100) @ pad2 (Year t) @ ''-'' @ pad2 (Month t) @ ''-'' @ pad2 (Day_of_month t)"

section \<open>The parser\<close>

text \<open>The regular expression class of white space leaves out the vertical tab.\<close>

definition re_space :: "char \<Rightarrow> bool" where
  "re_space c \<longleftrightarrow> is_space c \<and> c \<noteq> CHR 0x0B"

function squeeze :: "string \<Rightarrow> string" where
  "squeeze [] = []"
| "squeeze (c # cs) =
    (if c = CHR '','' then c # squeeze (dropWhile re_space cs)
     else if re_space c \<and> dropWhile re_space cs \<noteq> [] \<and> hd (dropWhile re_space cs) = CHR '',''
       then squeeze (dropWhile re_space cs)
     else c # squeeze cs)"
  by pat_completeness auto
termination
  by (relation "measure length") (auto simp: le_imp_less_Suc length_dropWhile_le)

fun words_from :: "string \<Rightarrow> string \<Rightarrow> string list" where
  "words_from w [] = (if w = [] then [] else [w])"
| "words_from w (c # cs) =
    (if is_space c then (if w = [] then words_from [] cs else w # words_from [] cs)
     else words_from (w @ [c]) cs)"

definition Fields :: "string \<Rightarrow> string list" where "Fields s = words_from [] s"

definition invalid :: "'a res" where "invalid = Inl (fail KindInvalid)"

definition plain_rule :: "int \<Rightarrow> string \<Rightarrow> rule" where
  "plain_rule n u = \<lparr>r_interval = n, r_unit = u, r_weekdays = [], r_month_day = 0, r_after_done = False,
     r_until = None, r_count = 0\<rparr>"

text \<open>\<open>head\<close>: the rule so far, whether it began with "every", and the words left.\<close>

definition parse_unit :: "int \<Rightarrow> bool \<Rightarrow> string \<Rightarrow> string list \<Rightarrow> (rule \<times> bool \<times> string list) res" where
  "parse_unit n every w ws = (case map_of unitWords w of
     None \<Rightarrow> invalid | Some u \<Rightarrow> Inr (plain_rule n u, every, ws))"

definition parse_interval :: "bool \<Rightarrow> string \<Rightarrow> string list \<Rightarrow> (rule \<times> bool \<times> string list) res" where
  "parse_interval every w ws = (case ParseInt w of
     Some n \<Rightarrow>
       if n < 1 \<or> MaxRecurrenceNumber < n then invalid
       else (case ws of [] \<Rightarrow> invalid | w' # ws' \<Rightarrow> parse_unit n every w' ws')
   | None \<Rightarrow> if \<not> every then invalid else parse_unit 1 every w ws)"

definition parse_head :: "string list \<Rightarrow> (rule \<times> bool \<times> string list) res" where
  "parse_head ws = (case ws of [] \<Rightarrow> invalid
     | first # rest \<Rightarrow> (case map_of shorthands first of
         Some u \<Rightarrow> Inr (plain_rule 1 u, True, rest)
       | None \<Rightarrow> if first = ''every''
           then (case rest of [] \<Rightarrow> invalid | w # ws' \<Rightarrow> parse_interval True w ws')
           else parse_interval False first rest))"

definition monday_first :: "int list" where "monday_first = [1, 2, 3, 4, 5, 6, 0]"

text \<open>Each clause reads its arguments off the words left; a missing word reads as empty.\<close>

definition word :: "string list \<Rightarrow> string" where "word ws = (case ws of [] \<Rightarrow> [] | w # _ \<Rightarrow> w)"

definition parse_on :: "rule \<Rightarrow> string list \<Rightarrow> (rule \<times> string list) res" where
  "parse_on r ws = (case ws of [] \<Rightarrow> invalid
     | v # ws \<Rightarrow>
         if v = ''day'' then
           (if r_unit r \<noteq> UnitMonth then invalid
            else case ParseInt (word ws) of None \<Rightarrow> invalid
              | Some n \<Rightarrow> if n < 1 \<or> 31 < n then invalid
                  else Inr (r\<lparr>r_month_day := n\<rparr>, tl ws))
         else if r_unit r \<noteq> UnitWeek then invalid
         else rbind (map_res (\<lambda>name. case map_of weekdayWords name of
                  None \<Rightarrow> invalid | Some wd \<Rightarrow> Inr wd) (split_on (CHR '','') v))
           (\<lambda>chosen. Inr (r\<lparr>r_weekdays := r_weekdays r @ filter (\<lambda>wd. wd \<in> set chosen) monday_first\<rparr>, ws)))"

definition parse_clause :: "rule \<Rightarrow> string \<Rightarrow> string list \<Rightarrow> (rule \<times> string list) res" where
  "parse_clause r w ws =
    (if w = ''on'' then parse_on r ws
     else if w = ''after'' then
       (if word ws \<noteq> ''done'' then invalid else Inr (r\<lparr>r_after_done := True\<rparr>, tl ws))
     else if w = ''until'' then
       (case parse_date (word ws) of None \<Rightarrow> invalid | Some d \<Rightarrow> Inr (r\<lparr>r_until := Some d\<rparr>, tl ws))
     else if w = ''for'' then
       (case ParseInt (word ws) of None \<Rightarrow> invalid
        | Some n \<Rightarrow>
            if n < 1 \<or> MaxRecurrenceNumber < n then invalid
            else if word (tl ws) \<noteq> ''time'' \<and> word (tl ws) \<noteq> ''times'' then invalid
            else Inr (r\<lparr>r_count := n\<rparr>, tl (tl ws)))
     else invalid)"

lemma parse_clause_shorter: "parse_clause r w ws = Inr (r', ws') \<Longrightarrow> length ws' \<le> length ws"
  by (auto simp: parse_clause_def parse_on_def invalid_def rbind_Inr_iff
      split: if_splits option.splits list.splits)

function parse_clauses :: "string list \<Rightarrow> rule \<Rightarrow> string list \<Rightarrow> rule res" where
  "parse_clauses seen r [] = Inr r"
| "parse_clauses seen r (w # ws) =
    (if w \<in> set seen then invalid
     else rbind (parse_clause r w ws) (\<lambda>(r', ws'). parse_clauses (w # seen) r' ws'))"
  by pat_completeness auto
termination
  by (relation "measure (\<lambda>(seen, r, ws). length ws)") (auto dest: parse_clause_shorter)

definition ParseRecurrence :: "string \<Rightarrow> rule res" where
  "ParseRecurrence text =
    rbind (parse_head (Fields (squeeze (ToLower (TrimSpace text))))) (\<lambda>(r, every, ws).
    rbind (parse_clauses [] r ws) (\<lambda>r.
      if \<not> every \<and> \<not> r_after_done r then invalid
      else if r_until r \<noteq> None \<and> 0 < r_count r then invalid
      else Inr r))"

section \<open>The canonical spelling\<close>

definition rule_string :: "rule \<Rightarrow> string" where
  "rule_string r =
    (if r_unit r = [] then []
     else ''every '' @
       (if 1 < r_interval r then FormatInt (r_interval r) @ '' '' @ r_unit r @ ''s'' else r_unit r) @
       (if r_weekdays r \<noteq> [] then '' on '' @ join '','' (map (\<lambda>wd. weekdayNames ! nat wd) (r_weekdays r)) else []) @
       (if 0 < r_month_day r then '' on day '' @ FormatInt (r_month_day r) else []) @
       (if r_after_done r then '' after done'' else []) @
       (case r_until r of None \<Rightarrow> [] | Some u \<Rightarrow> '' until '' @ format_date u) @
       (if r_count r = 1 then '' for 1 time''
        else if 1 < r_count r then '' for '' @ FormatInt (r_count r) @ '' times'' else []))"

definition Successor :: "rule \<Rightarrow> rule" where
  "Successor r = (if 1 < r_count r then r\<lparr>r_count := r_count r - 1\<rparr> else r)"

definition NormalizeRecurrence :: "string \<Rightarrow> string res" where
  "NormalizeRecurrence text =
    (if TrimSpace text = [] then Inr [] else rbind (ParseRecurrence text) (\<lambda>r. Inr (rule_string r)))"

section \<open>Occurrences\<close>

text \<open>\<open>clampedDate\<close>: the first of the month, the last day it has, then the day held to it.\<close>

definition clampedDate :: "int \<Rightarrow> int \<Rightarrow> int \<Rightarrow> duration \<Rightarrow> time" where
  "clampedDate y month day clock =
    (let fst_day = Date y month 1 0;
         lst = Day_of_month (Date (Year fst_day) (Month fst_day + 1) 0 0)
     in Date (Year fst_day) (Month fst_day) (min day lst) clock)"

definition occurrence :: "rule \<Rightarrow> time \<Rightarrow> int \<Rightarrow> time" where
  "occurrence r origin k =
    (let y = Year origin; m = Month origin; d = Day_of_month origin; c = clock_of origin in
     if r_unit r = UnitDay then Date y m (d + k * r_interval r) c
     else if r_unit r = UnitWeek then Date y m (d + 7 * k * r_interval r) c
     else if r_unit r = UnitMonth then
       clampedDate y (m + k * r_interval r) (if 0 < r_month_day r then r_month_day r else d) c
     else clampedDate y (m + 12 * k * r_interval r) d c)"

definition monthsBetween :: "time \<Rightarrow> time \<Rightarrow> int" where
  "monthsBetween a b = (Year b - Year a) * 12 + Month b - Month a"

definition estimate :: "rule \<Rightarrow> time \<Rightarrow> time \<Rightarrow> int" where
  "estimate r origin bound =
    (let steps =
       (if r_unit r = UnitDay then quo (quo (Sub bound origin) Day) (r_interval r)
        else if r_unit r = UnitWeek then quo (quo (Sub bound origin) (7 * Day)) (r_interval r)
        else if r_unit r = UnitMonth then quo (monthsBetween origin bound) (r_interval r)
        else if r_unit r = UnitYear then quo (Year bound - Year origin) (r_interval r)
        else 0)
     in max (steps - 1) 0)"

text \<open>A loop that tries \<open>k\<close>, \<open>k + 1\<close>, ... until one gives a result.\<close>

partial_function (option) search :: "(int \<Rightarrow> time option) \<Rightarrow> int \<Rightarrow> time option" where
  "search f k = (case f k of Some x \<Rightarrow> Some x | None \<Rightarrow> search f (k + 1))"

definition mondayOffset :: "int \<Rightarrow> int" where "mondayOffset wd = (wd + 6) mod 7"

definition week_occurrence :: "rule \<Rightarrow> time \<Rightarrow> int \<Rightarrow> int \<Rightarrow> time" where
  "week_occurrence r origin j wd =
    Date (Year origin) (Month origin)
      (Day_of_month origin - mondayOffset (Weekday origin) + j * (7 * r_interval r) + mondayOffset wd)
      (clock_of origin)"

definition firstWeekdayAfter :: "rule \<Rightarrow> time \<Rightarrow> time \<Rightarrow> time option" where
  "firstWeekdayAfter r origin bound =
    search (\<lambda>j. find (\<lambda>occ. After occ bound) (map (week_occurrence r origin j) (r_weekdays r)))
      (max (quo (quo (Sub bound origin) Day) (7 * r_interval r) - 1) 0)"

definition firstAfter :: "rule \<Rightarrow> time \<Rightarrow> time \<Rightarrow> time option" where
  "firstAfter r origin bound =
    (if r_weekdays r \<noteq> [] then firstWeekdayAfter r origin bound
     else search (\<lambda>k. if After (occurrence r origin k) bound then Some (occurrence r origin k) else None)
       (estimate r origin bound))"

definition anchor :: "rule \<Rightarrow> time option \<Rightarrow> time \<Rightarrow> time \<times> time" where
  "anchor r due done_at =
    (let counted = (let o' = Date (Year done_at) (Month done_at) (Day_of_month done_at)
           (case due of None \<Rightarrow> 0 | Some d \<Rightarrow> clock_of d) in (o', o'))
     in case due of None \<Rightarrow> counted
        | Some d \<Rightarrow> if r_after_done r then counted
            else if After done_at d then (d, done_at) else (d, d))"

definition afterDate :: "time \<Rightarrow> time \<Rightarrow> bool" where
  "afterDate t limit \<longleftrightarrow>
    After (Date (Year t) (Month t) (Day_of_month t) 0) (Date (Year limit) (Month limit) (Day_of_month limit) 0)"

text \<open>The outer \<open>None\<close> is a search that does not end, the inner one a rule that has run out.\<close>

definition Next :: "rule \<Rightarrow> time option \<Rightarrow> time \<Rightarrow> time option option" where
  "Next r due done_at =
    (if r_unit r = [] \<or> r_count r = 1 then Some None
     else let (origin, bound) = anchor r due done_at in
       (case firstAfter r origin bound of None \<Rightarrow> None
        | Some t \<Rightarrow>
            if (case r_until r of None \<Rightarrow> False | Some u \<Rightarrow> afterDate t u) then Some None else Some (Some t)))"

section \<open>Dates in order\<close>

lemma Date_shift: "Date y m (d + x) c = Date y m d c + x * Day"
  by (simp add: Date_def day_number_def algebra_simps)

lemma Date_norm: "Date (norm_year y m) (norm_month m) d c = Date y m d c"
  by (simp add: Date_def norm_year_def norm_month_def)

lemma norm_bounds: "1 \<le> norm_month m \<and> norm_month m \<le> 12"
  using pos_mod_sign [of 12 "m - 1"] pos_mod_bound [of 12 "m - 1"] by (simp add: norm_month_def)

lemma norm_index: "12 * norm_year y m + norm_month m = 12 * y + m"
  using mult_div_mod_eq [of 12 "m - 1"] by (simp add: norm_year_def norm_month_def)

definition month_index :: "time \<Rightarrow> int" where "month_index t = 12 * Year t + Month t"

lemma Date_zero_day:
  assumes "1 \<le> m" and "m \<le> 12"
  shows "Date y (m + 1) 0 c = Date y m (days_in_month y m) c"
proof (cases "m = 12")
  case True
  have "days_before_month (y + 1) 1 = 0" by (simp add: days_before_month_def)
  then show ?thesis
    using True days_before_year_Suc [of y] days_before_month_13 [of y]
    by (simp add: Date_def norm_year_def norm_month_def day_number_def days_in_month_def)
next
  case False
  with assms have "norm_year y (m + 1) = y" "norm_month (m + 1) = m + 1" "norm_year y m = y" "norm_month m = m"
    by (simp_all add: norm_year_def norm_month_def)
  then show ?thesis by (simp add: Date_def day_number_def days_in_month_def)
qed

text \<open>\<open>clampedDate\<close> is the day of the month, or the last one the month has.\<close>

lemma clampedDate_eq:
  fixes y m :: int
  defines "Y \<equiv> norm_year y m" and "M \<equiv> norm_month m"
  shows "clampedDate y m d c = Date Y M (min d (days_in_month Y M)) c"
proof -
  have M: "1 \<le> M" "M \<le> 12" using norm_bounds by (auto simp: M_def)
  then have dim: "28 \<le> days_in_month Y M" using days_in_month_bounds by blast
  then have v: "valid_date Y M 1" "valid_date Y M (days_in_month Y M)" using M by (auto simp: valid_date_def)
  have first: "Date y m 1 0 = Date Y M 1 0" by (simp add: Date_norm Y_def M_def)
  have c0: "Year (Date Y M 1 0) = Y" "Month (Date Y M 1 0) = M" using Date_components [OF v(1)] Day_pos by auto
  have "Day_of_month (Date Y (M + 1) 0 0) = days_in_month Y M"
    using Date_components(3) [OF v(2)] Day_pos by (simp add: Date_zero_day [OF M])
  then show ?thesis by (simp add: clampedDate_def Let_def first c0)
qed

lemma clampedDate_index:
  assumes "1 \<le> d" and "0 \<le> c" and "c < Day"
  shows "month_index (clampedDate y m d c) = 12 * y + m"
proof -
  let ?Y = "norm_year y m" and ?M = "norm_month m"
  have "28 \<le> days_in_month ?Y ?M" using days_in_month_bounds norm_bounds by blast
  then have "valid_date ?Y ?M (min d (days_in_month ?Y ?M))" using assms norm_bounds by (auto simp: valid_date_def)
  from Date_components [OF this assms(2,3)] show ?thesis
    by (simp add: month_index_def clampedDate_eq norm_index)
qed

lemma days_before_month_le:
  assumes "m \<le> n" and "1 \<le> m" and "n \<le> 13"
  shows "days_before_month y m \<le> days_before_month y n"
  using assms
proof (induction n rule: int_ge_induct)
  case base
  then show ?case by simp
next
  case (step n)
  then have "28 \<le> days_in_month y n" using days_in_month_bounds [of n y] by simp
  then show ?case using step days_before_month_Suc [of n y] by simp
qed

lemma month_index_less:
  assumes "month_index t < month_index u"
  shows "t < u"
proof -
  have vt: "valid_date (Year t) (Month t) (Day_of_month t)" and vu: "valid_date (Year u) (Month u) (Day_of_month u)"
    by (rule civil_valid)+
  have yt: "day_of t = days_before_year (Year t) + (days_before_month (Year t) (Month t) + Day_of_month t - 1)"
    and yu: "day_of u = days_before_year (Year u) + (days_before_month (Year u) (Month u) + Day_of_month u - 1)"
    using civil_day by (simp_all add: day_number_def)
  have "1 \<le> Month t" "Month t \<le> 12" "1 \<le> Month u" "Month u \<le> 12" using vt vu by (auto simp: valid_date_def)
  then have "Year t < Year u \<or> Year t = Year u \<and> Month t < Month u"
    using assms unfolding month_index_def by arith
  then consider "Year t < Year u" | "Year t = Year u" "Month t < Month u" by blast
  then have "day_of t < day_of u"
  proof cases
    case 1
    have "day_of t < days_before_year (Year t + 1)"
      using yt yday_bounds(2) [OF vt] days_before_year_Suc [of "Year t"] by (simp add: days_before_month_13)
    also have "\<dots> \<le> days_before_year (Year u)" using days_before_year_mono [of "Year t + 1" "Year u"] 1 by simp
    also have "\<dots> \<le> day_of u" using yu yday_bounds(1) [OF vu] by simp
    finally show ?thesis .
  next
    case 2
    have "days_before_month (Year t) (Month t + 1) \<le> days_before_month (Year t) (Month u)"
      using 2 vt vu by (intro days_before_month_le) (auto simp: valid_date_def)
    then show ?thesis
      using yt yu 2 vt vu days_before_month_Suc [of "Month t" "Year t"] by (auto simp: valid_date_def)
  qed
  then have "day_of t + 1 \<le> day_of u" by simp
  then have "(day_of t + 1) * Day \<le> day_of u * Day" using Day_pos by (intro mult_right_mono) auto
  then show ?thesis
    using time_split [of t] time_split [of u] clock_bounds [of t] clock_bounds [of u] by (simp add: algebra_simps)
qed

section \<open>The searches end at the first occurrence\<close>

lemma search_finds:
  assumes "f n \<noteq> None" and "k \<le> n" and "\<And>i. k \<le> i \<Longrightarrow> i < n \<Longrightarrow> f i = None"
  shows "search f k = f n"
  using assms
proof (induction "nat (n - k)" arbitrary: k)
  case 0
  then have "k = n" by simp
  with 0 show ?case by (subst search.simps) (auto split: option.splits)
next
  case (Suc x)
  then have "search f (k + 1) = f n" by (intro Suc.hyps(1)) auto
  moreover have "f k = None" using Suc by auto
  ultimately show ?case by (subst search.simps) simp
qed

lemma search_first:
  assumes "\<exists>n\<ge>k. f n \<noteq> None"
  shows "\<exists>n\<ge>k. f n \<noteq> None \<and> search f k = f n \<and> (\<forall>i. k \<le> i \<longrightarrow> i < n \<longrightarrow> f i = None)"
proof -
  from assms obtain n0 where n0: "k \<le> n0" "f n0 \<noteq> None" by blast
  define N where "N = (LEAST i::nat. f (k + int i) \<noteq> None)"
  have "f (k + int (nat (n0 - k))) \<noteq> None" using n0 by simp
  then have hit: "f (k + int N) \<noteq> None" unfolding N_def by (rule LeastI)
  have miss: "f i = None" if "k \<le> i" "i < k + int N" for i
  proof (rule ccontr)
    assume "f i \<noteq> None"
    then have "f (k + int (nat (i - k))) \<noteq> None" using that by simp
    then have "N \<le> nat (i - k)" unfolding N_def by (rule Least_le)
    with that show False by simp
  qed
  have "search f k = f (k + int N)" using hit miss by (intro search_finds) auto
  with hit miss show ?thesis by (intro exI [of _ "k + int N"]) auto
qed

section \<open>Occurrences in order\<close>

definition rule_ok :: "rule \<Rightarrow> bool" where
  "rule_ok r \<longleftrightarrow> 1 \<le> r_interval r \<and> r_unit r \<in> {UnitDay, UnitWeek, UnitMonth, UnitYear} \<and>
    (r_weekdays r \<noteq> [] \<longrightarrow> r_unit r = UnitWeek) \<and>
    sorted_wrt (\<lambda>a b. mondayOffset a < mondayOffset b) (r_weekdays r) \<and> set (r_weekdays r) \<subseteq> {0..6} \<and>
    0 \<le> r_month_day r \<and> r_month_day r \<le> 31 \<and> (0 < r_month_day r \<longrightarrow> r_unit r = UnitMonth) \<and>
    0 \<le> r_count r"

lemma unit_distinct [simp]:
  "UnitDay \<noteq> UnitWeek" "UnitDay \<noteq> UnitMonth" "UnitDay \<noteq> UnitYear" "UnitWeek \<noteq> UnitMonth"
  "UnitWeek \<noteq> UnitYear" "UnitMonth \<noteq> UnitYear" "UnitDay \<noteq> []" "UnitWeek \<noteq> []" "UnitMonth \<noteq> []" "UnitYear \<noteq> []"
  "UnitWeek \<noteq> UnitDay" "UnitMonth \<noteq> UnitDay" "UnitYear \<noteq> UnitDay" "UnitMonth \<noteq> UnitWeek"
  "UnitYear \<noteq> UnitWeek" "UnitYear \<noteq> UnitMonth"
  by (simp_all add: unit_defs)

text \<open>A rule counts in steps of days, or in steps of months.\<close>

definition day_step :: "rule \<Rightarrow> int" where
  "day_step r = (if r_unit r = UnitDay then r_interval r else 7 * r_interval r)"

definition month_step :: "rule \<Rightarrow> int" where
  "month_step r = (if r_unit r = UnitMonth then r_interval r else 12 * r_interval r)"

lemma occurrence_days:
  "r_unit r = UnitDay \<or> r_unit r = UnitWeek \<Longrightarrow> occurrence r o' k = o' + k * day_step r * Day"
  by (auto simp: occurrence_def Let_def day_step_def Date_shift Date_self algebra_simps)

lemma occurrence_months:
  assumes "rule_ok r" and "r_unit r = UnitMonth \<or> r_unit r = UnitYear"
  shows "month_index (occurrence r o' k) = month_index o' + k * month_step r"
proof -
  have d: "1 \<le> Day_of_month o'" using civil_valid [of o'] by (simp add: valid_date_def)
  have idx: "month_index (clampedDate y m d' (clock_of o')) = 12 * y + m" if "1 \<le> d'" for y m d'
    using that clock_bounds by (rule clampedDate_index)
  from assms(2) show ?thesis
  proof
    assume "r_unit r = UnitMonth"
    moreover have "1 \<le> (if 0 < r_month_day r then r_month_day r else Day_of_month o')" using d by simp
    ultimately show ?thesis by (simp add: occurrence_def Let_def month_step_def idx) (simp add: month_index_def)
  next
    assume "r_unit r = UnitYear"
    with d show ?thesis by (simp add: occurrence_def Let_def month_step_def idx) (simp add: month_index_def)
  qed
qed

lemma rule_ok_cases:
  assumes "rule_ok r"
  obtains (days) "r_unit r = UnitDay \<or> r_unit r = UnitWeek" and "1 \<le> day_step r"
  | (months) "r_unit r = UnitMonth \<or> r_unit r = UnitYear" and "1 \<le> month_step r"
  using assms by (auto simp: rule_ok_def day_step_def month_step_def)

lemma occurrence_less:
  assumes "rule_ok r" and "j < k"
  shows "occurrence r o' j < occurrence r o' k"
  using assms(1)
proof (cases rule: rule_ok_cases)
  case days
  then have "j * (day_step r * Day) < k * (day_step r * Day)"
    using assms(2) Day_pos by (intro mult_strict_right_mono) simp_all
  then show ?thesis using days by (simp add: occurrence_days mult.assoc)
next
  case months
  then have "j * month_step r < k * month_step r"
    using assms(2) by (intro mult_strict_right_mono) simp_all
  then have "month_index (occurrence r o' j) < month_index (occurrence r o' k)"
    using months occurrence_months [OF assms(1)] by simp
  then show ?thesis by (rule month_index_less)
qed

lemma occurrence_le: "rule_ok r \<Longrightarrow> j \<le> k \<Longrightarrow> occurrence r o' j \<le> occurrence r o' k"
  using occurrence_less [of r j k o'] by (cases "j = k") auto

lemma occurrence_unbounded:
  assumes "rule_ok r"
  shows "\<exists>n\<ge>e. bound < occurrence r o' n"
  using assms
proof (cases rule: rule_ok_cases)
  case days
  define n where "n = max e (max 0 (bound - o' + 1))"
  have "1 \<le> day_step r * Day" using days Day_pos mult_pos_pos [of "day_step r" Day] by linarith
  then have "n * 1 \<le> n * (day_step r * Day)" by (intro mult_left_mono) (auto simp: n_def)
  then have "bound < occurrence r o' n" using days by (simp add: occurrence_days mult.assoc n_def)
  moreover have "e \<le> n" by (simp add: n_def)
  ultimately show ?thesis by blast
next
  case months
  define n where "n = max e (max 0 (month_index bound - month_index o' + 1))"
  have "n * 1 \<le> n * month_step r" using months by (intro mult_left_mono) (auto simp: n_def)
  then have "month_index bound < month_index (occurrence r o' n)"
    using months occurrence_months [OF assms] by (simp add: n_def)
  then have "bound < occurrence r o' n" by (rule month_index_less)
  moreover have "e \<le> n" by (simp add: n_def)
  ultimately show ?thesis by blast
qed

lemma quo_le: "0 \<le> a \<Longrightarrow> 0 < b \<Longrightarrow> quo a b * b \<le> a \<and> 0 \<le> quo a b"
  using div_bounds [of b a] by (simp add: quo_nonneg mult.commute pos_imp_zdiv_nonneg_iff)

lemma Sub_bounds: "o' \<le> b \<Longrightarrow> 0 \<le> Sub b o' \<and> Sub b o' \<le> b - o'"
  by (auto simp: Sub_def min_int64_def max_int64_def)

text \<open>The estimate never passes an occurrence the search is after.\<close>

lemma quo_days:
  assumes "o' \<le> b" and "1 \<le> n" and "0 < d" and "k \<le> quo (quo (Sub b o') d) n"
  shows "k * n * d \<le> b - o'"
proof -
  have S: "0 \<le> Sub b o'" "Sub b o' \<le> b - o'" using Sub_bounds [OF assms(1)] by auto
  have q: "quo (Sub b o') d * d \<le> Sub b o'" "0 \<le> quo (Sub b o') d" using quo_le [OF S(1) assms(3)] by auto
  have q2: "quo (quo (Sub b o') d) n * n \<le> quo (Sub b o') d" using quo_le [OF q(2)] assms(2) by simp
  have "k * n \<le> quo (quo (Sub b o') d) n * n" using assms(2,4) by (intro mult_right_mono) auto
  with q2 have "k * n \<le> quo (Sub b o') d" by simp
  then have "k * n * d \<le> quo (Sub b o') d * d" using assms(3) by (intro mult_right_mono) auto
  with q S show ?thesis by simp
qed

lemma estimate_low:
  assumes ok: "rule_ok r" and ob: "o' \<le> bound" and k: "0 \<le> k" "k < estimate r o' bound"
  shows "occurrence r o' k \<le> bound"
proof -
  have I: "1 \<le> r_interval r" using ok by (simp add: rule_ok_def)
  have unit: "r_unit r \<in> {UnitDay, UnitWeek, UnitMonth, UnitYear}" using ok by (simp add: rule_ok_def)
  have mono: "month_index o' \<le> month_index bound" using month_index_less [of bound o'] ob by fastforce
  have mb: "1 \<le> Month bound" and mo: "Month o' \<le> 12" using civil_valid [of bound] civil_valid [of o'] by (auto simp: valid_date_def)
  consider "r_unit r = UnitDay" | "r_unit r = UnitWeek" | "r_unit r = UnitMonth" | "r_unit r = UnitYear"
    using unit by blast
  then show ?thesis
  proof cases
    case 1
    then have "k \<le> quo (quo (Sub bound o') Day) (r_interval r)" using k by (simp add: estimate_def Let_def)
    from quo_days [OF ob I Day_pos this] 1 show ?thesis by (simp add: occurrence_days day_step_def)
  next
    case 2
    then have "k \<le> quo (quo (Sub bound o') (7 * Day)) (r_interval r)" using k by (simp add: estimate_def Let_def)
    from quo_days [OF ob I _ this] Day_pos 2 show ?thesis by (simp add: occurrence_days day_step_def algebra_simps)
  next
    case 3
    let ?d = "month_index bound - month_index o'"
    have "k \<le> quo ?d (r_interval r) - 1"
      using 3 k by (simp add: estimate_def Let_def monthsBetween_def month_index_def algebra_simps)
    then have "(k + 1) * r_interval r \<le> quo ?d (r_interval r) * r_interval r" using I by (intro mult_right_mono) auto
    also have "\<dots> \<le> ?d" using quo_le [of ?d "r_interval r"] mono I by simp
    finally have "k * r_interval r < ?d" using I by (simp add: algebra_simps)
    then have "month_index (occurrence r o' k) < month_index bound"
      using 3 occurrence_months [OF ok] by (simp add: month_step_def)
    then show ?thesis using month_index_less by fastforce
  next
    case 4
    let ?d = "Year bound - Year o'"
    have steps: "k + 2 \<le> quo ?d (r_interval r)" using 4 k by (simp add: estimate_def Let_def)
    have d0: "0 \<le> ?d" using mono mb mo civil_valid [of bound] civil_valid [of o'] by (simp add: month_index_def valid_date_def)
    have "(k + 2) * r_interval r \<le> quo ?d (r_interval r) * r_interval r" using I steps by (intro mult_right_mono) auto
    also have "\<dots> \<le> ?d" using quo_le [OF d0] I by simp
    finally have "k * r_interval r + 2 \<le> ?d" using I by (simp add: algebra_simps)
    then have "month_index (occurrence r o' k) < month_index bound"
      using 4 occurrence_months [OF ok] mb mo by (simp add: month_step_def month_index_def)
    then show ?thesis using month_index_less by fastforce
  qed
qed

section \<open>Weekly rules with days\<close>

lemma mondayOffset_range: "0 \<le> mondayOffset wd \<and> mondayOffset wd \<le> 6"
  using pos_mod_sign [of 7 "wd + 6"] pos_mod_bound [of 7 "wd + 6"] by (simp add: mondayOffset_def)

lemma week_occurrence_eq:
  "week_occurrence r o' j wd =
    o' + (j * (7 * r_interval r) + mondayOffset wd - mondayOffset (Weekday o')) * Day"
proof -
  have "week_occurrence r o' j wd = Date (Year o') (Month o')
      (Day_of_month o' + (j * (7 * r_interval r) + mondayOffset wd - mondayOffset (Weekday o'))) (clock_of o')"
    by (simp add: week_occurrence_def algebra_simps)
  then show ?thesis by (simp only: Date_shift Date_self)
qed

lemma week_occurrence_less:
  assumes "1 \<le> r_interval r" and "i < j \<or> i = j \<and> mondayOffset a < mondayOffset b"
  shows "week_occurrence r o' i a < week_occurrence r o' j b"
proof -
  have "i * (7 * r_interval r) + mondayOffset a < j * (7 * r_interval r) + mondayOffset b"
  proof (cases "i < j")
    case True
    then have "(i + 1) * (7 * r_interval r) \<le> j * (7 * r_interval r)" using assms(1) by (intro mult_right_mono) auto
    then have "i * (7 * r_interval r) + 7 \<le> j * (7 * r_interval r)" using assms(1) by (simp add: algebra_simps)
    then show ?thesis using mondayOffset_range [of a] mondayOffset_range [of b] by linarith
  next
    case False
    then show ?thesis using assms(2) by auto
  qed
  then show ?thesis unfolding week_occurrence_eq using Day_pos by simp
qed

lemma find_sorted_least:
  assumes "sorted_wrt (<) (map g xs)" and "find p (map g xs) = Some t" and "x \<in> set xs" and "p (g x)"
  shows "t \<le> (g x :: int)"
  using assms by (induction xs) (auto split: if_splits)

definition occurrences :: "rule \<Rightarrow> time \<Rightarrow> time set" where
  "occurrences r o' = (if r_weekdays r \<noteq> []
     then {week_occurrence r o' j wd | j wd. 0 \<le> j \<and> wd \<in> set (r_weekdays r)}
     else {occurrence r o' k | k. 0 \<le> k})"

lemma firstWeekdayAfter_least:
  assumes ok: "rule_ok r" and wds: "r_weekdays r \<noteq> []" and ob: "o' \<le> bound"
  shows "\<exists>t. firstWeekdayAfter r o' bound = Some t \<and> t \<in> occurrences r o' \<and> bound < t \<and>
    (\<forall>u\<in>occurrences r o'. bound < u \<longrightarrow> t \<le> u)"
proof -
  have I: "1 \<le> r_interval r" and sorted: "sorted_wrt (\<lambda>a b. mondayOffset a < mondayOffset b) (r_weekdays r)"
    using ok by (auto simp: rule_ok_def)
  define e where "e = max (quo (quo (Sub bound o') Day) (7 * r_interval r) - 1) 0"
  define f where "f = (\<lambda>j. find (\<lambda>occ. After occ bound) (map (week_occurrence r o' j) (r_weekdays r)))"
  have run: "firstWeekdayAfter r o' bound = search f e" by (simp add: firstWeekdayAfter_def e_def f_def)
  obtain wd0 where wd0: "wd0 \<in> set (r_weekdays r)" using wds by (cases "r_weekdays r") auto
  have hit: "f j \<noteq> None" if "wd \<in> set (r_weekdays r)" "bound < week_occurrence r o' j wd" for j wd
    using that by (auto simp: f_def find_None_iff After_def)
  have low: "week_occurrence r o' j wd \<le> bound" if "0 \<le> j" "j < e" for j wd
  proof -
    have "j + 1 \<le> quo (quo (Sub bound o') Day) (7 * r_interval r)" using that by (simp add: e_def)
    from quo_days [OF ob _ Day_pos this] I have q: "(j + 1) * (7 * r_interval r) * Day \<le> bound - o'" by simp
    define x where "x = j * (7 * r_interval r) + mondayOffset wd - mondayOffset (Weekday o')"
    have "(j + 1) * (7 * r_interval r) = j * (7 * r_interval r) + 7 * r_interval r" by (simp add: distrib_right)
    then have "x \<le> (j + 1) * (7 * r_interval r)"
      using mondayOffset_range [of wd] mondayOffset_range [of "Weekday o'"] I by (simp add: x_def)
    then have "x * Day \<le> (j + 1) * (7 * r_interval r) * Day" using Day_pos by (intro mult_right_mono) auto
    with q have "x * Day \<le> bound - o'" by simp
    then show ?thesis by (simp add: week_occurrence_eq x_def [symmetric])
  qed
  have "\<exists>n\<ge>e. f n \<noteq> None"
  proof -
    define n where "n = max e (max 0 (bound - o' + 7))"
    have "n * 1 \<le> n * (7 * r_interval r)" using I by (intro mult_left_mono) (auto simp: n_def)
    define x where "x = n * (7 * r_interval r) + mondayOffset wd0 - mondayOffset (Weekday o')"
    have x: "bound - o' + 1 \<le> x"
      using \<open>n * 1 \<le> n * (7 * r_interval r)\<close> mondayOffset_range [of wd0] mondayOffset_range [of "Weekday o'"]
      by (simp add: n_def x_def)
    have "x * 1 \<le> x * Day" using x ob Day_pos by (intro mult_left_mono) auto
    then have "bound < week_occurrence r o' n wd0" using x by (simp add: week_occurrence_eq x_def [symmetric])
    then have "f n \<noteq> None" using hit wd0 by blast
    moreover have "e \<le> n" by (simp add: n_def)
    ultimately show ?thesis by blast
  qed
  from search_first [OF this] obtain n where n: "e \<le> n" "f n \<noteq> None" "search f e = f n" and miss: "\<And>i. e \<le> i \<Longrightarrow> i < n \<Longrightarrow> f i = None"
    by blast
  then obtain t where t: "f n = Some t" by auto
  then have "t \<in> set (map (week_occurrence r o' n) (r_weekdays r))" and bt: "bound < t"
    by (auto simp: f_def After_def dest: find_SomeD)
  then obtain a where a: "a \<in> set (r_weekdays r)" "t = week_occurrence r o' n a" by auto
  have "0 \<le> n" using n(1) by (simp add: e_def)
  with a wds have mem: "t \<in> occurrences r o'" by (auto simp: occurrences_def)
  have least: "t \<le> u" if "u \<in> occurrences r o'" "bound < u" for u
  proof -
    from that wds obtain j b where u: "0 \<le> j" "b \<in> set (r_weekdays r)" "u = week_occurrence r o' j b"
      by (auto simp: occurrences_def)
    have "e \<le> j" using low [of j b] u that by (meson not_le)
    moreover have "f j \<noteq> None" using hit u that by blast
    ultimately have "n \<le> j" using miss by (meson not_le)
    show ?thesis
    proof (cases "n = j")
      case True
      have 1: "sorted_wrt (<) (map (week_occurrence r o' j) (r_weekdays r))"
        unfolding sorted_wrt_map
        by (rule sorted_wrt_mono_rel [OF _ sorted]) (use I in \<open>auto intro: week_occurrence_less\<close>)
      have 2: "find (\<lambda>occ. After occ bound) (map (week_occurrence r o' j) (r_weekdays r)) = Some t"
        using t True by (simp only: f_def)
      have 3: "After (week_occurrence r o' j b) bound" using u(3) that(2) by (simp add: After_def)
      show ?thesis unfolding u(3)
        by (rule find_sorted_least [where p = "\<lambda>occ. After occ bound", OF 1 2 u(2) 3])
    next
      case False
      then show ?thesis using \<open>n \<le> j\<close> a u I week_occurrence_less [of r n j a b o'] by simp
    qed
  qed
  show ?thesis using run n(3) t mem bt least by (intro exI [of _ t]) auto
qed

lemma firstAfter_least:
  assumes ok: "rule_ok r" and ob: "o' \<le> bound"
  shows "\<exists>t. firstAfter r o' bound = Some t \<and> t \<in> occurrences r o' \<and> bound < t \<and>
    (\<forall>u\<in>occurrences r o'. bound < u \<longrightarrow> t \<le> u)"
proof (cases "r_weekdays r = []")
  case False
  then show ?thesis using firstWeekdayAfter_least [OF ok False ob] by (simp add: firstAfter_def)
next
  case True
  define f where "f = (\<lambda>k. if After (occurrence r o' k) bound then Some (occurrence r o' k) else None)"
  define e where "e = estimate r o' bound"
  have run: "firstAfter r o' bound = search f e" using True by (simp add: firstAfter_def f_def e_def)
  have "0 \<le> e" by (simp add: e_def estimate_def Let_def)
  have hit: "f k \<noteq> None \<longleftrightarrow> bound < occurrence r o' k" for k by (simp add: f_def After_def)
  have "\<exists>n\<ge>e. f n \<noteq> None" unfolding hit by (rule occurrence_unbounded [OF ok])
  from search_first [OF this] obtain n where n: "e \<le> n" "f n \<noteq> None" "search f e = f n" and miss: "\<And>i. e \<le> i \<Longrightarrow> i < n \<Longrightarrow> f i = None"
    by blast
  have t: "f n = Some (occurrence r o' n)" and bt: "bound < occurrence r o' n"
    using n(2) by (auto simp: f_def After_def split: if_splits)
  have mem: "occurrence r o' n \<in> occurrences r o'" using True n(1) \<open>0 \<le> e\<close> by (auto simp: occurrences_def)
  have least: "occurrence r o' n \<le> u" if "u \<in> occurrences r o'" "bound < u" for u
  proof -
    from that True obtain k where u: "0 \<le> k" "u = occurrence r o' k" by (auto simp: occurrences_def)
    have "e \<le> k" using estimate_low [OF ok ob, of k] u that by (auto simp: e_def not_less [symmetric])
    then have "n \<le> k" using miss hit u that by (meson not_le)
    then show ?thesis using occurrence_le [OF ok] u by blast
  qed
  show ?thesis using run n(3) t mem bt least by (intro exI [of _ "occurrence r o' n"]) auto
qed

section \<open>Rules that parse\<close>

lemma invalid_not_Inr [simp]: "invalid \<noteq> Inr x" "Inr x \<noteq> invalid"
  by (simp_all add: invalid_def)

lemma unitWords_range: "map_of unitWords w = Some u \<Longrightarrow> u \<in> {UnitDay, UnitWeek, UnitMonth, UnitYear}"
  by (drule map_of_SomeD) (auto simp: unitWords_def)

lemma shorthands_range: "map_of shorthands w = Some u \<Longrightarrow> u \<in> {UnitDay, UnitWeek, UnitMonth, UnitYear}"
  by (drule map_of_SomeD) (auto simp: shorthands_def)

lemma plain_rule_ok:
  "1 \<le> n \<Longrightarrow> u \<in> {UnitDay, UnitWeek, UnitMonth, UnitYear} \<Longrightarrow> rule_ok (plain_rule n u) \<and> r_weekdays (plain_rule n u) = []"
  by (auto simp: rule_ok_def plain_rule_def)

lemma parse_unit_ok: "parse_unit n every w ws = Inr (r, e, ws') \<Longrightarrow> 1 \<le> n \<Longrightarrow> rule_ok r \<and> r_weekdays r = []"
  unfolding parse_unit_def using unitWords_range [of w] plain_rule_ok [of n]
  by (cases "map_of unitWords w") auto

lemma parse_interval_ok: "parse_interval every w ws = Inr (r, e, ws') \<Longrightarrow> rule_ok r \<and> r_weekdays r = []"
  unfolding parse_interval_def using parse_unit_ok
  by (cases "ParseInt w") (auto split: if_splits list.splits)

lemma parse_head_ok: "parse_head ws = Inr (r, e, ws') \<Longrightarrow> rule_ok r \<and> r_weekdays r = []"
proof (cases ws)
  case Nil
  then show "parse_head ws = Inr (r, e, ws') \<Longrightarrow> ?thesis" by (simp add: parse_head_def)
next
  case (Cons w rest)
  assume p: "parse_head ws = Inr (r, e, ws')"
  show ?thesis
  proof (cases "map_of shorthands w")
    case None
    with p Cons parse_interval_ok show ?thesis
      unfolding parse_head_def by (simp split: if_splits list.splits)
  next
    case (Some u)
    with p Cons have "r = plain_rule 1 u" by (simp add: parse_head_def)
    with plain_rule_ok [OF _ shorthands_range [OF Some]] show ?thesis by simp
  qed
qed

lemma monday_first_sorted: "sorted_wrt (\<lambda>a b. mondayOffset a < mondayOffset b) monday_first"
  by (simp add: monday_first_def mondayOffset_def)

lemma parse_on_ok:
  assumes "parse_on r ws = Inr (r', ws')" and "rule_ok r" and "r_weekdays r = []"
  shows "rule_ok r'"
proof (cases ws)
  case Nil
  with assms show ?thesis by (simp add: parse_on_def)
next
  case (Cons v rest)
  show ?thesis
  proof (cases "v = ''day''")
    case True
    then obtain n where "r' = r\<lparr>r_month_day := n\<rparr>" "1 \<le> n" "n \<le> 31" "r_unit r = UnitMonth"
      using assms(1) Cons by (auto simp: parse_on_def split: if_splits option.splits)
    with assms(2) show ?thesis by (simp add: rule_ok_def)
  next
    case False
    then obtain p where r': "r' = r\<lparr>r_weekdays := filter p monday_first\<rparr>" and "r_unit r = UnitWeek"
      using assms(1,3) Cons by (auto simp: parse_on_def rbind_Inr_iff split: if_splits)
    moreover have "sorted_wrt (\<lambda>a b. mondayOffset a < mondayOffset b) (filter p monday_first)"
      by (rule sorted_wrt_filter [OF monday_first_sorted])
    moreover have "set (filter p monday_first) \<subseteq> {0..6}" by (auto simp: monday_first_def)
    ultimately show ?thesis using assms(2) by (simp add: rule_ok_def)
  qed
qed

lemma parse_clause_words:
  "parse_clause r ''on'' ws = parse_on r ws"
  "parse_clause r ''after'' ws = (if word ws \<noteq> ''done'' then invalid else Inr (r\<lparr>r_after_done := True\<rparr>, tl ws))"
  "parse_clause r ''until'' ws = (case parse_date (word ws) of
     None \<Rightarrow> invalid | Some d \<Rightarrow> Inr (r\<lparr>r_until := Some d\<rparr>, tl ws))"
  "parse_clause r ''for'' ws = (case ParseInt (word ws) of None \<Rightarrow> invalid
     | Some n \<Rightarrow> if n < 1 \<or> MaxRecurrenceNumber < n then invalid
         else if word (tl ws) \<noteq> ''time'' \<and> word (tl ws) \<noteq> ''times'' then invalid
         else Inr (r\<lparr>r_count := n\<rparr>, tl (tl ws)))"
  by (simp_all only: parse_clause_def) simp_all

lemma parse_clause_keyword:
  "parse_clause r w ws = Inr x \<Longrightarrow> w = ''on'' \<or> w = ''after'' \<or> w = ''until'' \<or> w = ''for''"
  unfolding parse_clause_def invalid_def by (meson Inl_Inr_False)

lemma parse_clause_other:
  assumes "parse_clause r w ws = Inr (r', ws')" and "w \<noteq> ''on''"
  shows "\<exists>ad u c. r' = r\<lparr>r_after_done := ad, r_until := u, r_count := c\<rparr> \<and> (c = r_count r \<or> 1 \<le> c)"
proof -
  consider (a) "w = ''after''" | (u) "w = ''until''" | (f) "w = ''for''"
    using parse_clause_keyword [OF assms(1)] assms(2) by blast
  then show ?thesis
  proof cases
    case a
    have "r' = r\<lparr>r_after_done := True\<rparr>"
      using assms(1) unfolding a parse_clause_words by (cases "word ws = ''done''") simp_all
    then show ?thesis by (intro exI [of _ True] exI [of _ "r_until r"] exI [of _ "r_count r"]) simp
  next
    case u
    obtain d where "r' = r\<lparr>r_until := Some d\<rparr>"
      using assms(1) unfolding u parse_clause_words by (cases "parse_date (word ws)") auto
    then show ?thesis by (intro exI [of _ "r_after_done r"] exI [of _ "Some d"] exI [of _ "r_count r"]) simp
  next
    case f
    obtain n where "r' = r\<lparr>r_count := n\<rparr>" "1 \<le> n"
      using assms(1) unfolding f parse_clause_words
      by (cases "ParseInt (word ws)") (auto split: if_split_asm)
    then show ?thesis by (intro exI [of _ "r_after_done r"] exI [of _ "r_until r"] exI [of _ n]) simp
  qed
qed

lemma parse_clause_ok:
  assumes "parse_clause r w ws = Inr (r', ws')" and "rule_ok r" and "w = ''on'' \<longrightarrow> r_weekdays r = []"
  shows "rule_ok r' \<and> (w \<noteq> ''on'' \<longrightarrow> r_weekdays r' = r_weekdays r)"
proof (cases "w = ''on''")
  case True
  with assms parse_on_ok show ?thesis by (simp add: parse_clause_def)
next
  case False
  obtain ad u c where r': "r' = r\<lparr>r_after_done := ad, r_until := u, r_count := c\<rparr>" and c: "c = r_count r \<or> 1 \<le> c"
    using parse_clause_other [OF assms(1) False] by blast
  from c have "0 \<le> c" using assms(2) unfolding rule_ok_def by linarith
  then show ?thesis using assms(2) unfolding rule_ok_def r' by simp
qed

lemma parse_clauses_ok:
  assumes "parse_clauses seen r ws = Inr r'" and "rule_ok r" and "''on'' \<notin> set seen \<longrightarrow> r_weekdays r = []"
  shows "rule_ok r'"
  using assms
proof (induction seen r ws arbitrary: r' rule: parse_clauses.induct)
  case (1 seen r)
  then show ?case by simp
next
  case (2 seen r w ws)
  have w: "w \<notin> set seen" using 2(2) by (cases "w \<in> set seen") simp_all
  then have "rbind (parse_clause r w ws) (\<lambda>(r', ws'). parse_clauses (w # seen) r' ws') = Inr r'"
    using 2(2) by simp
  then obtain r1 ws1 where c: "parse_clause r w ws = Inr (r1, ws1)" and rest: "parse_clauses (w # seen) r1 ws1 = Inr r'"
    by (cases "parse_clause r w ws") (simp, metis rbind_simps(2) case_prod_conv surj_pair)
  have on: "w = ''on'' \<longrightarrow> r_weekdays r = []" using 2(4) w by blast
  note ok1 = parse_clause_ok [OF c 2(3) on]
  have "''on'' \<notin> set (w # seen) \<longrightarrow> r_weekdays r1 = []" using ok1 2(4) by (metis list.set_intros)
  then show ?case using 2(1) [OF w c refl rest] ok1 by blast
qed

lemma ParseRecurrence_ok: "ParseRecurrence text = Inr r \<Longrightarrow> rule_ok r"
  by (auto simp: ParseRecurrence_def rbind_Inr_iff split: if_splits dest!: parse_head_ok intro: parse_clauses_ok)

section \<open>Properties\<close>

lemma anchor_le: "anchor r due done_at = (o', b) \<Longrightarrow> o' \<le> b"
  by (auto simp: anchor_def Let_def After_def split: option.splits if_splits)

text \<open>
  C36: For every rule that parses, computing the next occurrence ends, and gives the least
  occurrence counted from the anchor that is strictly after its bound, unless the rule has run
  out: its last counted occurrence, or that date is past its until date.
\<close>

theorem Next_least:
  assumes "ParseRecurrence text = Inr r" and "anchor r due done_at = (origin, bound)"
  shows "(r_count r = 1 \<longrightarrow> Next r due done_at = Some None) \<and>
    (r_count r \<noteq> 1 \<longrightarrow> (\<exists>t\<in>occurrences r origin. bound < t \<and> (\<forall>u\<in>occurrences r origin. bound < u \<longrightarrow> t \<le> u) \<and>
      Next r due done_at = Some (case r_until r of
          None \<Rightarrow> Some t | Some u \<Rightarrow> if afterDate t u then None else Some t)))"
proof -
  have ok: "rule_ok r" using assms(1) by (rule ParseRecurrence_ok)
  then have unit: "r_unit r \<noteq> []" by (auto simp: rule_ok_def)
  show ?thesis
  proof (cases "r_count r = 1")
    case True
    then show ?thesis by (simp add: Next_def)
  next
    case False
    obtain t where "firstAfter r origin bound = Some t" "t \<in> occurrences r origin" "bound < t"
      "\<forall>u\<in>occurrences r origin. bound < u \<longrightarrow> t \<le> u"
      using firstAfter_least [OF ok anchor_le [OF assms(2)]] by blast
    with False unit assms(2) show ?thesis
      by (auto simp: Next_def split: option.splits intro!: bexI [of _ t])
  qed
qed

definition weekly_rule :: rule where
  "weekly_rule = \<lparr>r_interval = 2, r_unit = UnitWeek, r_weekdays = [1, 4], r_month_day = 0, r_after_done = False,
     r_until = None, r_count = 0\<rparr>"

theorem Next_least_witness:
  "\<exists>t. Next weekly_rule (Some (Date 2026 1 1 0)) (Date 2026 1 2 0) = Some (Some t) \<and> Date 2026 1 2 0 < t"
proof -
  have p: "ParseRecurrence ''every 2 weeks on Mon, thu'' = Inr weekly_rule" by code_simp
  have "anchor weekly_rule (Some (Date 2026 1 1 0)) (Date 2026 1 2 0) = (Date 2026 1 1 0, Date 2026 1 2 0)"
    by code_simp
  from Next_least [OF p this] show ?thesis by (auto simp: weekly_rule_def)
qed

text \<open>
  C37: Clamping never accumulates: the \<open>k\<close>-th occurrence of a monthly rule lies exactly \<open>k\<close>
  intervals of months after the origin's month and on the asked day of the month, held only to
  the last day that month has, at the origin's time of day; yearly rules likewise by twelve.
\<close>

theorem occurrence_month_end:
  assumes "ParseRecurrence text = Inr r" and "r_unit r \<in> {UnitMonth, UnitYear}"
  shows "12 * Year (occurrence r origin k) + Month (occurrence r origin k)
      = 12 * Year origin + Month origin + k * (if r_unit r = UnitMonth then r_interval r else 12 * r_interval r) \<and>
    Day_of_month (occurrence r origin k)
      = min (if 0 < r_month_day r then r_month_day r else Day_of_month origin)
          (days_in_month (Year (occurrence r origin k)) (Month (occurrence r origin k))) \<and>
    clock_of (occurrence r origin k) = clock_of origin"
proof -
  have ok: "rule_ok r" using assms(1) by (rule ParseRecurrence_ok)
  let ?d = "if 0 < r_month_day r then r_month_day r else Day_of_month origin"
  have md: "r_unit r = UnitYear \<Longrightarrow> r_month_day r = 0" using ok by (auto simp: rule_ok_def)
  define m where "m = (if r_unit r = UnitMonth then Month origin + k * r_interval r
    else Month origin + 12 * k * r_interval r)"
  have occ: "occurrence r origin k = clampedDate (Year origin) m ?d (clock_of origin)"
    using assms(2) md by (auto simp: occurrence_def Let_def m_def)
  let ?Y = "norm_year (Year origin) m" and ?M = "norm_month m"
  have "1 \<le> ?d" using civil_valid [of origin] by (auto simp: valid_date_def)
  then have v: "valid_date ?Y ?M (min ?d (days_in_month ?Y ?M))"
    using norm_bounds [of m] days_in_month_bounds [of ?M ?Y] by (auto simp: valid_date_def)
  note c = Date_components [OF v clock_bounds]
  have "month_index (occurrence r origin k) = month_index origin + k * month_step r"
    using occurrence_months [OF ok] assms(2) by auto
  then show ?thesis using c by (auto simp: occ clampedDate_eq month_index_def month_step_def)
qed

theorem occurrence_month_end_witness:
  "Day_of_month (occurrence \<lparr>r_interval = 1, r_unit = UnitMonth, r_weekdays = [], r_month_day = 31,
     r_after_done = False, r_until = None, r_count = 0\<rparr> (Date 2026 1 31 0) 1) = 28"
proof -
  let ?r = "\<lparr>r_interval = 1, r_unit = UnitMonth, r_weekdays = [], r_month_day = 31,
     r_after_done = False, r_until = None, r_count = 0\<rparr>"
  have p: "ParseRecurrence ''every month on day 31'' = Inr ?r" by code_simp
  have "Year (occurrence ?r (Date 2026 1 31 0) 1) = 2026 \<and> Month (occurrence ?r (Date 2026 1 31 0) 1) = 2"
    by code_simp
  then show ?thesis
    using occurrence_month_end [OF p, of "Date 2026 1 31 0" 1]
    by (simp add: days_in_month_def days_before_month_def is_leap_def)
qed

end
