(* ===== verification/Occurrences.thy ===== *)
theory Occurrences
  imports Mutation Task_Writes Recurrence
begin

text \<open>
  Finishing a repeating task creates its next occurrence (\<open>internal/service/recurrence.go\<close>),
  inside the transaction that finishes it. The store writes of \<open>Task_Writes\<close> are lifted to the
  mutation here, with identifiers drawn from the mutation's generator.
\<close>

section \<open>Store writes inside a mutation\<close>

definition tx_store :: "(store \<Rightarrow> store res) \<Rightarrow> mutation \<Rightarrow> mutation res" where
  "tx_store f m = rbind (f (m_store m)) (\<lambda>s. Inr (m\<lparr>m_store := s\<rparr>))"

definition tx_create :: "task \<Rightarrow> mutation \<Rightarrow> (mutation \<times> task) res" where
  "tx_create t m = (let (m, k) = new_id m in on_store (CreateTask (m_db m) k t) m)"

definition tx_update :: "task \<Rightarrow> mutation \<Rightarrow> (mutation \<times> task) res" where
  "tx_update t m = on_store (UpdateTask (m_db m) t) m"

definition tx_attach :: "string \<Rightarrow> string \<Rightarrow> mutation \<Rightarrow> mutation res" where
  "tx_attach k name m = (let (m, fresh) = new_id m in tx_store (attachTaskLabel fresh k name) m)"

definition tx_comment :: "string \<Rightarrow> string \<Rightarrow> mutation \<Rightarrow> (mutation \<times> comment) res" where
  "tx_comment k body m =
    (let (m, fresh) = new_id m in on_store (CreateComment (m_db m) fresh k (a_id (m_actor m)) body) m)"

definition tx_artifact :: "artifact \<Rightarrow> mutation \<Rightarrow> (mutation \<times> artifact) res" where
  "tx_artifact a m = (let (m, fresh) = new_id m in on_store (PutArtifact (m_db m) fresh a) m)"

section \<open>Spawning\<close>

definition spawnsOnMove :: "workflow_definition \<Rightarrow> task \<Rightarrow> string \<Rightarrow> bool" where
  "spawnsOnMove d t to \<longleftrightarrow> t_recurrence t \<noteq> [] \<and> t_next_id t = [] \<and> CompletesWork d to"

definition next_task :: "workflow_definition \<Rightarrow> task \<Rightarrow> rule \<Rightarrow> time \<Rightarrow> mutation \<Rightarrow> task" where
  "next_task d t r due m = empty_task\<lparr>
     t_project := t_project t, t_parent := t_parent t, t_title := t_title t, t_body := t_body t,
     t_status := initial d, t_priority := t_priority t, t_assignee := t_assignee t,
     t_creator := a_id (m_actor m), t_due := Some due, t_custom := t_custom t,
     t_recurrence := rule_string (Successor r), t_lease := t_lease t,
     t_completed := (if IsTerminal d (initial d) then Some (m_now m) else None)\<rparr>"

fun attach_all :: "string \<Rightarrow> string list \<Rightarrow> mutation \<Rightarrow> mutation res" where
  "attach_all k [] m = Inr m"
| "attach_all k (n # ns) m = rbind (tx_attach k n m) (attach_all k ns)"

text \<open>
  The finished task comes back with the link to its successor. A search without end, which no
  rule that parses has, is given as a foreign error.
\<close>

definition spawnOccurrence ::
  "workflow_definition \<Rightarrow> task \<Rightarrow> string \<Rightarrow> mutation \<Rightarrow> (mutation \<times> task \<times> task option) res" where
  "spawnOccurrence d t to m =
    (if \<not> spawnsOnMove d t to then Inr (m, t, None)
     else case ParseRecurrence (t_recurrence t) of
       Inl e \<Rightarrow> Inl (Wrap (fail KindInternal) e)
     | Inr r \<Rightarrow> (case Next r (t_due t) (m_now m) of
         None \<Rightarrow> Inl (Foreign ''search without end'' None)
       | Some None \<Rightarrow> Inr (m, t, None)
       | Some (Some due) \<Rightarrow>
           let names = tag_names (m_store m) (t_id t) in
           rbind (tx_create (next_task d t r due m) m) (\<lambda>(m, nxt).
           rbind (attach_all (t_id nxt) names m) (\<lambda>m.
             Inr (m, t\<lparr>t_next_id := t_id nxt\<rparr>, Some nxt)))))"

definition EventTaskCreated :: string where "EventTaskCreated = ''task.created''"

definition recordOccurrence :: "task \<Rightarrow> task option \<Rightarrow> mutation \<Rightarrow> mutation" where
  "recordOccurrence t nxt m = (case nxt of None \<Rightarrow> m
     | Some n \<Rightarrow> Record ''task.create'' EventTaskCreated (t_id n) (t_project n) None (Some (TaskSnap n))
         [(''ref'', DStr (task_ref_text (m_store m) n)), (''title'', DStr (t_title n)),
          (''status'', DStr (t_status n)), (''recurs_from'', DStr (task_ref_text (m_store m) t))] m)"

definition withNext :: "store \<Rightarrow> (string \<times> detail) list \<Rightarrow> task option \<Rightarrow> (string \<times> detail) list" where
  "withNext s payload nxt = (case nxt of None \<Rightarrow> payload
     | Some n \<Rightarrow> payload @ [(''next'', DStr (task_ref_text s n))])"

end
