(* ===== verification/Releases.thy ===== *)
theory Releases
  imports Claims Occurrences
begin

text \<open>
  Holding and giving up a lease (\<open>internal/service/claim.go\<close>, \<open>reclaim.go\<close>): renewing,
  releasing with a final status and a result, sweeping lapsed leases with the workflow's
  revert rule, proving a lease to an operation, and an administrator's forced reclaim.
\<close>

section \<open>Renewing\<close>

definition renew_tx :: "call_ctx \<Rightarrow> task_ref \<Rightarrow> string \<Rightarrow> duration \<Rightarrow> mutation \<Rightarrow> (mutation \<times> claim) res" where
  "renew_tx ctx ref token ttl m =
    rbind (claimTarget ctx (m_store m) ref) (\<lambda>t.
    if token = [] then Inl (fail KindInvalid)
    else rbind (task_grant m t ttl) (\<lambda>g.
    let until = Until (m_now m) (TTL g) in
    rbind (on_store (RenewLease (m_db m) (t_id t) token until) m) (\<lambda>(m, ok).
    if \<not> ok then Inl staleLease
    else rbind (GetTask (m_store m) (id_ref (t_id t))) (\<lambda>renewed.
      Inr (Record ''task.lease_renew'' EventTaskUpdated (t_id t) (t_project t) (Some (TaskSnap t)) (Some (TaskSnap renewed))
          [(''lease_expires_at'', DInt until)] m,
        \<lparr>cl_task = renewed, cl_token = token, cl_expires = until, cl_lease = g\<rparr>)))))"

definition service_RenewLease ::
  "env \<Rightarrow> call_ctx \<Rightarrow> task_ref \<Rightarrow> string \<Rightarrow> duration \<Rightarrow> store \<Rightarrow> store \<times> claim res" where
  "service_RenewLease e ctx ref token ttl s =
    (case authorize ctx ActionTaskClaim no_resource of
       Inl err \<Rightarrow> (s, Inl err)
     | Inr a \<Rightarrow> write_tx e ctx a (renew_tx ctx ref token ttl) s)"

section \<open>Releasing\<close>

record release_input =
  ri_status :: string
  ri_comment :: string
  ri_result :: fields

definition releasableStatus :: "workflow \<Rightarrow> task \<Rightarrow> actor \<Rightarrow> release_input \<Rightarrow> unit res" where
  "releasableStatus w t a inp =
    (let d = wf_definition w in
     if ri_status inp = [] then Inr ()
     else if \<not> HasState d (ri_status inp) then Inl (fail KindInvalid)
     else if ri_status inp = t_status t then Inl (fail KindInvalid)
     else case CanTransition d (t_status t) (ri_status inp) of
       None \<Rightarrow> Inl (fail KindInvalid)
     | Some tr \<Rightarrow>
         if tr_requires_comment tr \<and> ri_comment inp = [] then Inl (fail KindInvalid)
         else if tr_requires_scope tr \<noteq> [] \<and> \<not> HasScope (Some a) (tr_requires_scope tr) then Inl (fail KindForbidden)
         else Inr ())"

definition result_artifact :: "task \<Rightarrow> string \<Rightarrow> fields \<Rightarrow> artifact" where
  "result_artifact t actor result = \<lparr>af_id = [], af_task = t_id t, af_actor = actor, af_kind = ''result'',
     af_name = ''result'', af_payload = result, af_content_type = [], af_created = 0\<rparr>"

definition applyRelease :: "task \<Rightarrow> workflow \<Rightarrow> release_input \<Rightarrow> mutation \<Rightarrow> mutation res" where
  "applyRelease t w inp m =
    rbind (if ri_comment inp \<noteq> []
           then rbind (tx_comment (t_id t) (ri_comment inp) m) (\<lambda>(m, c). Inr (notifyComment t (cm_id c) (cm_body c) m))
           else Inr m) (\<lambda>m.
    rbind (if ri_result inp \<noteq> []
           then rbind (tx_artifact (result_artifact t (a_id (m_actor m)) (ri_result inp)) m) (\<lambda>(m, _). Inr m)
           else Inr m) (\<lambda>m.
    if ri_status inp = [] then Inr m
    else let d = wf_definition w;
             updated = t\<lparr>t_status := ri_status inp\<rparr>;
             updated = (if IsTerminal d (ri_status inp) then updated\<lparr>t_completed := Some (m_now m)\<rparr> else updated)
      in rbind (spawnOccurrence d updated (ri_status inp) m) (\<lambda>(m, updated, nxt).
         rbind (tx_update updated m) (\<lambda>(m, updated).
         let m = notifyStatus updated (t_status t) (ri_status inp) m;
             m = Record ''task.transition'' EventTaskTransitioned (t_id t) (t_project t) (Some (TaskSnap t)) (Some (TaskSnap updated))
               (withNext (m_store m) [(''from'', DStr (t_status t)), (''to'', DStr (ri_status inp))] nxt) m
         in Inr (recordOccurrence updated nxt m)))))"

definition release_tx :: "call_ctx \<Rightarrow> task_ref \<Rightarrow> string \<Rightarrow> release_input \<Rightarrow> mutation \<Rightarrow> (mutation \<times> unit) res" where
  "release_tx ctx ref token inp m =
    rbind (claimTarget ctx (m_store m) ref) (\<lambda>t.
    if token = [] then Inl (fail KindInvalid)
    else rbind (claimWorkflow (m_store m) (t_project t)) (\<lambda>w.
    rbind (releasableStatus w t (m_actor m) inp) (\<lambda>_.
    rbind (on_store (ReleaseLease (m_db m) (t_id t) token) m) (\<lambda>(m, ok).
    if \<not> ok then Inl staleLease
    else rbind (applyRelease t w inp m) (\<lambda>m.
    rbind (GetTask (m_store m) (id_ref (t_id t))) (\<lambda>released.
      let payload = [(''status'', DStr (t_status released))];
          payload = (if ri_status inp \<noteq> [] then payload @ [(''final_status'', DStr (ri_status inp))] else payload)
      in Inr (Record ''task.release'' EventTaskReleased (t_id t) (t_project t) (Some (TaskSnap t)) (Some (TaskSnap released)) payload m,
              ())))))))"

definition service_ReleaseLease ::
  "env \<Rightarrow> call_ctx \<Rightarrow> task_ref \<Rightarrow> string \<Rightarrow> release_input \<Rightarrow> store \<Rightarrow> store \<times> unit res" where
  "service_ReleaseLease e ctx ref token inp s =
    (case rbind (authorize ctx ActionTaskClaim no_resource) (\<lambda>a.
        rbind (if ri_status inp \<noteq> [] then authorize ctx ActionTaskTransition no_resource else Inr a) (\<lambda>_.
        rbind (if ri_result inp \<noteq> [] then authorize ctx ActionArtifactWrite no_resource else Inr a) (\<lambda>_. Inr a))) of
       Inl err \<Rightarrow> (s, Inl err)
     | Inr a \<Rightarrow> write_tx e ctx a (release_tx ctx ref token inp) s)"

section \<open>Sweeping lapsed leases\<close>

definition revert_target :: "workflow_definition \<Rightarrow> string \<Rightarrow> string option" where
  "revert_target d status = (case State d status of None \<Rightarrow> None
     | Some st \<Rightarrow>
         if \<not> s_revert_on_lease_expiry st then None
         else let to = (if s_revert_to st = [] then initial d else s_revert_to st)
           in if to \<noteq> status \<and> HasState d to then Some to else None)"

definition sweepOne :: "task \<Rightarrow> mutation \<Rightarrow> (mutation \<times> bool) res" where
  "sweepOne before m =
    rbind (on_store (ClearClaim (m_db m) (t_id before) (Text (t_claimed_by before)) (m_now m)) m) (\<lambda>(m, cleared).
    if \<not> cleared then Inr (m, False)
    else rbind (GetTask (m_store m) (id_ref (t_id before))) (\<lambda>current.
    rbind (claimWorkflow (m_store m) (t_project current)) (\<lambda>w.
    let payload = [(''previous_holder'', DStr (Text (t_claimed_by before)))];
        payload = (case lookupActor (m_store m) (Text (t_claimed_by before)) of
          Inl _ \<Rightarrow> payload | Inr h \<Rightarrow> payload @ [(''previous_holder_handle'', DStr (ac_handle h))]);
        target = revert_target (wf_definition w) (t_status current)
    in rbind (case target of None \<Rightarrow> Inr (m, current)
         | Some to \<Rightarrow> tx_update (current\<lparr>t_status := to, t_started := None\<rparr>) m) (\<lambda>(m, _).
    let payload = (case target of None \<Rightarrow> payload | Some to \<Rightarrow> payload @ [(''reverted_to'', DStr to)]) in
    rbind (GetTask (m_store m) (id_ref (t_id before))) (\<lambda>after.
    let m = Record ''task.lease_expire'' EventTaskLeaseExpired (t_id before) (t_project before)
          (Some (TaskSnap before)) (Some (TaskSnap after)) payload m
    in case target of None \<Rightarrow> Inr (m, True)
       | Some to \<Rightarrow> Inr (Event EventTaskTransitioned ''task'' (t_id before) (t_project before)
           (withRef (m_store m) [(''from'', DStr (t_status current)), (''to'', DStr (t_status after)),
              (''reason'', DStr ''lease_expiry'')] (Some (TaskSnap before)) (Some (TaskSnap after))) m, True))))))"

fun sweep_all :: "task list \<Rightarrow> nat \<Rightarrow> mutation \<Rightarrow> (mutation \<times> nat) res" where
  "sweep_all [] n m = Inr (m, n)"
| "sweep_all (t # ts) n m =
    rbind (sweepOne t m) (\<lambda>(m, cleared). sweep_all ts (if cleared then n + 1 else n) m)"

definition service_SweepLeases :: "env \<Rightarrow> call_ctx \<Rightarrow> int \<Rightarrow> store \<Rightarrow> store \<times> nat res" where
  "service_SweepLeases e ctx limit s =
    (case authorize ctx ActionTaskUpdate no_resource of
       Inl err \<Rightarrow> (s, Inl err)
     | Inr a \<Rightarrow> write_tx e ctx a (\<lambda>m. sweep_all (ExpiredLeases (m_now m) limit (m_store m)) 0 m) s)"

section \<open>Proving a lease\<close>

definition requireLeaseToken :: "task \<Rightarrow> string \<Rightarrow> mutation \<Rightarrow> mutation res" where
  "requireLeaseToken t token m =
    (if \<not> claimed_at_time t (m_now m) then
       (if token \<noteq> [] then Inl staleLease else Inr m)
     else if token = [] then Inl (fail KindLeaseExpired)
     else case t_lease_expires t of None \<Rightarrow> Inl (fail KindInternal)
       | Some e \<Rightarrow> rbind (on_store (RenewLease (m_db m) (t_id t) token e) m) (\<lambda>(m, ok).
           if \<not> ok then Inl (fail KindLeaseExpired) else Inr m))"

section \<open>Forced reclaim\<close>

definition MaxTitleLength :: int where "MaxTitleLength = 500"

definition reclaimTarget :: "call_ctx \<Rightarrow> store \<Rightarrow> task_ref \<Rightarrow> task res" where
  "reclaimTarget ctx s ref =
    rbind (GetTask s ref) (\<lambda>t.
      if Deleted t then Inl (fail KindNotFound)
      else rbind (RequireActor ctx) (\<lambda>a.
        rbind (Can (Some a) ActionTaskReclaim (task_resource a t)) (\<lambda>_. Inr t)))"

definition reclaimPayload :: "store \<Rightarrow> string \<Rightarrow> string \<Rightarrow> string \<Rightarrow> (string \<times> detail) list" where
  "reclaimPayload s holder status reason =
    (let payload = [(''forced'', DBool True), (''previous_holder'', DStr holder), (''status'', DStr status)];
         payload = (case lookupActor s holder of
           Inl _ \<Rightarrow> payload | Inr h \<Rightarrow> payload @ [(''previous_holder_handle'', DStr (ac_handle h))])
     in if reason \<noteq> [] then payload @ [(''reason'', DStr reason)] else payload)"

definition reclaim_tx :: "call_ctx \<Rightarrow> task_ref \<Rightarrow> string \<Rightarrow> mutation \<Rightarrow> (mutation \<times> task) res" where
  "reclaim_tx ctx ref reason m =
    rbind (reclaimTarget ctx (m_store m) ref) (\<lambda>t.
    if \<not> claimed_at_time t (m_now m) then Inl (fail KindConflict)
    else let holder = Text (t_claimed_by t) in
    rbind (on_store (ForceReclaim (t_id t) holder (m_now m)) m) (\<lambda>(m, ok).
    if \<not> ok then Inl (fail_with KindConflict [(''claimed_by'', DStr holder)])
    else rbind (GetTask (m_store m) (id_ref (t_id t))) (\<lambda>reclaimed.
      Inr (Record ''task.reclaim'' EventTaskReclaimed (t_id t) (t_project t) (Some (TaskSnap t)) (Some (TaskSnap reclaimed))
          (reclaimPayload (m_store m) holder (t_status reclaimed) reason) m, reclaimed))))"

definition service_ForceReclaim :: "env \<Rightarrow> call_ctx \<Rightarrow> task_ref \<Rightarrow> string \<Rightarrow> store \<Rightarrow> store \<times> task res" where
  "service_ForceReclaim e ctx ref reason s =
    (case rbind (authorize ctx ActionTaskReclaim no_resource) (\<lambda>a.
        if MaxTitleLength < int (length reason) then Inl (fail KindInvalid) else Inr a) of
       Inl err \<Rightarrow> (s, Inl err)
     | Inr a \<Rightarrow> write_tx e ctx a (reclaim_tx ctx ref reason) s)"

end
