(* ===== verification/Custom_Fields.thy ===== *)
theory Custom_Fields
  imports Tables Recurrence
begin

text \<open>
  Custom field values (\<open>internal/service/task.go\<close>, field types of \<open>internal/core/types.go\<close>): how a
  value is brought to the form its definition declares, how a create applies defaults and required
  fields, and how an update is layered over what is stored. A map from keys to values is an
  association list; the order in which Go walks a map is not fixed and here is the list's, which
  decides only the error reported when several keys are wrong.
\<close>

section \<open>Field types\<close>

definition FieldString :: string where "FieldString = ''string''"
definition FieldText :: string where "FieldText = ''text''"
definition FieldInt :: string where "FieldInt = ''int''"
definition FieldFloat :: string where "FieldFloat = ''float''"
definition FieldBool :: string where "FieldBool = ''bool''"
definition FieldDate :: string where "FieldDate = ''date''"
definition FieldDateTime :: string where "FieldDateTime = ''datetime''"
definition FieldEnum :: string where "FieldEnum = ''enum''"
definition FieldActor :: string where "FieldActor = ''actor''"
definition FieldJSON :: string where "FieldJSON = ''json''"

lemmas field_type_defs = FieldString_def FieldText_def FieldInt_def FieldFloat_def FieldBool_def
  FieldDate_def FieldDateTime_def FieldEnum_def FieldActor_def FieldJSON_def

section \<open>Times written RFC 3339\<close>

text \<open>
  \<open>time.Parse(time.RFC3339, s)\<close> as a test: the date, a \<open>T\<close>, the hour of one or two digits,
  minutes and seconds, a fraction after a dot or a comma, and \<open>Z\<close> or an offset.
\<close>

definition zone_ok :: "string \<Rightarrow> bool" where
  "zone_ok s = (case s of
     [z] \<Rightarrow> z = CHR ''Z''
   | [sg, a, b, c, d, e] \<Rightarrow> (sg = CHR ''+'' \<or> sg = CHR ''-'') \<and> c = CHR '':'' \<and>
       (case (two_digits a b, two_digits d e) of (Some h, Some m) \<Rightarrow> h \<le> 24 \<and> m \<le> 60 | _ \<Rightarrow> False)
   | _ \<Rightarrow> False)"

definition after_seconds :: "string \<Rightarrow> bool" where
  "after_seconds s = (case s of
     p # d # rest \<Rightarrow> if (p = CHR ''.'' \<or> p = CHR '','') \<and> is_digit d then zone_ok (dropWhile is_digit rest) else zone_ok s
   | _ \<Rightarrow> zone_ok s)"

definition after_hour :: "int \<Rightarrow> string \<Rightarrow> bool" where
  "after_hour h s = (case s of
     c1 # a # b # c2 # c # d # rest \<Rightarrow> c1 = CHR '':'' \<and> c2 = CHR '':'' \<and> h < 24 \<and>
       (case (two_digits a b, two_digits c d) of (Some m, Some sec) \<Rightarrow> m < 60 \<and> sec < 60 | _ \<Rightarrow> False) \<and>
       after_seconds rest
   | _ \<Rightarrow> False)"

definition clock_ok :: "string \<Rightarrow> bool" where
  "clock_ok s = (case s of
     a # b # rest \<Rightarrow> (case two_digits a b of
         Some h \<Rightarrow> after_hour h rest
       | None \<Rightarrow> is_digit a \<and> after_hour (int (digit_value a)) (b # rest))
   | _ \<Rightarrow> False)"

definition is_rfc3339 :: "string \<Rightarrow> bool" where
  "is_rfc3339 s \<longleftrightarrow> parse_date (take 10 s) \<noteq> None \<and>
     (case drop 10 s of [] \<Rightarrow> False | t # rest \<Rightarrow> t = CHR ''T'' \<and> clock_ok rest)"

section \<open>Coercion\<close>

text \<open>
  A float64 is an int64 when converting it there and back gives it again. The conversion of a
  number out of range is left to the processor by Go; here, as on amd64, such a number is refused.
\<close>

definition toInt :: "json \<Rightarrow> int option" where
  "toInt v = (case v of
     JNum q \<Rightarrow> if q = of_int \<lfloor>q\<rfloor> \<and> in_int64 \<lfloor>q\<rfloor> then Some \<lfloor>q\<rfloor> else None
   | _ \<Rightarrow> None)"

definition toFloat :: "json \<Rightarrow> rat option" where
  "toFloat v = (case v of JNum q \<Rightarrow> Some q | _ \<Rightarrow> None)"

definition fieldTypeError :: "field_def \<Rightarrow> goerr" where
  "fieldTypeError d = fail KindInvalid"

definition coerceTime :: "field_def \<Rightarrow> json \<Rightarrow> (string \<Rightarrow> bool) \<Rightarrow> json res" where
  "coerceTime d v layout = (case v of
     JStr s \<Rightarrow> if layout s then Inr (JStr s) else Inl (fail KindInvalid)
   | _ \<Rightarrow> Inl (fieldTypeError d))"

definition coerceFieldValue :: "field_def \<Rightarrow> json \<Rightarrow> json res" where
  "coerceFieldValue d v =
    (if fd_type d \<in> {FieldString, FieldText, FieldActor} then
       (case v of JStr s \<Rightarrow> Inr (JStr s) | _ \<Rightarrow> Inl (fieldTypeError d))
     else if fd_type d = FieldEnum then
       (case v of JStr s \<Rightarrow> if s \<in> set (fd_options d) then Inr (JStr s) else Inl (fail KindInvalid)
        | _ \<Rightarrow> Inl (fieldTypeError d))
     else if fd_type d = FieldInt then
       (case toInt v of Some n \<Rightarrow> Inr (JNum (of_int n)) | None \<Rightarrow> Inl (fieldTypeError d))
     else if fd_type d = FieldFloat then
       (case toFloat v of Some q \<Rightarrow> Inr (JNum q) | None \<Rightarrow> Inl (fieldTypeError d))
     else if fd_type d = FieldBool then
       (case v of JBool b \<Rightarrow> Inr (JBool b) | _ \<Rightarrow> Inl (fieldTypeError d))
     else if fd_type d = FieldDate then coerceTime d v (\<lambda>s. parse_date s \<noteq> None)
     else if fd_type d = FieldDateTime then coerceTime d v is_rfc3339
     else if fd_type d = FieldJSON then Inr v
     else Inl (fail KindInvalid))"

section \<open>Validating and merging\<close>

text \<open>\<open>byKey\<close>: the last definition of a key.\<close>

definition field_of :: "field_def list \<Rightarrow> string \<Rightarrow> field_def option" where
  "field_of defs k = find (\<lambda>d. fd_key d = k) (rev defs)"

fun coerce_values :: "field_def list \<Rightarrow> fields \<Rightarrow> fields \<Rightarrow> fields res" where
  "coerce_values defs [] out = Inr out"
| "coerce_values defs ((k, v) # rest) out =
    (case field_of defs k of
       None \<Rightarrow> Inl (fail KindInvalid)
     | Some d \<Rightarrow> if v = JNull then coerce_values defs rest out
         else rbind (coerceFieldValue d v) (\<lambda>w. coerce_values defs rest (AList.update k w out)))"

fun apply_defaults :: "field_def list \<Rightarrow> fields \<Rightarrow> fields res" where
  "apply_defaults [] out = Inr out"
| "apply_defaults (d # ds) out =
    (if map_of out (fd_key d) \<noteq> None then apply_defaults ds out
     else case fd_default d of
       Some v \<Rightarrow> rbind (coerceFieldValue d v) (\<lambda>w. apply_defaults ds (AList.update (fd_key d) w out))
     | None \<Rightarrow> if fd_required d then Inl (fail KindInvalid) else apply_defaults ds out)"

definition validateTaskFields :: "field_def list \<Rightarrow> fields \<Rightarrow> bool \<Rightarrow> fields res" where
  "validateTaskFields defs values applyDefaults =
    rbind (coerce_values defs values []) (\<lambda>out. if applyDefaults then apply_defaults defs out else Inr out)"

definition mergeTaskFields :: "field_def list \<Rightarrow> fields \<Rightarrow> fields \<Rightarrow> fields res" where
  "mergeTaskFields defs current update =
    rbind (validateTaskFields defs update False) (\<lambda>validated.
      let out = AList.updates (map fst validated) (map snd validated)
            (filter (\<lambda>(k, _). k \<notin> fst ` set update) current)
      in if \<exists>d\<in>set defs. fd_required d \<and> map_of out (fd_key d) = None then Inl (fail KindInvalid)
         else Inr out)"

section \<open>Lemmas\<close>

lemma toInt_of_int: "toInt v = Some n \<Longrightarrow> toInt (JNum (of_int n)) = Some n"
  by (auto simp: toInt_def split: json.splits if_splits)

text \<open>A coercion leaves a coerced value alone; shown branch by branch.\<close>

definition settles :: "(json \<Rightarrow> json res) \<Rightarrow> bool" where
  "settles f \<longleftrightarrow> (\<forall>v w. f v = Inr w \<longrightarrow> f w = Inr w)"

lemma settles_if: "settles f \<Longrightarrow> settles g \<Longrightarrow> settles (\<lambda>v. if c then f v else g v)"
  by (cases c) simp_all

lemma settles_coerceTime: "settles (\<lambda>v. coerceTime d v layout)"
  by (auto simp: settles_def coerceTime_def split: json.splits if_splits)

lemma settles_branches:
  "settles (\<lambda>v. case v of JStr s \<Rightarrow> Inr (JStr s) | _ \<Rightarrow> Inl e)"
  "settles (\<lambda>v. case v of JStr s \<Rightarrow> if p s then Inr (JStr s) else Inl e' | _ \<Rightarrow> Inl e)"
  "settles (\<lambda>v. case v of JBool b \<Rightarrow> Inr (JBool b) | _ \<Rightarrow> Inl e)"
  "settles (\<lambda>v. case toInt v of Some n \<Rightarrow> Inr (JNum (of_int n)) | None \<Rightarrow> Inl e)"
  "settles (\<lambda>v. case toFloat v of Some q \<Rightarrow> Inr (JNum q) | None \<Rightarrow> Inl e)"
  "settles (\<lambda>v. Inl e)" "settles Inr"
  by (auto simp: settles_def toFloat_def split: json.splits option.splits if_splits dest: toInt_of_int)

lemma coerceFieldValue_settles: "settles (coerceFieldValue d)"
proof -
  have "settles (\<lambda>v. coerceFieldValue d v)"
    unfolding coerceFieldValue_def by (intro settles_if settles_branches settles_coerceTime)
  then show ?thesis .
qed

lemma coerceFieldValue_idem: "coerceFieldValue d v = Inr w \<Longrightarrow> coerceFieldValue d w = Inr w"
  using coerceFieldValue_settles by (auto simp: settles_def)

text \<open>What a task stores: every key is defined, and every value has the form of its definition.\<close>

definition typed_fields :: "field_def list \<Rightarrow> fields \<Rightarrow> bool" where
  "typed_fields defs fs \<longleftrightarrow> (\<forall>k v. map_of fs k = Some v \<longrightarrow>
     (\<exists>d. field_of defs k = Some d \<and> coerceFieldValue d v = Inr v))"

definition required_present :: "field_def list \<Rightarrow> fields \<Rightarrow> bool" where
  "required_present defs fs \<longleftrightarrow> (\<forall>d\<in>set defs. fd_required d \<longrightarrow> map_of fs (fd_key d) \<noteq> None)"

lemma typed_fields_update:
  "typed_fields defs fs \<Longrightarrow> field_of defs k = Some d \<Longrightarrow> coerceFieldValue d v = Inr w \<Longrightarrow>
    typed_fields defs (AList.update k w fs)"
  by (auto simp: typed_fields_def update_conv dest: coerceFieldValue_idem split: if_splits)

lemma coerce_values_typed:
  "coerce_values defs vs out = Inr fs \<Longrightarrow> typed_fields defs out \<Longrightarrow> typed_fields defs fs"
  by (induction defs vs out rule: coerce_values.induct)
    (auto split: option.splits if_splits intro: typed_fields_update)

lemma coerce_values_ok:
  "coerce_values defs vs out = Inr fs \<Longrightarrow> (k, v) \<in> set vs \<Longrightarrow> field_of defs k = Some d \<Longrightarrow> v \<noteq> JNull \<Longrightarrow>
    \<exists>w. coerceFieldValue d v = Inr w"
  by (induction defs vs out rule: coerce_values.induct) (auto split: option.splits if_splits)

lemma coerce_values_distinct:
  "coerce_values defs vs out = Inr fs \<Longrightarrow> distinct (map fst out) \<Longrightarrow> distinct (map fst fs)"
  by (induction defs vs out rule: coerce_values.induct) (auto split: option.splits if_splits simp: distinct_update)

lemma coerce_values_map:
  assumes "coerce_values defs vs out = Inr fs" and "distinct (map fst vs)"
  shows "map_of fs k =
    (case map_of vs k of Some v \<Rightarrow>
        if v = JNull then map_of out k
        else (case coerceFieldValue (the (field_of defs k)) v of Inr w \<Rightarrow> Some w | Inl _ \<Rightarrow> None)
     | None \<Rightarrow> map_of out k)"
  using assms
proof (induction defs vs out rule: coerce_values.induct)
  case (1 defs out)
  then show ?case by simp
next
  case (2 defs k' v rest out)
  have "map_of rest k' = None" using "2.prems"(2) by (simp add: map_of_eq_None_iff)
  with 2 show ?case by (auto simp: update_conv split: option.splits if_splits)
qed

lemma map_of_filter_keys: "map_of (filter (\<lambda>(k, _). p k) xs) k = (if p k then map_of xs k else None)"
  by (induction xs) auto

lemma map_upds_lookup:
  "distinct (map fst xs) \<Longrightarrow>
    (m(map fst xs [\<mapsto>] map snd xs)) k = (case map_of xs k of Some w \<Rightarrow> Some w | None \<Rightarrow> m k)"
proof (induction xs arbitrary: m)
  case Nil
  then show ?case by simp
next
  case (Cons x xs)
  then have "map_of xs (fst x) = None" by (simp add: map_of_eq_None_iff)
  with Cons show ?case by (cases x) (auto split: option.splits)
qed

lemma field_of_in: "field_of defs k = Some d \<Longrightarrow> d \<in> set defs \<and> fd_key d = k"
  unfolding field_of_def by (auto dest: find_SomeD)

lemma field_of_key: "distinct (map fd_key defs) \<Longrightarrow> d \<in> set defs \<Longrightarrow> field_of defs (fd_key d) = Some d"
  unfolding field_of_def using find_key [of fd_key "rev defs" d] by (simp add: rev_map [symmetric])

lemma coerce_values_known: "coerce_values defs vs out = Inr fs \<Longrightarrow> (k, v) \<in> set vs \<Longrightarrow> field_of defs k \<noteq> None"
  by (induction defs vs out rule: coerce_values.induct) (auto split: option.splits if_splits)

lemma apply_defaults_grows:
  "apply_defaults ds out = Inr fs \<Longrightarrow>
    (\<forall>k v. map_of out k = Some v \<longrightarrow> map_of fs k = Some v) \<and> (\<forall>d\<in>set ds. fd_required d \<longrightarrow> map_of fs (fd_key d) \<noteq> None)"
proof (induction ds out rule: apply_defaults.induct)
  case (1 out)
  then show ?case by simp
next
  case (2 d ds out)
  consider (present) "map_of out (fd_key d) \<noteq> None"
    | (default) v w where "map_of out (fd_key d) = None" "fd_default d = Some v" "coerceFieldValue d v = Inr w"
        "apply_defaults ds (AList.update (fd_key d) w out) = Inr fs"
    | (absent) "map_of out (fd_key d) = None" "fd_default d = None" "\<not> fd_required d" "apply_defaults ds out = Inr fs"
    using "2.prems" by (auto split: if_splits option.splits)
  then show ?case
  proof cases
    case present
    with 2 show ?thesis by fastforce
  next
    case (default v w)
    then have "(\<forall>k v. map_of (AList.update (fd_key d) w out) k = Some v \<longrightarrow> map_of fs k = Some v) \<and>
        (\<forall>d\<in>set ds. fd_required d \<longrightarrow> map_of fs (fd_key d) \<noteq> None)"
      using "2.IH"(3) [of v w] by simp
    moreover have "\<forall>k v. map_of out k = Some v \<longrightarrow> map_of (AList.update (fd_key d) w out) k = Some v"
      using default(1) by (auto simp: update_conv)
    moreover have "map_of (AList.update (fd_key d) w out) (fd_key d) = Some w" by (simp add: update_conv)
    ultimately show ?thesis by auto
  next
    case absent
    with "2.IH"(2) show ?thesis by auto
  qed
qed

lemma apply_defaults_typed:
  assumes "distinct (map fd_key defs)"
  shows "apply_defaults ds out = Inr fs \<Longrightarrow> set ds \<subseteq> set defs \<Longrightarrow> typed_fields defs out \<Longrightarrow> typed_fields defs fs"
  by (induction ds out rule: apply_defaults.induct)
    (auto split: option.splits if_splits intro: typed_fields_update field_of_key [OF assms])


text \<open>
  C40: An update of custom fields changes the fields it names and no other: a null clears its
  field, any other value is stored in its declared form, the rest stay as they were. Fields that
  were well-typed stay so, and no required field goes missing.
\<close>

theorem mergeTaskFields_effect:
  assumes "mergeTaskFields defs current update = Inr out"
    and "distinct (map fst update)" and "typed_fields defs current"
  shows "typed_fields defs out \<and> required_present defs out \<and>
    (\<forall>k. map_of out k = (case map_of update k of
        None \<Rightarrow> map_of current k
      | Some v \<Rightarrow> if v = JNull then None
          else (case coerceFieldValue (the (field_of defs k)) v of Inr w \<Rightarrow> Some w | Inl _ \<Rightarrow> None)))"
proof -
  obtain new where new: "coerce_values defs update [] = Inr new"
    and out: "out = AList.updates (map fst new) (map snd new) (filter (\<lambda>(k, _). k \<notin> fst ` set update) current)"
    and req: "\<not> (\<exists>d\<in>set defs. fd_required d \<and> map_of out (fd_key d) = None)"
    using assms(1) by (auto simp: mergeTaskFields_def validateTaskFields_def Let_def split: if_splits)
  have typed_new: "typed_fields defs new" using coerce_values_typed [OF new] by (simp add: typed_fields_def)
  have kept: "map_of (filter (\<lambda>(k, _). k \<notin> fst ` set update) current) k =
      (if k \<in> fst ` set update then None else map_of current k)" for k
    by (simp add: map_of_filter_keys)
  have distinct_new: "distinct (map fst new)" using coerce_values_distinct [OF new] by simp
  have val: "map_of out k = (case map_of new k of Some w \<Rightarrow> Some w | None \<Rightarrow>
      (if k \<in> fst ` set update then None else map_of current k))" for k
    unfolding out updates_conv map_upds_lookup [OF distinct_new] kept by (rule refl)
  have eq: "map_of out k = (case map_of update k of
        None \<Rightarrow> map_of current k
      | Some v \<Rightarrow> if v = JNull then None
          else (case coerceFieldValue (the (field_of defs k)) v of Inr w \<Rightarrow> Some w | Inl _ \<Rightarrow> None))" for k
  proof (cases "map_of update k")
    case None
    then have "k \<notin> fst ` set update" by (simp add: map_of_eq_None_iff)
    with None val coerce_values_map [OF new assms(2), of k] show ?thesis by simp
  next
    case (Some v)
    then have "k \<in> fst ` set update" by (metis map_of_eq_None_iff option.distinct(1))
    with Some val coerce_values_map [OF new assms(2), of k] show ?thesis by (auto split: sum.split)
  qed
  have "typed_fields defs out"
    using typed_new assms(3) by (auto simp: typed_fields_def val split: option.splits if_splits)
  with req eq show ?thesis by (simp add: required_present_def)
qed

definition sample_fields :: "field_def list" where
  "sample_fields =
    [\<lparr>fd_project = ''p1'', fd_key = ''est'', fd_type = FieldInt, fd_required = True, fd_options = [], fd_default = None\<rparr>,
     \<lparr>fd_project = ''p1'', fd_key = ''sev'', fd_type = FieldEnum, fd_required = False, fd_options = [''low'', ''high''],
       fd_default = Some (JStr ''low'')\<rparr>]"

lemma sample_create: "validateTaskFields sample_fields [(''est'', JNum 3)] True = Inr [(''est'', JNum 3), (''sev'', JStr ''low'')]"
  by code_simp

lemma sample_merge:
  "mergeTaskFields sample_fields [(''est'', JNum 3), (''sev'', JStr ''low'')] [(''sev'', JNull), (''est'', JNum 5)] =
    Inr [(''est'', JNum 5)]"
  by code_simp

lemma sample_fields_distinct: "distinct (map fd_key sample_fields)"
  by code_simp


lemma sample_typed: "typed_fields sample_fields [(''est'', JNum 3), (''sev'', JStr ''low'')]"
proof -
  have "coerce_values sample_fields [(''est'', JNum 3), (''sev'', JStr ''low'')] [] =
      Inr [(''est'', JNum 3), (''sev'', JStr ''low'')]" by code_simp
  from coerce_values_typed [OF this] show ?thesis by (simp add: typed_fields_def)
qed

theorem mergeTaskFields_effect_witness: "typed_fields sample_fields [(''est'', JNum 5)]"
  using mergeTaskFields_effect [OF sample_merge _ sample_typed] by simp

end
