(* ===== verification/Ident.thy ===== *)
theory Ident
  imports Task_Ref "HOL-Library.Word" "HOL-Library.List_Lexorder"
begin

text \<open>
  Generated identifiers (\<open>internal/id/id.go\<close>): sixteen bytes, a 48-bit millisecond stamp and ten
  bytes of entropy, written as 26 characters of Crockford base 32; and the generator, which
  counts the entropy up within a millisecond so that identifiers sort in the order they were made.
  Bytes and the accumulator are machine words.
\<close>

unbundle bit_operations_syntax

definition ident_length :: nat where "ident_length = 26"

definition crockford :: string where "crockford = ''0123456789ABCDEFGHJKMNPQRSTVWXYZ''"

definition upper :: "char \<Rightarrow> char" where
  "upper c = (if CHR ''a'' \<le> c \<and> c \<le> CHR ''z'' then char_of (of_char c - (32 :: nat)) else c)"

definition Valid :: "string \<Rightarrow> bool" where
  "Valid s \<longleftrightarrow> length s = ident_length \<and> (\<forall>c\<in>set s. upper c \<in> set crockford)"

section \<open>Writing sixteen bytes\<close>

text \<open>The inner loop writes the pending bits in fives, from the most significant down.\<close>

function emit :: "32 word \<Rightarrow> nat \<Rightarrow> string" where
  "emit acc bits = (if 5 \<le> bits then crockford ! unat (drop_bit (bits - 5) acc AND 31) # emit acc (bits - 5) else [])"
  by pat_completeness auto
termination by (relation "measure (\<lambda>(_, bits). bits)") auto

declare emit.simps [simp del]

fun encode_rest :: "32 word \<Rightarrow> nat \<Rightarrow> 8 word list \<Rightarrow> string" where
  "encode_rest acc bits [] = (if 0 < bits then [crockford ! unat (push_bit (5 - bits) acc AND 31)] else [])"
| "encode_rest acc bits (b # bs) =
    (let acc = push_bit 8 acc OR ucast b; bits = bits + 8
     in emit acc bits @ encode_rest acc (bits mod 5) bs)"

definition encode :: "8 word list \<Rightarrow> string" where
  "encode raw = [crockford ! unat (drop_bit 5 (hd raw AND 0xE0)), crockford ! unat (hd raw AND 0x1F)] @
     encode_rest 0 0 (tl raw)"

section \<open>The generator\<close>

text \<open>\<open>incr\<close> counts up from the last byte; the flag says that every byte wrapped.\<close>

fun incr_rev :: "8 word list \<Rightarrow> 8 word list \<times> bool" where
  "incr_rev [] = ([], True)"
| "incr_rev (b # bs) = (if b + 1 \<noteq> 0 then ((b + 1) # bs, False)
     else let (bs, wrapped) = incr_rev bs in ((b + 1) # bs, wrapped))"

definition incr :: "8 word list \<Rightarrow> 8 word list \<times> bool" where
  "incr b = (let (r, wrapped) = incr_rev (rev b) in (rev r, wrapped))"

record generator =
  lastMS :: "64 word"
  lastRand :: "8 word list"

text \<open>Sixteen bytes: the low 48 bits of the stamp, then the entropy, which is written over the last two bytes of the stamp's word.\<close>

definition stamp_bytes :: "64 word \<Rightarrow> 8 word list" where
  "stamp_bytes ms = map (\<lambda>i. ucast (drop_bit (56 - 8 * i) (push_bit 16 ms))) [0..<8]"

definition raw_id :: "64 word \<Rightarrow> 8 word list \<Rightarrow> 8 word list" where
  "raw_id ms entropy = take 6 (stamp_bytes ms) @ entropy"

text \<open>\<open>drawn\<close> is what \<open>crypto/rand\<close> gives when it is asked; \<open>ms\<close> the millisecond of the clock's reading.\<close>

definition NewAt :: "64 word \<Rightarrow> 8 word list \<Rightarrow> generator \<Rightarrow> generator \<times> string" where
  "NewAt ms drawn g =
    (let (ms, entropy) =
       (if ms = lastMS g
        then (let (next, wrapped) = incr (lastRand g) in if wrapped then (ms + 1, drawn) else (ms, next))
        else (ms, drawn))
     in (g\<lparr>lastMS := ms, lastRand := entropy\<rparr>, encode (raw_id ms entropy)))"

end
