(* ===== verification/Task_Help.thy ===== *)
theory Task_Help
  imports Releases Custom_Fields Ident
begin

text \<open>
  What the task handlers share (\<open>internal/service/task.go\<close>, \<open>dep.go\<close>, \<open>tag.go\<close>, \<open>trash.go\<close>):
  resolving tasks, projects, parents and assignees, the optimistic version check, linking a
  dependency, replacing labels, and the order a subtree is deleted in.
\<close>

section \<open>Resolving\<close>

definition on_field :: "string \<Rightarrow> 'a res \<Rightarrow> 'a res" where
  "on_field name r = (case r of Inl e \<Rightarrow> Inl (OnField e name) | Inr x \<Rightarrow> Inr x)"

definition taskByRef :: "store \<Rightarrow> string \<Rightarrow> task res" where
  "taskByRef s ref = rbind (ParseTaskRef ref) (GetTask s)"

definition liveTask :: "store \<Rightarrow> task_ref \<Rightarrow> task res" where
  "liveTask s ref = rbind (GetTask s ref) (\<lambda>t. if Deleted t then Inl (fail KindNotFound) else Inr t)"

definition DefaultProjectKey :: string where "DefaultProjectKey = ''default''"

text \<open>The listing asks for two projects that are not archived; only whether there is one decides.\<close>

definition projectForTask :: "store \<Rightarrow> string \<Rightarrow> project res" where
  "projectForTask s ref =
    (if ref \<noteq> [] then lookupProject s ref
     else case filter (\<lambda>p. pr_archived p = None) (projects s) of
       [] \<Rightarrow> Inl (fail KindNotFound)
     | [p] \<Rightarrow> Inr p
     | _ \<Rightarrow> (case GetProject s DefaultProjectKey of
         Inr p \<Rightarrow> Inr p
       | Inl e \<Rightarrow> if \<not> IsKind (Some e) KindNotFound then Inl e else Inl (fail KindInvalid)))"

definition workflowForTask :: "store \<Rightarrow> task \<Rightarrow> workflow_definition res" where
  "workflowForTask s t =
    rbind (GetProject s (t_project t)) (\<lambda>p.
    rbind (GetWorkflowByID s (pr_workflow p)) (\<lambda>w. Inr (wf_definition w)))"

definition allowedTargets :: "workflow_definition \<Rightarrow> string \<Rightarrow> string list" where
  "allowedTargets d from =
    (let out = map tr_to (filter (\<lambda>t. tr_from t = from) (transitions d))
     in if out = [] then [''none''] else out)"

definition checkVersion :: "task \<Rightarrow> int \<Rightarrow> unit res" where
  "checkVersion t version =
    (if version = 0 \<or> version = t_version t then Inr ()
     else Inl (fail_with KindConflict [(''current_version'', DInt (t_version t))]))"

definition assigneeIsIdentifier :: "string \<Rightarrow> bool" where
  "assigneeIsIdentifier ref = Ident.Valid ref"

definition resolveAssignee :: "store \<Rightarrow> string \<Rightarrow> string res" where
  "resolveAssignee s raw =
    (let ref = TrimSpace raw in
     if ref = [] \<or> assigneeIsIdentifier ref then Inr ref
     else case lookupActor s ref of
       Inr a \<Rightarrow> Inr (ac_id a)
     | Inl e \<Rightarrow> if IsKind (Some e) KindNotFound then Inl (fail KindNotFound) else Inl e)"

section \<open>Parents\<close>

lemma task_with_project_in: "task_with_project s p = Some t \<Longrightarrow> t \<in> set (tasks s)"
  unfolding task_with_project_def by (auto dest: find_SomeD)

lemma GetTask_in:
  assumes "GetTask s r = Inr t"
  shows "\<exists>row\<in>set (tasks s). t = scanTask row"
proof -
  have "\<exists>row. t = scanTask row \<and> (\<exists>p. task_with_project s p = Some row)"
    using assms by (auto simp: GetTask_def Let_def split: if_splits option.splits sum.splits)
  then show ?thesis using task_with_project_in by blast
qed

text \<open>Walking up from a proposed parent: \<open>seen\<close> are the tasks met, so the walk ends.\<close>

function parent_loop :: "store \<Rightarrow> string \<Rightarrow> string list \<Rightarrow> task \<Rightarrow> unit res" where
  "parent_loop s k seen cur =
    (if t_parent cur = [] then Inr ()
     else case GetTask s (id_ref (t_parent cur)) of
       Inl e \<Rightarrow> Inl e
     | Inr up \<Rightarrow>
         if t_id up = k then Inl (fail KindInvalid)
         else if t_id up \<in> set seen then Inl (fail KindInvalid)
         else parent_loop s k (t_id up # seen) up)"
  by pat_completeness auto
termination
proof (relation "measure (\<lambda>(s, k, seen, cur). card (t_id ` set (tasks s) - set seen))", goal_cases)
  case 1
  then show ?case by simp
next
  case (2 s k seen cur up)
  then have "t_id up \<in> t_id ` set (tasks s)" using GetTask_in by fastforce
  with 2 have "t_id ` set (tasks s) - set (t_id up # seen) \<subset> t_id ` set (tasks s) - set seen" by auto
  then show ?case by (simp add: psubset_card_mono)
qed

declare parent_loop.simps [simp del]

definition resolveParent :: "store \<Rightarrow> task \<Rightarrow> string \<Rightarrow> string res" where
  "resolveParent s t ref =
    (if TrimSpace ref = [] then Inr []
     else rbind (taskByRef s ref) (\<lambda>parent.
       if t_id parent = t_id t then Inl (fail KindInvalid)
       else rbind (parent_loop s (t_id t) [t_id parent] parent) (\<lambda>_. Inr (t_id parent))))"

definition maxSubtreeSize :: int where "maxSubtreeSize = 10000"

section \<open>Dependencies and labels\<close>

definition linkDependency :: "time \<Rightarrow> task \<Rightarrow> task \<Rightarrow> store \<Rightarrow> store res" where
  "linkDependency db t dep s =
    (if t_id t = t_id dep then Inl (fail KindInvalid)
     else if DependencyPathExists (t_id dep) (t_id t) s then Inl (fail KindInvalid)
     else rbind (AddDependency db (t_id t) (t_id dep) s) (\<lambda>(s, _). Inr s))"

definition ListTags :: "store \<Rightarrow> tag list" where
  "ListTags s = sort_key tg_name (tags s)"

definition tagByName :: "store \<Rightarrow> string \<Rightarrow> tag res" where
  "tagByName s name = (case find (\<lambda>l. tg_name l = name) (ListTags s) of
     None \<Rightarrow> Inl (fail KindNotFound) | Some l \<Rightarrow> Inr l)"

definition replaceTaskLabels :: "task \<Rightarrow> string list \<Rightarrow> string list \<Rightarrow> mutation \<Rightarrow> mutation res" where
  "replaceTaskLabels t current names m =
    (let want = filter (\<lambda>n. n \<noteq> []) (map TrimSpace names) in
     rbind (attach_all (t_id t) want m) (\<lambda>m.
       fold_res (\<lambda>existing m.
         if existing \<in> set want then Inr m
         else rbind (tagByName (m_store m) existing) (\<lambda>l. tx_store (DetachTag (t_id t) (tg_id l)) m)) current m))"

section \<open>Subtrees\<close>

definition trashOff :: "store \<Rightarrow> bool" where "trashOff s = tenant_trash_off s"

fun unseen :: "string list \<Rightarrow> task list \<Rightarrow> task list" where
  "unseen seen [] = []"
| "unseen seen (c # cs) = (if t_id c \<in> set seen then unseen seen cs else c # unseen (t_id c # seen) cs)"

text \<open>
  \<open>out\<close> of the loop is what is expanded already, kept here in \<open>acc\<close> the other way round, which is
  the order returned, followed by the queue still to expand; \<open>i\<close> counts the tasks expanded.
\<close>

function delete_walk :: "store \<Rightarrow> int \<Rightarrow> task list \<Rightarrow> task list \<Rightarrow> task list res" where
  "delete_walk s i acc [] = Inr acc"
| "delete_walk s i acc (t # queue) =
    (if maxSubtreeSize \<le> i then Inl (fail KindPrecondition)
     else delete_walk s (i + 1) (t # acc)
       (queue @ unseen (map t_id (acc @ t # queue)) (Children s (t_id t))))"
  by pat_completeness auto
termination
  by (relation "measure (\<lambda>(s, i, acc, queue). nat (maxSubtreeSize - i))") auto

definition deleteOrder :: "store \<Rightarrow> task \<Rightarrow> task list res" where
  "deleteOrder s base = delete_walk s 0 [] [base]"

text \<open>
  The pre-order walk of a task's descendants: a stack of tasks with their levels, every task once,
  down to a depth when one is given.
\<close>

function tree_walk :: "store \<Rightarrow> int \<Rightarrow> string list \<Rightarrow> (task \<times> int) list \<Rightarrow> task list \<Rightarrow> task list res" where
  "tree_walk s limit seen [] out = Inr out"
| "tree_walk s limit seen ((t, depth) # stack) out =
    (if 0 < limit \<and> limit < depth then tree_walk s limit seen stack out
     else if t_id t \<in> set seen then tree_walk s limit seen stack out
     else if maxSubtreeSize \<le> int (length out) then
       Inl (fail_with KindPrecondition [(''max_subtree_size'', DInt maxSubtreeSize)])
     else tree_walk s limit (t_id t # seen)
       (map (\<lambda>c. (c, depth + 1)) (Children s (t_id t)) @ stack) (out @ [t]))"
  by pat_completeness auto
termination
  by (relation "(\<lambda>(s, limit, seen, stack, out). nat (maxSubtreeSize - int (length out))) <*mlex*>
      measure (\<lambda>(s, limit, seen, stack, out). length stack)")
    (auto intro: wf_mlex mlex_leq mlex_less)

definition appendDescendants :: "store \<Rightarrow> string \<Rightarrow> int \<Rightarrow> int \<Rightarrow> task list \<Rightarrow> task list res" where
  "appendDescendants s parent limit depth out =
    tree_walk s limit [parent] (map (\<lambda>c. (c, depth)) (Children s parent)) out"

end
