(* ===== verification/Transitions.thy ===== *)
theory Transitions
  imports Task_Help
begin

text \<open>
  Moving a task (\<open>internal/service/task.go\<close>, \<open>bulk.go\<close>, \<open>internal/core/route.go\<close>): one transition
  along an edge of the project's workflow, in one transaction, with the edge's demands and the
  lease checked in the code's order; and a route, one transition per hop, that stops where a hop
  is refused.
\<close>

section \<open>One transition\<close>

record transition_input =
  ti_to :: string
  ti_comment :: string
  ti_token :: string
  ti_fields :: "fields option"
  ti_version :: int

definition validate_transition :: "transition_input \<Rightarrow> unit res" where
  "validate_transition inp = ensure (ti_to inp \<noteq> []) (fail KindInvalid)"

definition MaxCommentLength :: int where "MaxCommentLength = 65536"

text \<open>The checks of the edge, in the order of the handler.\<close>

definition edge_allows :: "workflow_definition \<Rightarrow> task \<Rightarrow> actor \<Rightarrow> transition_input \<Rightarrow> unit res" where
  "edge_allows d t a inp =
    (if \<not> HasState d (ti_to inp) then Inl (fail KindInvalid)
     else case CanTransition d (t_status t) (ti_to inp) of
       None \<Rightarrow> Inl (fail KindPrecondition)
     | Some e \<Rightarrow>
         let comment = TrimSpace (ti_comment inp) in
         if tr_requires_comment e \<and> comment = [] then Inl (fail KindInvalid)
         else if MaxCommentLength < int (length comment) then Inl (fail KindInvalid)
         else if tr_requires_scope e \<noteq> [] \<and> \<not> HasScope (Some a) (tr_requires_scope e)
           then Inl (fail_with KindForbidden [(''scope'', DStr (tr_requires_scope e))])
         else Inr ())"

definition with_fields :: "store \<Rightarrow> task \<Rightarrow> fields option \<Rightarrow> task res" where
  "with_fields s t upd = (case upd of None \<Rightarrow> Inr t
     | Some fs \<Rightarrow> rbind (mergeTaskFields (filter (\<lambda>d. fd_project d = t_project t) (field_defs s)) (t_custom t) fs)
         (\<lambda>c. Inr (t\<lparr>t_custom := c\<rparr>)))"

definition moved_task :: "workflow_definition \<Rightarrow> string \<Rightarrow> time \<Rightarrow> task \<Rightarrow> task" where
  "moved_task d to now t =
    (let t = t\<lparr>t_status := to\<rparr> in
     if IsTerminal d to then t\<lparr>t_completed := Some now\<rparr>
     else let t = t\<lparr>t_completed := None\<rparr> in
       if t_started t = None \<and> to \<noteq> initial d then t\<lparr>t_started := Some now\<rparr> else t)"

definition transition_tx :: "call_ctx \<Rightarrow> task_ref \<Rightarrow> transition_input \<Rightarrow> mutation \<Rightarrow> (mutation \<times> task) res" where
  "transition_tx ctx ref inp m =
    rbind (liveTask (m_store m) ref) (\<lambda>t.
    rbind (authorizeTask ctx ActionTaskTransition t) (\<lambda>_.
    rbind (checkVersion t (ti_version inp)) (\<lambda>_.
    rbind (workflowForTask (m_store m) t) (\<lambda>d.
    rbind (edge_allows d t (m_actor m) inp) (\<lambda>_.
    rbind (requireLeaseToken t (ti_token inp) m) (\<lambda>m.
    rbind (with_fields (m_store m) t (ti_fields inp)) (\<lambda>before.
    rbind (spawnOccurrence d (moved_task d (ti_to inp) (m_now m) before) (ti_to inp) m) (\<lambda>(m, t, nxt).
    rbind (tx_update t m) (\<lambda>(m, t).
    let comment = TrimSpace (ti_comment inp) in
    rbind (if comment \<noteq> []
           then rbind (tx_comment (t_id t) comment m) (\<lambda>(m, c). Inr (notifyComment t (cm_id c) (cm_body c) m))
           else Inr m) (\<lambda>m.
    let m = notifyStatus t (t_status before) (t_status t) m;
        m = Record ''task.transition'' EventTaskTransitioned (t_id t) (t_project t)
          (Some (TaskSnap before)) (Some (TaskSnap t))
          (withNext (m_store m) [(''ref'', DStr (task_ref_text (m_store m) t)),
             (''from'', DStr (t_status before)), (''to'', DStr (t_status t))] nxt) m;
        m = recordOccurrence t nxt m
    in rbind (GetTask (m_store m) (id_ref (t_id t))) (\<lambda>out. Inr (m, out))))))))))))"

definition service_TransitionTask ::
  "env \<Rightarrow> call_ctx \<Rightarrow> task_ref \<Rightarrow> transition_input \<Rightarrow> store \<Rightarrow> store \<times> task res" where
  "service_TransitionTask e ctx ref inp s =
    (case rbind (validate_transition inp) (\<lambda>_. authorize ctx ActionTaskTransition no_resource) of
       Inl err \<Rightarrow> (s, Inl err)
     | Inr a \<Rightarrow> write_tx e ctx a (transition_tx ctx ref inp) s)"

section \<open>A route\<close>

record route_input =
  ro_route :: "string list"
  ro_to :: string
  ro_comment :: string
  ro_token :: string
  ro_fields :: "fields option"
  ro_version :: int

fun validate_steps :: "string list \<Rightarrow> string list \<Rightarrow> unit res" where
  "validate_steps seen [] = Inr ()"
| "validate_steps seen (k # ks) =
    (if TrimSpace k = [] then Inl (fail KindInvalid)
     else if k \<in> set seen then Inl (fail KindInvalid)
     else validate_steps (k # seen) ks)"

definition validate_route :: "route_input \<Rightarrow> unit res" where
  "validate_route inp =
    (if ro_route inp = [] \<and> ro_to inp = [] then Inl (fail KindInvalid)
     else if ro_route inp \<noteq> [] \<and> ro_to inp \<noteq> [] then Inl (fail KindInvalid)
     else if MaxRouteSteps < length (ro_route inp) then Inl (fail KindInvalid)
     else validate_steps [] (ro_route inp))"

text \<open>The reason a route stopped is the error of the hop that was refused.\<close>

record route_result =
  rr_task :: task
  rr_from :: string
  rr_route :: "string list"
  rr_applied :: "string list"
  rr_stopped :: string
  rr_reason :: "goerr option"

definition Partial :: "route_result \<Rightarrow> bool" where "Partial r \<longleftrightarrow> rr_stopped r \<noteq> []"

definition route_hops :: "route_result \<Rightarrow> nat" where "route_hops r = length (rr_applied r)"

definition route_status :: "route_result \<Rightarrow> string" where
  "route_status r = (if rr_applied r = [] then rr_from r else last (rr_applied r))"

definition hop_input :: "route_input \<Rightarrow> bool \<Rightarrow> bool \<Rightarrow> string \<Rightarrow> transition_input" where
  "hop_input inp is_first is_last to = \<lparr>ti_to = to, ti_comment = ro_comment inp, ti_token = ro_token inp,
     ti_fields = (if is_last then ro_fields inp else None), ti_version = (if is_first then ro_version inp else 0)\<rparr>"

text \<open>Hop \<open>i\<close> is a call of its own, with the environment \<open>envs i\<close>.\<close>

fun walk_route ::
  "(nat \<Rightarrow> env) \<Rightarrow> call_ctx \<Rightarrow> route_input \<Rightarrow> string \<Rightarrow> nat \<Rightarrow> string list \<Rightarrow> route_result \<Rightarrow> store \<Rightarrow>
    store \<times> route_result res" where
  "walk_route envs ctx inp k i [] out s = (s, Inr out)"
| "walk_route envs ctx inp k i (to # rest) out s =
    (case service_TransitionTask (envs i) ctx (id_ref k) (hop_input inp (i = 0) (rest = []) to) s of
       (s', Inl e) \<Rightarrow> if i = 0 then (s', Inl e) else (s', Inr (out\<lparr>rr_stopped := to, rr_reason := Some e\<rparr>))
     | (s', Inr moved) \<Rightarrow>
         walk_route envs ctx inp k (i + 1) rest (out\<lparr>rr_applied := rr_applied out @ [to], rr_task := moved\<rparr>) s')"

definition service_TransitionRoute ::
  "(nat \<Rightarrow> env) \<Rightarrow> call_ctx \<Rightarrow> task_ref \<Rightarrow> route_input \<Rightarrow> store \<Rightarrow> store \<times> route_result res" where
  "service_TransitionRoute envs ctx ref inp s =
    (case rbind (validate_route inp) (\<lambda>_.
        rbind (authorize ctx ActionTaskTransition no_resource) (\<lambda>_.
        rbind (liveTask s ref) (\<lambda>t.
        rbind (authorizeTask ctx ActionTaskTransition t) (\<lambda>_.
        rbind (workflowForTask s t) (\<lambda>d.
        rbind (if ro_route inp = [] then rbind (FindRoute d (t_status t) (ro_to inp)) (\<lambda>r. Inr (Keys r))
               else Inr (ro_route inp)) (\<lambda>steps. Inr (t, steps))))))) of
       Inl e \<Rightarrow> (s, Inl e)
     | Inr (t, steps) \<Rightarrow> walk_route envs ctx inp (t_id t) 0 steps
         \<lparr>rr_task = t, rr_from = t_status t, rr_route = steps, rr_applied = [], rr_stopped = [], rr_reason = None\<rparr> s)"

section \<open>Moving in bulk\<close>

definition shortestRoute :: "workflow_definition \<Rightarrow> string \<Rightarrow> string \<Rightarrow> string list res" where
  "shortestRoute d from to =
    (if from = to then Inl (fail KindPrecondition)
     else if \<not> HasState d to then Inl (fail KindInvalid)
     else case find (\<lambda>r. s_key (rt_to r) = to) (Routes d from) of
       Some r \<Rightarrow> Inr (Keys r)
     | None \<Rightarrow> Inl (fail KindPrecondition))"

definition bulkMove :: "(nat \<Rightarrow> env) \<Rightarrow> call_ctx \<Rightarrow> task_ref \<Rightarrow> string \<Rightarrow> store \<Rightarrow> store \<times> unit res" where
  "bulkMove envs ctx ref to s =
    (case rbind (RequireActor ctx) (\<lambda>_.
        rbind (liveTask s ref) (\<lambda>t.
        rbind (authorizeTask ctx ActionTaskTransition t) (\<lambda>_.
        rbind (workflowForTask s t) (\<lambda>d.
        rbind (shortestRoute d (t_status t) to) (\<lambda>route. Inr (t, route)))))) of
       Inl e \<Rightarrow> (s, Inl e)
     | Inr (t, route) \<Rightarrow>
         (case service_TransitionRoute envs ctx (id_ref (t_id t))
            \<lparr>ro_route = route, ro_to = [], ro_comment = [], ro_token = [], ro_fields = None, ro_version = 0\<rparr> s of
            (s', Inl e) \<Rightarrow> (s', Inl e)
          | (s', Inr result) \<Rightarrow> (s', if Partial result then Inl (fail KindPrecondition) else Inr ())))"

end
