(* ===== verification/Task_Edits.thy ===== *)
theory Task_Edits
  imports Task_Help
begin

text \<open>
  The other task handlers (\<open>internal/service/task.go\<close>, \<open>dep.go\<close>, \<open>tag.go\<close>, \<open>snooze.go\<close>): creating,
  updating, deleting and restoring tasks, reading a subtree, dependency edges, labels and snoozes,
  each one transaction.
\<close>

section \<open>Creating\<close>

record create_input =
  ct_project :: string
  ct_title :: string
  ct_body :: string
  ct_status :: string
  ct_priority :: int
  ct_tags :: "string list"
  ct_assignee :: string
  ct_parent :: string
  ct_due :: "time option"
  ct_recurrence :: string
  ct_fields :: fields
  ct_depends :: "string list"
  ct_lease :: duration

definition valid_priority :: "int \<Rightarrow> bool" where "valid_priority p \<longleftrightarrow> 1 \<le> p \<and> p \<le> 5"

definition PriorityNormal :: int where "PriorityNormal = 3"

definition MaxBodyLength :: int where "MaxBodyLength = 1048576"

definition invalid_field :: "string \<Rightarrow> goerr" where
  "invalid_field name = fail_with KindInvalid [(DetailField, DStr name)]"

definition validate_create :: "create_input \<Rightarrow> unit res" where
  "validate_create inp =
    (if ct_title inp = [] then Inl (invalid_field ''title'')
     else if MaxTitleLength < int (length (ct_title inp)) then Inl (invalid_field ''title'')
     else if ct_priority inp \<noteq> 0 \<and> \<not> valid_priority (ct_priority inp) then Inl (invalid_field ''priority'')
     else Inr ())"

definition project_fields :: "store \<Rightarrow> string \<Rightarrow> field_def list" where
  "project_fields s project = filter (\<lambda>d. fd_project d = project) (field_defs s)"

definition task_lease_ok :: "mutation \<Rightarrow> task \<Rightarrow> unit res" where
  "task_lease_ok m t =
    (if t_lease t < 0 then Inl (invalid_field ''lease'')
     else if t_lease t = 0 then Inr ()
     else rbind (GetProject (m_store m) (t_project t)) (\<lambda>p.
       rbind (GetWorkflowByID (m_store m) (pr_workflow p)) (\<lambda>w.
         checkTaskLease (tx_policy m) (pr_lease_default p) (pr_lease_max p) w (t_lease t))))"

definition link_all :: "task \<Rightarrow> string list \<Rightarrow> mutation \<Rightarrow> mutation res" where
  "link_all t refs m = fold_res (\<lambda>ref m.
     rbind (on_field ''depends_on'' (taskByRef (m_store m) ref)) (\<lambda>dep.
       on_field ''depends_on'' (tx_store (linkDependency (m_db m) t dep) m))) refs m"

definition new_task :: "create_input \<Rightarrow> project \<Rightarrow> workflow_definition \<Rightarrow> string \<Rightarrow> fields \<Rightarrow> string \<Rightarrow> int \<Rightarrow>
    string \<Rightarrow> string \<Rightarrow> mutation \<Rightarrow> task" where
  "new_task inp p d rule fs parent seq assignee status m = empty_task\<lparr>
     t_project := pr_id p, t_seq := seq, t_parent := parent, t_title := ct_title inp, t_body := ct_body inp,
     t_status := status, t_priority := (if ct_priority inp = 0 then PriorityNormal else ct_priority inp),
     t_assignee := assignee, t_creator := a_id (m_actor m), t_due := ct_due inp, t_custom := fs,
     t_recurrence := rule, t_lease := ct_lease inp,
     t_completed := (if IsTerminal d status then Some (m_now m) else None)\<rparr>"

definition create_tx :: "call_ctx \<Rightarrow> create_input \<Rightarrow> string \<Rightarrow> mutation \<Rightarrow> (mutation \<times> task) res" where
  "create_tx ctx inp rule m =
    rbind (on_field ''project_ref'' (projectForTask (m_store m) (ct_project inp))) (\<lambda>p.
    rbind (authorize ctx ActionTaskCreate \<lparr>r_tenant = [], r_project = pr_id p, r_owner = []\<rparr>) (\<lambda>_.
    rbind (GetWorkflowByID (m_store m) (pr_workflow p)) (\<lambda>w.
    let d = wf_definition w in
    rbind (if ct_status inp = [] then Inr (initial d)
           else if \<not> HasState d (ct_status inp) then Inl (fail KindInvalid) else Inr (ct_status inp)) (\<lambda>status.
    rbind (validateTaskFields (project_fields (m_store m) (pr_id p)) (ct_fields inp) True) (\<lambda>fs.
    rbind (if ct_parent inp = [] then Inr []
           else rbind (on_field ''parent'' (taskByRef (m_store m) (ct_parent inp))) (\<lambda>t. Inr (t_id t))) (\<lambda>parent.
    rbind (on_store (NextSeq (pr_id p)) m) (\<lambda>(m, seq).
    rbind (on_field ''assignee'' (resolveAssignee (m_store m) (ct_assignee inp))) (\<lambda>assignee.
    let t = new_task inp p d rule fs parent seq assignee status m in
    rbind (task_lease_ok m t) (\<lambda>_.
    rbind (tx_create t m) (\<lambda>(m, t).
    rbind (on_field ''tags'' (attach_all (t_id t) (ct_tags inp) m)) (\<lambda>m.
    rbind (link_all t (ct_depends inp) m) (\<lambda>m.
    let m = notifyAssigned t m;
        m = notifyMentions (task_note t []) (t_body t) [] m;
        m = Record ''task.create'' EventTaskCreated (t_id t) (pr_id p) None (Some (TaskSnap t))
          [(''ref'', DStr (task_ref_text (m_store m) t)), (''title'', DStr (t_title t)),
           (''status'', DStr (t_status t))] m
    in rbind (GetTask (m_store m) (id_ref (t_id t))) (\<lambda>out. Inr (m, out))))))))))))))"

definition service_CreateTask :: "env \<Rightarrow> call_ctx \<Rightarrow> create_input \<Rightarrow> store \<Rightarrow> store \<times> task res" where
  "service_CreateTask e ctx raw s =
    (let inp = raw\<lparr>ct_title := TrimSpace (ct_title raw)\<rparr> in
     case rbind (validate_create inp) (\<lambda>_.
        if MaxBodyLength < int (length (ct_body inp)) then Inl (invalid_field ''body'')
        else rbind (on_field ''repeat'' (NormalizeRecurrence (ct_recurrence inp))) (\<lambda>rule.
          rbind (authorize ctx ActionTaskCreate no_resource) (\<lambda>a. Inr (rule, a)))) of
       Inl err \<Rightarrow> (s, Inl err)
     | Inr (rule, a) \<Rightarrow> write_tx e ctx a (create_tx ctx inp rule) s)"

section \<open>Updating\<close>

record update_input =
  ui_title :: "string option"
  ui_body :: "string option"
  ui_priority :: "int option"
  ui_assignee :: "string option"
  ui_parent :: "string option"
  ui_due :: "time option option"
  ui_fields :: "fields option"
  ui_tags :: "string list option"
  ui_recurrence :: "string option"
  ui_lease :: "duration option"
  ui_version :: int

definition updatedFields :: "update_input \<Rightarrow> string list" where
  "updatedFields inp =
    (if ui_title inp \<noteq> None then [''title''] else []) @ (if ui_body inp \<noteq> None then [''body''] else []) @
    (if ui_priority inp \<noteq> None then [''priority''] else []) @
    (if ui_assignee inp \<noteq> None then [''assignee_actor_id''] else []) @
    (if ui_parent inp \<noteq> None then [''parent_ref''] else []) @ (if ui_due inp \<noteq> None then [''due_at''] else []) @
    (if ui_fields inp \<noteq> None then [''custom_fields''] else []) @ (if ui_tags inp \<noteq> None then [''tags''] else []) @
    (if ui_recurrence inp \<noteq> None then [''recurrence''] else []) @ (if ui_lease inp \<noteq> None then [''lease''] else [])"

text \<open>An attribute the input leaves out changes nothing.\<close>

definition given :: "'a option \<Rightarrow> ('a \<Rightarrow> task \<Rightarrow> task res) \<Rightarrow> task \<Rightarrow> task res" where
  "given v f t = (case v of None \<Rightarrow> Inr t | Some x \<Rightarrow> f x t)"

definition update_title :: "string \<Rightarrow> task \<Rightarrow> task res" where
  "update_title raw t =
    (let title = TrimSpace raw in
     if title = [] then Inl (fail KindInvalid)
     else if MaxTitleLength < int (length title) then Inl (fail KindInvalid)
     else Inr (t\<lparr>t_title := title\<rparr>))"

definition edited :: "mutation \<Rightarrow> update_input \<Rightarrow> task \<Rightarrow> task res" where
  "edited m inp t =
    rbind (given (ui_title inp) update_title t) (\<lambda>t.
    rbind (given (ui_body inp) (\<lambda>b t. if MaxBodyLength < int (length b) then Inl (fail KindInvalid)
        else Inr (t\<lparr>t_body := b\<rparr>)) t) (\<lambda>t.
    rbind (given (ui_priority inp) (\<lambda>p t. if \<not> valid_priority p then Inl (fail KindInvalid)
        else Inr (t\<lparr>t_priority := p\<rparr>)) t) (\<lambda>t.
    rbind (given (ui_assignee inp) (\<lambda>a t. rbind (resolveAssignee (m_store m) a)
        (\<lambda>a. Inr (t\<lparr>t_assignee := a\<rparr>))) t) (\<lambda>t.
    rbind (given (ui_due inp) (\<lambda>d t. Inr (t\<lparr>t_due := d\<rparr>)) t) (\<lambda>t.
    rbind (given (ui_recurrence inp) (\<lambda>r t. rbind (NormalizeRecurrence r) (\<lambda>r. Inr (t\<lparr>t_recurrence := r\<rparr>))) t) (\<lambda>t.
    rbind (given (ui_parent inp) (\<lambda>p t. rbind (resolveParent (m_store m) t p) (\<lambda>p. Inr (t\<lparr>t_parent := p\<rparr>))) t) (\<lambda>t.
    rbind (given (ui_fields inp) (\<lambda>fs t. rbind (mergeTaskFields (project_fields (m_store m) (t_project t)) (t_custom t) fs)
        (\<lambda>c. Inr (t\<lparr>t_custom := c\<rparr>))) t) (\<lambda>t.
    given (ui_lease inp) (\<lambda>l t. let t = t\<lparr>t_lease := l\<rparr> in rbind (task_lease_ok m t) (\<lambda>_. Inr t)) t))))))))"

definition update_tx :: "call_ctx \<Rightarrow> task_ref \<Rightarrow> update_input \<Rightarrow> mutation \<Rightarrow> (mutation \<times> task) res" where
  "update_tx ctx ref inp m =
    rbind (liveTask (m_store m) ref) (\<lambda>before.
    rbind (authorizeTask ctx ActionTaskUpdate before) (\<lambda>_.
    rbind (checkVersion before (ui_version inp)) (\<lambda>_.
    let current = tag_names (m_store m) (t_id before) in
    rbind (edited m inp before) (\<lambda>t.
    rbind (tx_update t m) (\<lambda>(m, t).
    rbind (case ui_tags inp of None \<Rightarrow> Inr m | Some names \<Rightarrow> replaceTaskLabels t current names m) (\<lambda>m.
    let m = (if t_assignee t \<noteq> t_assignee before then notifyAssigned t m else m);
        m = notifyMentions (task_note t []) (t_body t) (t_body before) m;
        payload = [(''ref'', DStr (task_ref_text (m_store m) t)), (''version'', DInt (t_version t))];
        payload = (if updatedFields inp = [] then payload else payload @ [(''fields'', DStrs (updatedFields inp))]);
        m = Record ''task.update'' EventTaskUpdated (t_id t) (t_project t)
          (Some (TaskSnap before)) (Some (TaskSnap t)) payload m
    in rbind (GetTask (m_store m) (id_ref (t_id t))) (\<lambda>out. Inr (m, out))))))))"

definition service_UpdateTask :: "env \<Rightarrow> call_ctx \<Rightarrow> task_ref \<Rightarrow> update_input \<Rightarrow> store \<Rightarrow> store \<times> task res" where
  "service_UpdateTask e ctx ref inp s =
    (case authorize ctx ActionTaskUpdate no_resource of
       Inl err \<Rightarrow> (s, Inl err)
     | Inr a \<Rightarrow> write_tx e ctx a (update_tx ctx ref inp) s)"

section \<open>Deleting and restoring\<close>

definition EventTaskDeleted :: string where "EventTaskDeleted = ''task.deleted''"

record delete_input =
  di_hard :: bool
  di_cascade :: bool

fun delete_all :: "call_ctx \<Rightarrow> bool \<Rightarrow> bool \<Rightarrow> task list \<Rightarrow> mutation \<Rightarrow> mutation res" where
  "delete_all ctx hard cascade [] m = Inr m"
| "delete_all ctx hard cascade (t # ts) m =
    rbind (authorizeTask ctx ActionTaskDelete t) (\<lambda>_.
    let ref = task_ref_text (m_store m) t in
    rbind (tx_store (DeleteTask (m_db m) (t_id t) hard) m) (\<lambda>m.
    delete_all ctx hard cascade ts
      (Record ''task.delete'' EventTaskDeleted (t_id t) (t_project t) (Some (TaskSnap t)) None
        [(''ref'', DStr ref), (''hard'', DBool hard), (''cascade'', DBool cascade)] m)))"

definition delete_tx :: "call_ctx \<Rightarrow> task_ref \<Rightarrow> delete_input \<Rightarrow> mutation \<Rightarrow> (mutation \<times> unit) res" where
  "delete_tx ctx ref inp m =
    rbind (liveTask (m_store m) ref) (\<lambda>t.
    rbind (authorizeTask ctx ActionTaskDelete t) (\<lambda>_.
    rbind (deleteOrder (m_store m) t) (\<lambda>subtree.
    let hard = (di_hard inp \<or> trashOff (m_store m)) in
    if 1 < length subtree \<and> \<not> di_cascade inp then
      Inl (fail_with KindPrecondition [(''descendants'', DInt (int (length subtree) - 1))])
    else rbind (delete_all ctx hard (di_cascade inp) subtree m) (\<lambda>m. Inr (m, ())))))"

definition service_DeleteTask :: "env \<Rightarrow> call_ctx \<Rightarrow> task_ref \<Rightarrow> delete_input \<Rightarrow> store \<Rightarrow> store \<times> unit res" where
  "service_DeleteTask e ctx ref inp s =
    (case authorize ctx ActionTaskDelete no_resource of
       Inl err \<Rightarrow> (s, Inl err)
     | Inr a \<Rightarrow> write_tx e ctx a (delete_tx ctx ref inp) s)"

definition restore_tx :: "call_ctx \<Rightarrow> task_ref \<Rightarrow> mutation \<Rightarrow> (mutation \<times> task) res" where
  "restore_tx ctx ref m =
    rbind (GetTask (m_store m) ref) (\<lambda>t.
    rbind (authorizeTask ctx ActionTaskDelete t) (\<lambda>_.
    if trashOff (m_store m) then Inl (fail KindPrecondition)
    else rbind (tx_store (RestoreTask (m_db m) (t_id t)) m) (\<lambda>m.
      let m = Record ''task.restore'' EventTaskUpdated (t_id t) (t_project t) (Some (TaskSnap t)) None
        [(''ref'', DStr (task_ref_text (m_store m) t)), (''restored'', DBool True)] m
      in rbind (GetTask (m_store m) (id_ref (t_id t))) (\<lambda>out. Inr (m, out)))))"

definition service_RestoreTask :: "env \<Rightarrow> call_ctx \<Rightarrow> task_ref \<Rightarrow> store \<Rightarrow> store \<times> task res" where
  "service_RestoreTask e ctx ref s =
    (case authorize ctx ActionTaskDelete no_resource of
       Inl err \<Rightarrow> (s, Inl err)
     | Inr a \<Rightarrow> write_tx e ctx a (restore_tx ctx ref) s)"

section \<open>Reading a subtree\<close>

definition service_TaskTree :: "call_ctx \<Rightarrow> task_ref \<Rightarrow> int \<Rightarrow> store \<Rightarrow> task list res" where
  "service_TaskTree ctx ref depth s =
    rbind (authorize ctx ActionTaskRead no_resource) (\<lambda>_.
    rbind (liveTask s ref) (\<lambda>t.
    rbind (authorizeTask ctx ActionTaskRead t) (\<lambda>_.
      appendDescendants s (t_id t) depth 1 [t])))"

section \<open>Dependencies\<close>

definition EventDependencyAdded :: string where "EventDependencyAdded = ''dependency.added''"

definition edge_row :: "task \<Rightarrow> task \<Rightarrow> snapshot" where
  "edge_row t dep = RowSnap [(''task_id'', DStr (t_id t)), (''depends_on'', DStr (t_id dep))]"

definition add_dependency_tx :: "call_ctx \<Rightarrow> task_ref \<Rightarrow> task_ref \<Rightarrow> mutation \<Rightarrow> (mutation \<times> unit) res" where
  "add_dependency_tx ctx ref on m =
    rbind (liveTask (m_store m) ref) (\<lambda>t.
    rbind (authorizeTask ctx ActionTaskUpdate t) (\<lambda>_.
    rbind (liveTask (m_store m) on) (\<lambda>dep.
    rbind (authorizeTask ctx ActionTaskUpdate dep) (\<lambda>_.
    rbind (tx_store (linkDependency (m_db m) t dep) m) (\<lambda>m.
      Inr (Record ''dependency.add'' EventDependencyAdded (t_id t) (t_project t) None (Some (edge_row t dep))
        [(''ref'', DStr (task_ref_text (m_store m) t)), (''depends_on'', DStr (task_ref_text (m_store m) dep))] m, ()))))))"

definition service_AddDependency ::
  "env \<Rightarrow> call_ctx \<Rightarrow> task_ref \<Rightarrow> task_ref \<Rightarrow> store \<Rightarrow> store \<times> unit res" where
  "service_AddDependency e ctx ref on s =
    (case authorize ctx ActionTaskUpdate no_resource of
       Inl err \<Rightarrow> (s, Inl err)
     | Inr a \<Rightarrow> write_tx e ctx a (add_dependency_tx ctx ref on) s)"

definition remove_dependency_tx :: "call_ctx \<Rightarrow> task_ref \<Rightarrow> task_ref \<Rightarrow> mutation \<Rightarrow> (mutation \<times> unit) res" where
  "remove_dependency_tx ctx ref on m =
    rbind (liveTask (m_store m) ref) (\<lambda>t.
    rbind (authorizeTask ctx ActionTaskUpdate t) (\<lambda>_.
    rbind (GetTask (m_store m) on) (\<lambda>dep.
    rbind (authorizeTask ctx ActionTaskUpdate dep) (\<lambda>_.
    rbind (tx_store (RemoveDependency (t_id t) (t_id dep)) m) (\<lambda>m.
      Inr (Record ''dependency.remove'' EventTaskUpdated (t_id t) (t_project t) (Some (edge_row t dep)) None
        [(''ref'', DStr (task_ref_text (m_store m) t)), (''depends_on'', DStr (task_ref_text (m_store m) dep)),
         (''removed'', DBool True)] m, ()))))))"

definition service_RemoveDependency ::
  "env \<Rightarrow> call_ctx \<Rightarrow> task_ref \<Rightarrow> task_ref \<Rightarrow> store \<Rightarrow> store \<times> unit res" where
  "service_RemoveDependency e ctx ref on s =
    (case authorize ctx ActionTaskUpdate no_resource of
       Inl err \<Rightarrow> (s, Inl err)
     | Inr a \<Rightarrow> write_tx e ctx a (remove_dependency_tx ctx ref on) s)"

text \<open>An edge whose far end the caller may not read is left out of the listing.\<close>

definition service_ListDependencies :: "call_ctx \<Rightarrow> task_ref \<Rightarrow> store \<Rightarrow> dependency list res" where
  "service_ListDependencies ctx ref s =
    rbind (authorize ctx ActionTaskRead no_resource) (\<lambda>_.
    rbind (liveTask s ref) (\<lambda>t.
    rbind (authorizeTask ctx ActionTaskRead t) (\<lambda>_.
      Inr (filter (\<lambda>d. is_ok (rbind (GetTask s (id_ref (d_depends_on d))) (authorizeTask ctx ActionTaskRead)))
        (filter (\<lambda>d. d_task d = t_id t) (deps s))))))"

section \<open>Labels\<close>

definition EventLabelAdded :: string where "EventLabelAdded = ''tag.added''"

definition tag_row :: "task \<Rightarrow> string \<Rightarrow> snapshot" where
  "tag_row t name = RowSnap [(''task_id'', DStr (t_id t)), (''tag'', DStr name)]"

definition add_tag_tx :: "call_ctx \<Rightarrow> task_ref \<Rightarrow> string \<Rightarrow> mutation \<Rightarrow> (mutation \<times> unit) res" where
  "add_tag_tx ctx ref name m =
    rbind (liveTask (m_store m) ref) (\<lambda>t.
    rbind (authorizeTask ctx ActionTaskUpdate t) (\<lambda>_.
    rbind (tx_attach (t_id t) name m) (\<lambda>m.
      Inr (Record ''tag.add'' EventLabelAdded (t_id t) (t_project t) None (Some (tag_row t name))
        [(''ref'', DStr (task_ref_text (m_store m) t)), (''tag'', DStr name)] m, ()))))"

definition service_AddTag :: "env \<Rightarrow> call_ctx \<Rightarrow> task_ref \<Rightarrow> string \<Rightarrow> store \<Rightarrow> store \<times> unit res" where
  "service_AddTag e ctx ref raw s =
    (let name = TrimSpace raw in
     if name = [] then (s, Inl (fail KindInvalid))
     else case authorize ctx ActionTaskUpdate no_resource of
       Inl err \<Rightarrow> (s, Inl err)
     | Inr a \<Rightarrow> write_tx e ctx a (add_tag_tx ctx ref name) s)"

definition remove_tag_tx :: "call_ctx \<Rightarrow> task_ref \<Rightarrow> string \<Rightarrow> mutation \<Rightarrow> (mutation \<times> unit) res" where
  "remove_tag_tx ctx ref name m =
    rbind (liveTask (m_store m) ref) (\<lambda>t.
    rbind (authorizeTask ctx ActionTaskUpdate t) (\<lambda>_.
    rbind (tagByName (m_store m) name) (\<lambda>l.
    rbind (tx_store (DetachTag (t_id t) (tg_id l)) m) (\<lambda>m.
      Inr (Record ''tag.remove'' EventTaskUpdated (t_id t) (t_project t) (Some (tag_row t (tg_name l))) None
        [(''ref'', DStr (task_ref_text (m_store m) t)), (''tag'', DStr (tg_name l)), (''removed'', DBool True)] m, ())))))"

definition service_RemoveTag :: "env \<Rightarrow> call_ctx \<Rightarrow> task_ref \<Rightarrow> string \<Rightarrow> store \<Rightarrow> store \<times> unit res" where
  "service_RemoveTag e ctx ref raw s =
    (let name = TrimSpace raw in
     if name = [] then (s, Inl (fail KindInvalid))
     else case authorize ctx ActionTaskUpdate no_resource of
       Inl err \<Rightarrow> (s, Inl err)
     | Inr a \<Rightarrow> write_tx e ctx a (remove_tag_tx ctx ref name) s)"

section \<open>Snoozes\<close>

definition EventTaskSnoozed :: string where "EventTaskSnoozed = ''task.snoozed''"
definition EventTaskUnsnoozed :: string where "EventTaskUnsnoozed = ''task.unsnoozed''"
definition EventTaskWoke :: string where "EventTaskWoke = ''task.woke''"

definition time_detail :: "time option \<Rightarrow> detail" where
  "time_detail t = DInt (case t of None \<Rightarrow> 0 | Some u \<Rightarrow> u)"

definition snoozeRow :: "store \<Rightarrow> task \<Rightarrow> time \<Rightarrow> snapshot" where
  "snoozeRow s t now = RowSnap ([(''id'', DStr (t_id t)), (''ref'', DStr (task_ref_text s t))] @
     (if SnoozedAt t now
      then [(''snoozed_until'', time_detail (t_snoozed_until t)), (''snoozed_by'', DStr (t_snoozed_by t))] else []))"

definition snooze_tx :: "call_ctx \<Rightarrow> task_ref \<Rightarrow> time \<Rightarrow> mutation \<Rightarrow> (mutation \<times> task) res" where
  "snooze_tx ctx ref until m =
    (if \<not> After until (m_now m) then Inl (fail KindInvalid)
     else rbind (liveTask (m_store m) ref) (\<lambda>t.
     rbind (authorizeTask ctx ActionTaskUpdate t) (\<lambda>_.
     rbind (tx_store (SetSnooze (m_db m) (t_id t) (Some until) (a_id (m_actor m))) m) (\<lambda>m.
     rbind (GetTask (m_store m) (id_ref (t_id t))) (\<lambda>after.
       Inr (Record ''task.snooze'' EventTaskSnoozed (t_id t) (t_project t)
         (Some (snoozeRow (m_store m) t (m_now m))) (Some (snoozeRow (m_store m) after (m_now m)))
         [(''ref'', DStr (task_ref_text (m_store m) t)), (''snoozed_until'', DInt until),
          (''snoozed_by'', DStr (a_id (m_actor m)))] m, after))))))"

definition service_SnoozeTask :: "env \<Rightarrow> call_ctx \<Rightarrow> task_ref \<Rightarrow> time \<Rightarrow> store \<Rightarrow> store \<times> task res" where
  "service_SnoozeTask e ctx ref until s =
    (case authorize ctx ActionTaskUpdate no_resource of
       Inl err \<Rightarrow> (s, Inl err)
     | Inr a \<Rightarrow> if IsZero until then (s, Inl (fail KindInvalid))
         else write_tx e ctx a (snooze_tx ctx ref (Truncate until Second)) s)"

definition unsnooze_tx :: "call_ctx \<Rightarrow> task_ref \<Rightarrow> mutation \<Rightarrow> (mutation \<times> task) res" where
  "unsnooze_tx ctx ref m =
    rbind (liveTask (m_store m) ref) (\<lambda>t.
    rbind (authorizeTask ctx ActionTaskUpdate t) (\<lambda>_.
    if \<not> SnoozedAt t (m_now m) then Inr (m, t)
    else rbind (tx_store (SetSnooze (m_db m) (t_id t) None []) m) (\<lambda>m.
    rbind (GetTask (m_store m) (id_ref (t_id t))) (\<lambda>after.
      Inr (Record ''task.unsnooze'' EventTaskUnsnoozed (t_id t) (t_project t)
        (Some (snoozeRow (m_store m) t (m_now m))) (Some (snoozeRow (m_store m) after (m_now m)))
        [(''ref'', DStr (task_ref_text (m_store m) t)), (''snoozed_until'', time_detail (t_snoozed_until t))] m, after)))))"

definition service_UnsnoozeTask :: "env \<Rightarrow> call_ctx \<Rightarrow> task_ref \<Rightarrow> store \<Rightarrow> store \<times> task res" where
  "service_UnsnoozeTask e ctx ref s =
    (case authorize ctx ActionTaskUpdate no_resource of
       Inl err \<Rightarrow> (s, Inl err)
     | Inr a \<Rightarrow> write_tx e ctx a (unsnooze_tx ctx ref) s)"

fun wake_all :: "task list \<Rightarrow> nat \<Rightarrow> mutation \<Rightarrow> (mutation \<times> nat) res" where
  "wake_all [] n m = Inr (m, n)"
| "wake_all (t # ts) n m =
    (let (s, ok) = WakeSnooze (t_id t) (case t_snoozed_until t of None \<Rightarrow> 0 | Some u \<Rightarrow> u) (m_store m);
         m = m\<lparr>m_store := s\<rparr>
     in if \<not> ok then wake_all ts n m
        else wake_all ts (n + 1) (Record ''task.wake'' EventTaskWoke (t_id t) (t_project t)
          (Some (snoozeRow s t 0)) (Some (RowSnap [(''id'', DStr (t_id t)), (''ref'', DStr (task_ref_text s t))]))
          [(''ref'', DStr (task_ref_text s t)), (''snoozed_until'', time_detail (t_snoozed_until t)),
           (''snoozed_by'', DStr (t_snoozed_by t))] m))"

definition service_WakeSnoozed :: "env \<Rightarrow> call_ctx \<Rightarrow> int \<Rightarrow> store \<Rightarrow> store \<times> nat res" where
  "service_WakeSnoozed e ctx limit s =
    (case authorize ctx ActionTaskUpdate no_resource of
       Inl err \<Rightarrow> (s, Inl err)
     | Inr a \<Rightarrow> write_tx e ctx a (\<lambda>m. wake_all (ExpiredSnoozes (m_now m) limit (m_store m)) 0 m) s)"

end
