(* ===== verification/Task_Notes.thy ===== *)
theory Task_Notes
  imports Task_Edits
begin

text \<open>
  What people add to a task (\<open>internal/service/comment.go\<close>, \<open>star.go\<close>, \<open>artifact.go\<close> and the statements
  of \<open>internal/store/sqlite\<close> behind them): comments written, edited and removed, stars, and artifacts, which
  only the holder of a claimed task may put. The bytes of an artifact's inline content are left out, their number is kept.
\<close>

section \<open>Comments\<close>

definition MaxCommentLength :: nat where "MaxCommentLength = 2 ^ 16"

definition GetComment :: "string \<Rightarrow> store \<Rightarrow> comment res" where
  "GetComment k s = (case find (\<lambda>c. cm_id c = k) (comments s) of None \<Rightarrow> Inl (fail KindNotFound) | Some c \<Rightarrow> Inr c)"

definition UpdateComment :: "time \<Rightarrow> comment \<Rightarrow> store \<Rightarrow> (store \<times> comment) res" where
  "UpdateComment db c s =
    (let c = c\<lparr>cm_updated := db\<rparr> in
     if rows_matching (\<lambda>x. cm_id x = cm_id c) (comments s) = 0 then Inl (fail KindNotFound)
     else Inr (s\<lparr>comments := update_where (\<lambda>x. cm_id x = cm_id c)
       (\<lambda>x. x\<lparr>cm_body := cm_body c, cm_updated := cm_updated c, cm_deleted := cm_deleted c\<rparr>) (comments s)\<rparr>, c))"

definition DeleteComment :: "time \<Rightarrow> string \<Rightarrow> store \<Rightarrow> store res" where
  "DeleteComment db k s =
    (let p = (\<lambda>x. cm_id x = k \<and> cm_deleted x = None) in
     if rows_matching p (comments s) = 0 then Inl (fail KindNotFound)
     else Inr (s\<lparr>comments := update_where p (\<lambda>x. x\<lparr>cm_deleted := Some db, cm_updated := db\<rparr>) (comments s)\<rparr>))"

definition commentBody :: "string \<Rightarrow> string res" where
  "commentBody body =
    (let text = TrimSpace body in
     if text = [] then Inl (fail KindInvalid)
     else if MaxCommentLength < length text then Inl (fail KindInvalid)
     else Inr text)"

definition RecordAs ::
  "string \<Rightarrow> string \<Rightarrow> string \<Rightarrow> string \<Rightarrow> string \<Rightarrow> snapshot option \<Rightarrow> snapshot option \<Rightarrow> (string \<times> detail) list \<Rightarrow>
    mutation \<Rightarrow> mutation" where
  "RecordAs subject_type action typ subject project before after payload m =
    Event typ subject_type subject project (withRef (m_store m) payload before after)
      (Audit action subject_type subject before after m)"

definition EventCommentAdded :: string where "EventCommentAdded = ''comment.added''"

definition comment_payload :: "store \<Rightarrow> task \<Rightarrow> (string \<times> detail) list" where
  "comment_payload s t = [(''ref'', DStr (task_ref_text s t)), (''task_id'', DStr (t_id t))]"

definition add_comment_tx :: "call_ctx \<Rightarrow> task_ref \<Rightarrow> string \<Rightarrow> mutation \<Rightarrow> (mutation \<times> comment) res" where
  "add_comment_tx ctx ref text m =
    rbind (liveTask (m_store m) ref) (\<lambda>t.
    rbind (authorizeTask ctx ActionCommentWrite t) (\<lambda>_.
    rbind (tx_comment (t_id t) text m) (\<lambda>(m, c).
      Inr (RecordAs ''comment'' ''comment.add'' EventCommentAdded (cm_id c) (t_project t) None (Some (CommentSnap c))
        (comment_payload (m_store m) t) (notifyComment t (cm_id c) (cm_body c) m), c))))"

definition edit_comment_tx :: "call_ctx \<Rightarrow> string \<Rightarrow> string \<Rightarrow> mutation \<Rightarrow> (mutation \<times> comment) res" where
  "edit_comment_tx ctx k text m =
    rbind (GetComment k (m_store m)) (\<lambda>c.
    if cm_deleted c \<noteq> None then Inl (fail KindNotFound)
    else rbind (GetTask (m_store m) (id_ref (cm_task c))) (\<lambda>t.
    rbind (authorizeTask ctx ActionCommentWrite t) (\<lambda>_.
    rbind (on_store (UpdateComment (m_db m) (c\<lparr>cm_body := text\<rparr>)) m) (\<lambda>(m, c').
      Inr (RecordAs ''comment'' ''comment.edit'' EventCommentAdded (cm_id c') (t_project t) (Some (CommentSnap c))
        (Some (CommentSnap c')) (comment_payload (m_store m) t @ [(''edited'', DBool True)])
        (notifyMentions ((task_note t [])\<lparr>nt_comment := cm_id c'\<rparr>) (cm_body c') (cm_body c) m), c')))))"

definition delete_comment_tx :: "call_ctx \<Rightarrow> string \<Rightarrow> mutation \<Rightarrow> (mutation \<times> unit) res" where
  "delete_comment_tx ctx k m =
    rbind (GetComment k (m_store m)) (\<lambda>c.
    rbind (GetTask (m_store m) (id_ref (cm_task c))) (\<lambda>t.
    rbind (authorizeTask ctx ActionCommentWrite t) (\<lambda>_.
    rbind (tx_store (DeleteComment (m_db m) (cm_id c)) m) (\<lambda>m.
      Inr (RecordAs ''comment'' ''comment.delete'' EventTaskUpdated (cm_id c) (t_project t) (Some (CommentSnap c)) None
        (comment_payload (m_store m) t @ [(''deleted'', DBool True)]) m, ())))))"

definition service_AddComment :: "env \<Rightarrow> call_ctx \<Rightarrow> task_ref \<Rightarrow> string \<Rightarrow> store \<Rightarrow> store \<times> comment res" where
  "service_AddComment e ctx ref body s =
    (case commentBody body of
       Inl err \<Rightarrow> (s, Inl err)
     | Inr text \<Rightarrow> (case authorize ctx ActionCommentWrite no_resource of
           Inl err \<Rightarrow> (s, Inl err)
         | Inr a \<Rightarrow> write_tx e ctx a (add_comment_tx ctx ref text) s))"

definition ListComments :: "string \<Rightarrow> store \<Rightarrow> comment list" where
  "ListComments k s = sort_key cm_created (sort_key cm_id (filter (\<lambda>c. cm_task c = k \<and> cm_deleted c = None) (comments s)))"

definition service_ListComments :: "call_ctx \<Rightarrow> task_ref \<Rightarrow> store \<Rightarrow> comment list res" where
  "service_ListComments ctx ref s =
    rbind (authorize ctx ActionTaskRead no_resource) (\<lambda>_.
    rbind (liveTask s ref) (\<lambda>t.
    rbind (authorizeTask ctx ActionTaskRead t) (\<lambda>_. Inr (ListComments (t_id t) s))))"

definition service_EditComment :: "env \<Rightarrow> call_ctx \<Rightarrow> string \<Rightarrow> string \<Rightarrow> store \<Rightarrow> store \<times> comment res" where
  "service_EditComment e ctx k body s =
    (case commentBody body of
       Inl err \<Rightarrow> (s, Inl err)
     | Inr text \<Rightarrow> (case authorize ctx ActionCommentWrite no_resource of
           Inl err \<Rightarrow> (s, Inl err)
         | Inr a \<Rightarrow> write_tx e ctx a (edit_comment_tx ctx k text) s))"

definition service_DeleteComment :: "env \<Rightarrow> call_ctx \<Rightarrow> string \<Rightarrow> store \<Rightarrow> store \<times> unit res" where
  "service_DeleteComment e ctx k s =
    (case authorize ctx ActionCommentWrite no_resource of
       Inl err \<Rightarrow> (s, Inl err)
     | Inr a \<Rightarrow> write_tx e ctx a (delete_comment_tx ctx k) s)"

section \<open>Stars\<close>

definition EventTaskStarred :: string where "EventTaskStarred = ''task.starred''"
definition EventTaskUnstarred :: string where "EventTaskUnstarred = ''task.unstarred''"

definition StarTask :: "string \<Rightarrow> string \<Rightarrow> store \<Rightarrow> (store \<times> bool) res" where
  "StarTask actor k s =
    (if (k, actor) \<in> set (stars s) then Inr (s, False)
     else if \<not> task_exists s k \<or> \<not> actor_exists s actor then Inl (fail KindPrecondition)
     else Inr (s\<lparr>stars := stars s @ [(k, actor)]\<rparr>, True))"

definition UnstarTask :: "string \<Rightarrow> string \<Rightarrow> store \<Rightarrow> (store \<times> bool) res" where
  "UnstarTask actor k s = Inr (s\<lparr>stars := filter (\<lambda>x. x \<noteq> (k, actor)) (stars s)\<rparr>, (k, actor) \<in> set (stars s))"

definition star_tx :: "call_ctx \<Rightarrow> task_ref \<Rightarrow> bool \<Rightarrow> mutation \<Rightarrow> (mutation \<times> unit) res" where
  "star_tx ctx ref starred m =
    rbind (liveTask (m_store m) ref) (\<lambda>t.
    rbind (authorizeTask ctx ActionTaskStar t) (\<lambda>_.
    let change = (if starred then StarTask else UnstarTask);
        row = RowSnap [(''task_id'', DStr (t_id t)), (''actor_id'', DStr (a_id (m_actor m)))]
    in rbind (on_store (change (a_id (m_actor m)) (t_id t)) m) (\<lambda>(m, changed).
      if \<not> changed then Inr (m, ())
      else Inr (Record (if starred then ''task.star'' else ''task.unstar'')
          (if starred then EventTaskStarred else EventTaskUnstarred) (t_id t) (t_project t)
          (if starred then None else Some row) (if starred then Some row else None)
          [(''ref'', DStr (task_ref_text (m_store m) t)), (''starred'', DBool starred)] m, ()))))"

definition service_setStar :: "env \<Rightarrow> call_ctx \<Rightarrow> task_ref \<Rightarrow> bool \<Rightarrow> store \<Rightarrow> store \<times> unit res" where
  "service_setStar e ctx ref starred s =
    (case authorize ctx ActionTaskStar no_resource of
       Inl err \<Rightarrow> (s, Inl err)
     | Inr a \<Rightarrow> write_tx e ctx a (star_tx ctx ref starred) s)"

definition StarredTasks :: "string \<Rightarrow> string list \<Rightarrow> store \<Rightarrow> string set" where
  "StarredTasks actor ks s = (if actor = [] \<or> ks = [] then {} else {k \<in> set ks. (k, actor) \<in> set (stars s)})"

definition markStarred :: "string \<Rightarrow> task list \<Rightarrow> store \<Rightarrow> (task \<times> bool) list" where
  "markStarred actor ts s = map (\<lambda>t. (t, t_id t \<in> StarredTasks actor (map t_id ts) s)) ts"

section \<open>Artifacts\<close>

definition MaxBlobSize :: nat where "MaxBlobSize = 2 ^ 20"
definition EventArtifactAdded :: string where "EventArtifactAdded = ''artifact.added''"

record artifact_input =
  ai_kind :: string
  ai_name :: string
  ai_payload :: fields
  ai_content_type :: string
  ai_blob_size :: nat
  ai_lease_token :: string

definition validate_artifact_input :: "artifact_input \<Rightarrow> unit res" where
  "validate_artifact_input inp =
    (if ai_kind inp = [] then Inl (fail KindInvalid)
     else if MaxBlobSize < ai_blob_size inp then Inl (fail KindInvalid)
     else Inr ())"

definition artifactSummary :: "artifact \<Rightarrow> nat \<Rightarrow> snapshot" where
  "artifactSummary a bytes = ArtifactSnap a bytes"

definition put_artifact_tx :: "call_ctx \<Rightarrow> task_ref \<Rightarrow> artifact_input \<Rightarrow> mutation \<Rightarrow> (mutation \<times> artifact) res" where
  "put_artifact_tx ctx ref inp m =
    rbind (liveTask (m_store m) ref) (\<lambda>t.
    rbind (authorizeTask ctx ActionArtifactWrite t) (\<lambda>_.
    rbind (requireLeaseToken t (ai_lease_token inp) m) (\<lambda>m.
    rbind (tx_artifact \<lparr>af_id = [], af_task = t_id t, af_actor = a_id (m_actor m), af_kind = ai_kind inp, af_name = ai_name inp,
        af_payload = ai_payload inp, af_content_type = ai_content_type inp, af_created = 0\<rparr> m) (\<lambda>(m, a).
      Inr (RecordAs ''artifact'' ''artifact.put'' EventArtifactAdded (af_id a) (t_project t) None
        (Some (artifactSummary a (ai_blob_size inp)))
        [(''ref'', DStr (task_ref_text (m_store m) t)), (''kind'', DStr (af_kind a)), (''name'', DStr (af_name a))] m, a)))))"

definition service_PutArtifact :: "env \<Rightarrow> call_ctx \<Rightarrow> task_ref \<Rightarrow> artifact_input \<Rightarrow> store \<Rightarrow> store \<times> artifact res" where
  "service_PutArtifact e ctx ref inp s =
    (case rbind (validate_artifact_input inp) (\<lambda>_. authorize ctx ActionArtifactWrite no_resource) of
       Inl err \<Rightarrow> (s, Inl err)
     | Inr a \<Rightarrow> write_tx e ctx a (put_artifact_tx ctx ref inp) s)"

definition ListArtifacts :: "string \<Rightarrow> store \<Rightarrow> artifact list" where
  "ListArtifacts k s = sort_key af_created (sort_key af_id (filter (\<lambda>a. af_task a = k) (artifacts s)))"

definition service_ListArtifacts :: "call_ctx \<Rightarrow> task_ref \<Rightarrow> store \<Rightarrow> artifact list res" where
  "service_ListArtifacts ctx ref s =
    rbind (authorize ctx ActionTaskRead no_resource) (\<lambda>_.
    rbind (liveTask s ref) (\<lambda>t.
    rbind (authorizeTask ctx ActionTaskRead t) (\<lambda>_. Inr (ListArtifacts (t_id t) s))))"

end
