(* ===== verification/Task_Copy.thy ===== *)
theory Task_Copy
  imports Task_Notes
begin

text \<open>
  Copying a task (\<open>internal/service/copy.go\<close>): the task, its labels and, when asked, its subtasks,
  comments and dependencies, into its own or another project, in one transaction. Sources are read
  first, with their labels and references; each copy is a new row, and what ties the sources together
  (parents, dependencies) ties the copies together.
\<close>

section \<open>The text of a copied comment\<close>

text \<open>How many bytes the rune at the head of a string takes, 0 when they are no UTF-8 (\<open>utf8.DecodeRune\<close>).\<close>

definition byte_in :: "nat \<Rightarrow> nat \<Rightarrow> char \<Rightarrow> bool" where
  "byte_in lo hi c \<longleftrightarrow> lo \<le> of_char c \<and> of_char c \<le> (hi::nat)"

definition second_byte :: "char \<Rightarrow> char \<Rightarrow> bool" where
  "second_byte lead c =
    (let b = (of_char lead :: nat) in
     byte_in (if b = 224 then 160 else if b = 240 then 144 else 128)
       (if b = 237 then 159 else if b = 244 then 143 else 191) c)"

definition rune_width :: "string \<Rightarrow> nat" where
  "rune_width cs = (case cs of
       [] \<Rightarrow> 0
     | c # rest \<Rightarrow>
        if byte_in 0 127 c then 1
        else if byte_in 194 223 c then (case rest of d # _ \<Rightarrow> if second_byte c d then 2 else 0 | _ \<Rightarrow> 0)
        else if byte_in 224 239 c then
          (case rest of d # e # _ \<Rightarrow> if second_byte c d \<and> byte_in 128 191 e then 3 else 0 | _ \<Rightarrow> 0)
        else if byte_in 240 244 c then
          (case rest of d # e # f # _ \<Rightarrow>
             if second_byte c d \<and> byte_in 128 191 e \<and> byte_in 128 191 f then 4 else 0 | _ \<Rightarrow> 0)
        else 0)"

text \<open>\<open>strings.ToValidUTF8\<close> with nothing in place of what is no UTF-8.\<close>

function ToValidUTF8 :: "string \<Rightarrow> string" where
  "ToValidUTF8 [] = []"
| "ToValidUTF8 (c # cs) =
    (let n = rune_width (c # cs) in
     if n = 0 then ToValidUTF8 cs else take n (c # cs) @ ToValidUTF8 (drop n (c # cs)))"
  by pat_completeness auto
termination by (relation "measure length") auto

text \<open>The layout \<open>2006-01-02 15:04 UTC\<close>; a slice below zero panics, which a head shorter than the limit excludes.\<close>

definition format_minute :: "time \<Rightarrow> string" where
  "format_minute t = format_date t @ '' '' @ pad2 (clock_of t div Hour) @ '':'' @ pad2 (clock_of t mod Hour div Minute) @ '' UTC''"

definition copied_head :: "string \<Rightarrow> time \<Rightarrow> string" where
  "copied_head author stamp = ''Copied from a comment by '' @ author @ '' on '' @ format_minute stamp @ '':'' @ [CHR 0x0A, CHR 0x0A]"

definition copiedCommentBody :: "string \<Rightarrow> time \<Rightarrow> string \<Rightarrow> string" where
  "copiedCommentBody author stamp body =
    (let head = copied_head author stamp; room = MaxCommentLength - length head
     in head @ (if room < length body then ToValidUTF8 (take room body) else body))"

section \<open>The copier\<close>

record copy_input =
  cp_project :: string
  cp_title :: string
  cp_keep_status :: bool
  cp_with_comments :: bool
  cp_with_subtasks :: bool
  cp_with_dependencies :: bool
  cp_link :: bool

text \<open>A source as it was read: the task, its labels and its reference.\<close>

type_synonym copy_source = "task \<times> string list \<times> string"

text \<open>The copies made so far are kept newest first, which is the order of \<open>order\<close> backwards.\<close>

record copier =
  k_in :: copy_input
  k_project :: project
  k_workflow :: workflow_definition
  k_defs :: "field_def list"
  k_same_home :: bool
  k_copies :: "(string \<times> task) list"
  k_template :: string

definition in_project :: "string \<Rightarrow> resource" where
  "in_project k = \<lparr>r_tenant = [], r_project = k, r_owner = []\<rparr>"

definition copierInto :: "call_ctx \<Rightarrow> project \<Rightarrow> copy_input \<Rightarrow> bool \<Rightarrow> mutation \<Rightarrow> copier res" where
  "copierInto ctx p inp same_home m =
    rbind (authorize ctx ActionTaskCreate (in_project (pr_id p))) (\<lambda>_.
    rbind (if cp_with_comments inp then rbind (authorize ctx ActionCommentWrite (in_project (pr_id p))) (\<lambda>_. Inr ())
           else Inr ()) (\<lambda>_.
    rbind (GetWorkflowByID (m_store m) (pr_workflow p)) (\<lambda>w.
      Inr \<lparr>k_in = inp, k_project = p, k_workflow = wf_definition w, k_defs = project_fields (m_store m) (pr_id p),
           k_same_home = same_home, k_copies = [], k_template = []\<rparr>)))"

definition newCopier :: "call_ctx \<Rightarrow> task \<Rightarrow> copy_input \<Rightarrow> mutation \<Rightarrow> copier res" where
  "newCopier ctx source inp m =
    rbind (on_field ''project_ref'' (lookupProject (m_store m)
      (if cp_project inp = [] then t_project source else cp_project inp))) (\<lambda>p.
      copierInto ctx p inp (pr_id p = t_project source) m)"

definition parentOf :: "copier \<Rightarrow> task \<Rightarrow> bool \<Rightarrow> string" where
  "parentOf k src first =
    (if \<not> first then (case map_of (k_copies k) (t_parent src) of Some p \<Rightarrow> t_id p | None \<Rightarrow> [])
     else if k_same_home k then t_parent src else [])"

definition copy_status :: "copier \<Rightarrow> string \<Rightarrow> string" where
  "copy_status k from = (if cp_keep_status (k_in k) \<and> HasState (k_workflow k) from then from else initial (k_workflow k))"

fun kept_fields :: "field_def list \<Rightarrow> fields \<Rightarrow> fields" where
  "kept_fields defs [] = []"
| "kept_fields defs ((key, v) # rest) =
    (case field_of defs key of
       None \<Rightarrow> kept_fields defs rest
     | Some d \<Rightarrow> if v = JNull then kept_fields defs rest
         else (case coerceFieldValue d v of
             Inr w \<Rightarrow> (key, w) # kept_fields defs rest
           | Inl _ \<Rightarrow> kept_fields defs rest))"

definition copy_fields :: "copier \<Rightarrow> fields \<Rightarrow> fields res" where
  "copy_fields k vs = validateTaskFields (k_defs k) (kept_fields (k_defs k) vs) True"

definition copy_handle :: "store \<Rightarrow> string \<Rightarrow> string" where
  "copy_handle s k = (case GetActor s k of
       Inr a \<Rightarrow> if ac_handle a \<noteq> [] then CHR ''@'' # ac_handle a else k
     | Inl _ \<Rightarrow> k)"

definition copy_comment :: "task \<Rightarrow> comment \<Rightarrow> mutation \<Rightarrow> mutation res" where
  "copy_comment dst c m =
    rbind (tx_comment (t_id dst) (copiedCommentBody (copy_handle (m_store m) (cm_author c)) (cm_created c) (cm_body c)) m) (\<lambda>(m, new).
      Inr (RecordAs ''comment'' ''comment.add'' EventCommentAdded (cm_id new) (t_project dst) None (Some (CommentSnap new))
        (comment_payload (m_store m) dst @ [(''copied_from'', DStr (cm_id c))]) m))"

definition copyComments :: "task \<Rightarrow> task \<Rightarrow> mutation \<Rightarrow> mutation res" where
  "copyComments src dst m = fold_res (copy_comment dst) (ListComments (t_id src) (m_store m)) m"

definition copied_task :: "copier \<Rightarrow> task \<Rightarrow> bool \<Rightarrow> fields \<Rightarrow> int \<Rightarrow> mutation \<Rightarrow> task" where
  "copied_task k src first fs seq m =
    (let status = copy_status k (t_status src) in
     empty_task\<lparr>t_project := pr_id (k_project k), t_seq := seq, t_parent := parentOf k src first,
       t_title := (if first \<and> cp_title (k_in k) \<noteq> [] then cp_title (k_in k) else t_title src),
       t_body := t_body src, t_status := status, t_priority := t_priority src, t_assignee := t_assignee src,
       t_creator := a_id (m_actor m), t_due := t_due src, t_custom := fs, t_recurrence := t_recurrence src,
       t_lease := t_lease src, t_copied_from := (if cp_link (k_in k) then t_id src else []),
       t_completed := (if IsTerminal (k_workflow k) status then Some (m_now m) else None)\<rparr>)"

definition copyOne :: "copy_source \<Rightarrow> bool \<Rightarrow> copier \<Rightarrow> mutation \<Rightarrow> (copier \<times> mutation) res" where
  "copyOne source first k m =
    (case source of (src, labels, _) \<Rightarrow>
      (case copy_fields k (t_custom src) of
         Inl err \<Rightarrow> Inl (Foreign ''copying'' (Some err))
       | Inr fs \<Rightarrow>
          rbind (on_store (NextSeq (pr_id (k_project k))) m) (\<lambda>(m, seq).
          rbind (tx_create (copied_task k src first fs seq m) m) (\<lambda>(m, t).
          rbind (attach_all (t_id t) labels m) (\<lambda>m.
          let k = k\<lparr>k_copies := (t_id src, t) # k_copies k\<rparr>
          in if cp_with_comments (k_in k) then rbind (copyComments src t m) (\<lambda>m. Inr (k, m)) else Inr (k, m))))))"

section \<open>Dependencies and the trail\<close>

definition far_end :: "call_ctx \<Rightarrow> copier \<Rightarrow> store \<Rightarrow> string \<Rightarrow> task option" where
  "far_end ctx k s j =
    (case map_of (k_copies k) j of
       Some t \<Rightarrow> Some t
     | None \<Rightarrow> (case GetTask s (id_ref j) of
           Inl _ \<Rightarrow> None
         | Inr dep \<Rightarrow> if Deleted dep \<or> \<not> is_ok (authorizeTask ctx ActionTaskUpdate dep) then None else Some dep))"

definition ListDependencies :: "string \<Rightarrow> store \<Rightarrow> dependency list" where
  "ListDependencies k s = sort_key d_depends_on (filter (\<lambda>d. d_task d = k) (deps s))"

definition copy_edge :: "call_ctx \<Rightarrow> copier \<Rightarrow> task \<Rightarrow> dependency \<Rightarrow> mutation \<Rightarrow> mutation res" where
  "copy_edge ctx k dst d m =
    (case far_end ctx k (m_store m) (d_depends_on d) of
       None \<Rightarrow> Inr m
     | Some far \<Rightarrow> tx_store (linkDependency (m_db m) dst far) m)"

text \<open>Every source has been copied by the time its edges are.\<close>

definition copyDependencies :: "call_ctx \<Rightarrow> copier \<Rightarrow> copy_source \<Rightarrow> mutation \<Rightarrow> mutation res" where
  "copyDependencies ctx k source m =
    (case map_of (k_copies k) (t_id (fst source)) of
       None \<Rightarrow> Inr m
     | Some dst \<Rightarrow> fold_res (copy_edge ctx k dst) (ListDependencies (t_id (fst source)) (m_store m)) m)"

definition record_copy :: "copy_source list \<Rightarrow> copier \<Rightarrow> string \<Rightarrow> mutation \<Rightarrow> mutation res" where
  "record_copy sources k j m =
    (case map_of (k_copies k) j of
       None \<Rightarrow> Inl (Foreign ''no copy'' None)
     | Some t \<Rightarrow> rbind (GetTask (m_store m) (id_ref (t_id t))) (\<lambda>loaded.
         let from = (case map_of (map (\<lambda>(t, _, ref). (t_id t, ref)) (rev sources)) j of Some r \<Rightarrow> r | None \<Rightarrow> [])
         in Inr (Record (if k_template k \<noteq> [] then ''task.template'' else ''task.copy'') EventTaskCreated (t_id loaded)
           (t_project loaded) None (Some (TaskSnap loaded))
           [(''ref'', DStr (task_ref_text (m_store m) loaded)), (''title'', DStr (t_title loaded)),
            (''status'', DStr (t_status loaded)),
            (if k_template k \<noteq> [] then (''template'', DStr (k_template k)) else (''copied_from'', DStr from))] m)))"

definition record_copies :: "copy_source list \<Rightarrow> copier \<Rightarrow> mutation \<Rightarrow> mutation res" where
  "record_copies sources k m = fold_res (record_copy sources k) (rev (map fst (k_copies k))) m"

section \<open>The handler\<close>

definition read_source :: "store \<Rightarrow> task \<Rightarrow> copy_source" where
  "read_source s t = (t, tag_names s (t_id t), task_ref_text s t)"

fun copy_all :: "call_ctx \<Rightarrow> copy_source list \<Rightarrow> bool \<Rightarrow> copier \<Rightarrow> mutation \<Rightarrow> (copier \<times> mutation) res" where
  "copy_all ctx [] first k m = Inr (k, m)"
| "copy_all ctx (src # rest) first k m =
    rbind (authorizeTask ctx ActionTaskRead (fst src)) (\<lambda>_.
    rbind (copyOne src first k m) (\<lambda>(k, m). copy_all ctx rest False k m))"

definition copy_tx :: "call_ctx \<Rightarrow> task_ref \<Rightarrow> copy_input \<Rightarrow> mutation \<Rightarrow> (mutation \<times> task) res" where
  "copy_tx ctx ref inp m =
    rbind (liveTask (m_store m) ref) (\<lambda>source.
    rbind (authorizeTask ctx ActionTaskRead source) (\<lambda>_.
    rbind (newCopier ctx source inp m) (\<lambda>k.
    rbind (if cp_with_subtasks inp then appendDescendants (m_store m) (t_id source) 0 1 [source] else Inr [source]) (\<lambda>ts.
    let sources = map (read_source (m_store m)) ts in
    rbind (copy_all ctx sources True k m) (\<lambda>(k, m).
    rbind (if cp_with_dependencies inp then fold_res (copyDependencies ctx k) sources m else Inr m) (\<lambda>m.
    rbind (record_copies sources k m) (\<lambda>m.
    case map_of (k_copies k) (t_id source) of
      None \<Rightarrow> Inl (Foreign ''no copy'' None)
    | Some t \<Rightarrow> rbind (GetTask (m_store m) (id_ref (t_id t))) (\<lambda>out. Inr (m, out)))))))))"

definition service_CopyTask :: "env \<Rightarrow> call_ctx \<Rightarrow> task_ref \<Rightarrow> copy_input \<Rightarrow> store \<Rightarrow> store \<times> task res" where
  "service_CopyTask e ctx ref raw s =
    (let inp = raw\<lparr>cp_title := TrimSpace (cp_title raw), cp_project := TrimSpace (cp_project raw)\<rparr> in
     if MaxTitleLength < int (length (cp_title inp)) then (s, Inl (invalid_field ''title''))
     else case authorize ctx ActionTaskCreate no_resource of
       Inl err \<Rightarrow> (s, Inl err)
     | Inr a \<Rightarrow> write_tx e ctx a (copy_tx ctx ref inp) s)"

section \<open>What the steps are made of\<close>

lemma copyOne_steps:
  assumes "copyOne source first k m = Inr (k', m')"
  obtains src labels ref fs m1 seq m2 t m3 where "source = (src, labels, ref)" and "copy_fields k (t_custom src) = Inr fs"
    and "on_store (NextSeq (pr_id (k_project k))) m = Inr (m1, seq)"
    and "tx_create (copied_task k src first fs seq m1) m1 = Inr (m2, t)" and "attach_all (t_id t) labels m2 = Inr m3"
    and "k' = k\<lparr>k_copies := (t_id src, t) # k_copies k\<rparr>"
    and "if cp_with_comments (k_in k) then copyComments src t m3 = Inr m' else m' = m3"
  using assms unfolding copyOne_def Let_def
  by (auto split: prod.splits sum.splits if_splits)

lemma copy_all_copier:
  "copy_all ctx sources first k m = Inr (k', m') \<Longrightarrow>
    k' = k\<lparr>k_copies := k_copies k'\<rparr> \<and> map fst (k_copies k') = rev (map (t_id \<circ> fst) sources) @ map fst (k_copies k)"
proof (induction sources arbitrary: first k m)
  case (Cons x xs)
  then obtain k1 m1 where "copyOne x first k m = Inr (k1, m1)" and rest: "copy_all ctx xs False k1 m1 = Inr (k', m')" by auto
  then show ?case using Cons.IH [OF rest] by (elim copyOne_steps) auto
qed simp

lemma copy_tx_steps:
  assumes "copy_tx ctx ref inp m = Inr (m', out)"
  obtains source k ts k1 m1 m2 t where "liveTask (m_store m) ref = Inr source" and "newCopier ctx source inp m = Inr k"
    and "(if cp_with_subtasks inp then appendDescendants (m_store m) (t_id source) 0 1 [source] else Inr [source]) = Inr ts"
    and "copy_all ctx (map (read_source (m_store m)) ts) True k m = Inr (k1, m1)"
    and "(if cp_with_dependencies inp then fold_res (copyDependencies ctx k1) (map (read_source (m_store m)) ts) m1 else Inr m1) = Inr m2"
    and "record_copies (map (read_source (m_store m)) ts) k1 m2 = Inr m'"
    and "map_of (k_copies k1) (t_id source) = Some t" and "GetTask (m_store m') (id_ref (t_id t)) = Inr out"
  using assms unfolding copy_tx_def Let_def
  by (elim rbind_InrE) (auto split: option.splits prod.splits)

lemma tree_walk_extends: "tree_walk s limit seen stack out = Inr ts \<Longrightarrow> \<exists>more. ts = out @ more \<and> int (length ts) \<le> max maxSubtreeSize (int (length out))"
proof (induction s limit seen stack out rule: tree_walk.induct)
  case (2 s limit seen t depth stack out)
  then show ?case by (fastforce split: if_splits)
qed simp

lemma ToValidUTF8_shorter: "length (ToValidUTF8 s) \<le> length s"
proof (induction s rule: ToValidUTF8.induct)
  case (2 c cs)
  then show ?case by (auto simp: Let_def min_def intro: order_trans)
qed simp

text \<open>A copied comment keeps to the limit of a comment, as long as the head does.\<close>

lemma copied_comment_fits:
  assumes "length (copied_head author stamp) \<le> MaxCommentLength"
  shows "length (copiedCommentBody author stamp body) \<le> MaxCommentLength"
  using assms ToValidUTF8_shorter [of "take (MaxCommentLength - length (copied_head author stamp)) body"]
  by (auto simp: copiedCommentBody_def Let_def)

end
