(* ===== verification/Tx_Frame.thy ===== *)
theory Tx_Frame
  imports Lease_Board Transitions Task_Copy
begin

text \<open>
  What the steps of a transaction preserve, stated once for every relation between tables that the
  store's writes are in: the handlers are built from those writes, so they are in it too. The
  locale \<open>quiet_writes\<close> asks for the writes that are no lease operation; leases stay as they are
  under these, which is its first interpretation. Nothing here depends on the relation's meaning:
  invariants of the tables and logs that only grow are further instances.
\<close>

section \<open>Reads and bookkeeping\<close>

lemma recordOccurrence_frame [simp]:
  "m_store (recordOccurrence t nxt m) = m_store m" "m_env (recordOccurrence t nxt m) = m_env m"
  "m_actor (recordOccurrence t nxt m) = m_actor m"
  by (simp_all add: recordOccurrence_def split: option.split)

lemma new_id_frame:
  "new_id m = (m', k) \<Longrightarrow> m_store m' = m_store m \<and> m_env m' = m_env m \<and> m_actor m' = m_actor m"
  by (auto simp: new_id_def)

lemma requireLease_as_renewal:
  "requireLeaseToken t tok m = Inr m' \<Longrightarrow>
    m' = m \<or> (\<exists>e. t_lease_expires t = Some e \<and> on_store (RenewLease (m_db m) (t_id t) tok e) m = Inr (m', True))"
  by (auto simp: requireLeaseToken_def Let_def split: if_splits option.splits)

lemma on_field_Inr [simp]: "on_field n r = Inr x \<longleftrightarrow> r = Inr x"
  by (cases r) (simp_all add: on_field_def)

lemma GetTask_id: "GetTask s (id_ref k) = Inr t \<Longrightarrow> t_id t = k"
  by (auto simp: GetTask_def Let_def id_ref_def IsID_def valid_ref_def task_with_project_def
      split: if_splits option.splits dest!: find_SomeD)

lemma liveTask_row:
  assumes "liveTask s ref = Inr t"
  shows "\<exists>row\<in>set (tasks s). t = scanTask row \<and> t_deleted row = None"
proof -
  have "GetTask s ref = Inr t" and "\<not> Deleted t" using assms by (auto simp: liveTask_def split: if_splits)
  then show ?thesis using GetTask_in by (fastforce simp: Deleted_def)
qed

lemma RecordAs_frame [simp]:
  "m_store (RecordAs st a t k p b af pl m) = m_store m" "m_env (RecordAs st a t k p b af pl m) = m_env m"
  "m_actor (RecordAs st a t k p b af pl m) = m_actor m"
  by (simp_all add: RecordAs_def Event_def Audit_def)

section \<open>Relations every write is in\<close>

definition tx_rel :: "(store \<Rightarrow> store \<Rightarrow> bool) \<Rightarrow> mutation \<Rightarrow> mutation \<Rightarrow> bool" where
  "tx_rel R m m' \<longleftrightarrow> m_env m' = m_env m \<and> m_actor m' = m_actor m \<and> R (m_store m) (m_store m')"

locale quiet_writes =
  fixes R :: "store \<Rightarrow> store \<Rightarrow> bool"
  assumes refl: "R s s"
    and trans: "R s s' \<Longrightarrow> R s' s'' \<Longrightarrow> R s s''"
    and NextSeq_ok: "NextSeq p s = Inr (s', n) \<Longrightarrow> R s s'"
    and CreateTask_ok: "CreateTask db fresh t s = Inr (s', t') \<Longrightarrow> R s s'"
    and UpdateTask_ok: "UpdateTask db t s = Inr (s', t') \<Longrightarrow> R s s'"
    and RestoreTask_ok: "RestoreTask db k s = Inr s' \<Longrightarrow> R s s'"
    and SetSnooze_ok: "SetSnooze db k u a s = Inr s' \<Longrightarrow> R s s'"
    and WakeSnooze_ok: "WakeSnooze k w s = (s', b) \<Longrightarrow> R s s'"
    and linkDependency_ok: "linkDependency db x y s = Inr s' \<Longrightarrow> R s s'"
    and RemoveDependency_ok: "RemoveDependency k j s = Inr s' \<Longrightarrow> R s s'"
    and attachTaskLabel_ok: "attachTaskLabel fresh k l s = Inr s' \<Longrightarrow> R s s'"
    and DetachTag_ok: "DetachTag k l s = Inr s' \<Longrightarrow> R s s'"
    and CreateComment_ok: "CreateComment db fresh k a l s = Inr (s', c) \<Longrightarrow> R s s'"
    and PutArtifact_ok: "PutArtifact db fresh x' s = Inr (s', x'') \<Longrightarrow> R s s'"
    and UpdateComment_ok: "UpdateComment db c s = Inr (s', c') \<Longrightarrow> R s s'"
    and DeleteComment_ok: "DeleteComment db k s = Inr s' \<Longrightarrow> R s s'"
    and StarTask_ok: "StarTask a k s = Inr (s', b) \<Longrightarrow> R s s'"
    and UnstarTask_ok: "UnstarTask a k s = Inr (s', b) \<Longrightarrow> R s s'"
begin

lemma tx_rel_refl [simp]: "tx_rel R m m"
  by (simp add: tx_rel_def refl)

lemma tx_rel_trans [trans]: "tx_rel R m m' \<Longrightarrow> tx_rel R m' m'' \<Longrightarrow> tx_rel R m m''"
  using trans by (fastforce simp: tx_rel_def)

lemma tx_rel_record [simp]:
  "tx_rel R m (Record a t k p b af pl m') \<longleftrightarrow> tx_rel R m m'"
  "tx_rel R m (Event t st k p pl m') \<longleftrightarrow> tx_rel R m m'"
  "tx_rel R m (RecordAs st a t k p b af pl m') \<longleftrightarrow> tx_rel R m m'"
  "tx_rel R m (notify n rs m') \<longleftrightarrow> tx_rel R m m'"
  "tx_rel R m (notifyComment u c bd m') \<longleftrightarrow> tx_rel R m m'"
  "tx_rel R m (notifyStatus u fr to m') \<longleftrightarrow> tx_rel R m m'"
  "tx_rel R m (notifyAssigned u m') \<longleftrightarrow> tx_rel R m m'"
  "tx_rel R m (notifyMentions n tx1 tx2 m') \<longleftrightarrow> tx_rel R m m'"
  by (simp_all add: tx_rel_def)

lemma tx_rel_recordOccurrence [simp]: "tx_rel R m (recordOccurrence t nxt m') \<longleftrightarrow> tx_rel R m m'"
  by (simp add: tx_rel_def)

lemma on_store_rel:
  assumes "on_store f m = Inr (m', x)" and "\<And>s y. f (m_store m) = Inr (s, y) \<Longrightarrow> R (m_store m) s"
  shows "tx_rel R m m'"
  using assms by (auto simp: on_store_Inr_iff tx_rel_def)

lemma tx_store_rel:
  assumes "tx_store f m = Inr m'" and "\<And>s. f (m_store m) = Inr s \<Longrightarrow> R (m_store m) s"
  shows "tx_rel R m m'"
  using assms by (auto simp: tx_store_def tx_rel_def)

lemma new_id_on_store_rel:
  assumes "on_store f (fst (new_id m)) = Inr (m', x)"
    and "\<And>s y. f (m_store m) = Inr (s, y) \<Longrightarrow> R (m_store m) s"
  shows "tx_rel R m m'"
  using assms by (auto simp: on_store_Inr_iff tx_rel_def new_id_def)

text \<open>Writes inside a mutation.\<close>

lemma tx_create_rel: "tx_create t m = Inr (m', t') \<Longrightarrow> tx_rel R m m'"
  by (rule new_id_on_store_rel [where f = "CreateTask (m_db m) (snd (new_id m)) t" and x = t'])
    (auto simp: tx_create_def new_id_def intro: CreateTask_ok)

lemma tx_update_rel: "tx_update t m = Inr (m', t') \<Longrightarrow> tx_rel R m m'"
  by (rule on_store_rel [where f = "UpdateTask (m_db m) t" and x = t'])
    (auto simp: tx_update_def intro: UpdateTask_ok)

lemma tx_comment_rel: "tx_comment k b m = Inr (m', c) \<Longrightarrow> tx_rel R m m'"
  by (rule new_id_on_store_rel [where f = "CreateComment (m_db m) (snd (new_id m)) k (a_id (m_actor m)) b" and x = c])
    (auto simp: tx_comment_def new_id_def intro: CreateComment_ok)

lemma tx_artifact_rel: "tx_artifact a m = Inr (m', c) \<Longrightarrow> tx_rel R m m'"
  by (rule new_id_on_store_rel [where f = "PutArtifact (m_db m) (snd (new_id m)) a" and x = c])
    (auto simp: tx_artifact_def new_id_def intro: PutArtifact_ok)

lemma tx_attach_rel: "tx_attach k n m = Inr m' \<Longrightarrow> tx_rel R m m'"
  by (auto simp: tx_attach_def new_id_def tx_store_def tx_rel_def intro: attachTaskLabel_ok)

lemma attach_all_rel: "attach_all k ns m = Inr m' \<Longrightarrow> tx_rel R m m'"
  by (induction ns arbitrary: m) (auto intro: tx_rel_trans [OF tx_attach_rel])

lemma spawnOccurrence_rel: "spawnOccurrence d t to m = Inr (m', t', nxt) \<Longrightarrow> tx_rel R m m'"
  by (auto simp: spawnOccurrence_def Let_def split: if_splits sum.splits option.splits
      elim!: tx_rel_trans [OF tx_create_rel attach_all_rel])

lemma fold_res_rel:
  assumes "fold_res f xs m = Inr m'" and "\<And>x m m'. f x m = Inr m' \<Longrightarrow> tx_rel R m m'"
  shows "tx_rel R m m'"
  using assms(1) by (induction xs arbitrary: m) (auto intro: tx_rel_trans [OF assms(2)])

lemma detach_step_rel:
  "(if c then Inr m else rbind (tagByName (m_store m) n) (\<lambda>l. tx_store (DetachTag k (tg_id l)) m)) = Inr m' \<Longrightarrow>
    tx_rel R m m'"
  by (cases c) (auto intro: tx_store_rel DetachTag_ok)

lemma replaceTaskLabels_rel:
  assumes "replaceTaskLabels t cur ns m = Inr m'"
  shows "tx_rel R m m'"
proof -
  obtain m1 where "attach_all (t_id t) (filter (\<lambda>n. n \<noteq> []) (map TrimSpace ns)) m = Inr m1"
    and *: "fold_res (\<lambda>existing m. if existing \<in> set (filter (\<lambda>n. n \<noteq> []) (map TrimSpace ns)) then Inr m
        else rbind (tagByName (m_store m) existing) (\<lambda>l. tx_store (DetachTag (t_id t) (tg_id l)) m)) cur m1 = Inr m'"
    using assms unfolding replaceTaskLabels_def Let_def by blast
  then have "tx_rel R m m1" by (blast intro: attach_all_rel)
  also have "tx_rel R m1 m'" using * by (rule fold_res_rel) (erule detach_step_rel)
  finally show ?thesis .
qed

lemma link_all_rel: "link_all t refs m = Inr m' \<Longrightarrow> tx_rel R m m'"
  unfolding link_all_def by (erule fold_res_rel) (auto intro: tx_store_rel linkDependency_ok)

text \<open>Handlers.\<close>

lemma create_tx_rel: "create_tx ctx inp rule m = Inr (m', t) \<Longrightarrow> tx_rel R m m'"
proof -
  assume "create_tx ctx inp rule m = Inr (m', t)"
  then obtain m1 seq k t0 t1 m2 m3 m4 project where
    steps: "on_store (NextSeq project) m = Inr (m1, seq)" "tx_create t0 m1 = Inr (m2, t1)"
      "attach_all (t_id t1) (ct_tags inp) m2 = Inr m3" "link_all t1 (ct_depends inp) m3 = Inr m4"
    and m': "tx_rel R m4 m'"
    unfolding create_tx_def Let_def by (elim rbind_InrE) (auto split: if_splits prod.splits)
  have "tx_rel R m m1" using steps(1) by (rule on_store_rel) (rule NextSeq_ok)
  also have "tx_rel R m1 m2" using steps(2) by (rule tx_create_rel)
  also have "tx_rel R m2 m3" using steps(3) by (rule attach_all_rel)
  also have "tx_rel R m3 m4" using steps(4) by (rule link_all_rel)
  also note m'
  finally show ?thesis .
qed

lemma update_tx_rel: "update_tx ctx ref inp m = Inr (m', t) \<Longrightarrow> tx_rel R m m'"
proof -
  assume "update_tx ctx ref inp m = Inr (m', t)"
  then obtain t0 t1 m1 cur m2 where "tx_update t0 m = Inr (m1, t1)"
    and "(case ui_tags inp of None \<Rightarrow> Inr m1 | Some ns \<Rightarrow> replaceTaskLabels t1 cur ns m1) = Inr m2"
    and m': "tx_rel R m2 m'"
    unfolding update_tx_def Let_def by (elim rbind_InrE) (auto split: if_splits prod.splits)
  then have "tx_rel R m m1" and "tx_rel R m1 m2"
    by (auto intro: tx_update_rel replaceTaskLabels_rel split: option.splits)
  with m' show ?thesis by (blast intro: tx_rel_trans)
qed

lemma restore_tx_rel: "restore_tx ctx ref m = Inr (m', t) \<Longrightarrow> tx_rel R m m'"
  unfolding restore_tx_def Let_def
  by (elim rbind_InrE) (auto split: if_splits elim!: tx_store_rel intro: RestoreTask_ok)

lemma add_dependency_tx_rel: "add_dependency_tx ctx ref on m = Inr (m', u) \<Longrightarrow> tx_rel R m m'"
  unfolding add_dependency_tx_def
  by (elim rbind_InrE) (auto elim!: tx_store_rel intro: linkDependency_ok)

lemma remove_dependency_tx_rel: "remove_dependency_tx ctx ref on m = Inr (m', u) \<Longrightarrow> tx_rel R m m'"
  unfolding remove_dependency_tx_def
  by (elim rbind_InrE) (auto elim!: tx_store_rel intro: RemoveDependency_ok)

lemma add_tag_tx_rel: "add_tag_tx ctx ref n m = Inr (m', u) \<Longrightarrow> tx_rel R m m'"
  unfolding add_tag_tx_def by (elim rbind_InrE) (auto intro: tx_attach_rel)

lemma remove_tag_tx_rel: "remove_tag_tx ctx ref n m = Inr (m', u) \<Longrightarrow> tx_rel R m m'"
  unfolding remove_tag_tx_def by (elim rbind_InrE) (auto elim!: tx_store_rel intro: DetachTag_ok)

lemma snooze_tx_rel: "snooze_tx ctx ref until m = Inr (m', t) \<Longrightarrow> tx_rel R m m'"
  unfolding snooze_tx_def
  by (cases "After until (m_now m)") (auto elim!: tx_store_rel intro: SetSnooze_ok)

lemma unsnooze_tx_rel: "unsnooze_tx ctx ref m = Inr (m', t) \<Longrightarrow> tx_rel R m m'"
  unfolding unsnooze_tx_def
  by (elim rbind_InrE) (auto split: if_splits elim!: tx_store_rel intro: SetSnooze_ok)

lemma wake_all_rel: "wake_all ts n m = Inr (m', k) \<Longrightarrow> tx_rel R m m'"
proof (induction ts arbitrary: n m)
  case Nil
  then show ?case by simp
next
  case (Cons t ts)
  obtain s ok where w: "WakeSnooze (t_id t) (case t_snoozed_until t of None \<Rightarrow> 0 | Some u \<Rightarrow> u) (m_store m) = (s, ok)"
    by fastforce
  have "tx_rel R m (m\<lparr>m_store := s\<rparr>)" using WakeSnooze_ok [OF w] by (simp add: tx_rel_def)
  moreover have "tx_rel R (m\<lparr>m_store := s\<rparr>) m'"
    using Cons.prems w by (cases ok) (auto simp: Let_def dest!: Cons.IH simp: tx_rel_def)
  ultimately show ?case by (rule tx_rel_trans)
qed

lemma add_comment_tx_rel: "add_comment_tx ctx ref text m = Inr (m', c) \<Longrightarrow> tx_rel R m m'"
  unfolding add_comment_tx_def by (elim rbind_InrE) (auto intro: tx_comment_rel)

lemma edit_comment_tx_rel: "edit_comment_tx ctx k text m = Inr (m', c) \<Longrightarrow> tx_rel R m m'"
  unfolding edit_comment_tx_def
  by (elim rbind_InrE) (auto split: if_splits elim!: rbind_InrE on_store_rel intro: UpdateComment_ok)

lemma delete_comment_tx_rel: "delete_comment_tx ctx k m = Inr (m', u) \<Longrightarrow> tx_rel R m m'"
  unfolding delete_comment_tx_def by (elim rbind_InrE) (auto elim!: tx_store_rel intro: DeleteComment_ok)

lemma star_tx_rel: "star_tx ctx ref starred m = Inr (m', u) \<Longrightarrow> tx_rel R m m'"
  unfolding star_tx_def Let_def
  by (elim rbind_InrE) (auto split: if_splits elim!: on_store_rel; erule StarTask_ok UnstarTask_ok)

text \<open>Copies.\<close>

lemma copyComments_rel: "copyComments src dst m = Inr m' \<Longrightarrow> tx_rel R m m'"
  unfolding copyComments_def
  by (erule fold_res_rel) (auto simp: copy_comment_def elim!: rbind_InrE intro: tx_comment_rel)

lemma copyOne_rel: "copyOne src first k m = Inr (k', m') \<Longrightarrow> tx_rel R m m'"
proof (elim copyOne_steps)
  fix t labels fs m1 seq m2 u m3
  assume "on_store (NextSeq (pr_id (k_project k))) m = Inr (m1, seq)"
  then have "tx_rel R m m1" by (rule on_store_rel) (rule NextSeq_ok)
  also assume "tx_create (copied_task k t first fs seq m1) m1 = Inr (m2, u)"
  then have "tx_rel R m1 m2" by (rule tx_create_rel)
  also assume "attach_all (t_id u) labels m2 = Inr m3"
  then have "tx_rel R m2 m3" by (rule attach_all_rel)
  also assume "if cp_with_comments (k_in k) then copyComments t u m3 = Inr m' else m' = m3"
  then have "tx_rel R m3 m'" by (auto split: if_splits intro: copyComments_rel)
  finally show ?thesis .
qed

lemma copy_all_rel: "copy_all ctx sources first k m = Inr (k', m') \<Longrightarrow> tx_rel R m m'"
  by (induction sources arbitrary: first k m) (auto intro: tx_rel_trans [OF copyOne_rel])

lemma copyDependencies_rel: "copyDependencies ctx k source m = Inr m' \<Longrightarrow> tx_rel R m m'"
  unfolding copyDependencies_def
  by (auto simp: copy_edge_def split: option.splits elim!: fold_res_rel tx_store_rel intro: linkDependency_ok)

lemma record_copies_rel: "record_copies sources k m = Inr m' \<Longrightarrow> tx_rel R m m'"
  unfolding record_copies_def
  by (erule fold_res_rel) (auto simp: record_copy_def Let_def split: option.splits)

lemma copy_tx_rel: "copy_tx ctx ref inp m = Inr (m', t) \<Longrightarrow> tx_rel R m m'"
proof (elim copy_tx_steps)
  fix k k1 m1 m2 sources
  assume "copy_all ctx sources True k m = Inr (k1, m1)"
  then have "tx_rel R m m1" by (rule copy_all_rel)
  also assume "(if cp_with_dependencies inp then fold_res (copyDependencies ctx k1) sources m1 else Inr m1) = Inr m2"
  then have "tx_rel R m1 m2" by (auto split: if_splits elim: fold_res_rel intro: copyDependencies_rel)
  also assume "record_copies sources k1 m2 = Inr m'"
  then have "tx_rel R m2 m'" by (rule record_copies_rel)
  finally show ?thesis .
qed

lemma with_comment_rel:
  assumes "(if c \<noteq> [] then rbind (tx_comment k c m) (\<lambda>(m, x). Inr (notifyComment u (cm_id x) (cm_body x) m)) else Inr m) = Inr m'"
  shows "tx_rel R m m'"
  using assms by (auto split: if_splits intro: tx_comment_rel)

lemma applyRelease_rel: "applyRelease t w inp m = Inr m' \<Longrightarrow> tx_rel R m m'"
proof -
  assume "applyRelease t w inp m = Inr m'"
  then obtain m1 m2 where
    c: "(if ri_comment inp \<noteq> [] then rbind (tx_comment (t_id t) (ri_comment inp) m)
          (\<lambda>(m, c). Inr (notifyComment t (cm_id c) (cm_body c) m)) else Inr m) = Inr m1"
    and a: "(if ri_result inp \<noteq> [] then rbind (tx_artifact (result_artifact t (a_id (m_actor m1)) (ri_result inp)) m1)
          (\<lambda>(m, _). Inr m) else Inr m1) = Inr m2"
    and rest: "m' = m2 \<or> (\<exists>d u to m3 u2 nxt m4 u3. spawnOccurrence d u to m2 = Inr (m3, u2, nxt) \<and>
          tx_update u2 m3 = Inr (m4, u3) \<and> tx_rel R m4 m')"
    unfolding applyRelease_def Let_def by (elim rbind_InrE) (fastforce split: if_splits prod.splits)
  have "tx_rel R m m1" using c by (rule with_comment_rel)
  also have "tx_rel R m1 m2" using a by (auto split: if_splits intro: tx_artifact_rel)
  also have "tx_rel R m2 m'" using rest
    by (auto intro: tx_rel_trans [OF spawnOccurrence_rel tx_rel_trans [OF tx_update_rel]])
  finally show ?thesis .
qed

end

section \<open>Leases are left alone\<close>

lemma linkDependency_frame [inv_intros]: "linkDependency db t dep s = Inr s' \<Longrightarrow> lease_frame s s'"
  by (auto simp: linkDependency_def intro: AddDependency_frame split: if_splits)

lemma note_frames [inv_intros]:
  "UpdateComment db c s = Inr (s', c') \<Longrightarrow> lease_frame s s'" "DeleteComment db k s = Inr s' \<Longrightarrow> lease_frame s s'"
  "StarTask a k s = Inr (s', b) \<Longrightarrow> lease_frame s s'" "UnstarTask a k s = Inr (s', b) \<Longrightarrow> lease_frame s s'"
  by (rule lease_frame_tasks; auto simp: UpdateComment_def DeleteComment_def StarTask_def UnstarTask_def Let_def split: if_splits)+

interpretation quiet: quiet_writes lease_frame
  by unfold_locales (auto intro: inv_intros lease_frame_trans)

abbreviation tx_frame :: "mutation \<Rightarrow> mutation \<Rightarrow> bool" where
  "tx_frame \<equiv> tx_rel lease_frame"

end
