(* ===== verification/Lease_Handlers.thy ===== *)
theory Lease_Handlers
  imports Tx_Frame
begin

text \<open>
  What each lease handler does to the board: a claim takes a vacant lease, a renewal moves the
  expiry of a lease its token holds, a release drops it, a sweep clears leases that ran out, a
  forced reclaim drops one, a deletion drops those of the rows it removes; and proving a lease to
  a transition leaves the board as it was.
\<close>

section \<open>Proving a lease\<close>

lemma board_of_row:
  "lease_inv s \<Longrightarrow> row \<in> set (tasks s) \<Longrightarrow> board s (t_id row) = row_lease row"
  by (simp add: board_def row_of_inv [THEN iffD2])

lemma requireLeaseToken_frame:
  assumes "liveTask (m_store m) ref = Inr t" and "requireLeaseToken t tok m = Inr m1"
  shows "tx_frame m m1"
proof (cases "m1 = m")
  case False
  then obtain e s1 where e: "t_lease_expires t = Some e" and m1: "m1 = m\<lparr>m_store := s1\<rparr>"
    and renew: "RenewLease (m_db m) (t_id t) tok e (m_store m) = Inr (s1, True)"
    using requireLease_as_renewal [OF assms(2)] by (auto simp: on_store_Inr_iff)
  obtain row where row: "row \<in> set (tasks (m_store m))" "t = scanTask row" using liveTask_row [OF assms(1)] by blast
  have "lease_frame (m_store m) s1"
    unfolding lease_frame_def
  proof (intro impI conjI)
    assume inv: "lease_inv (m_store m)"
    note law = RenewLease_law [OF inv renew]
    show "lease_inv s1" by (rule law(1))
    obtain e' where "board (m_store m) (t_id t) = Some (tok, e')" using law(3) by (auto simp: held_def)
    moreover have "board (m_store m) (t_id t) = row_lease row" using board_of_row [OF inv row(1)] row(2) by simp
    ultimately have "board (m_store m) (t_id t) = Some (tok, e)"
      using e row(2) by (auto simp: row_lease_def split: option.splits)
    then show "board s1 = board (m_store m)" using law(2) by (auto simp: fun_eq_iff)
  qed
  then show ?thesis by (simp add: m1 tx_rel_def)
qed simp

lemma put_artifact_tx_frame [inv_intros]:
  assumes "put_artifact_tx ctx ref inp m = Inr (m', a)"
  shows "tx_frame m m'"
proof -
  obtain t m1 x where live: "liveTask (m_store m) ref = Inr t"
    and steps: "requireLeaseToken t (ai_lease_token inp) m = Inr m1" "tx_artifact x m1 = Inr (m', a) \<or>
      (\<exists>m2. tx_artifact x m1 = Inr (m2, a) \<and> tx_frame m2 m')"
    using assms unfolding put_artifact_tx_def by (elim rbind_InrE) (fastforce split: prod.splits)
  have "tx_frame m m1" using live steps(1) by (rule requireLeaseToken_frame)
  also have "tx_frame m1 m'" using steps(2) by (auto intro: quiet.tx_artifact_rel quiet.tx_rel_trans)
  finally show ?thesis .
qed

lemma transition_tx_frame [inv_intros]:
  assumes "transition_tx ctx ref inp m = Inr (m', t')"
  shows "tx_frame m m'"
proof -
  obtain t d m1 moved m2 t2 nxt m3 t3 m4 where live: "liveTask (m_store m) ref = Inr t"
    and steps: "requireLeaseToken t (ti_token inp) m = Inr m1"
      "spawnOccurrence d moved (ti_to inp) m1 = Inr (m2, t2, nxt)" "tx_update t2 m2 = Inr (m3, t3)"
      "(if TrimSpace (ti_comment inp) \<noteq> []
        then rbind (tx_comment (t_id t3) (TrimSpace (ti_comment inp)) m3) (\<lambda>(m, c). Inr (notifyComment t3 (cm_id c) (cm_body c) m))
        else Inr m3) = Inr m4"
    and m': "tx_frame m4 m'"
    using assms unfolding transition_tx_def Let_def by (elim rbind_InrE) (auto simp: Let_def split: prod.splits)
  have "tx_frame m m1" using live steps(1) by (rule requireLeaseToken_frame)
  also have "tx_frame m1 m2" using steps(2) by (rule quiet.spawnOccurrence_rel)
  also have "tx_frame m2 m3" using steps(3) by (rule quiet.tx_update_rel)
  also have "tx_frame m3 m4" using steps(4) by (rule quiet.with_comment_rel)
  also note m'
  finally show ?thesis .
qed

section \<open>Claiming\<close>

lemma claimTarget_task: "claimTarget ctx s ref = Inr t \<Longrightarrow> GetTask s ref = Inr t \<and> liveTask s ref = Inr t"
  by (auto simp: claimTarget_def liveTask_def split: if_splits)

lemma recordClaim_Inr:
  assumes "recordClaim m before tok until g = Inr (m', c)"
  shows "tx_frame m m'" and "m_store m' = m_store m" and "cl_token c = tok" and "cl_expires c = until"
    and "cl_lease c = g" and "t_id (cl_task c) = t_id before"
  using assms GetTask_id unfolding recordClaim_def Let_def by (auto split: if_splits)

text \<open>What the claim of one task comes down to.\<close>

lemma claim_task_tx_Inr:
  assumes "claim_task_tx ctx ref inp m = Inr (m', c)"
  shows "\<exists>t m1 holder. claimTarget ctx (m_store m) ref = Inr t \<and> t_id (cl_task c) = t_id t \<and>
    cl_token c = e_token (m_env m) \<and> cl_expires c = Until (m_now m) (TTL (cl_lease c)) \<and>
    task_grant m t (ci_ttl inp) = Inr (cl_lease c) \<and>
    on_store (ClaimTask \<lparr>cr_task = t_id t, cr_actor = holder, cr_now = m_now m, cr_until = cl_expires c,
      cr_token = cl_token c\<rparr>) m = Inr (m1, True) \<and> m_store m' = m_store m1 \<and> m_env m' = m_env m"
proof -
  obtain t g holder m1 where
    *: "claimTarget ctx (m_store m) ref = Inr t" "task_grant m t (ci_ttl inp) = Inr g"
      "on_store (ClaimTask \<lparr>cr_task = t_id t, cr_actor = holder, cr_now = m_now m, cr_until = Until (m_now m) (TTL g),
        cr_token = e_token (m_env m)\<rparr>) m = Inr (m1, True)"
      "recordClaim m1 t (e_token (m_env m)) (Until (m_now m) (TTL g)) g = Inr (m', c)"
    using assms unfolding claim_task_tx_def Let_def by (elim rbind_InrE) (auto split: if_splits)
  moreover have "m_env m' = m_env m"
    using recordClaim_Inr(1) [OF *(4)] *(3) by (auto simp: tx_rel_def on_store_Inr_iff)
  ultimately show ?thesis using recordClaim_Inr(2-6) [OF *(4)] by auto
qed

lemma claim_task_tx_board:
  assumes "claim_task_tx ctx ref inp m = Inr (m', c)" and inv: "lease_inv (m_store m)"
  shows "lease_inv (m_store m')"
    and "board (m_store m') = (board (m_store m))(t_id (cl_task c) \<mapsto> (cl_token c, cl_expires c))"
    and "vacant (board (m_store m)) (m_now m) (t_id (cl_task c))"
proof -
  obtain t :: task and m1 holder where *: "t_id (cl_task c) = t_id t" "m_store m' = m_store m1"
    "on_store (ClaimTask \<lparr>cr_task = t_id t, cr_actor = holder, cr_now = m_now m, cr_until = cl_expires c,
      cr_token = cl_token c\<rparr>) m = Inr (m1, True)"
    using claim_task_tx_Inr [OF assms(1)] by blast
  then have "ClaimTask \<lparr>cr_task = t_id t, cr_actor = holder, cr_now = m_now m, cr_until = cl_expires c,
      cr_token = cl_token c\<rparr> (m_store m) = Inr (m_store m1, True)" by (auto simp: on_store_Inr_iff)
  from ClaimTask_law [OF inv this] * show "lease_inv (m_store m')"
    "board (m_store m') = (board (m_store m))(t_id (cl_task c) \<mapsto> (cl_token c, cl_expires c))"
    "vacant (board (m_store m)) (m_now m) (t_id (cl_task c))" by simp_all
qed

section \<open>Claiming the next task\<close>

lemma least_by_filter: "least_by k (filter p xs) = Some x \<Longrightarrow> x \<in> set xs \<and> p x \<and> (\<forall>y\<in>set xs. p y \<longrightarrow> k x \<le> k y)"
  by (auto dest: least_by_Some)

text \<open>
  The statement picks one row and hands out the lease on it. That the row read back by its token is
  the row picked needs a token no row carries yet.
\<close>

definition fresh_token :: "store \<Rightarrow> string \<Rightarrow> bool" where
  "fresh_token s tok \<longleftrightarrow> (\<forall>r\<in>set (tasks s). lease_token r \<noteq> Some tok)"

lemma ClaimNextTask_Some:
  assumes "ClaimNextTask c s = Inr (s', Some k)" and "lease_inv s" and "fresh_token s (cn_token c)"
  shows "\<exists>pick. least_by queue_key (filter (eligible c s) (tasks s)) = Some pick \<and> k = t_id pick \<and>
    s' = s\<lparr>tasks := update_where (\<lambda>r. t_id r = t_id pick \<and> unclaimed (cn_now c) r)
      (take_lease (cn_actor c) (cn_now c) (cn_until c) (cn_token c)) (tasks s)\<rparr>"
proof -
  obtain pick where pick: "least_by queue_key (filter (eligible c s) (tasks s)) = Some pick"
    using assms(1) by (auto simp: ClaimNextTask_def split: option.splits)
  define p where "p = (\<lambda>r. t_id r = t_id pick \<and> unclaimed (cn_now c) r)"
  let ?f = "take_lease (cn_actor c) (cn_now c) (cn_until c) (cn_token c)"
  obtain r where s': "s' = s\<lparr>tasks := update_where p ?f (tasks s)\<rparr>"
    and r: "find (\<lambda>r. lease_token r = Some (cn_token c)) (update_where p ?f (tasks s)) = Some r" and k: "k = t_id r"
    using assms(1) pick unfolding ClaimNextTask_def p_def
    by (auto simp: Let_def split: if_splits option.splits)
  have "r \<in> set (update_where p ?f (tasks s))" "lease_token r = Some (cn_token c)" using find_SomeD [OF r] by auto
  then obtain r0 where r0: "r0 \<in> set (tasks s)" "r = (if p r0 then ?f r0 else r0)" by (auto simp: set_update_where)
  have "p r0" using r0 \<open>lease_token r = Some (cn_token c)\<close> assms(3) by (auto simp: fresh_token_def split: if_splits)
  then have "t_id r = t_id pick" using r0(2) by (simp add: p_def)
  with k pick s' show ?thesis unfolding p_def by blast
qed

lemma ClaimNextTask_None: "ClaimNextTask c s = Inr (s', None) \<Longrightarrow> s' = s"
  by (auto simp: ClaimNextTask_def Let_def split: option.splits if_splits)

lemma ClaimNextTask_law:
  assumes "ClaimNextTask c s = Inr (s', Some k)" and inv: "lease_inv s" and "fresh_token s (cn_token c)"
  shows "lease_inv s'" and "board s' = (board s)(k \<mapsto> (cn_token c, cn_until c))" and "vacant (board s) (cn_now c) k"
proof -
  obtain pick where pick: "least_by queue_key (filter (eligible c s) (tasks s)) = Some pick" and k: "k = t_id pick"
    and s': "s' = s\<lparr>tasks := update_where (\<lambda>r. t_id r = t_id pick \<and> unclaimed (cn_now c) r)
      (take_lease (cn_actor c) (cn_now c) (cn_until c) (cn_token c)) (tasks s)\<rparr>"
    using ClaimNextTask_Some [OF assms] by blast
  let ?p = "\<lambda>r. t_id r = t_id pick \<and> unclaimed (cn_now c) r"
  have in_s: "pick \<in> set (tasks s)" and "eligible c s pick" using least_by_filter [OF pick] by auto
  then have un: "unclaimed (cn_now c) pick" by (simp add: eligible_def)
  with in_s have pos: "0 < rows_matching ?p (tasks s)" by (auto simp: rows_matching_pos)
  show "lease_inv s'" unfolding s' by (rule lease_inv_update [OF inv]) (simp_all add: take_lease_def)
  have "board s' = (if 0 < rows_matching ?p (tasks s) then (board s)(t_id pick \<mapsto> (cn_token c, cn_until c)) else board s)"
    unfolding s' by (rule board_update_one [OF inv]) simp_all
  with pos k show "board s' = (board s)(k \<mapsto> (cn_token c, cn_until c))" by simp
  show "vacant (board s) (cn_now c) k"
    using vacant_unclaimed [OF inv _ un] in_s k by (simp add: row_of_inv [OF inv])
qed

text \<open>
  \<open>applyTaskLease\<close> drops the answer of the renewal, so the date it reports is the stored one only
  while the lease just taken has not run out within the transaction: \<open>prompt\<close>.
\<close>

definition prompt :: "mutation \<Rightarrow> claim_next_input \<Rightarrow> bool" where
  "prompt m inp \<longleftrightarrow> (\<forall>ttl. Resolve (tx_policy m) (ni_ttl inp) 0 = Inr ttl \<longrightarrow> m_db m < Until (m_now m) ttl)"

lemma applyTaskLease_board:
  assumes "applyTaskLease t ttl tok until m = Inr (m', g, until')"
    and "lease_inv (m_store m)" and "board (m_store m) (t_id t) = Some (tok, until)" and "m_db m < until"
  shows "lease_inv (m_store m')" and "board (m_store m') = (board (m_store m))(t_id t \<mapsto> (tok, until'))"
    and "m_env m' = m_env m"
proof -
  have held: "held (board (m_store m)) (m_db m) (t_id t) tok" using assms(3,4) by (simp add: held_def)
  have "m' = m \<and> until' = until \<or>
    (\<exists>r. RenewLease (m_db m) (t_id t) tok until' (m_store m) = Inr r \<and> m' = m\<lparr>m_store := fst r\<rparr>)"
    using assms(1) unfolding applyTaskLease_def Let_def
    by (elim rbind_InrE) (force simp: on_store_Inr_iff split: if_splits)
  then consider (same) "m' = m" "until' = until"
    | (renewed) s b where "RenewLease (m_db m) (t_id t) tok until' (m_store m) = Inr (s, b)" "m' = m\<lparr>m_store := s\<rparr>"
    by auto
  then have "lease_inv (m_store m') \<and> board (m_store m') = (board (m_store m))(t_id t \<mapsto> (tok, until')) \<and> m_env m' = m_env m"
  proof cases
    case same
    with assms(2,3) show ?thesis by (auto simp: fun_eq_iff)
  next
    case (renewed s b)
    with RenewLease_law [OF assms(2) renewed(1)] held show ?thesis by simp
  qed
  then show "lease_inv (m_store m')" "board (m_store m') = (board (m_store m))(t_id t \<mapsto> (tok, until'))" "m_env m' = m_env m"
    by simp_all
qed

lemma m_store_same [simp]: "m\<lparr>m_store := m_store m\<rparr> = m"
  by (cases m) simp

lemma claimNextOnce_None: "claimNextOnce inp m = Inr (m', None) \<Longrightarrow> m' = m"
  unfolding claimNextOnce_def Let_def
  by (elim rbind_InrE) (auto simp: on_store_Inr_iff dest!: ClaimNextTask_None split: option.splits)

lemma claimNextOnce_Some:
  assumes "claimNextOnce inp m = Inr (m', Some c)"
  shows "\<exists>row m1 k t g m2. ClaimNextTask row (m_store m) = Inr (m_store m1, Some k) \<and> m_env m1 = m_env m \<and>
    cn_token row = e_token (m_env m) \<and> cn_now row = m_now m \<and> cn_terminal row = claimTerminal (m_store m) \<and>
    claimScope (m_store m) (m_actor m) (ni_projects inp) = Inr (cn_projects row) \<and>
    (\<exists>ttl. Resolve (tx_policy m) (ni_ttl inp) 0 = Inr ttl \<and> cn_until row = Until (m_now m) ttl) \<and>
    GetTask (m_store m1) (id_ref k) = Inr t \<and>
    applyTaskLease t (ni_ttl inp) (cn_token row) (cn_until row) m1 = Inr (m2, g, cl_expires c) \<and>
    recordClaim m2 t (cn_token row) (cl_expires c) g = Inr (m', c)"
proof -
  obtain projects statuses holder ttl m1 k t m2 g u where
    scope: "claimScope (m_store m) (m_actor m) (ni_projects inp) = Inr projects"
    and ttl: "Resolve (tx_policy m) (ni_ttl inp) 0 = Inr ttl"
    and claim: "on_store (ClaimNextTask \<lparr>cn_projects = projects, cn_tags = ni_tags inp, cn_statuses = statuses,
        cn_terminal = claimTerminal (m_store m), cn_actor = holder, cn_now = m_now m, cn_until = Until (m_now m) ttl,
        cn_token = e_token (m_env m)\<rparr>) m = Inr (m1, Some k)"
    and t: "GetTask (m_store m1) (id_ref k) = Inr t"
    and lease: "applyTaskLease t (ni_ttl inp) (e_token (m_env m)) (Until (m_now m) ttl) m1 = Inr (m2, g, u)"
    and rc: "recordClaim m2 t (e_token (m_env m)) u g = Inr (m', c)"
    using assms unfolding claimNextOnce_def Let_def
    by (elim rbind_InrE) (auto split: option.splits)
  let ?row = "\<lparr>cn_projects = projects, cn_tags = ni_tags inp, cn_statuses = statuses,
        cn_terminal = claimTerminal (m_store m), cn_actor = holder, cn_now = m_now m, cn_until = Until (m_now m) ttl,
        cn_token = e_token (m_env m)\<rparr>"
  have "ClaimNextTask ?row (m_store m) = Inr (m_store m1, Some k)" "m_env m1 = m_env m"
    using claim by (auto simp: on_store_Inr_iff)
  moreover have "cl_expires c = u" using recordClaim_Inr(4) [OF rc] .
  ultimately show ?thesis using scope ttl t lease rc
    by (intro exI [of _ ?row] exI [of _ m1] exI [of _ k] exI [of _ t] exI [of _ g] exI [of _ m2]) simp
qed

lemma claimNextOnce_board:
  assumes "claimNextOnce inp m = Inr (m', Some c)" and inv: "lease_inv (m_store m)"
    and "fresh_token (m_store m) (e_token (m_env m))" and "prompt m inp"
  shows "lease_inv (m_store m') \<and> cl_token c = e_token (m_env m) \<and>
    board (m_store m') = (board (m_store m))(t_id (cl_task c) \<mapsto> (cl_token c, cl_expires c)) \<and>
    vacant (board (m_store m)) (m_now m) (t_id (cl_task c))"
proof -
  obtain row m1 k t g m2 ttl where claim: "ClaimNextTask row (m_store m) = Inr (m_store m1, Some k)"
    and env: "m_env m1 = m_env m" and tok: "cn_token row = e_token (m_env m)" and now: "cn_now row = m_now m"
    and ttl: "Resolve (tx_policy m) (ni_ttl inp) 0 = Inr ttl" "cn_until row = Until (m_now m) ttl"
    and t: "GetTask (m_store m1) (id_ref k) = Inr t"
    and lease: "applyTaskLease t (ni_ttl inp) (cn_token row) (cn_until row) m1 = Inr (m2, g, cl_expires c)"
    and rc: "recordClaim m2 t (cn_token row) (cl_expires c) g = Inr (m', c)"
    using claimNextOnce_Some [OF assms(1)] by blast
  note law = ClaimNextTask_law [OF claim inv, unfolded tok, OF assms(3)]
  have tk: "t_id t = k" using t by (rule GetTask_id)
  have "m_db m1 < cn_until row" using assms(4) ttl env by (simp add: prompt_def)
  from applyTaskLease_board [OF lease law(1) _ this] law(2) tk tok
  have m2: "lease_inv (m_store m2)"
    "board (m_store m2) = (board (m_store m))(k \<mapsto> (e_token (m_env m), cl_expires c))" by simp_all
  with recordClaim_Inr [OF rc] law(3) tk tok now show ?thesis by simp
qed

section \<open>Renewing and releasing\<close>

lemma renew_tx_board:
  assumes "renew_tx ctx ref tok ttl m = Inr (m', c)" and inv: "lease_inv (m_store m)"
  shows "lease_inv (m_store m') \<and> cl_token c = tok \<and> held (board (m_store m)) (m_db m) (t_id (cl_task c)) tok \<and>
    board (m_store m') = (board (m_store m))(t_id (cl_task c) \<mapsto> (tok, cl_expires c))"
proof -
  obtain t s1 u r where t: "claimTarget ctx (m_store m) ref = Inr t"
    and renew: "RenewLease (m_db m) (t_id t) tok u (m_store m) = Inr (s1, True)"
    and r: "GetTask s1 (id_ref (t_id t)) = Inr r" and m': "m_store m' = s1"
    and c: "cl_task c = r" "cl_token c = tok" "cl_expires c = u"
    using assms(1) unfolding renew_tx_def Let_def
    by (elim rbind_InrE) (auto simp: on_store_Inr_iff split: if_splits)
  have "t_id (cl_task c) = t_id t" using GetTask_id [OF r] c by simp
  with RenewLease_law [OF inv renew] m' c show ?thesis by simp
qed

lemma release_tx_board:
  assumes "release_tx ctx ref tok inp m = Inr (m', u)" and inv: "lease_inv (m_store m)"
  shows "\<exists>t. GetTask (m_store m) ref = Inr t \<and> lease_inv (m_store m') \<and>
    held (board (m_store m)) (m_db m) (t_id t) tok \<and> board (m_store m') = (board (m_store m))(t_id t := None)"
proof -
  obtain t w s1 m2 where t: "claimTarget ctx (m_store m) ref = Inr t"
    and rel: "ReleaseLease (m_db m) (t_id t) tok (m_store m) = Inr (s1, True)"
    and app: "applyRelease t w inp (m\<lparr>m_store := s1\<rparr>) = Inr m2" and m': "m_store m' = m_store m2"
    using assms(1) unfolding release_tx_def Let_def
    by (elim rbind_InrE) (auto simp: on_store_Inr_iff split: if_splits)
  note law = ReleaseLease_law [OF inv rel]
  have "lease_frame s1 (m_store m2)" using quiet.applyRelease_rel [OF app] by (simp add: tx_rel_def)
  then have "lease_inv (m_store m2) \<and> board (m_store m2) = board s1" using law(1) by (simp add: lease_frame_def)
  with law m' claimTarget_task [OF t] show ?thesis by (intro exI [of _ t]) simp
qed

section \<open>Sweeping, reclaiming and deleting\<close>

text \<open>Leases only ever go away, and only those that ran out by the instant \<open>now\<close>.\<close>

definition swept :: "time \<Rightarrow> store \<Rightarrow> store \<Rightarrow> bool" where
  "swept now s s' \<longleftrightarrow> (lease_inv s \<longrightarrow> lease_inv s' \<and>
     (\<forall>k. board s' k = board s k \<or> (board s' k = None \<and> vacant (board s) now k)))"

lemma swept_frame: "lease_frame s s' \<Longrightarrow> swept now s s'"
  by (simp add: swept_def lease_frame_def)

lemma swept_trans: "swept now s s' \<Longrightarrow> swept now s' s'' \<Longrightarrow> swept now s s''"
  unfolding swept_def vacant_def by metis

lemma ClearClaim_swept: "ClearClaim db k h now s = Inr (s', b) \<Longrightarrow> swept now s s'"
  unfolding swept_def
proof (intro impI conjI allI)
  assume op: "ClearClaim db k h now s = Inr (s', b)" and inv: "lease_inv s"
  note law = ClearClaim_law [OF inv op]
  show "lease_inv s'" by (rule law(1))
  fix j
  show "board s' j = board s j \<or> (board s' j = None \<and> vacant (board s) now j)" using law(2,3) by auto
qed

lemma sweepOne_swept:
  assumes "sweepOne t m = Inr (m', b)"
  shows "m_env m' = m_env m \<and> m_actor m' = m_actor m \<and> swept (m_now m) (m_store m) (m_store m')"
proof -
  obtain s1 cleared where op: "ClearClaim (m_db m) (t_id t) (Text (t_claimed_by t)) (m_now m) (m_store m) = Inr (s1, cleared)"
    and rest: "tx_frame (m\<lparr>m_store := s1\<rparr>) m'"
    using assms unfolding sweepOne_def Let_def
    by (elim rbind_InrE) (auto simp: on_store_Inr_iff split: if_splits option.splits dest!: quiet.tx_update_rel)
  then show ?thesis
    using swept_trans [OF ClearClaim_swept [OF op] swept_frame] by (simp add: tx_rel_def)
qed

lemma sweep_all_swept:
  "sweep_all ts n m = Inr (m', k) \<Longrightarrow> m_env m' = m_env m \<and> swept (m_now m) (m_store m) (m_store m')"
proof (induction ts arbitrary: n m)
  case Nil
  then show ?case by (simp add: swept_frame)
next
  case (Cons t ts)
  then obtain m1 b n1 where one: "sweepOne t m = Inr (m1, b)" and rest: "sweep_all ts n1 m1 = Inr (m', k)" by auto
  from sweepOne_swept [OF one] Cons.IH [OF rest] show ?case by (auto intro: swept_trans)
qed

lemma reclaim_tx_board:
  assumes "reclaim_tx ctx ref reason m = Inr (m', t')" and inv: "lease_inv (m_store m)"
  shows "lease_inv (m_store m') \<and> board (m_store m') = (board (m_store m))(t_id t' := None)"
proof -
  obtain t :: task and h s1 where op: "ForceReclaim (t_id t) h (m_now m) (m_store m) = Inr (s1, True)"
    and r: "GetTask s1 (id_ref (t_id t)) = Inr t'" and m': "m_store m' = s1"
    using assms(1) unfolding reclaim_tx_def Let_def
    by (elim rbind_InrE) (auto simp: on_store_Inr_iff split: if_splits)
  show ?thesis using ForceReclaim_law [OF inv op] GetTask_id [OF r] m' by simp
qed

text \<open>A deletion keeps the leases of the rows that are left.\<close>

definition removed :: "store \<Rightarrow> store \<Rightarrow> bool" where
  "removed s s' \<longleftrightarrow> (lease_inv s \<longrightarrow> lease_inv s' \<and> board s' = board s |` {k. task_exists s' k} \<and>
     (\<forall>k. task_exists s' k \<longrightarrow> task_exists s k))"

lemma board_absent: "\<not> task_exists s k \<Longrightarrow> board s k = None"
  using task_row_of_None_iff [of s k] by (simp add: board_def task_exists_def)

lemma task_exists_map: "task_exists s k \<longleftrightarrow> k \<in> set (map t_id (tasks s))"
  by (simp add: task_exists_def)

lemma cascade_delete_exists: "task_exists (cascade_delete k s) j \<longleftrightarrow> task_exists s j \<and> j \<noteq> k"
proof -
  have "map t_id (tasks (cascade_delete k s)) = map t_id (filter (\<lambda>r. t_id r \<noteq> k) (tasks s))"
    by (simp add: cascade_delete_def map_update_where)
  then show ?thesis by (auto simp: task_exists_map)
qed

lemma soft_delete_exists: "DeleteTask db k False s = Inr s' \<Longrightarrow> task_exists s' j = task_exists s j"
  by (auto simp: DeleteTask_def Let_def task_exists_map map_update_where simp del: set_map split: if_splits)

lemma removed_refl: "removed s s"
  by (auto simp: removed_def fun_eq_iff restrict_map_def board_absent)

lemma removed_trans: "removed s s' \<Longrightarrow> removed s' s'' \<Longrightarrow> removed s s''"
  by (auto simp: removed_def fun_eq_iff restrict_map_def)

lemma DeleteTask_removed:
  assumes "DeleteTask db k hard s = Inr s'"
  shows "removed s s'"
proof (cases hard)
  case True
  then have "s' = cascade_delete k s" using assms by (simp add: DeleteTask_def split: if_splits)
  then show ?thesis
    using cascade_delete_board [of s k] cascade_delete_exists [of k s] board_absent [of s]
    by (auto simp: removed_def fun_eq_iff restrict_map_def)
next
  case False
  with assms have frame: "lease_frame s s'" and ex: "\<And>j. task_exists s' j = task_exists s j"
    using DeleteTask_soft_frame soft_delete_exists by simp_all
  then show ?thesis
    by (auto simp: removed_def lease_frame_def fun_eq_iff restrict_map_def board_absent)
qed

lemma delete_all_removed:
  "delete_all ctx hard cascade ts m = Inr m' \<Longrightarrow> m_env m' = m_env m \<and> removed (m_store m) (m_store m')"
proof (induction ts arbitrary: m)
  case Nil
  then show ?case by (simp add: removed_refl)
next
  case (Cons t ts)
  then obtain s1 pl where del: "DeleteTask (m_db m) (t_id t) hard (m_store m) = Inr s1"
    and rest: "delete_all ctx hard cascade ts (Record ''task.delete'' EventTaskDeleted (t_id t) (t_project t)
      (Some (TaskSnap t)) None pl (m\<lparr>m_store := s1\<rparr>)) = Inr m'"
    by (auto simp: Let_def tx_store_def)
  from Cons.IH [OF rest] DeleteTask_removed [OF del] show ?case by (auto intro: removed_trans)
qed

lemma delete_tx_removed: "delete_tx ctx ref inp m = Inr (m', u) \<Longrightarrow> removed (m_store m) (m_store m')"
  unfolding delete_tx_def Let_def by (elim rbind_InrE) (auto split: if_splits dest: delete_all_removed)

end
