(* ===== verification/Service.thy ===== *)
theory Service
  imports Tx_Frame
begin

text \<open>
  The service's calls as requests and answers, each served against the tables in one transaction,
  and what follows for all of them at once: a call that is refused leaves the tables as they were,
  and any relation between tables that the store's writes are in holds between the tables before
  and after every call (locales \<open>quiet_services\<close>, \<open>all_writes\<close>, \<open>all_services\<close>).
\<close>

section \<open>Requests\<close>

datatype request =
    DoClaim task_ref claim_input
  | DoClaimNext claim_next_input
  | DoRenew task_ref string duration
  | DoRelease task_ref string release_input
  | DoSweep int
  | DoReclaim task_ref string
  | DoTransition task_ref transition_input
  | DoCreate create_input
  | DoUpdate task_ref update_input
  | DoDelete task_ref delete_input
  | DoRestore task_ref
  | DoAddDependency task_ref task_ref
  | DoRemoveDependency task_ref task_ref
  | DoAddTag task_ref string
  | DoRemoveTag task_ref string
  | DoSnooze task_ref time
  | DoUnsnooze task_ref
  | DoWake int
  | DoComment task_ref string
  | DoEditComment string string
  | DoDeleteComment string
  | DoStar task_ref bool
  | DoArtifact task_ref artifact_input
  | DoCopy task_ref copy_input

text \<open>An answer, as far as it concerns leases: a claim, a task, a failure or plain success.\<close>

datatype answer = Granted claim | Shown task | Acknowledged | Refused goerr

definition answer_of :: "('a \<Rightarrow> answer) \<Rightarrow> store \<times> 'a res \<Rightarrow> store \<times> answer" where
  "answer_of f r = (fst r, case snd r of Inl e \<Rightarrow> Refused e | Inr x \<Rightarrow> f x)"

text \<open>
  One attempt of a claim of the next task is a transaction of its own; the handler makes up to
  three, each served here as one request.
\<close>

definition next_attempt :: "env \<Rightarrow> call_ctx \<Rightarrow> claim_next_input \<Rightarrow> store \<Rightarrow> store \<times> answer" where
  "next_attempt e ctx inp s =
    (case authorize ctx ActionTaskClaim no_resource of
       Inl err \<Rightarrow> (s, Refused err)
     | Inr a \<Rightarrow> answer_of (\<lambda>c. case c of None \<Rightarrow> Refused (fail KindNoTaskAvailable) | Some c \<Rightarrow> Granted c)
         (write_tx e ctx a (claimNextOnce inp) s))"

fun serve :: "env \<Rightarrow> call_ctx \<Rightarrow> request \<Rightarrow> store \<Rightarrow> store \<times> answer" where
  "serve e ctx (DoClaim ref inp) s = answer_of Granted (service_ClaimTask e ctx ref inp s)"
| "serve e ctx (DoClaimNext inp) s = next_attempt e ctx inp s"
| "serve e ctx (DoRenew ref tok ttl) s = answer_of Granted (service_RenewLease e ctx ref tok ttl s)"
| "serve e ctx (DoRelease ref tok inp) s = answer_of (\<lambda>_. Acknowledged) (service_ReleaseLease e ctx ref tok inp s)"
| "serve e ctx (DoSweep limit) s = answer_of (\<lambda>_. Acknowledged) (service_SweepLeases e ctx limit s)"
| "serve e ctx (DoReclaim ref reason) s = answer_of Shown (service_ForceReclaim e ctx ref reason s)"
| "serve e ctx (DoTransition ref inp) s = answer_of Shown (service_TransitionTask e ctx ref inp s)"
| "serve e ctx (DoCreate inp) s = answer_of Shown (service_CreateTask e ctx inp s)"
| "serve e ctx (DoUpdate ref inp) s = answer_of Shown (service_UpdateTask e ctx ref inp s)"
| "serve e ctx (DoDelete ref inp) s = answer_of (\<lambda>_. Acknowledged) (service_DeleteTask e ctx ref inp s)"
| "serve e ctx (DoRestore ref) s = answer_of Shown (service_RestoreTask e ctx ref s)"
| "serve e ctx (DoAddDependency ref on) s = answer_of (\<lambda>_. Acknowledged) (service_AddDependency e ctx ref on s)"
| "serve e ctx (DoRemoveDependency ref on) s = answer_of (\<lambda>_. Acknowledged) (service_RemoveDependency e ctx ref on s)"
| "serve e ctx (DoAddTag ref n) s = answer_of (\<lambda>_. Acknowledged) (service_AddTag e ctx ref n s)"
| "serve e ctx (DoRemoveTag ref n) s = answer_of (\<lambda>_. Acknowledged) (service_RemoveTag e ctx ref n s)"
| "serve e ctx (DoSnooze ref u) s = answer_of Shown (service_SnoozeTask e ctx ref u s)"
| "serve e ctx (DoUnsnooze ref) s = answer_of Shown (service_UnsnoozeTask e ctx ref s)"
| "serve e ctx (DoWake limit) s = answer_of (\<lambda>_. Acknowledged) (service_WakeSnoozed e ctx limit s)"
| "serve e ctx (DoComment ref body) s = answer_of (\<lambda>_. Acknowledged) (service_AddComment e ctx ref body s)"
| "serve e ctx (DoEditComment k body) s = answer_of (\<lambda>_. Acknowledged) (service_EditComment e ctx k body s)"
| "serve e ctx (DoDeleteComment k) s = answer_of (\<lambda>_. Acknowledged) (service_DeleteComment e ctx k s)"
| "serve e ctx (DoStar ref on) s = answer_of (\<lambda>_. Acknowledged) (service_setStar e ctx ref on s)"
| "serve e ctx (DoArtifact ref inp) s = answer_of (\<lambda>_. Acknowledged) (service_PutArtifact e ctx ref inp s)"
| "serve e ctx (DoCopy ref inp) s = answer_of Shown (service_CopyTask e ctx ref inp s)"

text \<open>\<open>calls s s'\<close>: some calls, by anyone, in any order and environment, take the tables from \<open>s\<close> to \<open>s'\<close>.\<close>

inductive calls :: "store \<Rightarrow> store \<Rightarrow> bool" where
  no_call: "calls s s"
| one_more: "calls s s1 \<Longrightarrow> serve e ctx r s1 = (s2, a) \<Longrightarrow> calls s s2"

section \<open>A call that fails writes nothing\<close>

lemma write_tx_Inl: "write_tx e ctx a f s = (s', Inl err) \<Longrightarrow> s' = s"
  by (auto simp: write_tx_def split: sum.splits prod.splits)

lemma write_tx_Inr:
  "write_tx e ctx a f s = (s', Inr x) \<Longrightarrow> \<exists>m. f (begin_tx e ctx a s) = Inr (m, x) \<and> s' = flush m"
  by (auto simp: write_tx_def split: sum.splits prod.splits)

text \<open>\<open>via_tx g\<close>: a handler that is refused before it opens a transaction, or runs one.\<close>

lemma handler_cases:
  assumes "(case g of Inl err \<Rightarrow> (s, Inl err) | Inr a \<Rightarrow> write_tx e ctx (h a) (f a) s) = (s', r)"
  shows "(\<exists>err. r = Inl err \<and> s' = s) \<or>
    (\<exists>a m x. g = Inr a \<and> f a (begin_tx e ctx (h a) s) = Inr (m, x) \<and> s' = flush m \<and> r = Inr x)"
proof (cases g)
  case (Inl err)
  with assms show ?thesis by auto
next
  case (Inr a)
  with assms have w: "write_tx e ctx (h a) (f a) s = (s', r)" by simp
  show ?thesis
  proof (cases r)
    case (Inl err)
    with w write_tx_Inl show ?thesis by fastforce
  next
    case (Inr x)
    with write_tx_Inr [of e ctx "h a" "f a" s s'] w \<open>g = Inr a\<close> show ?thesis by auto
  qed
qed

lemma begin_tx_simps [simp]:
  "m_store (begin_tx e ctx a s) = s" "m_env (begin_tx e ctx a s) = e" "m_actor (begin_tx e ctx a s) = a"
  "m_source (begin_tx e ctx a s) = SourceFrom ctx" "m_events (begin_tx e ctx a s) = []"
  "m_audits (begin_tx e ctx a s) = []" "m_notes (begin_tx e ctx a s) = []"
  by (simp_all add: begin_tx_def)

lemma answer_ofD:
  "answer_of f p = (s', a) \<Longrightarrow> \<exists>x. p = (s', x) \<and> a = (case x of Inl e \<Rightarrow> Refused e | Inr y \<Rightarrow> f y)"
  by (cases p) (simp add: answer_of_def)

section \<open>Relations every call is in\<close>

locale quiet_services = quiet_writes +
  assumes flush_ok: "R (m_store m) (flush m)"
begin

lemma write_rel:
  assumes "write_tx e ctx a f s = (s', r)"
    and "\<And>m x. f (begin_tx e ctx a s) = Inr (m, x) \<Longrightarrow> tx_rel R (begin_tx e ctx a s) m"
  shows "R s s'"
proof (cases r)
  case (Inl err)
  with assms(1) have "s' = s" by (auto intro: write_tx_Inl)
  then show ?thesis by (simp add: refl)
next
  case (Inr x)
  with write_tx_Inr assms(1) obtain m where "f (begin_tx e ctx a s) = Inr (m, x)" "s' = flush m" by metis
  with assms(2) flush_ok trans show ?thesis by (fastforce simp: tx_rel_def)
qed

lemma handler_rel:
  assumes "(case g of Inl err \<Rightarrow> (s, Inl err) | Inr a \<Rightarrow> write_tx e ctx (h a) (f a) s) = (s', r)"
    and "\<And>a m x. f a (begin_tx e ctx (h a) s) = Inr (m, x) \<Longrightarrow> tx_rel R (begin_tx e ctx (h a) s) m"
  shows "R s s'"
  using assms by (cases g) (auto simp: refl intro: write_rel)

lemma quiet_handlers:
  "service_UpdateTask e ctx ref uin s = (s', rt) \<Longrightarrow> R s s'"
  "service_RestoreTask e ctx ref s = (s', rt) \<Longrightarrow> R s s'"
  "service_AddDependency e ctx ref on s = (s', ru) \<Longrightarrow> R s s'"
  "service_RemoveDependency e ctx ref on s = (s', ru) \<Longrightarrow> R s s'"
  "service_UnsnoozeTask e ctx ref s = (s', rt) \<Longrightarrow> R s s'"
  "service_WakeSnoozed e ctx limit s = (s', rn) \<Longrightarrow> R s s'"
  "service_DeleteComment e ctx k s = (s', ru) \<Longrightarrow> R s s'"
  "service_setStar e ctx ref starred s = (s', ru) \<Longrightarrow> R s s'"
  unfolding service_UpdateTask_def service_RestoreTask_def service_AddDependency_def
    service_RemoveDependency_def service_UnsnoozeTask_def service_WakeSnoozed_def
    service_DeleteComment_def service_setStar_def
  by (erule handler_rel, erule update_tx_rel restore_tx_rel add_dependency_tx_rel
      remove_dependency_tx_rel unsnooze_tx_rel wake_all_rel delete_comment_tx_rel star_tx_rel)+

lemma comment_services:
  "service_AddComment e ctx ref body s = (s', rm) \<Longrightarrow> R s s'"
  "service_EditComment e ctx k body s = (s', rm) \<Longrightarrow> R s s'"
  unfolding service_AddComment_def service_EditComment_def
  by (cases "commentBody body"; auto simp: refl elim!: handler_rel intro: add_comment_tx_rel edit_comment_tx_rel)+

lemma add_tag_service: "service_AddTag e ctx ref n s = (s', r) \<Longrightarrow> R s s'"
  unfolding service_AddTag_def Let_def
  by (auto simp: refl split: if_splits elim!: handler_rel intro: add_tag_tx_rel)

lemma remove_tag_service: "service_RemoveTag e ctx ref n s = (s', r) \<Longrightarrow> R s s'"
  unfolding service_RemoveTag_def Let_def
  by (auto simp: refl split: if_splits elim!: handler_rel intro: remove_tag_tx_rel)

lemma snooze_service: "service_SnoozeTask e ctx ref u s = (s', r) \<Longrightarrow> R s s'"
  unfolding service_SnoozeTask_def
  by (auto simp: refl split: sum.splits if_splits elim!: write_rel intro: snooze_tx_rel)

lemma create_service: "service_CreateTask e ctx inp s = (s', r) \<Longrightarrow> R s s'"
  unfolding service_CreateTask_def Let_def
  by (auto simp: refl split: sum.splits elim!: write_rel intro: create_tx_rel)

lemma copy_service: "service_CopyTask e ctx ref inp s = (s', r) \<Longrightarrow> R s s'"
  unfolding service_CopyTask_def Let_def
  by (auto simp: refl split: if_splits elim!: handler_rel intro: copy_tx_rel)

lemmas quiet_rel = copy_service quiet_handlers comment_services add_tag_service remove_tag_service snooze_service create_service

end

locale all_writes = quiet_writes +
  assumes ClaimTask_ok: "ClaimTask c s = Inr (s', b) \<Longrightarrow> R s s'"
    and ClaimNextTask_ok: "ClaimNextTask cn s = Inr (s', found) \<Longrightarrow> R s s'"
    and RenewLease_ok: "RenewLease db k tok u s = Inr (s', b) \<Longrightarrow> R s s'"
    and ReleaseLease_ok: "ReleaseLease db k tok s = Inr (s', b) \<Longrightarrow> R s s'"
    and ClearClaim_ok: "ClearClaim db k holder now s = Inr (s', b) \<Longrightarrow> R s s'"
    and ForceReclaim_ok: "ForceReclaim k holder now s = Inr (s', b) \<Longrightarrow> R s s'"
    and DeleteTask_ok: "DeleteTask db k hard s = Inr s' \<Longrightarrow> R s s'"
begin

lemma recordClaim_rel: "recordClaim m t tok u g = Inr (m', c) \<Longrightarrow> tx_rel R m m'"
  unfolding recordClaim_def Let_def by (elim rbind_InrE) (auto split: if_splits)

text \<open>The lease writes inside a mutation, then every handler as a chain of writes.\<close>

lemma lease_writes:
  "on_store (ClaimTask c) m = Inr (m', b) \<Longrightarrow> tx_rel R m m'"
  "on_store (ClaimNextTask cn) m = Inr (m', found) \<Longrightarrow> tx_rel R m m'"
  "on_store (RenewLease db k tok u) m = Inr (m', b) \<Longrightarrow> tx_rel R m m'"
  "on_store (ReleaseLease db k tok) m = Inr (m', b) \<Longrightarrow> tx_rel R m m'"
  "on_store (ClearClaim db k holder now) m = Inr (m', b) \<Longrightarrow> tx_rel R m m'"
  "on_store (ForceReclaim k holder now) m = Inr (m', b) \<Longrightarrow> tx_rel R m m'"
  by (erule on_store_rel, erule ClaimTask_ok ClaimNextTask_ok RenewLease_ok ReleaseLease_ok ClearClaim_ok
      ForceReclaim_ok)+

lemma claim_task_tx_rel: "claim_task_tx ctx ref inp m = Inr (m', c) \<Longrightarrow> tx_rel R m m'"
  unfolding claim_task_tx_def Let_def
  by (elim rbind_InrE) (auto split: if_splits dest!: lease_writes recordClaim_rel intro: tx_rel_trans)

lemma applyTaskLease_rel: "applyTaskLease t ttl tok u m = Inr (m', g, u') \<Longrightarrow> tx_rel R m m'"
  unfolding applyTaskLease_def Let_def
  by (elim rbind_InrE) (auto split: if_splits dest!: lease_writes)

lemma claimNextOnce_rel: "claimNextOnce inp m = Inr (m', c) \<Longrightarrow> tx_rel R m m'"
  unfolding claimNextOnce_def Let_def
  by (elim rbind_InrE)
    (auto split: option.splits dest!: lease_writes applyTaskLease_rel recordClaim_rel, blast intro: tx_rel_trans)

lemma renew_tx_rel: "renew_tx ctx ref tok ttl m = Inr (m', c) \<Longrightarrow> tx_rel R m m'"
  unfolding renew_tx_def Let_def
  by (elim rbind_InrE) (auto split: if_splits dest!: lease_writes)

lemma release_tx_rel: "release_tx ctx ref tok inp m = Inr (m', u) \<Longrightarrow> tx_rel R m m'"
  unfolding release_tx_def Let_def
  by (elim rbind_InrE) (auto split: if_splits dest!: lease_writes applyRelease_rel, (blast intro: tx_rel_trans)+)

lemma sweepOne_rel: "sweepOne t m = Inr (m', b) \<Longrightarrow> tx_rel R m m'"
  unfolding sweepOne_def Let_def
  by (elim rbind_InrE)
    (auto split: if_splits option.splits dest!: lease_writes tx_update_rel, blast intro: tx_rel_trans)

lemma sweep_all_rel: "sweep_all ts n m = Inr (m', k) \<Longrightarrow> tx_rel R m m'"
  by (induction ts arbitrary: n m) (auto dest!: sweepOne_rel intro: tx_rel_trans)

lemma reclaim_tx_rel: "reclaim_tx ctx ref reason m = Inr (m', t) \<Longrightarrow> tx_rel R m m'"
  unfolding reclaim_tx_def Let_def
  by (elim rbind_InrE) (auto split: if_splits dest!: lease_writes)

lemma requireLeaseToken_rel: "requireLeaseToken t tok m = Inr m' \<Longrightarrow> tx_rel R m m'"
  by (drule requireLease_as_renewal) (auto dest!: lease_writes)

lemma transition_tx_rel:
  assumes "transition_tx ctx ref inp m = Inr (m', t')"
  shows "tx_rel R m m'"
proof -
  obtain t d m1 moved m2 t2 nxt m3 t3 m4 where
    steps: "requireLeaseToken t (ti_token inp) m = Inr m1"
      "spawnOccurrence d moved (ti_to inp) m1 = Inr (m2, t2, nxt)" "tx_update t2 m2 = Inr (m3, t3)"
      "(if TrimSpace (ti_comment inp) \<noteq> []
        then rbind (tx_comment (t_id t3) (TrimSpace (ti_comment inp)) m3) (\<lambda>(m, c). Inr (notifyComment t3 (cm_id c) (cm_body c) m))
        else Inr m3) = Inr m4"
    and m': "tx_rel R m4 m'"
    using assms unfolding transition_tx_def Let_def by (elim rbind_InrE) (auto simp: Let_def split: prod.splits)
  have "tx_rel R m m1" using steps(1) by (rule requireLeaseToken_rel)
  also have "tx_rel R m1 m2" using steps(2) by (rule spawnOccurrence_rel)
  also have "tx_rel R m2 m3" using steps(3) by (rule tx_update_rel)
  also have "tx_rel R m3 m4" using steps(4) by (rule with_comment_rel)
  also note m'
  finally show ?thesis .
qed

lemma put_artifact_tx_rel: "put_artifact_tx ctx ref inp m = Inr (m', a) \<Longrightarrow> tx_rel R m m'"
  unfolding put_artifact_tx_def
  by (elim rbind_InrE) (auto dest!: requireLeaseToken_rel tx_artifact_rel intro: tx_rel_trans)

lemma delete_write: "tx_store (DeleteTask db k hard) m = Inr m' \<Longrightarrow> tx_rel R m m'"
  by (erule tx_store_rel) (erule DeleteTask_ok)

lemma delete_all_rel: "delete_all ctx hard cascade ts m = Inr m' \<Longrightarrow> tx_rel R m m'"
proof (induction ts arbitrary: m)
  case (Cons t ts)
  then obtain m1 pl where "tx_store (DeleteTask (m_db m) (t_id t) hard) m = Inr m1"
    and "delete_all ctx hard cascade ts (Record ''task.delete'' EventTaskDeleted (t_id t) (t_project t)
      (Some (TaskSnap t)) None pl m1) = Inr m'"
    by (auto simp: Let_def)
  then show ?case using Cons.IH delete_write by (fastforce intro: tx_rel_trans simp: tx_rel_def dest: trans)
qed simp

lemma delete_tx_rel: "delete_tx ctx ref inp m = Inr (m', u) \<Longrightarrow> tx_rel R m m'"
  unfolding delete_tx_def Let_def by (elim rbind_InrE) (auto split: if_splits dest: delete_all_rel)

end

locale all_services = quiet_services + all_writes
begin

lemma lease_services:
  "service_ClaimTask e ctx ref ci s = (s', rc) \<Longrightarrow> R s s'"
  "service_RenewLease e ctx ref tok ttl s = (s', rc) \<Longrightarrow> R s s'"
  "service_ReleaseLease e ctx ref tok ri s = (s', ru) \<Longrightarrow> R s s'"
  "service_SweepLeases e ctx limit s = (s', rn) \<Longrightarrow> R s s'"
  "service_ForceReclaim e ctx ref reason s = (s', rt) \<Longrightarrow> R s s'"
  "service_DeleteTask e ctx ref di s = (s', ru) \<Longrightarrow> R s s'"
  "service_TransitionTask e ctx ref ti s = (s', rt) \<Longrightarrow> R s s'"
  "service_PutArtifact e ctx ref ai s = (s', ra) \<Longrightarrow> R s s'"
  unfolding service_ClaimTask_def service_RenewLease_def service_ReleaseLease_def service_SweepLeases_def
    service_ForceReclaim_def service_DeleteTask_def service_TransitionTask_def service_PutArtifact_def
  by (erule handler_rel, erule claim_task_tx_rel renew_tx_rel release_tx_rel sweep_all_rel
      reclaim_tx_rel delete_tx_rel transition_tx_rel put_artifact_tx_rel)+

lemma next_attempt_rel: "next_attempt e ctx inp s = (s', a) \<Longrightarrow> R s s'"
  unfolding next_attempt_def
  by (auto simp: refl split: sum.splits dest!: answer_ofD elim!: write_rel intro: claimNextOnce_rel)

lemma serve_rel: "serve e ctx r s = (s', a) \<Longrightarrow> R s s'"
  by (cases r) (auto dest!: answer_ofD dest: quiet_rel lease_services next_attempt_rel)

lemma calls_rel: "calls s s' \<Longrightarrow> R s s'"
  by (induction rule: calls.induct) (auto intro: refl trans serve_rel)

end

end
