(* ===== verification/Write_Shapes.thy ===== *)
theory Write_Shapes
  imports Service
begin

text \<open>
  Which tables each write of the store touches, as the shape of its outcome. What a write leaves
  alone is then read off its shape, for every table at once.
\<close>

section \<open>Rows of tasks\<close>

lemma UpdateTask_shape: "UpdateTask db t s = Inr (s', t') \<Longrightarrow>
    s' = s\<lparr>tasks := update_where (\<lambda>r. t_id r = t_id t) (write_columns db t) (tasks s)\<rparr>"
  by (auto simp: UpdateTask_def Let_def split: if_splits)

lemma RestoreTask_shape: "RestoreTask db k s = Inr s' \<Longrightarrow>
    s' = s\<lparr>tasks := update_where (\<lambda>r. t_id r = k \<and> t_deleted r \<noteq> None)
      (\<lambda>r. r\<lparr>t_deleted := None, t_updated := db\<rparr>) (tasks s)\<rparr>"
  by (auto simp: RestoreTask_def Let_def split: if_splits)

lemma SetSnooze_shape: "SetSnooze db k u a s = Inr s' \<Longrightarrow>
    s' = s\<lparr>tasks := update_where (\<lambda>r. t_id r = k \<and> t_deleted r = None)
      (\<lambda>r. r\<lparr>t_snoozed_until := null_time u, t_snoozed_by := (if u = None then [] else a), t_updated := db\<rparr>) (tasks s)\<rparr>"
  by (auto simp: SetSnooze_def Let_def split: if_splits)

lemma WakeSnooze_shape: "WakeSnooze k u s = (s', b) \<Longrightarrow>
    s' = s\<lparr>tasks := update_where (\<lambda>r. t_id r = k \<and> t_snoozed_until r = Some u)
      (\<lambda>r. r\<lparr>t_snoozed_until := None, t_snoozed_by := []\<rparr>) (tasks s)\<rparr>"
  by (auto simp: WakeSnooze_def Let_def)

lemma ClaimTask_shape: "ClaimTask c s = Inr (s', b) \<Longrightarrow>
    s' = s\<lparr>tasks := update_where (\<lambda>r. t_id r = cr_task c \<and> t_deleted r = None \<and> unclaimed (cr_now c) r)
      (take_lease (cr_actor c) (cr_now c) (cr_until c) (cr_token c)) (tasks s)\<rparr>"
  by (auto simp: ClaimTask_def Let_def split: if_splits)

lemma RenewLease_shape: "RenewLease db k tok u s = Inr (s', b) \<Longrightarrow>
    s' = s\<lparr>tasks := update_where (holds k tok db) (\<lambda>r. r\<lparr>t_lease_expires := Some u, t_updated := db\<rparr>) (tasks s)\<rparr>"
  by (auto simp: RenewLease_def split: if_splits)

lemma ReleaseLease_shape: "ReleaseLease db k tok s = Inr (s', b) \<Longrightarrow>
    s' = s\<lparr>tasks := update_where (holds k tok db) (drop_lease db) (tasks s)\<rparr>"
  by (auto simp: ReleaseLease_def split: if_splits)

lemma ClearClaim_shape: "ClearClaim db k h now s = Inr (s', b) \<Longrightarrow>
    s' = s\<lparr>tasks := update_where (\<lambda>r. t_id r = k \<and> lapsed now r)
      (\<lambda>r. (drop_lease db r)\<lparr>t_expired_at := Some now, t_expired_by := h\<rparr>) (tasks s)\<rparr>"
  by (auto simp: ClearClaim_def Let_def update_where_none split: if_splits)

lemma ForceReclaim_shape: "ForceReclaim k h now s = Inr (s', b) \<Longrightarrow>
    s' = s\<lparr>tasks := update_where (\<lambda>r. t_id r = k \<and> t_deleted r = None \<and> t_claimed_by r = Some h \<and> live now r)
      (drop_lease now) (tasks s)\<rparr>"
  by (auto simp: ForceReclaim_def Let_def update_where_none split: if_splits)

lemma ClaimNextTask_shape: "ClaimNextTask c s = Inr (s', found) \<Longrightarrow>
    \<exists>p. s' = s\<lparr>tasks := update_where p (take_lease (cn_actor c) (cn_now c) (cn_until c) (cn_token c)) (tasks s)\<rparr>"
proof (cases "s' = s")
  case True
  then show ?thesis by (intro exI [of _ "\<lambda>_. False"]) (simp add: update_where_none rows_matching_zero)
qed (auto simp: ClaimNextTask_def Let_def split: option.splits if_splits)

lemma DeleteTask_shape: "DeleteTask db k hard s = Inr s' \<Longrightarrow>
    s' = (if hard then cascade_delete k s
      else s\<lparr>tasks := update_where (\<lambda>r. t_id r = k \<and> t_deleted r = None)
        (\<lambda>r. r\<lparr>t_deleted := Some db, t_updated := db\<rparr>) (tasks s)\<rparr>)"
  by (auto simp: DeleteTask_def Let_def split: if_splits)

section \<open>New rows\<close>

lemma NextSeq_shape: "NextSeq p s = Inr (s', n) \<Longrightarrow>
    s' = s\<lparr>projects := update_where (\<lambda>q. pr_id q = p) (\<lambda>q. q\<lparr>pr_seq_counter := pr_seq_counter q + 1\<rparr>) (projects s)\<rparr>"
  by (auto simp: NextSeq_def split: option.splits)

lemma insert_task_shape: "insert_task r s = Inr s' \<Longrightarrow> s' = s\<lparr>tasks := tasks s @ [r]\<rparr>"
  by (auto simp: insert_task_def split: if_splits)

lemma CreateTask_shape:
  assumes "CreateTask db fresh t s = Inr (s', t')"
  shows "\<exists>s0. (s0 = s \<or> (\<exists>p n. NextSeq p s = Inr (s0, n))) \<and> insert_task (new_row t') s0 = Inr s'"
  using assms by (auto simp: CreateTask_def Let_def split: if_splits)

lemma AddDependency_shape: "AddDependency db k j s = Inr (s', d) \<Longrightarrow>
    s' = s\<lparr>deps := deps s @ [d]\<rparr> \<and> d = \<lparr>d_task = k, d_depends_on = j, d_created = db\<rparr>"
  by (auto simp: AddDependency_def Let_def split: if_splits)

lemma linkDependency_shape: "linkDependency db t dep s = Inr s' \<Longrightarrow>
    \<exists>d. AddDependency db (t_id t) (t_id dep) s = Inr (s', d)"
  by (auto simp: linkDependency_def split: if_splits)

lemma RemoveDependency_shape: "RemoveDependency k j s = Inr s' \<Longrightarrow>
    s' = s\<lparr>deps := filter (\<lambda>e. \<not> (d_task e = k \<and> d_depends_on e = j)) (deps s)\<rparr>"
  by (auto simp: RemoveDependency_def split: if_splits)

lemma attachTaskLabel_shape: "attachTaskLabel fresh k n s = Inr s' \<Longrightarrow>
    \<exists>ts tts. s' = s\<lparr>tags := ts, task_tags := tts\<rparr>"
proof -
  assume "attachTaskLabel fresh k n s = Inr s'"
  then obtain s1 l where put: "PutTag fresh \<lparr>tg_id = [], tg_project = [], tg_name = TrimSpace n, tg_color = []\<rparr> s = (s1, l)"
    and att: "AttachTag k (tg_id l) s1 = Inr s'"
    by (auto simp: attachTaskLabel_def Let_def split: if_splits prod.splits)
  from put obtain ts where s1: "s1 = s\<lparr>tags := ts\<rparr>" by (auto simp: PutTag_def Let_def split: option.splits if_splits)
  from att obtain tts where "s' = s1\<lparr>task_tags := tts\<rparr>"
  proof (cases "(k, tg_id l) \<in> set (task_tags s1)")
    case True
    with att have "s' = s1\<lparr>task_tags := task_tags s1\<rparr>" by (simp add: AttachTag_def)
    with that show thesis .
  qed (auto simp: AttachTag_def split: if_splits intro: that)
  with s1 show ?thesis by auto
qed

lemma DetachTag_shape: "DetachTag k l s = Inr s' \<Longrightarrow>
    s' = s\<lparr>task_tags := filter (\<lambda>x. x \<noteq> (k, l)) (task_tags s)\<rparr>"
  by (auto simp: DetachTag_def split: if_splits)

lemma CreateComment_shape: "CreateComment db fresh k a b s = Inr (s', c) \<Longrightarrow> s' = s\<lparr>comments := comments s @ [c]\<rparr>"
  by (auto simp: CreateComment_def Let_def split: if_splits)

lemma PutArtifact_shape: "PutArtifact db fresh a s = Inr (s', a') \<Longrightarrow> \<exists>as. s' = s\<lparr>artifacts := as\<rparr>"
  by (auto simp: PutArtifact_def Let_def split: if_splits)

lemma note_shapes:
  "UpdateComment db c s = Inr (s', c') \<Longrightarrow> \<exists>cs. s' = s\<lparr>comments := cs\<rparr>"
  "DeleteComment db k s = Inr s' \<Longrightarrow> \<exists>cs. s' = s\<lparr>comments := cs\<rparr>"
  "StarTask a k s = Inr (s', b) \<Longrightarrow> \<exists>xs. s' = s\<lparr>stars := xs\<rparr>"
  "UnstarTask a k s = Inr (s', b) \<Longrightarrow> \<exists>xs. s' = s\<lparr>stars := xs\<rparr>"
  by (auto simp: UpdateComment_def DeleteComment_def StarTask_def UnstarTask_def Let_def split: if_splits intro: exI [of _ "stars s"])

lemma deliverInbox_events: "\<exists>es. m_events (deliverInbox m) = m_events m @ es"
  by (cases "strongest (eligibleNotes m)")
    (simp_all add: deliverInbox_def Let_def fold_create_item Event_def del: fold_Cons)

lemma flush_shape: "\<exists>is es. flush m = (m_store m)\<lparr>inbox := inbox (m_store m) @ is,
    audits := audits (m_store m) @ m_audits m, events := events (m_store m) @ m_events m @ es\<rparr>"
proof -
  obtain es where "m_events (deliverInbox m) = m_events m @ es" using deliverInbox_events by blast
  then have "flush m = (m_store m)\<lparr>inbox := inbox (m_store m) @ items_from m (m_next m) (strongest (eligibleNotes m)),
      audits := audits (m_store m) @ m_audits m, events := events (m_store m) @ m_events m @ es\<rparr>"
    by (simp add: flush_def Let_def deliverInbox_store deliverInbox_audits)
  then show ?thesis by blast
qed

lemmas row_shapes = UpdateTask_shape RestoreTask_shape SetSnooze_shape WakeSnooze_shape ClaimTask_shape
  RenewLease_shape ReleaseLease_shape ClearClaim_shape ForceReclaim_shape DeleteTask_shape

lemmas write_shapes = row_shapes ClaimNextTask_shape NextSeq_shape insert_task_shape AddDependency_shape
  linkDependency_shape RemoveDependency_shape attachTaskLabel_shape DetachTag_shape CreateComment_shape PutArtifact_shape
  note_shapes

section \<open>Rows by identifier\<close>

lemma task_row_of_update:
  assumes "\<And>r. t_id (f r) = t_id r"
  shows "task_row_of (s\<lparr>tasks := update_where p f (tasks s)\<rparr>) j =
    map_option (\<lambda>r. if p r then f r else r) (task_row_of s j)"
  unfolding task_row_of_def by (simp add: find_update_where assms)

lemma task_row_of_update_one:
  assumes "\<And>r. t_id (f r) = t_id r" and "\<And>r. p r \<Longrightarrow> t_id r = k" and "task_row_of s k = Some row" and "p row"
  shows "task_row_of (s\<lparr>tasks := update_where p f (tasks s)\<rparr>) = (task_row_of s)(k \<mapsto> f row)"
proof
  fix j
  show "task_row_of (s\<lparr>tasks := update_where p f (tasks s)\<rparr>) j = ((task_row_of s)(k \<mapsto> f row)) j"
  proof (cases "j = k")
    case True
    with assms(3,4) show ?thesis unfolding task_row_of_update [of f, OF assms(1)] by simp
  next
    case False
    have "\<not> p r" if "task_row_of s j = Some r" for r
      using task_row_of_SomeD [OF that] assms(2) False by auto
    with False show ?thesis
      unfolding task_row_of_update [of f, OF assms(1)] by (cases "task_row_of s j") auto
  qed
qed

lemma flush_rows [simp]: "task_row_of (flush m) = task_row_of (m_store m)"
  by (simp add: task_row_of_def fun_eq_iff)

lemma row_of_distinct:
  "distinct (map t_id (tasks s)) \<Longrightarrow> task_row_of s k = Some r \<longleftrightarrow> r \<in> set (tasks s) \<and> t_id r = k"
  unfolding task_row_of_def by (rule find_key_iff) simp

lemma GetTask_row:
  "distinct (map t_id (tasks s)) \<Longrightarrow> GetTask s ref = Inr t \<Longrightarrow>
    \<exists>row. task_row_of s (t_id t) = Some row \<and> t = scanTask row"
  by (drule GetTask_in) (auto simp: row_of_distinct)

lemma liveTask_row_of:
  "distinct (map t_id (tasks s)) \<Longrightarrow> liveTask s ref = Inr t \<Longrightarrow>
    \<exists>row. task_row_of s (t_id t) = Some row \<and> t = scanTask row \<and> t_deleted row = None"
  by (drule liveTask_row) (auto simp: row_of_distinct)

end
