(* ===== verification/Lease_System.thy ===== *)
theory Lease_System
  imports Lease_Handlers Write_Shapes
begin

text \<open>
  The service as a transition system over the tables, the clock and the promises its answers made
  to workers, and its refinement to the protocol of \<open>Lease_Spec\<close>: whatever calls are served in
  whatever order, the leases in the tables follow the protocol, so no two workers hold a running
  promise for one task. The clocks are assumed not to go back, a transaction to see the store's
  clock no earlier than the service's, and a minted token to be on no row yet.
\<close>

text \<open>What the workers know after an answer: the ghost state of the refinement.\<close>

definition task_named :: "store \<Rightarrow> task_ref \<Rightarrow> string" where
  "task_named s ref = (case GetTask s ref of Inl _ \<Rightarrow> [] | Inr t \<Rightarrow> t_id t)"

definition promise :: "claim \<Rightarrow> string \<times> string \<times> time" where
  "promise c = (t_id (cl_task c), cl_token c, cl_expires c)"

fun told_after :: "request \<Rightarrow> answer \<Rightarrow> store \<Rightarrow> store \<Rightarrow> promises \<Rightarrow> promises" where
  "told_after (DoClaim ref inp) (Granted c) s s' told = insert (promise c) told"
| "told_after (DoClaimNext inp) (Granted c) s s' told = insert (promise c) told"
| "told_after (DoRenew ref tok ttl) (Granted c) s s' told =
    insert (promise c) (withdraw told (t_id (cl_task c)) (cl_token c))"
| "told_after (DoRelease ref tok inp) Acknowledged s s' told = withdraw told (task_named s ref) tok"
| "told_after (DoReclaim ref reason) (Shown t) s s' told = withdraw_all told {t_id t}"
| "told_after (DoDelete ref inp) Acknowledged s s' told = withdraw_all told {k. \<not> task_exists s' k}"
| "told_after _ _ s s' told = told"

record system =
  sy_store :: store
  sy_told :: promises
  sy_now :: time

definition protocol_of :: "system \<Rightarrow> protocol" where
  "protocol_of \<sigma> = \<lparr>sp_leases = board (sy_store \<sigma>), sp_told = sy_told \<sigma>, sp_now = sy_now \<sigma>\<rparr>"

definition next_prompt :: "env \<Rightarrow> claim_next_input \<Rightarrow> store \<Rightarrow> bool" where
  "next_prompt e inp s \<longleftrightarrow>
    (\<forall>ttl. Resolve (leasePolicy (e_policy e) (tenant_lease_default s) (tenant_lease_max s)) (ni_ttl inp) 0 = Inr ttl \<longrightarrow>
       e_db e < Until (e_now e) ttl)"

definition fair_env :: "system \<Rightarrow> env \<Rightarrow> request \<Rightarrow> bool" where
  "fair_env \<sigma> e r \<longleftrightarrow> sy_now \<sigma> \<le> e_now e \<and> e_now e \<le> e_db e \<and> fresh_token (sy_store \<sigma>) (e_token e) \<and>
     (\<forall>inp. r = DoClaimNext inp \<longrightarrow> next_prompt e inp (sy_store \<sigma>))"

inductive service_step :: "system \<Rightarrow> system \<Rightarrow> bool" where
  served: "fair_env \<sigma> e r \<Longrightarrow> serve e ctx r (sy_store \<sigma>) = (s', a) \<Longrightarrow>
    service_step \<sigma> \<lparr>sy_store = s', sy_told = told_after r a (sy_store \<sigma>) s' (sy_told \<sigma>), sy_now = e_db e\<rparr>"

inductive_cases service_stepE: "service_step \<sigma> \<sigma>'"

section \<open>Commits keep the leases\<close>

lemma flush_board [simp]: "board (flush m) = board (m_store m)" "lease_inv (flush m) = lease_inv (m_store m)"
  "task_exists (flush m) = task_exists (m_store m)"
  by (simp_all add: board_def task_row_of_def lease_inv_def fun_eq_iff task_exists_def)

interpretation leases: quiet_services lease_frame
  by unfold_locales (simp add: lease_frame_def)

lemma service_TransitionTask_frame: "service_TransitionTask e ctx ref tin s = (s', rt) \<Longrightarrow> lease_frame s s'"
  unfolding service_TransitionTask_def by (erule leases.handler_rel, erule transition_tx_frame)

lemma service_PutArtifact_frame: "service_PutArtifact e ctx ref inp s = (s', ra) \<Longrightarrow> lease_frame s s'"
  unfolding service_PutArtifact_def by (erule leases.handler_rel, erule put_artifact_tx_frame)

section \<open>Every request follows the protocol\<close>

abbreviation at_board :: "store \<Rightarrow> promises \<Rightarrow> time \<Rightarrow> protocol" where
  "at_board s told now \<equiv> \<lparr>sp_leases = board s, sp_told = told, sp_now = now\<rparr>"

text \<open>\<open>follows\<close>: the invariant is kept and the protocol can take the same way.\<close>

definition follows :: "time \<Rightarrow> store \<Rightarrow> promises \<Rightarrow> store \<Rightarrow> promises \<Rightarrow> bool" where
  "follows db s told s' told' \<longleftrightarrow> lease_inv s' \<and> lease_step\<^sup>*\<^sup>* (at_board s told db) (at_board s' told' db)"

lemma follows_frame: "lease_inv s \<Longrightarrow> lease_frame s s' \<Longrightarrow> follows db s told s' told"
  by (simp add: follows_def lease_frame_def)

lemma follows_step:
  "lease_inv s' \<Longrightarrow> lease_step (at_board s told db) (at_board s' told' db) \<Longrightarrow> follows db s told s' told'"
  by (auto simp: follows_def)

lemma vacant_later: "vacant l now k \<Longrightarrow> now \<le> db \<Longrightarrow> vacant l db k"
  by (fastforce simp: vacant_def)

lemma follows_take:
  assumes "lease_inv s'" and "board s' = (board s)(k \<mapsto> (tok, u))" and "vacant (board s) now k" and "now \<le> db"
  shows "follows db s told s' (insert (k, tok, u) told)"
  using assms lease_step.take [of "at_board s told db" k tok u] vacant_later
  by (intro follows_step) simp_all

lemma follows_renew:
  assumes "lease_inv s'" and "board s' = (board s)(k \<mapsto> (tok, u))" and "held (board s) db k tok"
  shows "follows db s told s' (insert (k, tok, u) (withdraw told k tok))"
  using assms lease_step.renew [of "at_board s told db" k tok u] by (intro follows_step) simp_all

lemma follows_release:
  assumes "lease_inv s'" and "board s' = (board s)(k := None)" and "held (board s) db k tok"
  shows "follows db s told s' (withdraw told k tok)"
  using assms lease_step.release [of "at_board s told db" k tok] by (intro follows_step) simp_all

lemma follows_revoke:
  assumes "lease_inv s'" and "board s' = board s |` (- K)"
  shows "follows db s told s' (withdraw_all told K)"
  using assms lease_step.revoke [of "at_board s told db" K] by (intro follows_step) simp_all

lemma follows_lapses:
  assumes "finite K" and "\<forall>k\<in>K. vacant l db k"
  shows "lease_step\<^sup>*\<^sup>* \<lparr>sp_leases = l, sp_told = told, sp_now = db\<rparr> \<lparr>sp_leases = l |` (- K), sp_told = told, sp_now = db\<rparr>"
  using assms
proof (induction K rule: finite_induct)
  case empty
  then show ?case by simp
next
  case (insert k K)
  let ?p = "\<lparr>sp_leases = l |` (- K), sp_told = told, sp_now = db\<rparr>"
  have "vacant (l |` (- K)) db k" using insert.prems by (auto simp: vacant_def restrict_map_def)
  then have "lease_step ?p (?p\<lparr>sp_leases := (l |` (- K))(k := None)\<rparr>)" using lease_step.lapse [of ?p k] by simp
  moreover have "(l |` (- K))(k := None) = l |` (- insert k K)" by (auto simp: fun_eq_iff restrict_map_def)
  ultimately have "lease_step ?p \<lparr>sp_leases = l |` (- insert k K), sp_told = told, sp_now = db\<rparr>" by simp
  with insert show ?case by (simp add: rtranclp.rtrancl_into_rtrancl)
qed

lemma finite_board: "finite (dom (board s))"
proof -
  have "dom (board s) \<subseteq> t_id ` set (tasks s)"
    by (auto simp: board_def dest!: task_row_of_SomeD split: Option.bind_splits)
  then show ?thesis by (rule finite_subset) simp
qed

lemma follows_swept:
  assumes "lease_inv s" and "swept now s s'" and "now \<le> db"
  shows "follows db s told s' told"
proof -
  let ?K = "{k \<in> dom (board s). board s' k = None}"
  have sw: "lease_inv s'" "\<And>k. board s' k = board s k \<or> (board s' k = None \<and> vacant (board s) now k)"
    using assms by (auto simp: swept_def)
  have "board s' = board s |` (- ?K)"
  proof
    fix k
    show "board s' k = (board s |` (- ?K)) k"
      using sw(2) [of k] by (cases "board s k") (auto simp: restrict_map_def domIff)
  qed
  moreover have "\<forall>k\<in>?K. vacant (board s) db k"
  proof
    fix k assume "k \<in> ?K"
    with sw(2) [of k] have "vacant (board s) now k" by (auto simp: domIff)
    then show "vacant (board s) db k" using assms(3) by (rule vacant_later)
  qed
  ultimately show ?thesis
    using follows_lapses [of ?K "board s" db told] finite_board [of s] sw(1) by (simp add: follows_def)
qed

lemma follows_claim:
  assumes "service_ClaimTask e ctx ref inp s = (s', Inr c)" and "lease_inv s" and "e_now e \<le> e_db e"
  shows "follows (e_db e) s told s' (insert (promise c) told)"
proof -
  obtain a m where m: "claim_task_tx ctx ref inp (begin_tx e ctx a s) = Inr (m, c)" "s' = flush m"
    using handler_cases [OF assms(1) [unfolded service_ClaimTask_def]] by auto
  from claim_task_tx_board [OF m(1)] m(2) assms(2,3) show ?thesis
    unfolding promise_def by (intro follows_take [where now = "e_now e"]) simp_all
qed

lemma follows_next:
  assumes "next_attempt e ctx inp s = (s', Granted c)" and "lease_inv s" and "e_now e \<le> e_db e"
    and "fresh_token s (e_token e)" and "next_prompt e inp s"
  shows "follows (e_db e) s told s' (insert (promise c) told)"
proof -
  obtain a m where m: "claimNextOnce inp (begin_tx e ctx a s) = Inr (m, Some c)" "s' = flush m"
    using assms(1) by (auto simp: next_attempt_def answer_of_def write_tx_def split: sum.splits option.splits prod.splits)
  have "prompt (begin_tx e ctx a s) inp" using assms(5) by (simp add: prompt_def next_prompt_def tx_policy_def)
  from claimNextOnce_board [OF m(1) _ _ this] m(2) assms(2-4) show ?thesis
    unfolding promise_def by (intro follows_take [where now = "e_now e"]) simp_all
qed

lemma next_attempt_other:
  assumes "next_attempt e ctx inp s = (s', a)" and "\<And>c. a \<noteq> Granted c"
  shows "lease_frame s s'"
proof -
  consider (refused) "s' = s"
    | (none) x m where "claimNextOnce inp (begin_tx e ctx x s) = Inr (m, None)" "s' = flush m"
    using assms by (auto simp: next_attempt_def answer_of_def write_tx_def split: sum.splits option.splits prod.splits)
  then show ?thesis
  proof cases
    case refused
    then show ?thesis by simp
  next
    case none
    then show ?thesis using claimNextOnce_None [OF none(1)] by (simp add: lease_frame_def)
  qed
qed

lemma follows_renewal:
  assumes "service_RenewLease e ctx ref tok ttl s = (s', Inr c)" and "lease_inv s"
  shows "follows (e_db e) s told s' (insert (promise c) (withdraw told (t_id (cl_task c)) (cl_token c)))"
proof -
  obtain a m where m: "renew_tx ctx ref tok ttl (begin_tx e ctx a s) = Inr (m, c)" "s' = flush m"
    using handler_cases [OF assms(1) [unfolded service_RenewLease_def]] by auto
  from renew_tx_board [OF m(1)] m(2) assms(2) show ?thesis
    unfolding promise_def by (intro follows_renew) simp_all
qed

lemma follows_releasing:
  assumes "service_ReleaseLease e ctx ref tok inp s = (s', Inr u)" and "lease_inv s"
  shows "follows (e_db e) s told s' (withdraw told (task_named s ref) tok)"
proof -
  obtain a m where m: "release_tx ctx ref tok inp (begin_tx e ctx a s) = Inr (m, u)" "s' = flush m"
    using handler_cases [OF assms(1) [unfolded service_ReleaseLease_def]] by auto
  from release_tx_board [OF m(1)] m(2) assms(2) show ?thesis
    by (auto simp: task_named_def intro: follows_release)
qed

lemma follows_sweep:
  assumes "service_SweepLeases e ctx limit s = (s', r)" and "lease_inv s" and "e_now e \<le> e_db e"
  shows "follows (e_db e) s told s' told"
  using handler_cases [OF assms(1) [unfolded service_SweepLeases_def]]
proof (elim disjE exE conjE)
  fix a m n
  assume "sweep_all (ExpiredLeases (m_now (begin_tx e ctx a s)) limit (m_store (begin_tx e ctx a s))) 0
      (begin_tx e ctx a s) = Inr (m, n)" and s': "s' = flush m"
  from sweep_all_swept [OF this(1)] have "swept (e_now e) s (m_store m)" by simp
  then have "swept (e_now e) s s'" by (simp add: swept_def s')
  with assms(2,3) show ?thesis by (blast intro: follows_swept)
qed (simp add: follows_frame assms(2))

lemma follows_reclaim:
  assumes "service_ForceReclaim e ctx ref reason s = (s', Inr t)" and "lease_inv s"
  shows "follows db s told s' (withdraw_all told {t_id t})"
proof -
  obtain a m where m: "reclaim_tx ctx ref reason (begin_tx e ctx a s) = Inr (m, t)" "s' = flush m"
    using handler_cases [OF assms(1) [unfolded service_ForceReclaim_def]] by auto
  from reclaim_tx_board [OF m(1)] m(2) assms(2) show ?thesis
    by (intro follows_revoke) (auto simp: fun_eq_iff restrict_map_def)
qed

lemma follows_delete:
  assumes "service_DeleteTask e ctx ref inp s = (s', Inr u)" and "lease_inv s"
  shows "follows db s told s' (withdraw_all told {k. \<not> task_exists s' k})"
proof -
  obtain a m where m: "delete_tx ctx ref inp (begin_tx e ctx a s) = Inr (m, u)" "s' = flush m"
    using handler_cases [OF assms(1) [unfolded service_DeleteTask_def]] by auto
  from delete_tx_removed [OF m(1)] m(2) assms(2) show ?thesis
    by (intro follows_revoke) (auto simp: removed_def fun_eq_iff restrict_map_def)
qed

section \<open>The refinement\<close>

lemma failed_handlers:
  "service_ClaimTask e ctx ref ci s = (s', Inl err) \<Longrightarrow> s' = s"
  "service_RenewLease e ctx ref tok ttl s = (s', Inl err) \<Longrightarrow> s' = s"
  "service_ReleaseLease e ctx ref tok ri s = (s', Inl err) \<Longrightarrow> s' = s"
  "service_SweepLeases e ctx limit s = (s', Inl err) \<Longrightarrow> s' = s"
  "service_ForceReclaim e ctx ref reason s = (s', Inl err) \<Longrightarrow> s' = s"
  "service_DeleteTask e ctx ref di s = (s', Inl err) \<Longrightarrow> s' = s"
  unfolding service_ClaimTask_def service_RenewLease_def service_ReleaseLease_def service_SweepLeases_def
    service_ForceReclaim_def service_DeleteTask_def
  by (drule handler_cases, fastforce)+

text \<open>The requests that may move a lease.\<close>

fun lease_request :: "request \<Rightarrow> bool" where
  "lease_request (DoClaim ref inp) = True"
| "lease_request (DoClaimNext inp) = True"
| "lease_request (DoRenew ref tok ttl) = True"
| "lease_request (DoRelease ref tok inp) = True"
| "lease_request (DoSweep limit) = True"
| "lease_request (DoReclaim ref reason) = True"
| "lease_request (DoDelete ref inp) = True"
| "lease_request _ = False"

lemma serve_other: "serve e ctx r s = (s', a) \<Longrightarrow> \<not> lease_request r \<Longrightarrow> lease_frame s s'"
  by (cases r) (auto dest!: answer_ofD dest: leases.quiet_rel service_TransitionTask_frame service_PutArtifact_frame)

lemma serve_refused: "serve e ctx r s = (s', Refused err) \<Longrightarrow> lease_request r \<Longrightarrow> lease_frame s s'"
  by (cases r) (auto dest!: answer_ofD failed_handlers dest: next_attempt_other split: sum.splits)

lemma told_after_refused [simp]: "told_after r (Refused err) s s' told = told"
  by (cases r) simp_all

lemma told_after_other: "\<not> lease_request r \<Longrightarrow> told_after r a s s' told = told"
  by (cases r; cases a) simp_all

lemma serve_granted:
  assumes "serve e ctx r s = (s', a)" and "lease_request r" and "\<And>err. a \<noteq> Refused err"
    and "lease_inv s" and "e_now e \<le> e_db e" and "fresh_token s (e_token e)"
    and "\<And>inp. r = DoClaimNext inp \<Longrightarrow> next_prompt e inp s"
  shows "follows (e_db e) s told s' (told_after r a s s' told)"
proof (cases r)
  case (DoClaim ref inp)
  with assms show ?thesis by (auto dest!: answer_ofD intro: follows_claim split: sum.splits)
next
  case (DoClaimNext inp)
  show ?thesis
  proof (cases a)
    case (Granted c)
    with DoClaimNext assms follows_next show ?thesis by simp
  qed (use DoClaimNext assms next_attempt_other follows_frame in auto)
next
  case (DoRenew ref tok ttl)
  with assms show ?thesis by (auto dest!: answer_ofD intro: follows_renewal split: sum.splits)
next
  case (DoRelease ref tok inp)
  with assms show ?thesis by (auto dest!: answer_ofD intro: follows_releasing split: sum.splits)
next
  case (DoSweep limit)
  with assms show ?thesis by (auto dest!: answer_ofD intro: follows_sweep split: sum.splits)
next
  case (DoReclaim ref reason)
  with assms show ?thesis by (auto dest!: answer_ofD intro: follows_reclaim split: sum.splits)
next
  case (DoDelete ref inp)
  with assms show ?thesis by (auto dest!: answer_ofD intro: follows_delete split: sum.splits)
qed (use assms(2) in simp_all)

lemma serve_follows:
  assumes "serve e ctx r s = (s', a)" and "lease_inv s" and "e_now e \<le> e_db e" and "fresh_token s (e_token e)"
    and "\<And>inp. r = DoClaimNext inp \<Longrightarrow> next_prompt e inp s"
  shows "follows (e_db e) s told s' (told_after r a s s' told)"
proof (cases "lease_request r")
  case True
  show ?thesis
  proof (cases "\<exists>err. a = Refused err")
    case True
    with assms(1) \<open>lease_request r\<close> have "lease_frame s s'" by (auto dest: serve_refused)
    with True assms(2) show ?thesis by (auto intro: follows_frame)
  next
    case False
    with serve_granted [OF assms(1) \<open>lease_request r\<close> _ assms(2-5)] show ?thesis by blast
  qed
next
  case False
  with assms(1) have "lease_frame s s'" by (rule serve_other)
  with False assms(2) show ?thesis by (simp add: follows_frame told_after_other)
qed

lemma service_step_sim:
  assumes "service_step \<sigma> \<sigma>'" and "lease_inv (sy_store \<sigma>)"
  shows "lease_inv (sy_store \<sigma>') \<and> lease_step\<^sup>*\<^sup>* (protocol_of \<sigma>) (protocol_of \<sigma>')"
  using assms
proof (cases rule: service_step.cases)
  case (served e r ctx s' a)
  then have fair: "sy_now \<sigma> \<le> e_db e" "e_now e \<le> e_db e" "fresh_token (sy_store \<sigma>) (e_token e)"
    "\<And>inp. r = DoClaimNext inp \<Longrightarrow> next_prompt e inp (sy_store \<sigma>)" by (auto simp: fair_env_def)
  have "lease_step (protocol_of \<sigma>) (at_board (sy_store \<sigma>) (sy_told \<sigma>) (e_db e))"
    using lease_step.tick [of "protocol_of \<sigma>" "e_db e"] fair(1) by (simp add: protocol_of_def)
  moreover have "follows (e_db e) (sy_store \<sigma>) (sy_told \<sigma>) s' (told_after r a (sy_store \<sigma>) s' (sy_told \<sigma>))"
    by (rule serve_follows [OF served(3) assms(2) fair(2,3,4)])
  ultimately show ?thesis
    using served(1) by (auto simp: follows_def protocol_of_def intro: converse_rtranclp_into_rtranclp)
qed

lemma service_refinement:
  assumes "service_step\<^sup>*\<^sup>* \<sigma> \<sigma>'" and "lease_inv (sy_store \<sigma>)"
  shows "lease_inv (sy_store \<sigma>') \<and> lease_step\<^sup>*\<^sup>* (protocol_of \<sigma>) (protocol_of \<sigma>')"
  using assms
proof (induction rule: rtranclp_induct)
  case base
  then show ?case by simp
next
  case (step \<tau> \<tau>')
  then show ?case using service_step_sim by (meson rtranclp_trans)
qed

end
