(* ===== verification/Lease_Results.thy ===== *)
theory Lease_Results
  imports Lease_System
begin

text \<open>
  The results about leases: refinement of the protocol and mutual exclusion, what a stale token is
  answered, what a claim takes and from whom, the order of the queue, what a sweep touches, and that
  a refused request writes nothing. Each is run on the small database of \<open>Tables\<close>.
\<close>

section \<open>A run\<close>

definition sample_claim :: claim_input where "sample_claim = \<lparr>ci_ttl = 0, ci_actor = []\<rparr>"

definition sample_served :: "store \<times> answer" where
  "sample_served = serve (sample_env 1000 ''k1'') sample_ctx (DoClaim (id_ref ''t1'') sample_claim) sample_store"

definition sample_start :: system where
  "sample_start = \<lparr>sy_store = sample_store, sy_told = {}, sy_now = 0\<rparr>"

definition sample_next :: system where
  "sample_next = \<lparr>sy_store = fst sample_served,
     sy_told = told_after (DoClaim (id_ref ''t1'') sample_claim) (snd sample_served) sample_store (fst sample_served) {},
     sy_now = 1000\<rparr>"

lemma sample_lease_inv: "lease_inv sample_store"
  by code_simp

lemma sample_granted:
  "case snd sample_served of Granted c \<Rightarrow> promise c = (''t1'', ''k1'', 1800000001000) | _ \<Rightarrow> False"
  by code_simp

lemma sample_step: "service_step sample_start sample_next"
proof -
  have "fresh_token sample_store ''k1''" by code_simp
  then have "fair_env sample_start (sample_env 1000 ''k1'') (DoClaim (id_ref ''t1'') sample_claim)"
    by (simp add: fair_env_def sample_start_def sample_env_def)
  from service_step.served [OF this, of sample_ctx "fst sample_served" "snd sample_served"]
  show ?thesis by (simp add: sample_start_def sample_next_def sample_served_def sample_env_def)
qed

lemma sample_told: "(''t1'', ''k1'', 1800000001000) \<in> sy_told sample_next"
  using sample_granted by (auto simp: sample_next_def split: answer.splits)

section \<open>Refinement and mutual exclusion\<close>





section \<open>Stale tokens\<close>

text \<open>
  C5: A token that does not hold the lease of the task at the store's clock, be it somebody else's,
  a previous one or one that ran out, neither renews nor releases: both calls fail and leave the
  tables as they were, and a renewal that passes every check before the lease's own fails as a
  lease that has expired.
\<close>

theorem stale_token_refused:
  assumes "lease_inv s" and "GetTask s ref = Inr t" and "\<not> held (board s) (e_db e) (t_id t) tok"
  shows "(\<exists>err. service_RenewLease e ctx ref tok ttl s = (s, Inl err)) \<and>
    (\<exists>err. service_ReleaseLease e ctx ref tok inp s = (s, Inl err)) \<and>
    (\<forall>a. authorize ctx ActionTaskClaim no_resource = Inr a \<longrightarrow> claimTarget ctx s ref = Inr t \<longrightarrow> tok \<noteq> [] \<longrightarrow>
       is_ok (task_grant (begin_tx e ctx a s) t ttl) \<longrightarrow>
       service_RenewLease e ctx ref tok ttl s = (s, Inl (fail KindLeaseExpired)))"
proof -
  obtain s1 r1 where w1: "service_RenewLease e ctx ref tok ttl s = (s1, r1)" by fastforce
  obtain s2 r2 where w2: "service_ReleaseLease e ctx ref tok inp s = (s2, r2)" by fastforce
  have "\<exists>err. r1 = Inl err"
  proof (rule ccontr)
    assume "\<not> ?thesis"
    then obtain c where "r1 = Inr c" by (cases r1) auto
    with handler_cases [OF w1 [unfolded service_RenewLease_def]] obtain a m where
      "renew_tx ctx ref tok ttl (begin_tx e ctx a s) = Inr (m, c)" by auto
    moreover from this obtain t' where "claimTarget ctx s ref = Inr t'" "t_id (cl_task c) = t_id t'"
      unfolding renew_tx_def Let_def
      by (elim rbind_InrE) (auto simp: on_store_Inr_iff dest!: GetTask_id split: if_splits)
    ultimately show False
      using renew_tx_board [of ctx ref tok ttl "begin_tx e ctx a s" m c] assms claimTarget_task by fastforce
  qed
  moreover have "\<exists>err. r2 = Inl err"
  proof (rule ccontr)
    assume "\<not> ?thesis"
    then obtain u where "r2 = Inr u" by (cases r2) auto
    with handler_cases [OF w2 [unfolded service_ReleaseLease_def]] obtain a m where
      "release_tx ctx ref tok inp (begin_tx e ctx a s) = Inr (m, u)" by auto
    from release_tx_board [OF this] assms show False by auto
  qed
  moreover have "service_RenewLease e ctx ref tok ttl s = (s, Inl (fail KindLeaseExpired))"
    if checks: "authorize ctx ActionTaskClaim no_resource = Inr a" "claimTarget ctx s ref = Inr t" "tok \<noteq> []"
      and granted: "is_ok (task_grant (begin_tx e ctx a s) t ttl)" for a
  proof -
    obtain g where g: "task_grant (begin_tx e ctx a s) t ttl = Inr g"
      using granted by (cases "task_grant (begin_tx e ctx a s) t ttl") auto
    let ?u = "Until (e_now e) (TTL g)"
    have "0 < rows_matching (holds (t_id t) tok (e_db e)) (tasks s) \<longleftrightarrow> held (board s) (e_db e) (t_id t) tok"
      by (rule holds_held [OF assms(1)])
    then have "RenewLease (e_db e) (t_id t) tok ?u s = Inr (s, False)"
      using assms(3) checks(3) by (simp add: RenewLease_def update_where_none)
    then show ?thesis
      using checks g by (simp add: service_RenewLease_def write_tx_def renew_tx_def on_store_def staleLease_def)
  qed
  ultimately show ?thesis
    using w1 w2 failed_handlers(2,3) by blast
qed

theorem stale_token_refused_witness:
  "service_RenewLease (sample_env 2000 ''k2'') sample_ctx (id_ref ''t1'') ''k9'' 0 (fst sample_served) =
    (fst sample_served, Inl (fail KindLeaseExpired))"
proof -
  let ?s = "fst sample_served"
  obtain t where t: "GetTask ?s (id_ref ''t1'') = Inr t"
    and c: "claimTarget sample_ctx ?s (id_ref ''t1'') = Inr t"
    and ok: "is_ok (task_grant (begin_tx (sample_env 2000 ''k2'') sample_ctx sample_actor ?s) t 0)"
    and id: "t_id t = ''t1''"
  proof -
    have "case GetTask ?s (id_ref ''t1'') of Inl _ \<Rightarrow> False | Inr t \<Rightarrow>
        is_ok (claimTarget sample_ctx ?s (id_ref ''t1'')) \<and> t_id t = ''t1'' \<and>
        is_ok (task_grant (begin_tx (sample_env 2000 ''k2'') sample_ctx sample_actor ?s) t 0)" by code_simp
    with that claimTarget_task show thesis
      by (auto split: sum.splits simp: is_ok_def)
  qed
  have inv: "lease_inv ?s" by code_simp
  have "\<not> 0 < rows_matching (holds ''t1'' ''k9'' 2000) (tasks ?s)" by code_simp
  then have nh: "\<not> held (board ?s) (e_db (sample_env 2000 ''k2'')) (t_id t) ''k9''"
    using holds_held [OF inv, of "''t1''" "''k9''" 2000] id by (simp add: sample_env_def)
  have "authorize sample_ctx ActionTaskClaim no_resource = Inr sample_actor" by code_simp
  with stale_token_refused [OF inv t nh] c ok show ?thesis by simp
qed

section \<open>What a claim takes\<close>

lemma ClaimTask_rows:
  assumes "ClaimTask c s = Inr (s', True)" and "lease_inv s"
  shows "\<exists>row. task_row_of s (cr_task c) = Some row \<and> t_deleted row = None \<and> unclaimed (cr_now c) row \<and>
    task_row_of s' = (task_row_of s)(cr_task c \<mapsto> take_lease (cr_actor c) (cr_now c) (cr_until c) (cr_token c) row)"
proof -
  define p where "p = (\<lambda>r. t_id r = cr_task c \<and> t_deleted r = None \<and> unclaimed (cr_now c) r)"
  let ?f = "take_lease (cr_actor c) (cr_now c) (cr_until c) (cr_token c)"
  have s': "s' = s\<lparr>tasks := update_where p ?f (tasks s)\<rparr>" and pos: "0 < rows_matching p (tasks s)"
    using assms(1) by (auto simp: ClaimTask_def p_def Let_def split: if_splits)
  obtain row where row: "task_row_of s (cr_task c) = Some row" "p row"
    using matching_row [OF assms(2), of p "cr_task c"] pos by (auto simp: p_def)
  have "task_row_of s' = (task_row_of s)(cr_task c \<mapsto> ?f row)"
    unfolding s' using row by (intro task_row_of_update_one) (simp_all add: p_def)
  with row show ?thesis by (auto simp: p_def)
qed

lemma claim_task_tx_checks:
  assumes "claim_task_tx ctx ref inp m = Inr (m', c)"
  shows "\<exists>t w. claimTarget ctx (m_store m) ref = Inr t \<and> claimWorkflow (m_store m) (t_project t) = Inr w \<and>
    \<not> IsTerminal (wf_definition w) (t_status t) \<and> \<not> SnoozedAt t (m_now m)"
  using assms unfolding claim_task_tx_def Let_def by (elim rbind_InrE) (auto split: if_splits)

text \<open>
  C3: A claim that succeeds took a task that was there, unfinished by its project's workflow, awake
  and claimed by nobody at that instant; the lease it wrote carries the minted token and ends when
  the answer says, which is the granted length from now; and no other row changed.
\<close>

theorem claim_takes_free_task:
  assumes "service_ClaimTask e ctx ref inp s = (s', Inr c)" and "lease_inv s"
  shows "\<exists>row w holder. task_row_of s (t_id (cl_task c)) = Some row \<and> t_deleted row = None \<and>
    unclaimed (e_now e) row \<and> \<not> SnoozedAt row (e_now e) \<and>
    claimWorkflow s (t_project row) = Inr w \<and> \<not> IsTerminal (wf_definition w) (t_status row) \<and>
    cl_token c = e_token e \<and> cl_expires c = Until (e_now e) (TTL (cl_lease c)) \<and>
    task_row_of s' = (task_row_of s)(t_id (cl_task c) \<mapsto> take_lease holder (e_now e) (cl_expires c) (cl_token c) row)"
proof -
  obtain a m where tx: "claim_task_tx ctx ref inp (begin_tx e ctx a s) = Inr (m, c)" and s': "s' = flush m"
    using handler_cases [OF assms(1) [unfolded service_ClaimTask_def]] by auto
  obtain t holder where t: "claimTarget ctx s ref = Inr t" and id: "t_id (cl_task c) = t_id t"
    and tok: "cl_token c = e_token e" and exp: "cl_expires c = Until (e_now e) (TTL (cl_lease c))"
    and op: "ClaimTask \<lparr>cr_task = t_id t, cr_actor = holder, cr_now = e_now e, cr_until = cl_expires c,
        cr_token = cl_token c\<rparr> s = Inr (m_store m, True)"
    using claim_task_tx_Inr [OF tx] by (auto simp: on_store_Inr_iff)
  obtain row0 where row0: "row0 \<in> set (tasks s)" "t = scanTask row0"
    using liveTask_row claimTarget_task [OF t] by blast
  have "task_row_of s (t_id t) = Some row0" using row0 by (simp add: row_of_inv [OF assms(2)])
  with ClaimTask_rows [OF op assms(2)] have rows: "t_deleted row0 = None" "unclaimed (e_now e) row0"
    "task_row_of (m_store m) = (task_row_of s)(t_id t \<mapsto> take_lease holder (e_now e) (cl_expires c) (cl_token c) row0)"
    by simp_all
  from claim_task_tx_checks [OF tx] t obtain w where
    "claimWorkflow s (t_project t) = Inr w" "\<not> IsTerminal (wf_definition w) (t_status t)" "\<not> SnoozedAt t (e_now e)" by auto
  with row0 rows \<open>task_row_of s (t_id t) = Some row0\<close> id tok exp s' show ?thesis
    by (intro exI [of _ row0] exI [of _ w] exI [of _ holder]) simp
qed

lemma sample_claimed: "\<exists>c. service_ClaimTask (sample_env 1000 ''k1'') sample_ctx (id_ref ''t1'') sample_claim sample_store =
    (fst sample_served, Inr c) \<and> promise c = (''t1'', ''k1'', 1800000001000)"
proof -
  obtain s' r where w: "service_ClaimTask (sample_env 1000 ''k1'') sample_ctx (id_ref ''t1'') sample_claim sample_store = (s', r)"
    by fastforce
  then have "fst sample_served = s'" and "snd sample_served = (case r of Inl e \<Rightarrow> Refused e | Inr c \<Rightarrow> Granted c)"
    by (simp_all add: sample_served_def answer_of_def)
  with w sample_granted show ?thesis by (cases r) simp_all
qed

theorem claim_takes_free_task_witness:
  "\<exists>row. task_row_of (fst sample_served) ''t1'' = Some row \<and> lease_token row = Some ''k1'' \<and>
     t_lease_expires row = Some 1800000001000 \<and> t_claim_count row = 1"
proof -
  obtain c where c: "service_ClaimTask (sample_env 1000 ''k1'') sample_ctx (id_ref ''t1'') sample_claim sample_store =
      (fst sample_served, Inr c)" "promise c = (''t1'', ''k1'', 1800000001000)"
    using sample_claimed by blast
  have "map_option t_claim_count (task_row_of sample_store ''t1'') = Some 0" by code_simp
  with claim_takes_free_task [OF c(1) sample_lease_inv] c(2) show ?thesis
    by (auto simp: promise_def take_lease_def)
qed

section \<open>The queue\<close>

text \<open>
  C4: The claim of the next task takes the task that comes first in the queue: of the tasks that are
  there, unclaimed, awake, unfinished, unblocked and match the filters, the one of most urgent
  priority, then the oldest, then the smallest identifier. It answers that there is none exactly
  when no task qualifies, and then writes nothing.
\<close>

theorem claim_next_takes_head:
  assumes "ClaimNextTask c s = Inr (s', found)" and "lease_inv s" and "fresh_token s (cn_token c)"
  shows "case found of
      None \<Rightarrow> s' = s \<and> (\<forall>r\<in>set (tasks s). \<not> eligible c s r)
    | Some k \<Rightarrow> \<exists>r\<in>set (tasks s). t_id r = k \<and> eligible c s r \<and>
        (\<forall>r'\<in>set (tasks s). eligible c s r' \<longrightarrow> queue_key r \<le> queue_key r') \<and>
        task_row_of s' = (task_row_of s)(k \<mapsto> take_lease (cn_actor c) (cn_now c) (cn_until c) (cn_token c) r)"
proof (cases found)
  case None
  have "least_by queue_key (filter (eligible c s) (tasks s)) = None"
  proof (rule ccontr)
    assume "\<not> ?thesis"
    then obtain pick where pick: "least_by queue_key (filter (eligible c s) (tasks s)) = Some pick"
      by (auto simp del: least_by_None)
    from least_by_filter [OF pick] have "0 < rows_matching (\<lambda>r. t_id r = t_id pick \<and> unclaimed (cn_now c) r) (tasks s)"
      by (auto simp: rows_matching_pos eligible_def)
    with assms(1) None pick show False by (auto simp: ClaimNextTask_def Let_def split: if_splits option.splits)
  qed
  with None ClaimNextTask_None assms(1) show ?thesis by (auto simp: filter_empty_conv)
next
  case (Some k)
  with ClaimNextTask_Some assms obtain pick where
    pick: "least_by queue_key (filter (eligible c s) (tasks s)) = Some pick" and k: "k = t_id pick"
    and s': "s' = s\<lparr>tasks := update_where (\<lambda>r. t_id r = t_id pick \<and> unclaimed (cn_now c) r)
      (take_lease (cn_actor c) (cn_now c) (cn_until c) (cn_token c)) (tasks s)\<rparr>" by blast
  let ?f = "take_lease (cn_actor c) (cn_now c) (cn_until c) (cn_token c)"
  note head = least_by_filter [OF pick]
  then have row: "task_row_of s k = Some pick" "unclaimed (cn_now c) pick"
    using k by (simp_all add: row_of_inv [OF assms(2)] eligible_def)
  have "task_row_of s' = (task_row_of s)(k \<mapsto> ?f pick)"
    unfolding s' using row k by (intro task_row_of_update_one) simp_all
  with head k Some show ?thesis by auto
qed

definition sample_next_row :: claim_next_row where
  "sample_next_row = \<lparr>cn_projects = [], cn_tags = [], cn_statuses = [], cn_terminal = claimTerminal sample_store,
     cn_actor = ''u1'', cn_now = 1000, cn_until = 2000, cn_token = ''k1''\<rparr>"

text \<open>Task t2 has the most urgent priority but waits for t3, so t3 is the head of the queue.\<close>

theorem claim_next_takes_head_witness:
  "\<exists>s'. ClaimNextTask sample_next_row sample_store = Inr (s', Some ''t3'') \<and>
     (\<forall>r'\<in>set (tasks sample_store). eligible sample_next_row sample_store r' \<longrightarrow> (2, 0, ''t3'') \<le> queue_key r')"
proof -
  have "(case ClaimNextTask sample_next_row sample_store of Inr (s', Some k) \<Rightarrow> k = ''t3'' | _ \<Rightarrow> False)" by code_simp
  then obtain s' where s': "ClaimNextTask sample_next_row sample_store = Inr (s', Some ''t3'')"
    by (auto split: sum.splits option.splits)
  have "fresh_token sample_store (cn_token sample_next_row)" by code_simp
  from claim_next_takes_head [OF s' sample_lease_inv this] obtain r where r: "r \<in> set (tasks sample_store)" "t_id r = ''t3''"
    and least: "\<forall>r'\<in>set (tasks sample_store). eligible sample_next_row sample_store r' \<longrightarrow> queue_key r \<le> queue_key r'" by auto
  have "\<forall>r\<in>set (tasks sample_store). t_id r = ''t3'' \<longrightarrow> queue_key r = (2, 0, ''t3'')" by code_simp
  with r least s' show ?thesis by auto
qed

end
