(* ===== verification/Dep_Graph.thy ===== *)
theory Dep_Graph
  imports Write_Shapes
begin

text \<open>
  The dependency graph: the rounds of the recursive query find exactly what is reachable, and since
  an edge is only added where no path leads back, no call of the service ever closes a cycle.
\<close>

section \<open>The query and reachability\<close>

definition edge_rel :: "dependency list \<Rightarrow> (string \<times> string) set" where
  "edge_rel es = (\<lambda>e. (d_task e, d_depends_on e)) ` set es"

abbreviation edges :: "store \<Rightarrow> (string \<times> string) set" where "edges s \<equiv> edge_rel (deps s)"

lemma set_direct: "set (direct es k) = edge_rel es `` {k}"
  by (auto simp: direct_def edge_rel_def)

lemma finite_edge_rel [simp]: "finite (edge_rel es)"
  by (simp add: edge_rel_def)

lemma card_edge_rel: "card (edge_rel es) \<le> length es"
  unfolding edge_rel_def by (rule order_trans [OF card_image_le card_length]) simp

lemma reach_rounds_set:
  "set (reach_rounds n es found) = (\<Union>k\<in>{..n}. (edge_rel es ^^ k) `` set found)"
proof (induction n arbitrary: found)
  case 0
  then show ?case by simp
next
  case (Suc n)
  let ?E = "edge_rel es"
  have step: "set (remdups (found @ concat (map (direct es) found))) = set found \<union> ?E `` set found"
    by (auto simp: set_direct)
  have "(\<Union>k\<in>{..n}. (?E ^^ k) `` (set found \<union> ?E `` set found)) = (\<Union>k\<in>{..Suc n}. (?E ^^ k) `` set found)"
  proof (intro equalityI subsetI)
    fix y assume "y \<in> (\<Union>k\<in>{..n}. (?E ^^ k) `` (set found \<union> ?E `` set found))"
    then obtain k x where k: "k \<le> n" and x: "x \<in> set found"
      and y: "(x, y) \<in> ?E ^^ k \<or> (\<exists>z. (x, z) \<in> ?E \<and> (z, y) \<in> ?E ^^ k)" by auto
    then have "(x, y) \<in> ?E ^^ k \<or> (x, y) \<in> ?E ^^ Suc k" using relpow_Suc_I2 by metis
    with k x show "y \<in> (\<Union>k\<in>{..Suc n}. (?E ^^ k) `` set found)" by (metis ImageI UN_iff atMost_iff le_SucI Suc_le_mono)
  next
    fix y assume "y \<in> (\<Union>k\<in>{..Suc n}. (?E ^^ k) `` set found)"
    then obtain k x where k: "k \<le> Suc n" and x: "x \<in> set found" and y: "(x, y) \<in> ?E ^^ k" by auto
    show "y \<in> (\<Union>k\<in>{..n}. (?E ^^ k) `` (set found \<union> ?E `` set found))"
    proof (cases k)
      case 0
      with x y have "y \<in> (?E ^^ 0) `` (set found \<union> ?E `` set found)" by simp
      then show ?thesis by blast
    next
      case (Suc j)
      then obtain z where "(x, z) \<in> ?E" "(z, y) \<in> ?E ^^ j" using y relpow_Suc_D2 by metis
      with x k Suc show ?thesis by auto
    qed
  qed
  then show ?case by (simp only: reach_rounds.simps Suc.IH step)
qed

lemma path_query: "DependencyPathExists a b s \<longleftrightarrow> (a, b) \<in> (edges s)\<^sup>+"
proof -
  let ?E = "edges s"
  have "(a, b) \<in> ?E\<^sup>+ \<longleftrightarrow> (\<exists>z. (a, z) \<in> ?E \<and> (z, b) \<in> ?E\<^sup>*)" by (auto simp: trancl_unfold_left)
  also have "\<dots> \<longleftrightarrow> (\<exists>z k. (a, z) \<in> ?E \<and> k \<le> length (deps s) \<and> (z, b) \<in> ?E ^^ k)"
  proof (intro ex_cong1 iffI)
    fix z assume "(a, z) \<in> ?E \<and> (z, b) \<in> ?E\<^sup>*"
    then obtain k where "(a, z) \<in> ?E" "k \<le> card ?E" "(z, b) \<in> ?E ^^ k"
      using rtrancl_finite_eq_relpow [OF finite_edge_rel] by fastforce
    with card_edge_rel show "\<exists>k. (a, z) \<in> ?E \<and> k \<le> length (deps s) \<and> (z, b) \<in> ?E ^^ k"
      by (metis order_trans)
  qed (auto simp: relpow_imp_rtrancl)
  also have "\<dots> \<longleftrightarrow> DependencyPathExists a b s"
    by (auto simp: DependencyPathExists_def reach_rounds_set set_direct)
  finally show ?thesis ..
qed

section \<open>No call closes a cycle\<close>

definition keeps_acyclic :: "store \<Rightarrow> store \<Rightarrow> bool" where
  "keeps_acyclic s s' \<longleftrightarrow> (acyclic (edges s) \<longrightarrow> acyclic (edges s'))"

lemma keeps_acyclic_sub: "set (deps s') \<subseteq> set (deps s) \<Longrightarrow> keeps_acyclic s s'"
  unfolding keeps_acyclic_def edge_rel_def by (meson acyclic_subset image_mono)

lemma keeps_acyclic_same: "deps s' = deps s \<Longrightarrow> keeps_acyclic s s'"
  by (simp add: keeps_acyclic_def)

lemma AddDependency_edges:
  "AddDependency db k j s = Inr (s', d) \<Longrightarrow> edges s' = insert (k, j) (edges s)"
  by (auto simp: AddDependency_def Let_def edge_rel_def split: if_splits)

lemma linkDependency_acyclic:
  assumes "linkDependency db t dep s = Inr s'"
  shows "keeps_acyclic s s'"
proof -
  have new: "edges s' = insert (t_id t, t_id dep) (edges s)" and free: "(t_id dep, t_id t) \<notin> (edges s)\<^sup>+" "t_id t \<noteq> t_id dep"
    using assms by (auto simp: linkDependency_def path_query dest: AddDependency_edges split: if_splits)
  then have "(t_id dep, t_id t) \<notin> (edges s)\<^sup>*" by (auto simp: rtrancl_eq_or_trancl)
  with new show ?thesis by (simp add: keeps_acyclic_def acyclic_insert)
qed

interpretation acyc: all_services keeps_acyclic
proof (unfold_locales, goal_cases)
  case 1
  then show ?case by (simp add: keeps_acyclic_def)
next
  case 2
  then show ?case by (simp add: keeps_acyclic_def)
next
  case 9
  then show ?case by (rule linkDependency_acyclic)
qed (auto intro!: keeps_acyclic_sub simp: cascade_delete_def split: if_splits dest!: write_shapes CreateTask_shape)

text \<open>
  C10: Dependencies never form a cycle: from tables without one, no sequence of calls, whoever makes
  them and whatever the clocks, identifiers and tokens they run with, leads to a task that waits
  for itself.
\<close>

theorem dependencies_stay_acyclic:
  assumes "calls s s'" and "acyclic (edges s)"
  shows "acyclic (edges s')"
  using acyc.calls_rel [OF assms(1)] assms(2) by (simp add: keeps_acyclic_def)

definition sample_link :: "store \<times> answer" where
  "sample_link = serve (sample_env 1000 ''k1'') sample_ctx (DoAddDependency (id_ref ''t1'') (id_ref ''t2'')) sample_store"

lemma sample_linked: "calls sample_store (fst sample_link)"
  using one_more [OF no_call surjective_pairing] by (simp only: sample_link_def)

lemma sample_acyclic: "acyclic (edges sample_store)"
proof -
  have "edges sample_store = {(''t2'', ''t3'')}" by (simp add: edge_rel_def sample_defs)
  then show ?thesis by (auto simp: acyclic_insert intro: wf_acyclic)
qed

theorem dependencies_stay_acyclic_witness:
  "(''t1'', ''t2'') \<in> edges (fst sample_link) \<and> acyclic (edges (fst sample_link))"
proof -
  have "\<exists>e\<in>set (deps (fst sample_link)). d_task e = ''t1'' \<and> d_depends_on e = ''t2''" by code_simp
  then have "(''t1'', ''t2'') \<in> edges (fst sample_link)" by (force simp: edge_rel_def)
  with dependencies_stay_acyclic [OF sample_linked sample_acyclic] show ?thesis by simp
qed

text \<open>
  C11: An edge between two tasks is refused as invalid exactly when it would close a cycle; the check
  is exact although the query behind it stops after as many rounds as there are edges.
\<close>

theorem linkDependency_exact:
  assumes "acyclic (edges s)"
  shows "(linkDependency db t dep s = Inl (fail KindInvalid) \<longleftrightarrow>
      \<not> acyclic (insert (t_id t, t_id dep) (edges s))) \<and>
    (\<forall>s'. linkDependency db t dep s = Inr s' \<longrightarrow> edges s' = insert (t_id t, t_id dep) (edges s))"
proof -
  have "linkDependency db t dep s = Inl (fail KindInvalid) \<longleftrightarrow> t_id t = t_id dep \<or> (t_id dep, t_id t) \<in> (edges s)\<^sup>+"
    by (auto simp: linkDependency_def AddDependency_def path_query Let_def)
  with assms show ?thesis
    by (auto simp: acyclic_insert rtrancl_eq_or_trancl linkDependency_def dest!: AddDependency_edges split: if_splits)
qed

theorem linkDependency_exact_witness:
  "\<not> acyclic (insert (''t3'', ''t2'') (edges sample_store))"
proof -
  have "linkDependency 5 (sample_task ''t3'' 3 2 ''doing'') (sample_task ''t2'' 2 1 ''todo'') sample_store = Inl (fail KindInvalid)"
    by code_simp
  with linkDependency_exact [OF sample_acyclic] show ?thesis by (simp add: sample_task_def)
qed

end
