(* ===== verification/Schema.thy ===== *)
theory Schema
  imports Dep_Graph
begin

text \<open>
  What the schema promises of the tables (\<open>internal/store/migrations/0001_init.sql\<close>), as an
  invariant of the service: primary keys and unique columns, the foreign keys between tasks,
  projects, workflows, actors, dependencies, labels, comments, artifacts and stars, and the range of a
  priority. The writes of the model check what the database checks; here is the proof that these
  checks are enough, for every call and whatever the database does on deletion.
\<close>

definition row_ok :: "store \<Rightarrow> task_row \<Rightarrow> bool" where
  "row_ok s r \<longleftrightarrow> t_project r \<in> pr_id ` set (projects s) \<and> (t_parent r = [] \<or> task_exists s (t_parent r)) \<and>
     actor_exists s (t_creator r) \<and> (t_assignee r = [] \<or> actor_exists s (t_assignee r)) \<and>
     (\<forall>a\<in>set_option (t_claimed_by r). actor_exists s a) \<and> (t_snoozed_by r = [] \<or> actor_exists s (t_snoozed_by r)) \<and>
     1 \<le> t_priority r \<and> t_priority r \<le> 5"

definition joins_ok :: "store \<Rightarrow> bool" where
  "joins_ok s \<longleftrightarrow>
     (\<forall>d\<in>set (deps s). task_exists s (d_task d) \<and> task_exists s (d_depends_on d) \<and> d_task d \<noteq> d_depends_on d) \<and>
     (\<forall>(k, l)\<in>set (task_tags s). task_exists s k \<and> l \<in> tg_id ` set (tags s)) \<and>
     (\<forall>c\<in>set (comments s). task_exists s (cm_task c) \<and> actor_exists s (cm_author c)) \<and>
     (\<forall>a\<in>set (artifacts s). task_exists s (af_task a) \<and> actor_exists s (af_actor a)) \<and>
     distinct (stars s) \<and> (\<forall>(k, a)\<in>set (stars s). task_exists s k \<and> actor_exists s a)"

definition schema_ok :: "store \<Rightarrow> bool" where
  "schema_ok s \<longleftrightarrow> keys_ok s \<and> (\<forall>r\<in>set (tasks s). row_ok s r) \<and>
     (\<forall>p\<in>set (projects s). pr_workflow p \<in> wf_id ` set (workflows s)) \<and> joins_ok s"

definition keeps_schema :: "store \<Rightarrow> store \<Rightarrow> bool" where
  "keeps_schema s s' \<longleftrightarrow> (schema_ok s \<longrightarrow> schema_ok s')"

section \<open>Updates of rows\<close>

lemma image_update_where: "(\<And>r. c (f r) = c r) \<Longrightarrow> c ` set (update_where p f rs) = c ` set rs"
  by (simp add: map_update_where flip: set_map)

lemma task_exists_update [simp]:
  "(\<And>r. t_id (f r) = t_id r) \<Longrightarrow> task_exists (s\<lparr>tasks := update_where p f (tasks s)\<rparr>) = task_exists s"
  by (simp add: task_exists_def fun_eq_iff map_update_where flip: set_map)

lemma actor_exists_tasks [simp]:
  "actor_exists (s\<lparr>tasks := ts\<rparr>) = actor_exists s" "actor_exists (s\<lparr>projects := ps\<rparr>) = actor_exists s"
  "actor_exists (s\<lparr>deps := ds\<rparr>) = actor_exists s" "actor_exists (s\<lparr>comments := cs\<rparr>) = actor_exists s"
  "actor_exists (s\<lparr>artifacts := as\<rparr>) = actor_exists s" "actor_exists (s\<lparr>task_tags := tt\<rparr>) = actor_exists s"
  "actor_exists (s\<lparr>tags := gs\<rparr>) = actor_exists s" "actor_exists (s\<lparr>stars := st\<rparr>) = actor_exists s"
  by (simp_all add: actor_exists_def fun_eq_iff)

lemma task_exists_tables [simp]:
  "task_exists (s\<lparr>projects := ps\<rparr>) = task_exists s"
  "task_exists (s\<lparr>deps := ds\<rparr>) = task_exists s" "task_exists (s\<lparr>comments := cs\<rparr>) = task_exists s"
  "task_exists (s\<lparr>artifacts := as\<rparr>) = task_exists s" "task_exists (s\<lparr>task_tags := tt\<rparr>) = task_exists s"
  "task_exists (s\<lparr>tags := gs\<rparr>) = task_exists s" "task_exists (s\<lparr>stars := st\<rparr>) = task_exists s"
  by (simp_all add: task_exists_def fun_eq_iff)

lemma row_ok_cong:
  "pr_id ` set (projects s') = pr_id ` set (projects s) \<Longrightarrow> task_exists s' = task_exists s \<Longrightarrow>
    actor_exists s' = actor_exists s \<Longrightarrow> row_ok s' r = row_ok s r"
  by (simp add: row_ok_def)

lemma schema_update:
  assumes "\<And>r. t_id (f r) = t_id r \<and> t_project (f r) = t_project r \<and> t_seq (f r) = t_seq r"
    and "\<And>r. schema_ok s \<Longrightarrow> r \<in> set (tasks s) \<Longrightarrow> p r \<Longrightarrow> row_ok s r \<Longrightarrow> row_ok s (f r)"
  shows "keeps_schema s (s\<lparr>tasks := update_where p f (tasks s)\<rparr>)"
proof -
  let ?s = "s\<lparr>tasks := update_where p f (tasks s)\<rparr>"
  have "row_ok ?s = row_ok s" using assms(1) by (intro ext row_ok_cong) simp_all
  then show ?thesis
    using assms
    by (auto simp: keeps_schema_def schema_ok_def keys_ok_def joins_ok_def map_update_where set_update_where)
qed

text \<open>Most updates leave every column the schema speaks of as it is.\<close>

lemma schema_update_plain:
  assumes "\<And>r. t_id (f r) = t_id r \<and> t_project (f r) = t_project r \<and> t_seq (f r) = t_seq r \<and> t_parent (f r) = t_parent r \<and>
    t_creator (f r) = t_creator r \<and> t_assignee (f r) = t_assignee r \<and> t_priority (f r) = t_priority r \<and>
    (t_claimed_by (f r) = t_claimed_by r \<or> t_claimed_by (f r) = None) \<and>
    (t_snoozed_by (f r) = t_snoozed_by r \<or> t_snoozed_by (f r) = [])"
  shows "keeps_schema s (s\<lparr>tasks := update_where p f (tasks s)\<rparr>)"
proof (rule schema_update)
  fix r assume "row_ok s r"
  with assms [of r] show "row_ok s (f r)" unfolding row_ok_def by (elim conjE disjE) simp_all
qed (use assms in blast)

lemma schema_same: "keeps_schema s s"
  by (simp add: keeps_schema_def)

lemma schema_take:
  assumes "s' = s\<lparr>tasks := update_where p (take_lease a now u tok) (tasks s)\<rparr>"
    and "0 < rows_matching p (tasks s) \<Longrightarrow> actor_exists s a"
  shows "keeps_schema s s'"
  unfolding assms(1)
proof (rule schema_update)
  fix r assume "r \<in> set (tasks s)" "p r" "row_ok s r"
  then have "actor_exists s a" using assms(2) by (auto simp: rows_matching_pos)
  with \<open>row_ok s r\<close> show "row_ok s (take_lease a now u tok r)" by (simp add: row_ok_def take_lease_def)
qed (simp add: take_lease_def)

lemma ClaimTask_schema: "ClaimTask c s = Inr (s', b) \<Longrightarrow> keeps_schema s s'"
  by (rule schema_take [OF ClaimTask_shape]) (auto simp: ClaimTask_def Let_def split: if_splits)

lemma ClaimNextTask_schema: "ClaimNextTask c s = Inr (s', found) \<Longrightarrow> keeps_schema s s'"
proof (cases "s' = s")
  case True
  then show ?thesis by (simp add: schema_same)
next
  case False
  assume op: "ClaimNextTask c s = Inr (s', found)"
  with False have "actor_exists s (cn_actor c)"
    by (auto simp: ClaimNextTask_def Let_def split: option.splits if_splits)
  moreover obtain p where "s' = s\<lparr>tasks := update_where p
      (take_lease (cn_actor c) (cn_now c) (cn_until c) (cn_token c)) (tasks s)\<rparr>"
    using ClaimNextTask_shape [OF op] by blast
  ultimately show ?thesis by (blast intro: schema_take)
qed

lemma UpdateTask_schema:
  assumes "UpdateTask db t s = Inr (s', t')"
  shows "keeps_schema s s'"
  unfolding UpdateTask_shape [OF assms]
proof (rule schema_update)
  fix r assume "row_ok s r"
  then show "row_ok s (write_columns db t r)"
    using assms by (auto simp: UpdateTask_def Let_def row_ok_def write_columns_def split: if_splits)
qed (simp add: write_columns_def)

lemma SetSnooze_schema:
  assumes "SetSnooze db k u a s = Inr s'"
  shows "keeps_schema s s'"
  unfolding SetSnooze_shape [OF assms]
proof (rule schema_update)
  fix r assume "row_ok s r"
  then show "row_ok s (r\<lparr>t_snoozed_until := null_time u, t_snoozed_by := if u = None then [] else a, t_updated := db\<rparr>)"
    using assms by (auto simp: SetSnooze_def Let_def row_ok_def split: if_splits)
qed simp

section \<open>New rows and deletions\<close>

lemma NextSeq_schema: "NextSeq p s = Inr (s', n) \<Longrightarrow> keeps_schema s s'"
proof -
  let ?f = "\<lambda>q. q\<lparr>pr_seq_counter := pr_seq_counter q + 1\<rparr>"
  assume "NextSeq p s = Inr (s', n)"
  then have s': "s' = s\<lparr>projects := update_where (\<lambda>q. pr_id q = p) ?f (projects s)\<rparr>" by (rule NextSeq_shape)
  have cols: "map c (projects s') = map c (projects s)" if "\<And>q. c (?f q) = c q" for c :: "project \<Rightarrow> 'a"
    using that by (simp add: s' map_update_where)
  have same: "map pr_id (projects s') = map pr_id (projects s)" "map pr_key (projects s') = map pr_key (projects s)"
    "map pr_workflow (projects s') = map pr_workflow (projects s)" by (simp_all add: cols)
  then have "row_ok s' = row_ok s"
    by (intro ext row_ok_cong) (simp_all add: s' flip: set_map)
  moreover have "(\<forall>q\<in>set (projects s'). pr_workflow q \<in> W) \<longleftrightarrow> (\<forall>q\<in>set (projects s). pr_workflow q \<in> W)" for W
    using arg_cong [OF same(3), of set] by (metis (no_types, lifting) imageI imageE set_map)
  ultimately show ?thesis
    using same by (auto simp: keeps_schema_def schema_ok_def keys_ok_def joins_ok_def s')
qed

lemma insert_task_schema:
  assumes "insert_task r s = Inr s'" and "schema_ok s"
  shows "schema_ok s'"
proof -
  have s': "s' = s\<lparr>tasks := tasks s @ [r]\<rparr>" by (rule insert_task_shape [OF assms(1)])
  then have rows: "tasks s' = tasks s @ [r]" and same: "projects s' = projects s" "workflows s' = workflows s"
    "deps s' = deps s" "actors s' = actors s" "task_tags s' = task_tags s" "tags s' = tags s"
    "comments s' = comments s" "artifacts s' = artifacts s" "stars s' = stars s" "actor_exists s' = actor_exists s" by simp_all
  have more: "task_exists s' k \<longleftrightarrow> k = t_id r \<or> task_exists s k" for k by (auto simp: rows task_exists_def)
  have "row_ok s' r" and new: "\<not> task_exists s (t_id r)" "(t_project r, t_seq r) \<notin> (\<lambda>t. (t_project t, t_seq t)) ` set (tasks s)"
    using assms(1) by (auto simp: insert_task_def row_ok_def more same split: if_splits option.splits)
  moreover have "row_ok s' x" if "row_ok s x" for x using that by (auto simp: row_ok_def more same)
  ultimately have "\<forall>x\<in>set (tasks s'). row_ok s' x" using assms(2) by (auto simp: schema_ok_def rows)
  moreover have "keys_ok s'" using assms(2) new by (auto simp: schema_ok_def keys_ok_def rows same task_exists_def)
  moreover have "joins_ok s'" using assms(2) by (auto simp: schema_ok_def joins_ok_def more same)
  ultimately show ?thesis using assms(2) by (simp add: schema_ok_def same)
qed

lemma CreateTask_schema: "CreateTask db fresh t s = Inr (s', t') \<Longrightarrow> keeps_schema s s'"
  unfolding keeps_schema_def
proof
  assume op: "CreateTask db fresh t s = Inr (s', t')" and ok: "schema_ok s"
  obtain s0 where s0: "s0 = s \<or> (\<exists>p n. NextSeq p s = Inr (s0, n))" and ins: "insert_task (new_row t') s0 = Inr s'"
    using CreateTask_shape [OF op] by blast
  have "schema_ok s0" using s0 NextSeq_schema ok by (auto simp: keeps_schema_def)
  with ins show "schema_ok s'" by (rule insert_task_schema)
qed

lemma cascade_delete_schema: "keeps_schema s (cascade_delete k s)"
  unfolding keeps_schema_def
proof
  assume ok: "schema_ok s"
  let ?s = "cascade_delete k s"
  let ?f = "\<lambda>r. r\<lparr>t_parent := []\<rparr>"
  have rows: "tasks ?s = update_where (\<lambda>r. t_parent r = k) ?f (filter (\<lambda>r. t_id r \<noteq> k) (tasks s))"
    and same: "projects ?s = projects s" "workflows ?s = workflows s" "actors ?s = actors s" "tags ?s = tags s"
    and joins: "stars ?s = filter (\<lambda>(t, _). t \<noteq> k) (stars s)" "deps ?s = filter (\<lambda>d. d_task d \<noteq> k \<and> d_depends_on d \<noteq> k) (deps s)"
      "task_tags ?s = filter (\<lambda>(t, _). t \<noteq> k) (task_tags s)" "comments ?s = filter (\<lambda>c. cm_task c \<noteq> k) (comments s)"
      "artifacts ?s = filter (\<lambda>a. af_task a \<noteq> k) (artifacts s)"
    by (simp_all add: cascade_delete_def)
  have ex: "task_exists ?s j \<longleftrightarrow> task_exists s j \<and> j \<noteq> k" for j
  proof -
    have "map t_id (tasks ?s) = map t_id (filter (\<lambda>r. t_id r \<noteq> k) (tasks s))" by (simp add: rows map_update_where)
    from arg_cong [OF this, of set] show ?thesis by (auto simp: task_exists_def)
  qed
  have ac: "actor_exists ?s = actor_exists s" by (simp add: actor_exists_def same fun_eq_iff)
  have "row_ok ?s r" if "r \<in> set (tasks ?s)" for r
    using that ok by (auto simp: rows set_update_where schema_ok_def row_ok_def ex ac same)
  moreover have "keys_ok ?s"
    using ok by (auto simp: schema_ok_def keys_ok_def rows joins same map_update_where distinct_map inj_on_def)
  moreover have "joins_ok ?s" using ok by (auto simp: schema_ok_def joins_ok_def joins ex ac same)
  ultimately show "schema_ok ?s" using ok by (simp add: schema_ok_def same)
qed

lemma linkDependency_schema: "linkDependency db t dep s = Inr s' \<Longrightarrow> keeps_schema s s'"
proof -
  assume "linkDependency db t dep s = Inr s'"
  then obtain d where add: "AddDependency db (t_id t) (t_id dep) s = Inr (s', d)" using linkDependency_shape by blast
  then have "\<not> (\<exists>e\<in>set (deps s). d_task e = t_id t \<and> d_depends_on e = t_id dep)" "t_id t \<noteq> t_id dep"
    "task_exists s (t_id t)" "task_exists s (t_id dep)"
    by (auto simp: AddDependency_def Let_def split: if_splits)
  then show ?thesis
    using AddDependency_shape [OF add] row_ok_cong [of s' s]
    by (auto simp: keeps_schema_def schema_ok_def keys_ok_def joins_ok_def)
qed

lemma RemoveDependency_schema: "RemoveDependency k j s = Inr s' \<Longrightarrow> keeps_schema s s'"
  using row_ok_cong [of s' s] RemoveDependency_shape [of k j s s']
  by (auto simp: keeps_schema_def schema_ok_def keys_ok_def joins_ok_def distinct_map inj_on_def)

lemma attachTaskLabel_schema:
  assumes "attachTaskLabel fresh k n s = Inr s'"
  shows "keeps_schema s s'"
proof -
  obtain s1 l where put: "PutTag fresh \<lparr>tg_id = [], tg_project = [], tg_name = TrimSpace n, tg_color = []\<rparr> s = (s1, l)"
    and att: "AttachTag k (tg_id l) s1 = Inr s'"
    using assms by (auto simp: attachTaskLabel_def Let_def split: if_splits prod.splits)
  have s1: "s1 = s\<lparr>tags := tags s1\<rparr>" and sub: "tg_id ` set (tags s) \<subseteq> tg_id ` set (tags s1)"
    using put by (auto simp: PutTag_def Let_def image_update_where split: option.splits if_splits)
  have "keeps_schema s s1"
    using sub row_ok_cong [of "s\<lparr>tags := tags s1\<rparr>" s]
    by (subst s1) (fastforce simp: keeps_schema_def schema_ok_def keys_ok_def joins_ok_def)
  moreover have "keeps_schema s1 s'"
    using att row_ok_cong [of s' s1]
    by (auto simp: AttachTag_def keeps_schema_def schema_ok_def keys_ok_def joins_ok_def split: if_splits)
  ultimately show ?thesis by (simp add: keeps_schema_def)
qed

lemma DetachTag_schema: "DetachTag k l s = Inr s' \<Longrightarrow> keeps_schema s s'"
  using row_ok_cong [of s' s] DetachTag_shape [of k l s s']
  by (auto simp: keeps_schema_def schema_ok_def keys_ok_def joins_ok_def)

lemma CreateComment_schema: "CreateComment db fresh k a b s = Inr (s', c) \<Longrightarrow> keeps_schema s s'"
  using row_ok_cong [of s' s]
  by (auto simp: CreateComment_def Let_def keeps_schema_def schema_ok_def keys_ok_def joins_ok_def split: if_splits)

lemma artifacts_schema:
  "\<forall>a\<in>set as - set (artifacts s). task_exists s (af_task a) \<and> actor_exists s (af_actor a) \<Longrightarrow>
    keeps_schema s (s\<lparr>artifacts := as\<rparr>)"
  using row_ok_cong [of "s\<lparr>artifacts := as\<rparr>" s]
  by (auto simp: keeps_schema_def schema_ok_def keys_ok_def joins_ok_def)

lemma PutArtifact_schema: "PutArtifact db fresh a s = Inr (s', a') \<Longrightarrow> keeps_schema s s'"
  unfolding PutArtifact_def Let_def
  by (auto simp: set_update_where split: if_splits intro!: artifacts_schema)

lemma flush_schema: "keeps_schema (m_store m) (flush m)"
proof -
  have "task_exists (flush m) = task_exists (m_store m)" "actor_exists (flush m) = actor_exists (m_store m)"
    by (simp_all add: task_exists_def actor_exists_def fun_eq_iff)
  moreover have "stars (flush m) = stars (m_store m)"
    by (simp add: flush_def deliverInbox_store Let_def)
  ultimately show ?thesis
    using row_ok_cong [of "flush m" "m_store m"]
    by (auto simp: keeps_schema_def schema_ok_def keys_ok_def joins_ok_def)
qed

lemma DeleteTask_schema: "DeleteTask db k hard s = Inr s' \<Longrightarrow> keeps_schema s s'"
proof (cases hard)
  case False
  assume "DeleteTask db k hard s = Inr s'"
  from DeleteTask_shape [OF this] False show ?thesis by (simp add: schema_update_plain)
next
  case True
  assume "DeleteTask db k hard s = Inr s'"
  from DeleteTask_shape [OF this] True show ?thesis by (simp add: cascade_delete_schema)
qed

text \<open>Writes that touch no column the schema speaks of, or clear one.\<close>

lemma plain_schema:
  "RestoreTask db k s = Inr s' \<Longrightarrow> keeps_schema s s'"
  "WakeSnooze k w s = (s', b) \<Longrightarrow> keeps_schema s s'"
  "RenewLease db k tok u s = Inr (s', b) \<Longrightarrow> keeps_schema s s'"
  "ReleaseLease db k tok s = Inr (s', b) \<Longrightarrow> keeps_schema s s'"
  "ClearClaim db k h now s = Inr (s', b) \<Longrightarrow> keeps_schema s s'"
  "ForceReclaim k h now s = Inr (s', b) \<Longrightarrow> keeps_schema s s'"
  apply (drule RestoreTask_shape WakeSnooze_shape RenewLease_shape ReleaseLease_shape ClearClaim_shape
      ForceReclaim_shape, simp add: schema_update_plain drop_lease_def)+
  done

lemma comments_schema:
  "(\<And>r. cm_task (f r) = cm_task r \<and> cm_author (f r) = cm_author r \<and> cm_id (f r) = cm_id r) \<Longrightarrow>
    keeps_schema s (s\<lparr>comments := update_where p f (comments s)\<rparr>)"
  using row_ok_cong [of "s\<lparr>comments := update_where p f (comments s)\<rparr>" s]
  by (auto simp: keeps_schema_def schema_ok_def keys_ok_def joins_ok_def set_update_where map_update_where)

lemma note_schema:
  "UpdateComment db c s = Inr (s', c') \<Longrightarrow> keeps_schema s s'"
  "DeleteComment db k s = Inr s' \<Longrightarrow> keeps_schema s s'"
  unfolding UpdateComment_def DeleteComment_def Let_def
  by (auto split: if_splits intro!: comments_schema)

lemma star_schema:
  "StarTask a k s = Inr (s', b) \<Longrightarrow> keeps_schema s s'"
  "UnstarTask a k s = Inr (s', b) \<Longrightarrow> keeps_schema s s'"
  using row_ok_cong [of s' s] unfolding StarTask_def UnstarTask_def
  by (auto simp: keeps_schema_def schema_ok_def keys_ok_def joins_ok_def split: if_splits)

lemma schema_trans: "keeps_schema s s' \<Longrightarrow> keeps_schema s' s'' \<Longrightarrow> keeps_schema s s''"
  by (simp add: keeps_schema_def)

interpretation schema: all_services keeps_schema
  by unfold_locales (fact schema_same schema_trans NextSeq_schema CreateTask_schema UpdateTask_schema SetSnooze_schema
      linkDependency_schema RemoveDependency_schema attachTaskLabel_schema DetachTag_schema CreateComment_schema
      PutArtifact_schema flush_schema ClaimTask_schema ClaimNextTask_schema DeleteTask_schema plain_schema note_schema
      star_schema)+



end
