(* ===== verification/Audit_Trail.thy ===== *)
theory Audit_Trail
  imports Dep_Graph Lease_Handlers
begin

text \<open>
  Nothing changes in silence: every step of a handler only adds to the audit entries and events its
  mutation queues, a handler that wrote anything has queued an audit entry and an event for it,
  stamped with the caller and the time, and the commit appends what is queued to the logs.
\<close>

section \<open>Steps that queue nothing\<close>

definition same_log :: "mutation \<Rightarrow> mutation \<Rightarrow> bool" where
  "same_log m m' \<longleftrightarrow> m_audits m' = m_audits m \<and> m_events m' = m_events m \<and> m_actor m' = m_actor m \<and> m_env m' = m_env m"

lemma same_log_refl [simp]: "same_log m m"
  by (simp add: same_log_def)

lemma same_log_trans: "same_log m m' \<Longrightarrow> same_log m' m'' \<Longrightarrow> same_log m m''"
  by (simp add: same_log_def)

lemma same_log_notes [simp]:
  "same_log m (notify n rs m') \<longleftrightarrow> same_log m m'"
  "same_log m (notifyComment u c bd m') \<longleftrightarrow> same_log m m'"
  "same_log m (notifyStatus u fr to m') \<longleftrightarrow> same_log m m'"
  "same_log m (notifyAssigned u m') \<longleftrightarrow> same_log m m'"
  "same_log m (notifyMentions n tx1 tx2 m') \<longleftrightarrow> same_log m m'"
  "same_log (notifyComment u c bd m) m' \<longleftrightarrow> same_log m m'"
  using notes_only_frame [OF notes_only_notifyComment] notes_only_frame [OF notes_only_notifyStatus]
    notes_only_frame [OF notes_only_notifyAssigned] notes_only_frame [OF notes_only_notifyMentions]
  by (simp_all add: same_log_def)

lemma statement_log:
  "on_store f m = Inr (m', x) \<Longrightarrow> same_log m m'"
  "tx_store g m = Inr m' \<Longrightarrow> same_log m m'"
  "new_id m = (m', k) \<Longrightarrow> same_log m m'"
  by (auto simp: on_store_Inr_iff tx_store_def new_id_def same_log_def)

lemma write_log:
  "tx_create t m = Inr (m', t') \<Longrightarrow> same_log m m'"
  "tx_update t m = Inr (m', t') \<Longrightarrow> same_log m m'"
  "tx_comment k b m = Inr (m', c) \<Longrightarrow> same_log m m'"
  "tx_artifact a m = Inr (m', a') \<Longrightarrow> same_log m m'"
  "tx_attach k n m = Inr m' \<Longrightarrow> same_log m m'"
  unfolding tx_create_def tx_update_def tx_comment_def tx_artifact_def tx_attach_def
  by (auto split: prod.splits dest!: statement_log intro: same_log_trans)

lemma attach_all_log: "attach_all k ns m = Inr m' \<Longrightarrow> same_log m m'"
  by (induction ns arbitrary: m) (auto dest!: write_log intro: same_log_trans)

lemma spawnOccurrence_log: "spawnOccurrence d t to m = Inr (m', t', nxt) \<Longrightarrow> same_log m m'"
  by (auto simp: spawnOccurrence_def Let_def split: if_splits sum.splits option.splits
      dest!: write_log attach_all_log intro: same_log_trans)

lemma fold_res_log:
  assumes "fold_res f xs m = Inr m'" and "\<And>x m m'. f x m = Inr m' \<Longrightarrow> same_log m m'"
  shows "same_log m m'"
  using assms(1) by (induction xs arbitrary: m) (auto intro: same_log_trans [OF assms(2)])

lemma replaceTaskLabels_log: "replaceTaskLabels t cur ns m = Inr m' \<Longrightarrow> same_log m m'"
  unfolding replaceTaskLabels_def Let_def
  by (auto split: if_splits dest!: attach_all_log
      elim!: same_log_trans fold_res_log dest: statement_log)

lemma link_all_log: "link_all t refs m = Inr m' \<Longrightarrow> same_log m m'"
  unfolding link_all_def by (erule fold_res_log) (auto dest: statement_log)

lemma requireLeaseToken_log: "requireLeaseToken t tok m = Inr m' \<Longrightarrow> same_log m m'"
  by (drule requireLease_as_renewal) (auto dest: statement_log)

lemma applyTaskLease_log: "applyTaskLease t ttl tok u m = Inr (m', g, u') \<Longrightarrow> same_log m m'"
  unfolding applyTaskLease_def Let_def by (elim rbind_InrE) (auto split: if_splits dest!: statement_log)

lemma with_comment_log:
  "(if c \<noteq> [] then rbind (tx_comment k c m) (\<lambda>(m, x). Inr (notifyComment t (cm_id x) (cm_body x) m)) else Inr m) = Inr m' \<Longrightarrow>
    same_log m m'"
  by (auto split: if_splits dest: write_log)

lemmas quiet_logs = statement_log write_log attach_all_log spawnOccurrence_log replaceTaskLabels_log link_all_log
  requireLeaseToken_log applyTaskLease_log with_comment_log

section \<open>The trail of a handler\<close>

definition stamped_audit :: "mutation \<Rightarrow> audit \<Rightarrow> bool" where
  "stamped_audit m a \<longleftrightarrow> au_actor a = a_id (m_actor m) \<and> au_at a = m_now m"

definition stamped_event :: "mutation \<Rightarrow> event \<Rightarrow> bool" where
  "stamped_event m e \<longleftrightarrow> ev_actor e = a_id (m_actor m) \<and> ev_at e = m_now m"

text \<open>\<open>added n m m'\<close>: the queues of \<open>m'\<close> are those of \<open>m\<close> with at least \<open>n\<close> entries more.\<close>

definition added :: "nat \<Rightarrow> mutation \<Rightarrow> mutation \<Rightarrow> bool" where
  "added n m m' \<longleftrightarrow> m_actor m' = m_actor m \<and> m_env m' = m_env m \<and>
    (\<exists>as es. m_audits m' = m_audits m @ as \<and> m_events m' = m_events m @ es \<and> n \<le> length as \<and> length as \<le> length es \<and>
       (\<forall>a\<in>set as. stamped_audit m a) \<and> (\<forall>e\<in>set es. stamped_event m e))"

lemma added_same: "same_log m m' \<Longrightarrow> added 0 m m'"
  by (simp add: added_def same_log_def)

lemma added_trans:
  assumes "added n m m'" and "added k m' m''"
  shows "added (n + k) m m''"
proof -
  obtain as es where one: "m_audits m' = m_audits m @ as" "m_events m' = m_events m @ es" "n \<le> length as"
    "length as \<le> length es" "\<forall>a\<in>set as. stamped_audit m a" "\<forall>e\<in>set es. stamped_event m e"
    using assms(1) by (auto simp: added_def)
  obtain bs fs where two: "m_audits m'' = m_audits m' @ bs" "m_events m'' = m_events m' @ fs" "k \<le> length bs"
    "length bs \<le> length fs" "\<forall>a\<in>set bs. stamped_audit m' a" "\<forall>e\<in>set fs. stamped_event m' e"
    using assms(2) by (auto simp: added_def)
  have same: "m_actor m' = m_actor m" "m_env m' = m_env m" "m_actor m'' = m_actor m" "m_env m'' = m_env m"
    using assms by (simp_all add: added_def)
  then have "stamped_audit m' = stamped_audit m" "stamped_event m' = stamped_event m"
    by (simp_all add: stamped_audit_def stamped_event_def fun_eq_iff)
  with one two same show ?thesis
    unfolding added_def by (intro conjI exI [of _ "as @ bs"] exI [of _ "es @ fs"]) auto
qed

lemma added_less: "added n m m' \<Longrightarrow> k \<le> n \<Longrightarrow> added k m m'"
  unfolding added_def by (meson order_trans)

lemma added_Record: "added n m m' \<Longrightarrow> added (Suc n) m (Record a t k p b af pl m')"
proof -
  assume "added n m m'"
  moreover have "added 1 m' (Record a t k p b af pl m')"
    by (auto simp: added_def Record_def Event_def Audit_def stamped_audit_def stamped_event_def)
  ultimately show ?thesis using added_trans [of n m m' 1] by simp
qed

lemma added_RecordAs: "added n m m' \<Longrightarrow> added (Suc n) m (RecordAs ty a t k p b af pl m')"
proof -
  assume "added n m m'"
  moreover have "added 1 m' (RecordAs ty a t k p b af pl m')"
    by (auto simp: added_def RecordAs_def Event_def Audit_def stamped_audit_def stamped_event_def)
  ultimately show ?thesis using added_trans [of n m m' 1] by simp
qed

lemma added_Event: "added n m m' \<Longrightarrow> added n m (Event t st k p pl m')"
proof -
  assume "added n m m'"
  moreover have "added 0 m' (Event t st k p pl m')"
    by (auto simp: added_def Event_def stamped_audit_def stamped_event_def)
  ultimately show ?thesis using added_trans [of n m m' 0] by simp
qed

lemma added_recordOccurrence: "added n m m' \<Longrightarrow> added n m (recordOccurrence t nxt m')"
  unfolding recordOccurrence_def
  by (cases nxt) (auto intro: added_less [OF added_Record])

lemma added_notes [simp]:
  "added n m (notify x rs m') \<longleftrightarrow> added n m m'"
  "added n m (notifyComment u c bd m') \<longleftrightarrow> added n m m'"
  "added n m (notifyStatus u fr to m') \<longleftrightarrow> added n m m'"
  "added n m (notifyAssigned u m') \<longleftrightarrow> added n m m'"
  "added n m (notifyMentions x tx1 tx2 m') \<longleftrightarrow> added n m m'"
  using notes_only_frame [OF notes_only_notifyComment] notes_only_frame [OF notes_only_notifyStatus]
    notes_only_frame [OF notes_only_notifyAssigned] notes_only_frame [OF notes_only_notifyMentions]
  by (simp_all add: added_def)

text \<open>A handler either leaves the tables or queues something.\<close>

definition trail :: "mutation \<Rightarrow> mutation \<Rightarrow> bool" where
  "trail m m' \<longleftrightarrow> added (if m_store m' = m_store m then 0 else 1) m m'"

lemma trailI: "added 1 m m' \<Longrightarrow> trail m m'"
  by (auto simp: trail_def intro: added_less)

section \<open>Every handler leaves a trail\<close>

lemma added_self [simp]: "added 0 m m"
  by (simp add: added_same)

lemma added_0_trans: "added 0 m m' \<Longrightarrow> added 0 m' m'' \<Longrightarrow> added 0 m m''"
  using added_trans [of 0 m m' 0 m''] by simp

lemma added_after: "same_log m m1 \<Longrightarrow> added n m1 m' \<Longrightarrow> added n m m'"
  using added_trans [OF added_same, of m m1 n m'] by simp

lemma trail_self [simp]: "trail m m"
  by (simp add: trail_def)

lemma added_Record_0: "added 0 m m' \<Longrightarrow> added 0 m (Record a t k p b af pl m')"
  by (rule added_less [OF added_Record]) auto

lemma trail_same_store: "added 0 m m' \<Longrightarrow> m_store m' = m_store m \<Longrightarrow> trail m m'"
  by (simp add: trail_def)

lemmas leaves_trail = trailI [unfolded One_nat_def] added_Record added_RecordAs added_Record_0 added_Event added_recordOccurrence

lemmas log_chain = added_same added_after same_log_trans

lemma recordClaim_added: "recordClaim m t tok u g = Inr (m', c) \<Longrightarrow> added 1 m m'"
  unfolding recordClaim_def Let_def
  by (elim rbind_InrE) (auto split: if_splits intro!: added_Record)

lemma claim_task_tx_trail: "claim_task_tx ctx ref inp m = Inr (m', c) \<Longrightarrow> trail m m'"
  unfolding claim_task_tx_def Let_def
  by (elim rbind_InrE)
    (auto split: if_splits dest!: quiet_logs recordClaim_added intro!: leaves_trail, blast intro: log_chain)

lemma claimNextOnce_trail: "claimNextOnce inp m = Inr (m', c) \<Longrightarrow> trail m m'"
proof (cases c)
  case None
  then show "claimNextOnce inp m = Inr (m', c) \<Longrightarrow> ?thesis" by (auto dest: claimNextOnce_None)
next
  case (Some x)
  then show "claimNextOnce inp m = Inr (m', c) \<Longrightarrow> ?thesis"
    unfolding claimNextOnce_def Let_def
    by (elim rbind_InrE)
      (auto split: option.splits dest!: quiet_logs recordClaim_added intro!: leaves_trail, blast intro: log_chain)
qed

lemma renew_tx_trail: "renew_tx ctx ref tok ttl m = Inr (m', c) \<Longrightarrow> trail m m'"
  unfolding renew_tx_def Let_def
  by (elim rbind_InrE) (auto split: if_splits dest!: quiet_logs intro!: leaves_trail added_same)

lemma applyRelease_added: "applyRelease t w inp m = Inr m' \<Longrightarrow> added 0 m m'"
  unfolding applyRelease_def Let_def
  by (elim rbind_InrE)
    (auto split: if_splits dest!: quiet_logs intro!: leaves_trail, (blast intro: log_chain)+)

lemma release_tx_trail: "release_tx ctx ref tok inp m = Inr (m', u) \<Longrightarrow> trail m m'"
  unfolding release_tx_def Let_def
  by (elim rbind_InrE)
    (auto split: if_splits dest!: statement_log applyRelease_added intro!: leaves_trail, (blast intro: log_chain)+)

lemma reclaim_tx_trail: "reclaim_tx ctx ref reason m = Inr (m', t) \<Longrightarrow> trail m m'"
  unfolding reclaim_tx_def Let_def
  by (elim rbind_InrE) (auto split: if_splits dest!: quiet_logs intro!: leaves_trail added_same)

lemma transition_tx_trail: "transition_tx ctx ref inp m = Inr (m', t) \<Longrightarrow> trail m m'"
  unfolding transition_tx_def Let_def
  by (elim rbind_InrE)
    (auto simp: Let_def split: prod.splits dest!: quiet_logs intro!: leaves_trail, (blast intro: log_chain)+)

lemma create_tx_trail: "create_tx ctx inp rule m = Inr (m', t) \<Longrightarrow> trail m m'"
  unfolding create_tx_def Let_def
  by (elim rbind_InrE)
    (auto split: if_splits prod.splits dest!: quiet_logs intro!: leaves_trail, (blast intro: log_chain)+)

lemma update_tx_trail: "update_tx ctx ref inp m = Inr (m', t) \<Longrightarrow> trail m m'"
  unfolding update_tx_def Let_def
  by (elim rbind_InrE)
    (auto split: if_splits option.splits dest!: quiet_logs intro!: leaves_trail, (blast intro: log_chain)+)

lemma edit_tx_trails:
  "restore_tx ctx ref m = Inr (m', t) \<Longrightarrow> trail m m'"
  "add_dependency_tx ctx ref on m = Inr (m', u) \<Longrightarrow> trail m m'"
  "remove_dependency_tx ctx ref on m = Inr (m', u) \<Longrightarrow> trail m m'"
  "add_tag_tx ctx ref n m = Inr (m', u) \<Longrightarrow> trail m m'"
  "remove_tag_tx ctx ref n m = Inr (m', u) \<Longrightarrow> trail m m'"
  "snooze_tx ctx ref until m = Inr (m', t) \<Longrightarrow> trail m m'"
  unfolding restore_tx_def add_dependency_tx_def remove_dependency_tx_def add_tag_tx_def remove_tag_tx_def
    snooze_tx_def Let_def
  by (auto split: if_splits dest!: quiet_logs intro!: leaves_trail added_same)

lemma unsnooze_tx_trail: "unsnooze_tx ctx ref m = Inr (m', t) \<Longrightarrow> trail m m'"
proof (cases "m' = m")
  case False
  assume "unsnooze_tx ctx ref m = Inr (m', t)"
  with False show ?thesis
    unfolding unsnooze_tx_def Let_def
    by (auto split: if_splits dest!: quiet_logs intro!: leaves_trail added_same)
qed simp

lemma note_tx_trails:
  "add_comment_tx ctx ref text m = Inr (m', c) \<Longrightarrow> trail m m'"
  "edit_comment_tx ctx cid text m = Inr (m', c) \<Longrightarrow> trail m m'"
  "delete_comment_tx ctx cid m = Inr (m', u) \<Longrightarrow> trail m m'"
  unfolding add_comment_tx_def edit_comment_tx_def delete_comment_tx_def
  by (auto split: if_splits dest!: quiet_logs intro!: leaves_trail added_same)

lemma put_artifact_tx_trail: "put_artifact_tx ctx ref ai m = Inr (m', x) \<Longrightarrow> trail m m'"
  unfolding put_artifact_tx_def
  by (elim rbind_InrE) (auto dest!: quiet_logs intro!: leaves_trail, (blast intro: log_chain)+)

lemma star_unchanged:
  "StarTask a k s = Inr (s', False) \<Longrightarrow> s' = s"
  "UnstarTask a k s = Inr (s', False) \<Longrightarrow> s' = s"
proof -
  assume "UnstarTask a k s = Inr (s', False)"
  moreover have "filter (\<lambda>x. x \<noteq> (k, a)) (stars s) = stars s" if "(k, a) \<notin> set (stars s)"
    using that by (auto simp: filter_id_conv)
  ultimately show "s' = s" by (simp add: UnstarTask_def)
qed (auto simp: StarTask_def split: if_splits)

lemma star_tx_trail: "star_tx ctx ref starred m = Inr (m', u) \<Longrightarrow> trail m m'"
proof (cases "m_store m' = m_store m")
  case True
  moreover assume "star_tx ctx ref starred m = Inr (m', u)"
  then have "added 0 m m'"
    unfolding star_tx_def Let_def
    by (elim rbind_InrE) (auto split: if_splits dest!: statement_log intro!: added_Record_0 intro: added_same)
  ultimately show ?thesis by (simp add: trail_same_store)
next
  case False
  moreover assume "star_tx ctx ref starred m = Inr (m', u)"
  ultimately show ?thesis
    unfolding star_tx_def Let_def
    by (elim rbind_InrE) (auto split: if_splits simp: on_store_Inr_iff same_log_def dest!: star_unchanged
        intro!: leaves_trail added_same)
qed

lemma trail_trans: "trail m m' \<Longrightarrow> trail m' m'' \<Longrightarrow> trail m m''"
  unfolding trail_def using added_trans added_less
  by (auto split: if_splits) (metis add_0 add.commute le_add1 plus_1_eq_Suc)+

lemma trail_quiet: "trail m m' \<Longrightarrow> added 0 m m'"
  unfolding trail_def by (auto intro: added_less split: if_splits)

lemma delete_all_added: "delete_all ctx hard cascade ts m = Inr m' \<Longrightarrow> added (length ts) m m'"
proof (induction ts arbitrary: m)
  case (Cons t ts)
  then obtain m1 pl where del: "tx_store (DeleteTask (m_db m) (t_id t) hard) m = Inr m1"
    and rest: "delete_all ctx hard cascade ts (Record ''task.delete'' EventTaskDeleted (t_id t) (t_project t)
      (Some (TaskSnap t)) None pl m1) = Inr m'"
    by (auto simp: Let_def)
  have "added 1 m1 (Record ''task.delete'' EventTaskDeleted (t_id t) (t_project t) (Some (TaskSnap t)) None pl m1)"
    by (simp add: added_Record)
  from added_trans [OF this Cons.IH [OF rest]] statement_log(2) [OF del] show ?case
    by (auto intro: added_after)
qed simp

lemma delete_tx_trail: "delete_tx ctx ref inp m = Inr (m', u) \<Longrightarrow> trail m m'"
proof -
  assume "delete_tx ctx ref inp m = Inr (m', u)"
  then obtain t subtree hard where "delete_all ctx hard (di_cascade inp) subtree m = Inr m'"
    unfolding delete_tx_def Let_def by (elim rbind_InrE) (auto split: if_splits)
  then show ?thesis
    using delete_all_added [of ctx hard "di_cascade inp" subtree m m']
    by (cases subtree) (auto intro!: trailI elim: added_less simp del: delete_all.simps(2))
qed

lemma ClearClaim_False: "ClearClaim db k h now s = Inr (s', False) \<Longrightarrow> s' = s"
  by (auto simp: ClearClaim_def Let_def split: if_splits)

lemma sweepOne_trail: "sweepOne t m = Inr (m', b) \<Longrightarrow> trail m m'"
proof (cases b)
  case False
  assume "sweepOne t m = Inr (m', b)"
  with False have "m' = m"
    unfolding sweepOne_def Let_def
    by (elim rbind_InrE) (auto simp: on_store_Inr_iff split: if_splits option.splits dest!: ClearClaim_False)
  then show ?thesis by simp
next
  case True
  assume "sweepOne t m = Inr (m', b)"
  with True show ?thesis
    unfolding sweepOne_def Let_def
    by (elim rbind_InrE)
      (auto split: if_splits option.splits dest!: quiet_logs intro!: leaves_trail, (blast intro: log_chain)+)
qed

lemma sweep_all_trail: "sweep_all ts n m = Inr (m', k) \<Longrightarrow> trail m m'"
  by (induction ts arbitrary: n m) (auto dest!: sweepOne_trail intro: trail_trans)

lemma WakeSnooze_False: "WakeSnooze k u s = (s', False) \<Longrightarrow> s' = s"
  by (auto simp: WakeSnooze_def Let_def update_where_none)

lemma wake_all_trail: "wake_all ts n m = Inr (m', k) \<Longrightarrow> trail m m'"
proof (induction ts arbitrary: n m)
  case (Cons t ts)
  obtain s ok where w: "WakeSnooze (t_id t) (case t_snoozed_until t of None \<Rightarrow> 0 | Some u \<Rightarrow> u) (m_store m) = (s, ok)"
    by fastforce
  show ?case
  proof (cases ok)
    case True
    have "same_log m (m\<lparr>m_store := s\<rparr>)" by (simp add: same_log_def)
    then have "trail m (Record a ty (t_id t) p b af pl (m\<lparr>m_store := s\<rparr>))" for a ty p b af pl
      by (intro leaves_trail added_same)
    moreover obtain a ty p b af pl where
      "wake_all ts (n + 1) (Record a ty (t_id t) p b af pl (m\<lparr>m_store := s\<rparr>)) = Inr (m', k)"
      using Cons.prems w True by (auto simp: Let_def)
    ultimately show ?thesis using Cons.IH trail_trans by blast
  next
    case False
    with w have "m\<lparr>m_store := s\<rparr> = m" by (auto dest: WakeSnooze_False)
    with False Cons w show ?thesis by (auto simp: Let_def)
  qed
qed simp

text \<open>Copies.\<close>

lemma fold_res_added:
  assumes "fold_res f xs m = Inr m'" and "\<And>x m m'. f x m = Inr m' \<Longrightarrow> added n m m'"
  shows "added (n * length xs) m m'"
  using assms(1)
proof (induction xs arbitrary: m)
  case (Cons x xs)
  then obtain m1 where "f x m = Inr m1" "fold_res f xs m1 = Inr m'" by auto
  then show ?case using added_trans [OF assms(2) Cons.IH] by simp
qed simp

lemma copyComments_added: "copyComments src dst m = Inr m' \<Longrightarrow> added 0 m m'"
  unfolding copyComments_def
  by (drule fold_res_added [where n = 0])
    (auto simp: copy_comment_def elim!: rbind_InrE dest!: write_log intro!: added_less [OF added_RecordAs] intro: added_same)

lemma copyOne_added: "copyOne src first k m = Inr (k', m') \<Longrightarrow> added 0 m m'"
  by (elim copyOne_steps)
    (auto dest!: quiet_logs copyComments_added split: if_splits intro: added_same added_after log_chain)

lemma copy_all_added: "copy_all ctx sources first k m = Inr (k', m') \<Longrightarrow> added 0 m m'"
  by (induction sources arbitrary: first k m) (auto intro: added_0_trans [OF copyOne_added])

lemma copyDependencies_log: "copyDependencies ctx k source m = Inr m' \<Longrightarrow> same_log m m'"
  unfolding copyDependencies_def
  by (auto simp: copy_edge_def split: option.splits elim!: fold_res_log dest: statement_log)

lemma record_copies_added: "record_copies sources k m = Inr m' \<Longrightarrow> added (length (k_copies k)) m m'"
  unfolding record_copies_def
  by (drule fold_res_added [where n = 1])
    (auto simp: record_copy_def Let_def split: option.splits intro: added_Record [of 0, simplified])

lemma copy_tx_trail: "copy_tx ctx ref inp m = Inr (m', t) \<Longrightarrow> trail m m'"
proof (elim copy_tx_steps)
  fix source k k1 m1 m2 ts u
  let ?sources = "map (read_source (m_store m)) ts"
  assume all: "copy_all ctx ?sources True k m = Inr (k1, m1)"
    and deps: "(if cp_with_dependencies inp then fold_res (copyDependencies ctx k1) ?sources m1 else Inr m1) = Inr m2"
    and recorded: "record_copies ?sources k1 m2 = Inr m'" and "map_of (k_copies k1) (t_id source) = Some u"
  then have "1 \<le> length (k_copies k1)" by (cases "k_copies k1") auto
  then have "added 1 m2 m'" using record_copies_added [OF recorded] by (blast intro: added_less)
  moreover have "same_log m1 m2"
    using deps by (auto split: if_splits elim: fold_res_log intro: copyDependencies_log)
  ultimately have "added 1 m1 m'" by (blast intro: added_after)
  then show ?thesis using added_trans [OF copy_all_added [OF all]] by (auto intro: trailI)
qed

section \<open>No write touches the logs\<close>

definition same_store_log :: "store \<Rightarrow> store \<Rightarrow> bool" where
  "same_store_log s s' \<longleftrightarrow> audits s' = audits s \<and> events s' = events s"

interpretation logs: all_writes same_store_log
  by unfold_locales (auto simp: same_store_log_def cascade_delete_def split: if_splits
      dest!: write_shapes CreateTask_shape)

lemma RequireActor_caller: "RequireActor ctx = Inr a \<Longrightarrow> c_actor ctx = Some a"
  by (auto simp: RequireActor_def split: option.splits)

lemma authorize_caller: "authorize ctx act r = Inr a \<Longrightarrow> c_actor ctx = Some a"
  unfolding authorize_def Let_def by (auto dest: RequireActor_caller)

section \<open>Every call is audited\<close>

text \<open>Everything a call may write but the logs and the inbox.\<close>

definition contents :: "store \<Rightarrow> store" where
  "contents s = s\<lparr>inbox := [], events := [], audits := []\<rparr>"

definition audited :: "env \<Rightarrow> call_ctx \<Rightarrow> store \<Rightarrow> store \<Rightarrow> bool" where
  "audited e ctx s s' \<longleftrightarrow> (\<exists>as es. audits s' = audits s @ as \<and> events s' = events s @ es \<and> length as \<le> length es \<and>
     (\<forall>x\<in>set as. au_at x = e_now e \<and> (\<exists>who. c_actor ctx = Some who \<and> au_actor x = a_id who)) \<and>
     (contents s' \<noteq> contents s \<longrightarrow> as \<noteq> []))"

lemma audited_same [simp]: "audited e ctx s s"
  by (simp add: audited_def)

lemma contents_flush [simp]: "contents (flush m) = contents (m_store m)"
  using flush_eq [of m] by (cases "m_store m", cases "flush m") (simp add: contents_def)

lemma write_audited:
  assumes "write_tx e ctx a f s = (s', r)" and "c_actor ctx = Some a"
    and "\<And>m x. f (begin_tx e ctx a s) = Inr (m, x) \<Longrightarrow>
      trail (begin_tx e ctx a s) m \<and> tx_rel same_store_log (begin_tx e ctx a s) m"
  shows "audited e ctx s s'"
proof (cases r)
  case (Inl err)
  with assms(1) show ?thesis by (auto dest: write_tx_Inl)
next
  case (Inr x)
  with assms(1) write_tx_Inr obtain m where m: "f (begin_tx e ctx a s) = Inr (m, x)" and s': "s' = flush m" by metis
  let ?b = "begin_tx e ctx a s"
  from assms(3) [OF m] have log: "length (m_audits m) \<le> length (m_events m)"
    "m_store m \<noteq> s \<longrightarrow> m_audits m \<noteq> []" "\<forall>x\<in>set (m_audits m). stamped_audit ?b x"
    and same: "same_store_log s (m_store m)"
    by (auto simp: trail_def added_def tx_rel_def split: if_splits)
  obtain js es' where flush: "flush m = (m_store m)\<lparr>inbox := inbox (m_store m) @ js,
      audits := audits (m_store m) @ m_audits m, events := events (m_store m) @ m_events m @ es'\<rparr>"
    using flush_shape by blast
  have "audits s' = audits s @ m_audits m" "events s' = events s @ (m_events m @ es')"
    using same by (simp_all add: s' flush same_store_log_def)
  moreover have "contents s' \<noteq> contents s \<longrightarrow> m_audits m \<noteq> []" using log(2) by (auto simp: s')
  ultimately show ?thesis
    using log(1,3) assms(2) unfolding audited_def
    by (intro exI [of _ "m_audits m"] exI [of _ "m_events m @ es'"]) (auto simp: stamped_audit_def)
qed

lemma handler_audited:
  assumes "(case g of Inl err \<Rightarrow> (s, Inl err) | Inr a \<Rightarrow> write_tx e ctx a (f a) s) = (s', r)"
    and "\<And>a. g = Inr a \<Longrightarrow> c_actor ctx = Some a"
    and "\<And>a m x. f a (begin_tx e ctx a s) = Inr (m, x) \<Longrightarrow>
      trail (begin_tx e ctx a s) m \<and> tx_rel same_store_log (begin_tx e ctx a s) m"
  shows "audited e ctx s s'"
  using assms by (cases g) (auto intro: write_audited)

text \<open>What each handler's transaction does, log and tables together.\<close>

lemmas tx_trails = claim_task_tx_trail renew_tx_trail release_tx_trail sweep_all_trail reclaim_tx_trail delete_tx_trail
  transition_tx_trail update_tx_trail edit_tx_trails unsnooze_tx_trail wake_all_trail
  note_tx_trails put_artifact_tx_trail star_tx_trail copy_tx_trail

lemmas tx_logs = logs.claim_task_tx_rel logs.renew_tx_rel logs.release_tx_rel logs.sweep_all_rel logs.reclaim_tx_rel
  logs.delete_tx_rel logs.transition_tx_rel logs.update_tx_rel logs.restore_tx_rel logs.add_dependency_tx_rel
  logs.remove_dependency_tx_rel logs.add_tag_tx_rel logs.remove_tag_tx_rel logs.snooze_tx_rel logs.unsnooze_tx_rel
  logs.wake_all_rel logs.add_comment_tx_rel logs.edit_comment_tx_rel logs.delete_comment_tx_rel logs.star_tx_rel
  logs.put_artifact_tx_rel logs.copy_tx_rel

lemma audited_services:
  "service_ClaimTask e ctx ref ci s = (s', rc) \<Longrightarrow> audited e ctx s s'"
  "service_RenewLease e ctx ref tok ttl s = (s', rc) \<Longrightarrow> audited e ctx s s'"
  "service_ReleaseLease e ctx ref tok ri s = (s', ru) \<Longrightarrow> audited e ctx s s'"
  "service_SweepLeases e ctx limit s = (s', rn) \<Longrightarrow> audited e ctx s s'"
  "service_ForceReclaim e ctx ref reason s = (s', rt) \<Longrightarrow> audited e ctx s s'"
  "service_DeleteTask e ctx ref di s = (s', ru) \<Longrightarrow> audited e ctx s s'"
  "service_TransitionTask e ctx ref ti s = (s', rt) \<Longrightarrow> audited e ctx s s'"
  "service_UpdateTask e ctx ref uin s = (s', rt) \<Longrightarrow> audited e ctx s s'"
  "service_RestoreTask e ctx ref s = (s', rt) \<Longrightarrow> audited e ctx s s'"
  "service_AddDependency e ctx ref on s = (s', ru) \<Longrightarrow> audited e ctx s s'"
  "service_RemoveDependency e ctx ref on s = (s', ru) \<Longrightarrow> audited e ctx s s'"
  "service_UnsnoozeTask e ctx ref s = (s', rt) \<Longrightarrow> audited e ctx s s'"
  "service_WakeSnoozed e ctx limit s = (s', rn) \<Longrightarrow> audited e ctx s s'"
  "service_DeleteComment e ctx cid s = (s', ru) \<Longrightarrow> audited e ctx s s'"
  "service_setStar e ctx ref starred s = (s', ru) \<Longrightarrow> audited e ctx s s'"
  "service_PutArtifact e ctx ref ai s = (s', ra) \<Longrightarrow> audited e ctx s s'"
  unfolding service_ClaimTask_def service_RenewLease_def service_ReleaseLease_def service_SweepLeases_def
    service_ForceReclaim_def service_DeleteTask_def service_TransitionTask_def service_UpdateTask_def
    service_RestoreTask_def service_AddDependency_def service_RemoveDependency_def service_UnsnoozeTask_def
    service_WakeSnoozed_def service_DeleteComment_def service_setStar_def service_PutArtifact_def
  by (erule handler_audited, fastforce dest: authorize_caller split: if_splits,
      blast intro: tx_trails tx_logs)+

lemma add_tag_audited: "service_AddTag e ctx ref n s = (s', r) \<Longrightarrow> audited e ctx s s'"
  unfolding service_AddTag_def Let_def
  by (auto split: if_splits elim!: handler_audited dest: authorize_caller intro: tx_trails tx_logs)

lemma remove_tag_audited: "service_RemoveTag e ctx ref n s = (s', r) \<Longrightarrow> audited e ctx s s'"
  unfolding service_RemoveTag_def Let_def
  by (auto split: if_splits elim!: handler_audited dest: authorize_caller intro: tx_trails tx_logs)

lemma comment_audited:
  "service_AddComment e ctx ref body s = (s', rm) \<Longrightarrow> audited e ctx s s'"
  "service_EditComment e ctx cid body s = (s', rm) \<Longrightarrow> audited e ctx s s'"
  unfolding service_AddComment_def service_EditComment_def
  by (auto split: sum.splits elim!: write_audited dest: authorize_caller intro: tx_trails tx_logs)

lemma snooze_audited: "service_SnoozeTask e ctx ref u s = (s', r) \<Longrightarrow> audited e ctx s s'"
  unfolding service_SnoozeTask_def
  by (auto split: sum.splits if_splits elim!: write_audited dest: authorize_caller intro: tx_trails tx_logs)

lemma copy_audited: "service_CopyTask e ctx ref inp s = (s', r) \<Longrightarrow> audited e ctx s s'"
  unfolding service_CopyTask_def Let_def
  by (auto split: if_splits elim!: handler_audited dest: authorize_caller intro: tx_trails tx_logs)

lemma create_audited: "service_CreateTask e ctx inp s = (s', r) \<Longrightarrow> audited e ctx s s'"
  unfolding service_CreateTask_def Let_def
  by (auto split: sum.splits if_splits elim!: write_audited intro: authorize_caller create_tx_trail logs.create_tx_rel)

lemma next_attempt_audited: "next_attempt e ctx inp s = (s', a) \<Longrightarrow> audited e ctx s s'"
  unfolding next_attempt_def
  by (auto split: sum.splits dest!: answer_ofD elim!: write_audited
      intro: authorize_caller claimNextOnce_trail logs.claimNextOnce_rel)

text \<open>
  C6: Nothing changes in silence. A call appends to the audit log and to the event log and touches
  neither otherwise; whenever it changed anything else but somebody's inbox it appended an audit
  entry, and at least as many events; and every audit entry bears the time of the call and the
  authenticated caller, so a call without one writes nothing.
\<close>

theorem no_silent_change:
  assumes "serve e ctx r s = (s', a)"
  shows "\<exists>as es. audits s' = audits s @ as \<and> events s' = events s @ es \<and> length as \<le> length es \<and>
    (\<forall>x\<in>set as. au_at x = e_now e \<and> (\<exists>who. c_actor ctx = Some who \<and> au_actor x = a_id who)) \<and>
    (s'\<lparr>inbox := [], events := [], audits := []\<rparr> \<noteq> s\<lparr>inbox := [], events := [], audits := []\<rparr> \<longrightarrow> as \<noteq> [])"
proof -
  have "audited e ctx s s'"
    using assms by (cases r) (auto dest!: answer_ofD dest: audited_services copy_audited comment_audited add_tag_audited remove_tag_audited
        snooze_audited create_audited next_attempt_audited)
  then show ?thesis by (simp add: audited_def contents_def)
qed

theorem no_silent_change_witness:
  "\<exists>x. audits (fst sample_link) = [x] \<and> au_actor x = ''u1'' \<and> au_at x = 1000"
proof -
  have "serve (sample_env 1000 ''k1'') sample_ctx (DoAddDependency (id_ref ''t1'') (id_ref ''t2'')) sample_store =
      (fst sample_link, snd sample_link)" unfolding sample_link_def by (rule surjective_pairing)
  from no_silent_change [OF this] obtain as where as: "audits (fst sample_link) = audits sample_store @ as"
    "\<forall>x\<in>set as. au_at x = 1000 \<and> au_actor x = ''u1''"
    by (auto simp: sample_env_def sample_ctx_def sample_actor_def)
  have "audits sample_store = []" "length (audits (fst sample_link)) = 1" by code_simp+
  with as show ?thesis by (auto simp: length_Suc_conv)
qed

section \<open>A refusal writes nothing\<close>

lemma flush_begin: "flush (begin_tx e ctx a s) = s"
  by (simp add: flush_def deliverInbox_def eligibleNotes_def strongest_def begin_tx_def Let_def)

lemma handler_refused:
  "(case g of Inl err \<Rightarrow> (s, Inl err) | Inr a \<Rightarrow> write_tx e ctx (h a) (f a) s) = (s', Inl err) \<Longrightarrow> s' = s"
  by (drule handler_cases) auto

lemma refused_services:
  "service_ClaimTask e ctx ref ci s = (s', Inl err) \<Longrightarrow> s' = s"
  "service_RenewLease e ctx ref tok ttl s = (s', Inl err) \<Longrightarrow> s' = s"
  "service_ReleaseLease e ctx ref tok ri s = (s', Inl err) \<Longrightarrow> s' = s"
  "service_SweepLeases e ctx limit s = (s', Inl err) \<Longrightarrow> s' = s"
  "service_ForceReclaim e ctx ref reason s = (s', Inl err) \<Longrightarrow> s' = s"
  "service_DeleteTask e ctx ref di s = (s', Inl err) \<Longrightarrow> s' = s"
  "service_TransitionTask e ctx ref ti s = (s', Inl err) \<Longrightarrow> s' = s"
  "service_UpdateTask e ctx ref uin s = (s', Inl err) \<Longrightarrow> s' = s"
  "service_RestoreTask e ctx ref s = (s', Inl err) \<Longrightarrow> s' = s"
  "service_AddDependency e ctx ref on s = (s', Inl err) \<Longrightarrow> s' = s"
  "service_RemoveDependency e ctx ref on s = (s', Inl err) \<Longrightarrow> s' = s"
  "service_UnsnoozeTask e ctx ref s = (s', Inl err) \<Longrightarrow> s' = s"
  "service_WakeSnoozed e ctx limit s = (s', Inl err) \<Longrightarrow> s' = s"
  "service_DeleteComment e ctx cid s = (s', Inl err) \<Longrightarrow> s' = s"
  "service_setStar e ctx ref starred s = (s', Inl err) \<Longrightarrow> s' = s"
  "service_PutArtifact e ctx ref ai s = (s', Inl err) \<Longrightarrow> s' = s"
  unfolding service_ClaimTask_def service_RenewLease_def service_ReleaseLease_def service_SweepLeases_def
    service_ForceReclaim_def service_DeleteTask_def service_TransitionTask_def service_UpdateTask_def
    service_RestoreTask_def service_AddDependency_def service_RemoveDependency_def service_UnsnoozeTask_def
    service_WakeSnoozed_def service_DeleteComment_def service_setStar_def service_PutArtifact_def
  by (erule handler_refused)+

lemma refused_guarded:
  "service_AddTag e ctx ref n s = (s', Inl err) \<Longrightarrow> s' = s"
  "service_RemoveTag e ctx ref n s = (s', Inl err) \<Longrightarrow> s' = s"
  "service_SnoozeTask e ctx ref u s = (s', Inl err) \<Longrightarrow> s' = s"
  "service_CreateTask e ctx inp s = (s', Inl err) \<Longrightarrow> s' = s"
  "service_AddComment e ctx ref body s = (s', Inl err) \<Longrightarrow> s' = s"
  "service_EditComment e ctx cid body s = (s', Inl err) \<Longrightarrow> s' = s"
  "service_CopyTask e ctx ref cin s = (s', Inl err) \<Longrightarrow> s' = s"
  unfolding service_CopyTask_def service_AddComment_def service_EditComment_def service_AddTag_def service_RemoveTag_def service_SnoozeTask_def service_CreateTask_def Let_def
  by (auto split: if_splits sum.splits dest: write_tx_Inl)

lemma refused_next:
  assumes "next_attempt e ctx inp s = (s', Refused err)"
  shows "s' = s"
proof (cases "authorize ctx ActionTaskClaim no_resource")
  case (Inr a)
  obtain s1 x where w: "write_tx e ctx a (claimNextOnce inp) s = (s1, x)" by fastforce
  then have s1: "s' = s1" using assms Inr by (simp add: next_attempt_def answer_of_def)
  show ?thesis
  proof (cases x)
    case (Inl err)
    with w s1 show ?thesis by (auto dest: write_tx_Inl)
  next
    case (Inr c)
    with w obtain m where m: "claimNextOnce inp (begin_tx e ctx a s) = Inr (m, c)" "s1 = flush m"
      by (auto dest: write_tx_Inr)
    have "c = None" using assms w Inr \<open>authorize ctx ActionTaskClaim no_resource = Inr a\<close>
      by (auto simp: next_attempt_def answer_of_def split: option.splits)
    with m s1 show ?thesis by (auto dest!: claimNextOnce_None simp: flush_begin)
  qed
qed (use assms in \<open>auto simp: next_attempt_def\<close>)

lemma no_caller [simp]: "c_actor ctx = None \<Longrightarrow> authorize ctx act r = Inl (fail KindUnauthenticated)"
  by (simp add: authorize_def RequireActor_def)

lemma no_caller_services:
  assumes "c_actor ctx = None"
  shows "\<exists>err. serve e ctx r s = (s, Refused err)"
  using assms
  by (cases r) (auto simp: answer_of_def next_attempt_def service_ClaimTask_def service_RenewLease_def
      service_ReleaseLease_def service_SweepLeases_def service_ForceReclaim_def service_DeleteTask_def
      service_TransitionTask_def service_UpdateTask_def service_RestoreTask_def service_AddDependency_def
      service_RemoveDependency_def service_UnsnoozeTask_def service_WakeSnoozed_def service_AddTag_def
      service_RemoveTag_def service_SnoozeTask_def service_CreateTask_def service_AddComment_def
      service_EditComment_def service_DeleteComment_def service_setStar_def service_PutArtifact_def service_CopyTask_def Let_def rbind_def split: sum.splits)

text \<open>
  C7: A call that is refused, for whatever reason and however far it got, leaves the tables, the logs
  and the inbox exactly as they were; and a call nobody is authenticated for is refused.
\<close>

theorem refused_writes_nothing:
  "(\<forall>s' err. serve e ctx r s = (s', Refused err) \<longrightarrow> s' = s) \<and>
   (c_actor ctx = None \<longrightarrow> (\<exists>err. serve e ctx r s = (s, Refused err)))"
proof (intro conjI allI impI)
  fix s' err assume "serve e ctx r s = (s', Refused err)"
  then show "s' = s"
    by (cases r) (auto dest!: answer_ofD dest: refused_services refused_guarded refused_next split: sum.splits)
qed (rule no_caller_services)

theorem refused_writes_nothing_witness:
  "fst (serve (sample_env 1000 ''k1'') sample_ctx (DoAddDependency (id_ref ''t3'') (id_ref ''t2'')) sample_store) = sample_store \<and>
   fst (serve (sample_env 1000 ''k1'') (sample_ctx\<lparr>c_actor := None\<rparr>) (DoWake 5) sample_store) = sample_store"
proof
  let ?call = "serve (sample_env 1000 ''k1'') sample_ctx (DoAddDependency (id_ref ''t3'') (id_ref ''t2'')) sample_store"
  have "case snd ?call of Refused err \<Rightarrow> True | _ \<Rightarrow> False" by code_simp
  then obtain err where "?call = (fst ?call, Refused err)" by (cases ?call) (auto split: answer.splits)
  with refused_writes_nothing show "fst ?call = sample_store" by blast
  have "c_actor (sample_ctx\<lparr>c_actor := None\<rparr>) = None" by simp
  with refused_writes_nothing show "fst (serve (sample_env 1000 ''k1'') (sample_ctx\<lparr>c_actor := None\<rparr>) (DoWake 5) sample_store) = sample_store"
    by (metis fst_conv)
qed

end
