(* ===== verification/Task_Results.thy ===== *)
theory Task_Results
  imports Schema Audit_Trail
begin

text \<open>
  What the task handlers do to the task they are given: a transition follows an edge of the
  project's workflow and honours its demands, the version and the lease; an update answers only the
  version it was made against; a new task has a fresh identifier and the next number of its project.
\<close>

section \<open>One row through a transaction\<close>

abbreviation distinct_ids :: "store \<Rightarrow> bool" where
  "distinct_ids s \<equiv> distinct (map t_id (tasks s))"

text \<open>The columns a row keeps while its lease is proved: all but the expiry and the time of the last write.\<close>

definition same_but_touched :: "task_row \<Rightarrow> task_row \<Rightarrow> bool" where
  "same_but_touched r r' \<longleftrightarrow> (\<exists>u. r' = r\<lparr>t_updated := u\<rparr>)"

lemma requireLeaseToken_claimed:
  assumes "requireLeaseToken t tok m = Inr m'" and "claimed_at_time t (m_now m)"
  shows "\<exists>e s. t_lease_expires t = Some e \<and> RenewLease (m_db m) (t_id t) tok e (m_store m) = Inr (s, True) \<and>
    m' = m\<lparr>m_store := s\<rparr>"
proof (cases "t_lease_expires t")
  case (Some e)
  with assms obtain m1 where "on_store (RenewLease (m_db m) (t_id t) tok e) m = Inr (m1, True)" "m' = m1"
    by (auto simp: requireLeaseToken_def split: if_splits)
  with Some show ?thesis by (auto simp: on_store_Inr_iff)
qed (use assms in \<open>auto simp: requireLeaseToken_def split: if_splits\<close>)

lemma requireLeaseToken_row:
  assumes "requireLeaseToken t tok m = Inr m'" and "t = scanTask row" and "task_row_of (m_store m) (t_id t) = Some row"
    and "distinct_ids (m_store m)"
  shows "\<exists>row'. task_row_of (m_store m') (t_id t) = Some row' \<and> same_but_touched row row' \<and>
    (claimed_at_time row (m_now m) \<longrightarrow> lease_token row = Some tok \<and> live (m_db m) row)"
proof (cases "claimed_at_time t (m_now m)")
    case False
    then have "\<not> claimed_at_time row (m_now m)" using assms(2) by simp
    moreover have "same_but_touched row row" unfolding same_but_touched_def by (intro exI [of _ "t_updated row"]) simp
    moreover have "m' = m" using assms(1) False by (simp add: requireLeaseToken_def split: if_splits)
    ultimately show ?thesis using assms(3) by blast
  next
    case True
    then obtain e s where proved: "t_lease_expires t = Some e" "RenewLease (m_db m) (t_id t) tok e (m_store m) = Inr (s, True)"
      "m' = m\<lparr>m_store := s\<rparr>" using requireLeaseToken_claimed [OF assms(1)] by blast
    let ?f = "\<lambda>r. r\<lparr>t_lease_expires := Some e, t_updated := m_db m\<rparr>" and ?p = "holds (t_id t) tok (m_db m)"
    have "0 < rows_matching ?p (tasks (m_store m))" using proved(2) by (auto simp: RenewLease_def split: if_splits)
    then obtain r where "r \<in> set (tasks (m_store m))" "?p r" by (auto simp: rows_matching_pos)
    moreover from this have "r = row"
      using assms(3,4) by (intro distinct_key_inj [of t_id]) (auto simp: holds_def row_of_distinct)
    ultimately have "?p row" by simp
    have row': "task_row_of s (t_id t) = Some (?f row)"
      using assms(3) \<open>?p row\<close> unfolding RenewLease_shape [OF proved(2)] by (subst task_row_of_update) simp_all
    have "same_but_touched row (?f row)"
      unfolding same_but_touched_def using proved(1) assms(2) by (intro exI [of _ "m_db m"]) (cases row, simp)
    with row' \<open>?p row\<close> proved(3) show ?thesis by (simp add: holds_def)
qed

text \<open>Writes that leave the rows there are.\<close>

definition rows_stay :: "store \<Rightarrow> store \<Rightarrow> bool" where
  "rows_stay s s' \<longleftrightarrow> (\<exists>new. tasks s' = tasks s @ new) \<and> workflows s' = workflows s"

lemma rows_stay_row: "rows_stay s s' \<Longrightarrow> task_row_of s k = Some r \<Longrightarrow> task_row_of s' k = Some r"
  by (auto simp: rows_stay_def task_row_of_def find_append)

lemma rows_stay_same: "tasks s' = tasks s \<Longrightarrow> workflows s' = workflows s \<Longrightarrow> rows_stay s s'"
  by (simp add: rows_stay_def)

lemma rows_stay_trans: "rows_stay s s' \<Longrightarrow> rows_stay s' s'' \<Longrightarrow> rows_stay s s''"
  by (auto simp: rows_stay_def)

lemma tx_create_rows: "tx_create t m = Inr (m', t') \<Longrightarrow> rows_stay (m_store m) (m_store m')"
  by (auto simp: tx_create_def new_id_def on_store_Inr_iff rows_stay_def
      dest!: CreateTask_shape insert_task_shape NextSeq_shape)

lemma attach_all_rows: "attach_all k ns m = Inr m' \<Longrightarrow> rows_stay (m_store m) (m_store m')"
proof (induction ns arbitrary: m)
  case (Cons n ns)
  then obtain m1 where one: "tx_attach k n m = Inr m1" and rest: "attach_all k ns m1 = Inr m'" by auto
  have "rows_stay (m_store m) (m_store m1)"
    using one by (auto simp: tx_attach_def tx_store_def new_id_def intro!: rows_stay_same dest!: attachTaskLabel_shape)
  with Cons.IH [OF rest] show ?case by (blast intro: rows_stay_trans)
qed (simp add: rows_stay_same)

lemma spawnOccurrence_rows: "spawnOccurrence d t to m = Inr (m', t', nxt) \<Longrightarrow> rows_stay (m_store m) (m_store m')"
  by (auto simp: spawnOccurrence_def Let_def rows_stay_same split: if_splits sum.splits option.splits
      dest!: tx_create_rows attach_all_rows intro: rows_stay_trans)

lemma with_comment_rows:
  "(if c \<noteq> [] then rbind (tx_comment k c m) (\<lambda>(m, x). Inr (notifyComment t (cm_id x) (cm_body x) m)) else Inr m) = Inr m' \<Longrightarrow>
    rows_stay (m_store m) (m_store m')"
  by (auto simp: tx_comment_def new_id_def on_store_Inr_iff intro!: rows_stay_same split: if_splits
      dest!: CreateComment_shape)

lemma spawnOccurrence_task: "spawnOccurrence d t to m = Inr (m', t', nxt) \<Longrightarrow> \<exists>k. t' = t\<lparr>t_next_id := k\<rparr>"
  by (auto simp: spawnOccurrence_def Let_def split: if_splits sum.splits option.splits
      intro: exI [of _ "t_next_id t"])

lemma tx_update_row:
  assumes "tx_update t m = Inr (m', t')" and "task_row_of (m_store m) (t_id t) = Some row"
  shows "task_row_of (m_store m') (t_id t) = Some (write_columns (m_db m) t row)" and "m_env m' = m_env m" and "t_id t' = t_id t"
proof -
  obtain s where up: "UpdateTask (m_db m) t (m_store m) = Inr (s, t')" and m': "m' = m\<lparr>m_store := s\<rparr>"
    using assms(1) by (auto simp: tx_update_def on_store_Inr_iff)
  have "task_row_of s (t_id t) = Some (write_columns (m_db m) t row)"
    using assms(2) unfolding UpdateTask_shape [OF up]
    by (subst task_row_of_update) (use assms(2) in \<open>auto dest: task_row_of_SomeD\<close>)
  with m' show "task_row_of (m_store m') (t_id t) = Some (write_columns (m_db m) t row)" "m_env m' = m_env m" by simp_all
  show "t_id t' = t_id t" using up by (auto simp: UpdateTask_def Let_def split: if_splits)
qed

section \<open>A transition\<close>

lemma transition_tx_steps:
  assumes "transition_tx ctx ref inp m = Inr (m', out)"
  shows "\<exists>t d m1 before m2 t2 nxt m3 t3. liveTask (m_store m) ref = Inr t \<and>
    checkVersion t (ti_version inp) = Inr () \<and> workflowForTask (m_store m) t = Inr d \<and>
    edge_allows d t (m_actor m) inp = Inr () \<and> requireLeaseToken t (ti_token inp) m = Inr m1 \<and>
    with_fields (m_store m1) t (ti_fields inp) = Inr before \<and>
    spawnOccurrence d (moved_task d (ti_to inp) (m_now m1) before) (ti_to inp) m1 = Inr (m2, t2, nxt) \<and>
    tx_update t2 m2 = Inr (m3, t3) \<and> rows_stay (m_store m3) (m_store m') \<and>
    GetTask (m_store m') (id_ref (t_id t3)) = Inr out"
  using assms unfolding transition_tx_def Let_def
  by (elim rbind_InrE) (auto simp: Let_def split: prod.splits dest!: with_comment_rows)

lemma with_fields_columns:
  "with_fields s t u = Inr t' \<Longrightarrow> \<exists>c. t' = t\<lparr>t_custom := c\<rparr>"
  by (auto simp: with_fields_def split: option.splits intro: exI [of _ "t_custom t"])

lemma edge_allows_edge:
  assumes "edge_allows d t a inp = Inr ()"
  shows "\<exists>edge. CanTransition d (t_status t) (ti_to inp) = Some edge \<and> HasState d (ti_to inp) \<and>
    (tr_requires_comment edge \<longrightarrow> TrimSpace (ti_comment inp) \<noteq> []) \<and>
    (tr_requires_scope edge \<noteq> [] \<longrightarrow> HasScope (Some a) (tr_requires_scope edge))"
  using assms by (auto simp: edge_allows_def Let_def split: if_splits option.splits)

lemma checkVersion_ok: "checkVersion t v = Inr () \<longleftrightarrow> v = 0 \<or> v = t_version t"
  by (simp add: checkVersion_def)

text \<open>The columns of a row after a transition to \<open>to\<close> at \<open>now\<close>, up to custom fields, the link to a next occurrence and the write's own stamp.\<close>

definition row_moved :: "workflow_definition \<Rightarrow> string \<Rightarrow> time \<Rightarrow> task_row \<Rightarrow> task_row \<Rightarrow> bool" where
  "row_moved d to now r r' \<longleftrightarrow> (\<exists>c nxt db l. r' = r\<lparr>t_status := to,
     t_completed := (if IsTerminal d to then null_time (Some now) else None),
     t_started := (if \<not> IsTerminal d to \<and> t_started r = None \<and> to \<noteq> initial d then null_time (Some now) else null_time (t_started r)),
     t_due := null_time (t_due r), t_custom := c, t_next_id := nxt, t_lease := l, t_updated := db, t_version := t_version r + 1\<rparr>)"

lemma row_moved_written:
  assumes "same_but_touched row row1" and "t2 = (moved_task d to now ((scanTask row)\<lparr>t_custom := c\<rparr>))\<lparr>t_next_id := k\<rparr>"
  shows "row_moved d to now row (write_columns db t2 row1)"
proof -
  obtain u where "row1 = row\<lparr>t_updated := u\<rparr>" using assms(1) by (auto simp: same_but_touched_def)
  then show ?thesis
    unfolding row_moved_def assms(2) moved_task_def Let_def write_columns_def
    by (intro exI [of _ c] exI [of _ k] exI [of _ db] exI [of _ "stored_duration (t_lease row)"])
      (cases row, simp add: null_time_def)
qed

lemma transition_tx_row:
  assumes "transition_tx ctx ref inp m = Inr (m', out)" and "distinct_ids (m_store m)" and "distinct_ids (m_store m')"
  shows "\<exists>row row' d edge. task_row_of (m_store m) (t_id out) = Some row \<and> t_deleted row = None \<and>
    workflowForTask (m_store m) (scanTask row) = Inr d \<and> CanTransition d (t_status row) (ti_to inp) = Some edge \<and>
    (tr_requires_comment edge \<longrightarrow> TrimSpace (ti_comment inp) \<noteq> []) \<and>
    (tr_requires_scope edge \<noteq> [] \<longrightarrow> HasScope (Some (m_actor m)) (tr_requires_scope edge)) \<and>
    (ti_version inp = 0 \<or> ti_version inp = t_version row) \<and>
    (claimed_at_time row (m_now m) \<longrightarrow> lease_token row = Some (ti_token inp)) \<and>
    row_moved d (ti_to inp) (m_now m) row row' \<and> task_row_of (m_store m') (t_id out) = Some row' \<and> out = scanTask row'"
proof -
  obtain t d m1 before m2 t2 nxt m3 t3 where live: "liveTask (m_store m) ref = Inr t"
    and checks: "checkVersion t (ti_version inp) = Inr ()" "workflowForTask (m_store m) t = Inr d"
      "edge_allows d t (m_actor m) inp = Inr ()"
    and steps: "requireLeaseToken t (ti_token inp) m = Inr m1" "with_fields (m_store m1) t (ti_fields inp) = Inr before"
      "spawnOccurrence d (moved_task d (ti_to inp) (m_now m1) before) (ti_to inp) m1 = Inr (m2, t2, nxt)"
      "tx_update t2 m2 = Inr (m3, t3)"
    and rest: "rows_stay (m_store m3) (m_store m')" and out: "GetTask (m_store m') (id_ref (t_id t3)) = Inr out"
    using transition_tx_steps [OF assms(1)] by blast
  obtain row where row: "task_row_of (m_store m) (t_id t) = Some row" "t = scanTask row" "t_deleted row = None"
    using liveTask_row_of [OF assms(2) live] by blast
  obtain row1 where row1: "task_row_of (m_store m1) (t_id t) = Some row1" "same_but_touched row row1"
    and lease: "claimed_at_time row (m_now m) \<longrightarrow> lease_token row = Some (ti_token inp)"
    using requireLeaseToken_row [OF steps(1) row(2,1) assms(2)] by blast
  have now: "m_now m1 = m_now m" using requireLeaseToken_log [OF steps(1)] by (simp add: same_log_def)
  obtain c k where before: "before = t\<lparr>t_custom := c\<rparr>"
    and t2: "t2 = (moved_task d (ti_to inp) (m_now m1) before)\<lparr>t_next_id := k\<rparr>"
    using with_fields_columns [OF steps(2)] spawnOccurrence_task [OF steps(3)] by blast
  have id: "t_id t2 = t_id t" by (simp add: t2 before moved_task_def Let_def)
  have "task_row_of (m_store m2) (t_id t2) = Some row1"
    using rows_stay_row [OF spawnOccurrence_rows [OF steps(3)]] row1(1) id by simp
  note up = tx_update_row [OF steps(4) this]
  let ?row' = "write_columns (m_db m2) t2 row1"
  have row': "task_row_of (m_store m') (t_id t) = Some ?row'" using rows_stay_row [OF rest up(1)] id by simp
  obtain r where "task_row_of (m_store m') (t_id out) = Some r" "out = scanTask r"
    using GetTask_row [OF assms(3) out] by blast
  moreover have "t_id out = t_id t" using GetTask_id [OF out] up(3) id by simp
  ultimately have "out = scanTask ?row'" "t_id out = t_id row" using row' row(2) by simp_all
  moreover have "row_moved d (ti_to inp) (m_now m) row ?row'"
    using row_moved_written [OF row1(2)] t2 before row(2) now by simp
  ultimately show ?thesis
    using edge_allows_edge [OF checks(3)] row row' checks lease checkVersion_ok by fastforce
qed

text \<open>
  C8: A transition that succeeds followed an edge of the project's workflow that leads from the status
  the task had: with the comment and the scope the edge demands, made against the stored version
  unless no version was given, and with the token of the lease when somebody held one. The stored
  row, which is the one answered, has the new status and the next version, is completed exactly in a
  terminal state, started when it first left the initial one, and is otherwise the row it was: its
  lease, its place and its people are untouched.
\<close>

theorem transition_follows_workflow:
  assumes "service_TransitionTask e ctx ref inp s = (s', Inr out)" and "schema_ok s"
  shows "\<exists>row row' d edge who. task_row_of s (t_id out) = Some row \<and> t_deleted row = None \<and>
    c_actor ctx = Some who \<and> workflowForTask s (scanTask row) = Inr d \<and>
    CanTransition d (t_status row) (ti_to inp) = Some edge \<and>
    (tr_requires_comment edge \<longrightarrow> TrimSpace (ti_comment inp) \<noteq> []) \<and>
    (tr_requires_scope edge \<noteq> [] \<longrightarrow> HasScope (Some who) (tr_requires_scope edge)) \<and>
    (ti_version inp = 0 \<or> ti_version inp = t_version row) \<and>
    (claimed_at_time row (e_now e) \<longrightarrow> lease_token row = Some (ti_token inp)) \<and>
    row_moved d (ti_to inp) (e_now e) row row' \<and> task_row_of s' (t_id out) = Some row' \<and> out = scanTask row'"
proof -
  obtain a m where a: "rbind (validate_transition inp) (\<lambda>_. authorize ctx ActionTaskTransition no_resource) = Inr a"
    and tx: "transition_tx ctx ref inp (begin_tx e ctx a s) = Inr (m, out)" and s': "s' = flush m"
    using handler_cases [OF assms(1) [unfolded service_TransitionTask_def]] by auto
  have "schema_ok s'" using schema.lease_services(7) [OF assms(1)] assms(2) by (simp add: keeps_schema_def)
  then have "distinct_ids s" "distinct_ids (m_store m)" using assms(2) s' by (simp_all add: schema_ok_def keys_ok_def)
  moreover have "c_actor ctx = Some a" using a authorize_caller by auto
  ultimately show ?thesis using transition_tx_row [OF tx] s' by simp
qed

definition sample_move :: transition_input where
  "sample_move = \<lparr>ti_to = ''doing'', ti_comment = [], ti_token = [], ti_fields = None, ti_version = 1\<rparr>"

definition sample_moved :: "store \<times> task res" where
  "sample_moved = service_TransitionTask (sample_env 1000 ''k1'') sample_ctx (id_ref ''t1'') sample_move sample_store"

lemma sample_schema: "schema_ok sample_store"
  by code_simp

theorem transition_follows_workflow_witness:
  "\<exists>row. task_row_of (fst sample_moved) ''t1'' = Some row \<and> t_status row = ''doing'' \<and> t_version row = 2 \<and>
     t_started row = Some 1000 \<and> t_completed row = None"
proof -
  have "case snd sample_moved of Inr out \<Rightarrow> t_id out = ''t1'' | _ \<Rightarrow> False" by code_simp
  then obtain out where out: "snd sample_moved = Inr out" and id: "t_id out = ''t1''"
    by (auto split: sum.splits)
  have "service_TransitionTask (sample_env 1000 ''k1'') sample_ctx (id_ref ''t1'') sample_move sample_store =
      (fst sample_moved, Inr out)"
    using out by (simp add: sample_moved_def prod_eq_iff)
  from transition_follows_workflow [OF this sample_schema]
  obtain row row' d where row: "task_row_of sample_store ''t1'' = Some row"
    and d: "workflowForTask sample_store (scanTask row) = Inr d"
    and moved: "row_moved d ''doing'' 1000 row row'" and row': "task_row_of (fst sample_moved) ''t1'' = Some row'"
    unfolding id by (auto simp: sample_move_def sample_env_def)
  have "task_row_of sample_store ''t1'' = Some (sample_row (sample_task ''t1'' 1 3 ''todo''))" by code_simp
  then have r: "row = sample_row (sample_task ''t1'' 1 3 ''todo'')" using row by simp
  have "workflowForTask sample_store (scanTask (sample_row (sample_task ''t1'' 1 3 ''todo''))) = Inr (BuiltinWorkflow Hour)"
    by code_simp
  then have "d = BuiltinWorkflow Hour" using d r by simp
  moreover have "\<not> IsTerminal (BuiltinWorkflow Hour) ''doing''" "''doing'' \<noteq> initial (BuiltinWorkflow Hour)" by code_simp+
  moreover have "t_started row = None" "t_version row = 1" unfolding r by code_simp+
  ultimately have "t_status row' = ''doing''" "t_version row' = 2" "t_started row' = Some 1000" "t_completed row' = None"
    using moved by (auto simp: row_moved_def null_time_def IsZero_def)
  with row' show ?thesis by blast
qed

section \<open>An update\<close>

definition pick :: "'a option \<Rightarrow> 'a \<Rightarrow> 'a" where
  "pick v x = (case v of None \<Rightarrow> x | Some y \<Rightarrow> y)"

lemma pick_simps [simp]: "pick None x = x" "pick (Some y) x = y"
  by (simp_all add: pick_def)

text \<open>What an update makes of a task: the attributes it names, and no other.\<close>

definition edited_as :: "update_input \<Rightarrow> task \<Rightarrow> task \<Rightarrow> bool" where
  "edited_as inp t t' \<longleftrightarrow>
    (\<exists>a p c r. t' = t\<lparr>
       t_title := pick (map_option TrimSpace (ui_title inp)) (t_title t),
       t_body := pick (ui_body inp) (t_body t),
       t_priority := pick (ui_priority inp) (t_priority t),
       t_due := pick (ui_due inp) (t_due t),
       t_lease := pick (ui_lease inp) (t_lease t),
       t_assignee := a, t_parent := p, t_custom := c, t_recurrence := r\<rparr> \<and>
     (ui_assignee inp = None \<longrightarrow> a = t_assignee t) \<and> (ui_parent inp = None \<longrightarrow> p = t_parent t) \<and>
     (ui_fields inp = None \<longrightarrow> c = t_custom t) \<and> (ui_recurrence inp = None \<longrightarrow> r = t_recurrence t)) \<and>
    (\<forall>x. ui_title inp = Some x \<longrightarrow> TrimSpace x \<noteq> []) \<and> (\<forall>q. ui_priority inp = Some q \<longrightarrow> 1 \<le> q \<and> q \<le> 5)"

lemma given_Inr: "given v f t = Inr t' \<longleftrightarrow> (case v of None \<Rightarrow> t' = t | Some x \<Rightarrow> f x t = Inr t')"
  by (auto simp: given_def split: option.splits)

lemma edited_fields:
  assumes "edited m inp t = Inr t'"
  shows "edited_as inp t t'"
proof -
  obtain t1 t2 t3 t4 t5 t6 t7 t8 where
    1: "given (ui_title inp) update_title t = Inr t1" and
    2: "given (ui_body inp) (\<lambda>b t. if MaxBodyLength < int (length b) then Inl (fail KindInvalid)
        else Inr (t\<lparr>t_body := b\<rparr>)) t1 = Inr t2" and
    3: "given (ui_priority inp) (\<lambda>p t. if \<not> valid_priority p then Inl (fail KindInvalid)
        else Inr (t\<lparr>t_priority := p\<rparr>)) t2 = Inr t3" and
    4: "given (ui_assignee inp) (\<lambda>a t. rbind (resolveAssignee (m_store m) a) (\<lambda>a. Inr (t\<lparr>t_assignee := a\<rparr>))) t3 = Inr t4" and
    5: "given (ui_due inp) (\<lambda>d t. Inr (t\<lparr>t_due := d\<rparr>)) t4 = Inr t5" and
    6: "given (ui_recurrence inp) (\<lambda>r t. rbind (NormalizeRecurrence r) (\<lambda>r. Inr (t\<lparr>t_recurrence := r\<rparr>))) t5 = Inr t6" and
    7: "given (ui_parent inp) (\<lambda>p t. rbind (resolveParent (m_store m) t p) (\<lambda>p. Inr (t\<lparr>t_parent := p\<rparr>))) t6 = Inr t7" and
    8: "given (ui_fields inp) (\<lambda>fs t. rbind (mergeTaskFields (project_fields (m_store m) (t_project t)) (t_custom t) fs)
        (\<lambda>c. Inr (t\<lparr>t_custom := c\<rparr>))) t7 = Inr t8" and
    9: "given (ui_lease inp) (\<lambda>l t. let t = t\<lparr>t_lease := l\<rparr> in rbind (task_lease_ok m t) (\<lambda>_. Inr t)) t8 = Inr t'"
    using assms unfolding edited_def by (elim rbind_InrE) blast
  have "t1 = t\<lparr>t_title := pick (map_option TrimSpace (ui_title inp)) (t_title t)\<rparr>"
    and "\<forall>x. ui_title inp = Some x \<longrightarrow> TrimSpace x \<noteq> []"
    using 1 by (auto simp: given_Inr update_title_def Let_def split: option.splits if_splits)
  moreover have "t2 = t1\<lparr>t_body := pick (ui_body inp) (t_body t1)\<rparr>"
    using 2 by (auto simp: given_Inr split: option.splits if_splits)
  moreover have "t3 = t2\<lparr>t_priority := pick (ui_priority inp) (t_priority t2)\<rparr>"
    and "\<forall>q. ui_priority inp = Some q \<longrightarrow> 1 \<le> q \<and> q \<le> 5"
    using 3 by (auto simp: given_Inr valid_priority_def split: option.splits if_splits)
  moreover obtain a where "t4 = t3\<lparr>t_assignee := a\<rparr>" "ui_assignee inp = None \<longrightarrow> a = t_assignee t3"
    using 4 by (cases "ui_assignee inp") (auto simp: given_Inr)
  moreover have "t5 = t4\<lparr>t_due := pick (ui_due inp) (t_due t4)\<rparr>"
    using 5 by (auto simp: given_Inr split: option.splits)
  moreover obtain r where "t6 = t5\<lparr>t_recurrence := r\<rparr>" "ui_recurrence inp = None \<longrightarrow> r = t_recurrence t5"
    using 6 by (cases "ui_recurrence inp") (auto simp: given_Inr)
  moreover obtain p where "t7 = t6\<lparr>t_parent := p\<rparr>" "ui_parent inp = None \<longrightarrow> p = t_parent t6"
    using 7 by (cases "ui_parent inp") (auto simp: given_Inr)
  moreover obtain c where "t8 = t7\<lparr>t_custom := c\<rparr>" "ui_fields inp = None \<longrightarrow> c = t_custom t7"
    using 8 by (cases "ui_fields inp") (auto simp: given_Inr)
  moreover have "t' = t8\<lparr>t_lease := pick (ui_lease inp) (t_lease t8)\<rparr>"
    using 9 by (auto simp: given_Inr Let_def split: option.splits)
  ultimately show ?thesis
    unfolding edited_as_def
    by (intro conjI exI [of _ a] exI [of _ p] exI [of _ c] exI [of _ r]) simp_all
qed

lemma fold_res_rows:
  assumes "fold_res f xs m = Inr m'" and "\<And>x m m'. f x m = Inr m' \<Longrightarrow> rows_stay (m_store m) (m_store m')"
  shows "rows_stay (m_store m) (m_store m')"
  using assms(1) by (induction xs arbitrary: m) (auto simp: rows_stay_same intro: rows_stay_trans [OF assms(2)])

lemma replaceTaskLabels_rows:
  assumes "replaceTaskLabels t cur ns m = Inr m'"
  shows "rows_stay (m_store m) (m_store m')"
proof -
  obtain m1 where "attach_all (t_id t) (filter (\<lambda>n. n \<noteq> []) (map TrimSpace ns)) m = Inr m1"
    and *: "fold_res (\<lambda>existing m. if existing \<in> set (filter (\<lambda>n. n \<noteq> []) (map TrimSpace ns)) then Inr m
        else rbind (tagByName (m_store m) existing) (\<lambda>l. tx_store (DetachTag (t_id t) (tg_id l)) m)) cur m1 = Inr m'"
    using assms unfolding replaceTaskLabels_def Let_def by blast
  then have "rows_stay (m_store m) (m_store m1)" by (blast intro: attach_all_rows)
  moreover have "rows_stay (m_store m1) (m_store m')" using *
    by (rule fold_res_rows) (auto simp: tx_store_def rows_stay_same split: if_splits dest!: DetachTag_shape)
  ultimately show ?thesis by (rule rows_stay_trans)
qed

lemma update_tx_steps:
  assumes "update_tx ctx ref inp m = Inr (m', out)"
  shows "\<exists>t0 t1 m1 t2. liveTask (m_store m) ref = Inr t0 \<and> checkVersion t0 (ui_version inp) = Inr () \<and>
    edited m inp t0 = Inr t1 \<and> tx_update t1 m = Inr (m1, t2) \<and> rows_stay (m_store m1) (m_store m') \<and>
    GetTask (m_store m') (id_ref (t_id t2)) = Inr out"
  using assms unfolding update_tx_def Let_def
  by (elim rbind_InrE) (force split: option.splits if_splits prod.splits dest: replaceTaskLabels_rows
      simp: rows_stay_same)

text \<open>The columns an update may never touch.\<close>

definition kept_by_update :: "task_row \<Rightarrow> task_row \<Rightarrow> bool" where
  "kept_by_update r r' \<longleftrightarrow> t_id r' = t_id r \<and> t_project r' = t_project r \<and> t_seq r' = t_seq r \<and> t_status r' = t_status r \<and>
     t_creator r' = t_creator r \<and> t_created r' = t_created r \<and> t_deleted r' = t_deleted r \<and>
     t_claimed_by r' = t_claimed_by r \<and> lease_token r' = lease_token r \<and> t_lease_expires r' = t_lease_expires r \<and>
     t_snoozed_until r' = t_snoozed_until r"

lemma update_tx_row:
  assumes "update_tx ctx ref inp m = Inr (m', out)" and "distinct_ids (m_store m)" and "distinct_ids (m_store m')"
  shows "\<exists>row row' t1. task_row_of (m_store m) (t_id out) = Some row \<and> t_deleted row = None \<and>
    (ui_version inp = 0 \<or> ui_version inp = t_version row) \<and> edited_as inp (scanTask row) t1 \<and>
    row' = write_columns (m_db m) t1 row \<and> task_row_of (m_store m') (t_id out) = Some row' \<and> out = scanTask row'"
proof -
  obtain t0 t1 m1 t2 where live: "liveTask (m_store m) ref = Inr t0" and version: "checkVersion t0 (ui_version inp) = Inr ()"
    and ed: "edited m inp t0 = Inr t1" and up: "tx_update t1 m = Inr (m1, t2)"
    and rest: "rows_stay (m_store m1) (m_store m')" and out: "GetTask (m_store m') (id_ref (t_id t2)) = Inr out"
    using update_tx_steps [OF assms(1)] by blast
  obtain row where row: "task_row_of (m_store m) (t_id t0) = Some row" "t0 = scanTask row" "t_deleted row = None"
    using liveTask_row_of [OF assms(2) live] by blast
  have as: "edited_as inp t0 t1" by (rule edited_fields [OF ed])
  then have id: "t_id t1 = t_id t0" by (auto simp: edited_as_def)
  note new = tx_update_row [OF up, of row]
  let ?row' = "write_columns (m_db m) t1 row"
  have row': "task_row_of (m_store m') (t_id t0) = Some ?row'"
    using rows_stay_row [OF rest] new(1) row(1) id by simp
  have "t_id t2 = t_id t1" using new(3) row(1) id by simp
  then have "t_id out = t_id t0" using GetTask_id [OF out] id by simp
  moreover obtain r where "task_row_of (m_store m') (t_id out) = Some r" "out = scanTask r"
    using GetTask_row [OF assms(3) out] by blast
  ultimately have out': "out = scanTask ?row'" "t_id out = t_id t0" using row' by simp_all
  have "ui_version inp = 0 \<or> ui_version inp = t_version row" using version row(2) by (simp add: checkVersion_ok)
  then show ?thesis using row as row' out' by (intro exI [of _ row] exI [of _ ?row'] exI [of _ t1]) simp
qed

lemma edited_columns:
  assumes "edited_as inp t t'"
  shows "t_title t' = pick (map_option TrimSpace (ui_title inp)) (t_title t)" and "t_body t' = pick (ui_body inp) (t_body t)"
    and "t_priority t' = pick (ui_priority inp) (t_priority t)" and "t_due t' = pick (ui_due inp) (t_due t)"
    and "t_status t' = t_status t" and "ui_assignee inp = None \<longrightarrow> t_assignee t' = t_assignee t"
    and "ui_parent inp = None \<longrightarrow> t_parent t' = t_parent t" and "ui_fields inp = None \<longrightarrow> t_custom t' = t_custom t"
    and "ui_recurrence inp = None \<longrightarrow> t_recurrence t' = t_recurrence t"
  using assms unfolding edited_as_def by (elim conjE exE, simp)+

text \<open>
  C12: An update that succeeds was made against the version stored, unless it named none, and leaves
  the next one: of two updates made against the same version only one can succeed. The stored row,
  which is the one answered, has the attributes the update names and keeps all others; the status,
  the number, the lease and the snooze of a task are out of an update's reach.
\<close>

theorem update_against_version:
  assumes "service_UpdateTask e ctx ref inp s = (s', Inr out)" and "schema_ok s"
  shows "\<exists>row row'. task_row_of s (t_id out) = Some row \<and> t_deleted row = None \<and>
    (ui_version inp = 0 \<or> ui_version inp = t_version row) \<and>
    task_row_of s' (t_id out) = Some row' \<and> out = scanTask row' \<and> t_version row' = t_version row + 1 \<and>
    kept_by_update row row' \<and>
    t_title row' = pick (map_option TrimSpace (ui_title inp)) (t_title row) \<and>
    t_body row' = pick (ui_body inp) (t_body row) \<and> t_priority row' = pick (ui_priority inp) (t_priority row) \<and>
    t_due row' = null_time (pick (ui_due inp) (t_due row)) \<and>
    (ui_assignee inp = None \<longrightarrow> t_assignee row' = t_assignee row) \<and> (ui_parent inp = None \<longrightarrow> t_parent row' = t_parent row) \<and>
    (ui_fields inp = None \<longrightarrow> t_custom row' = t_custom row) \<and>
    (ui_recurrence inp = None \<longrightarrow> t_recurrence row' = t_recurrence row)"
proof -
  obtain a m where tx: "update_tx ctx ref inp (begin_tx e ctx a s) = Inr (m, out)" and s': "s' = flush m"
    using handler_cases [OF assms(1) [unfolded service_UpdateTask_def]] by auto
  have "schema_ok s'" using schema.quiet_handlers(1) [OF assms(1)] assms(2) by (simp add: keeps_schema_def)
  then have "distinct_ids s" "distinct_ids (m_store m)" using assms(2) s' by (simp_all add: schema_ok_def keys_ok_def)
  with update_tx_row [OF tx] obtain row t1 where row: "task_row_of s (t_id out) = Some row" "t_deleted row = None"
      "ui_version inp = 0 \<or> ui_version inp = t_version row" and ed: "edited_as inp (scanTask row) t1"
    and row': "task_row_of s' (t_id out) = Some (write_columns (e_db e) t1 row)" "out = scanTask (write_columns (e_db e) t1 row)"
    unfolding s' by auto
  let ?row' = "write_columns (e_db e) t1 row"
  have "kept_by_update row ?row'"
    using edited_columns(5) [OF ed] by (simp add: kept_by_update_def write_columns_def)
  then show ?thesis
    using row row' edited_columns [OF ed] by (intro exI [of _ row] exI [of _ ?row']) (simp add: write_columns_def)
qed

definition sample_update :: update_input where
  "sample_update = \<lparr>ui_title = Some ''more'', ui_body = None, ui_priority = Some 1, ui_assignee = None, ui_parent = None,
     ui_due = None, ui_fields = None, ui_tags = None, ui_recurrence = None, ui_lease = None, ui_version = 1\<rparr>"

definition sample_updated :: "store \<times> task res" where
  "sample_updated = service_UpdateTask (sample_env 1000 ''k1'') sample_ctx (id_ref ''t1'') sample_update sample_store"

theorem update_against_version_witness:
  "\<exists>row. task_row_of (fst sample_updated) ''t1'' = Some row \<and> t_title row = ''more'' \<and> t_priority row = 1 \<and> t_version row = 2"
proof -
  have "case snd sample_updated of Inr out \<Rightarrow> t_id out = ''t1'' | _ \<Rightarrow> False" by code_simp
  then obtain out where out: "snd sample_updated = Inr out" and id: "t_id out = ''t1''"
    by (auto split: sum.splits)
  have "service_UpdateTask (sample_env 1000 ''k1'') sample_ctx (id_ref ''t1'') sample_update sample_store =
      (fst sample_updated, Inr out)"
    using out by (simp add: sample_updated_def prod_eq_iff)
  from update_against_version [OF this sample_schema] obtain row row' where
    row: "task_row_of sample_store ''t1'' = Some row" and row': "task_row_of (fst sample_updated) ''t1'' = Some row'"
    and new: "t_version row' = t_version row + 1" "t_title row' = TrimSpace ''more''" "t_priority row' = 1"
    unfolding id by (auto simp: sample_update_def)
  have "map_option t_version (task_row_of sample_store ''t1'') = Some 1" "TrimSpace ''more'' = ''more''" by code_simp+
  with row row' new show ?thesis by auto
qed

section \<open>A new task\<close>

lemma link_all_rows: "link_all t refs m = Inr m' \<Longrightarrow> rows_stay (m_store m) (m_store m')"
  unfolding link_all_def
  by (erule fold_res_rows) (auto simp: tx_store_def rows_stay_same dest!: linkDependency_shape AddDependency_shape)

lemma NextSeq_rows: "on_store (NextSeq p) m = Inr (m', n) \<Longrightarrow> rows_stay (m_store m) (m_store m')"
  by (auto simp: on_store_Inr_iff rows_stay_same dest!: NextSeq_shape)

lemma NextSeq_number:
  "NextSeq k s = Inr (s', n) \<Longrightarrow> \<exists>p\<in>set (projects s). pr_id p = k \<and> n = pr_seq_counter p + 1"
  by (auto simp: NextSeq_def project_of_def split: option.splits dest: find_SomeD)

lemma new_row_simps [simp]:
  "t_id (new_row t) = t_id t" "t_project (new_row t) = t_project t" "t_seq (new_row t) = t_seq t"
  "t_status (new_row t) = t_status t" "t_creator (new_row t) = t_creator t" "t_title (new_row t) = t_title t"
  "t_parent (new_row t) = t_parent t" "t_version (new_row t) = t_version t" "t_claimed_by (new_row t) = null_text (Text (t_claimed_by t))"
  by (simp_all add: new_row_def task.extend_def)

lemma tx_create_row:
  assumes "tx_create t m = Inr (m', t')" and "t_id t = []"
  shows "task_row_of (m_store m') (t_id t') = Some (new_row t') \<and>
    \<not> task_exists (m_store m) (t_id t') \<and> t_project t' = t_project t \<and> t_status t' = t_status t \<and>
    t_creator t' = t_creator t \<and> t_title t' = t_title t \<and> t_parent t' = t_parent t \<and>
    (t_seq t \<noteq> 0 \<longrightarrow> t_seq t' = t_seq t) \<and> (t_version t = 0 \<longrightarrow> t_version t' = 1)"
proof -
  obtain s where create: "CreateTask (m_db m) (snd (new_id m)) t (m_store m) = Inr (s, t')" and m': "m_store m' = s"
    using assms(1) by (auto simp: tx_create_def new_id_def on_store_Inr_iff)
  obtain s0 where s0: "s0 = m_store m \<or> (\<exists>p n. NextSeq p (m_store m) = Inr (s0, n))"
    and ins: "insert_task (new_row t') s0 = Inr s"
    using CreateTask_shape [OF create] by blast
  have same: "tasks s0 = tasks (m_store m)" using s0 by (auto dest: NextSeq_shape)
  have "\<not> task_exists s0 (t_id (new_row t'))" using ins by (auto simp: insert_task_def split: if_splits)
  then have free: "\<not> task_exists (m_store m) (t_id t')" by (simp add: task_exists_def same)
  then have "task_row_of (m_store m) (t_id t') = None" by (simp add: task_row_of_None_iff task_exists_def)
  then have "task_row_of s (t_id t') = Some (new_row t')"
    unfolding insert_task_shape [OF ins] task_row_of_def by (simp add: find_append same)
  moreover have "t_project t' = t_project t \<and> t_status t' = t_status t \<and> t_creator t' = t_creator t \<and> t_title t' = t_title t \<and>
      t_parent t' = t_parent t \<and> (t_seq t \<noteq> 0 \<longrightarrow> t_seq t' = t_seq t) \<and> (t_version t = 0 \<longrightarrow> t_version t' = 1)"
    using create by (auto simp: CreateTask_def Let_def split: if_splits)
  ultimately show ?thesis using free m' by blast
qed

definition starting_status :: "workflow_definition \<Rightarrow> create_input \<Rightarrow> string res" where
  "starting_status d inp = (if ct_status inp = [] then Inr (initial d)
     else if \<not> HasState d (ct_status inp) then Inl (fail KindInvalid) else Inr (ct_status inp))"

lemma starting_status_ok:
  "starting_status d inp = Inr status \<Longrightarrow>
    (if ct_status inp = [] then status = initial d else status = ct_status inp \<and> HasState d status)"
  by (auto simp: starting_status_def split: if_splits)

lemma create_tx_steps:
  assumes "create_tx ctx inp rule m = Inr (m', out)"
  shows "\<exists>p w fs parent m1 seq assignee status m2 t.
    projectForTask (m_store m) (ct_project inp) = Inr p \<and> GetWorkflowByID (m_store m) (pr_workflow p) = Inr w \<and>
    starting_status (wf_definition w) inp = Inr status \<and> on_store (NextSeq (pr_id p)) m = Inr (m1, seq) \<and>
    tx_create (new_task inp p (wf_definition w) rule fs parent seq assignee status m1) m1 = Inr (m2, t) \<and>
    rows_stay (m_store m2) (m_store m') \<and> GetTask (m_store m') (id_ref (t_id t)) = Inr out"
proof -
  obtain p w fs parent m1 seq assignee status m2 t m3 m4 where
    "projectForTask (m_store m) (ct_project inp) = Inr p" "GetWorkflowByID (m_store m) (pr_workflow p) = Inr w"
    "starting_status (wf_definition w) inp = Inr status" "on_store (NextSeq (pr_id p)) m = Inr (m1, seq)"
    "tx_create (new_task inp p (wf_definition w) rule fs parent seq assignee status m1) m1 = Inr (m2, t)"
    and rest: "attach_all (t_id t) (ct_tags inp) m2 = Inr m3" "link_all t (ct_depends inp) m3 = Inr m4"
    and out: "m_store m' = m_store m4" "GetTask (m_store m4) (id_ref (t_id t)) = Inr out"
    using assms unfolding create_tx_def Let_def starting_status_def [symmetric]
    by (elim rbind_InrE) (auto split: prod.splits)
  moreover have "rows_stay (m_store m2) (m_store m')"
    using rows_stay_trans [OF attach_all_rows [OF rest(1)] link_all_rows [OF rest(2)]] out(1) by simp
  ultimately show ?thesis by (metis out(1))
qed

lemma GetProject_in: "GetProject s ref = Inr p \<Longrightarrow> p \<in> set (projects s)"
  by (auto simp: GetProject_def project_of_def split: option.splits dest: find_SomeD)

lemma lookupProject_in: "lookupProject s raw = Inr p \<Longrightarrow> p \<in> set (projects s)"
  by (auto simp: lookupProject_def Let_def split: if_splits sum.splits dest: GetProject_in)

lemma projectForTask_in:
  assumes "projectForTask s ref = Inr p"
  shows "p \<in> set (projects s)"
proof (cases "ref = []")
  case False
  with assms show ?thesis by (simp add: projectForTask_def lookupProject_in)
next
  case True
  show ?thesis
  proof (cases "filter (\<lambda>p. pr_archived p = None) (projects s)")
    case Nil
    with True assms show ?thesis by (simp add: projectForTask_def)
  next
    case (Cons q qs)
    then have "q \<in> set (projects s)" by (metis filter_is_subset list.set_intros(1) subsetD)
    with True assms Cons show ?thesis
      by (cases qs) (auto simp: projectForTask_def split: sum.splits if_splits dest: GetProject_in)
  qed
qed

text \<open>
  C13: A task that is created is a new row beside the old ones, which stay as they are: its identifier
  is on no task, it takes the next number of its project, no other task of the project has that
  number, it starts in the project's initial state or in the state asked for, which is one of the
  workflow's, at version 1, unclaimed, and its creator is the caller.
\<close>

theorem create_fresh_numbered:
  assumes "service_CreateTask e ctx inp s = (s', Inr out)" and "schema_ok s" and "\<forall>p\<in>set (projects s). 0 \<le> pr_seq_counter p"
  shows "\<exists>p w row who. p \<in> set (projects s) \<and> workflow_of s (pr_workflow p) = Some w \<and> c_actor ctx = Some who \<and>
    \<not> task_exists s (t_id out) \<and> task_row_of s' (t_id out) = Some row \<and> out = scanTask row \<and>
    (\<forall>k r. task_row_of s k = Some r \<longrightarrow> task_row_of s' k = Some r) \<and>
    t_project row = pr_id p \<and> t_seq row = pr_seq_counter p + 1 \<and>
    (\<forall>r\<in>set (tasks s). \<not> (t_project r = pr_id p \<and> t_seq r = t_seq row)) \<and>
    (if ct_status inp = [] then t_status row = initial (wf_definition w)
     else t_status row = ct_status inp \<and> HasState (wf_definition w) (t_status row)) \<and>
    t_version row = 1 \<and> t_claimed_by row = None \<and> t_creator row = a_id who \<and> t_title row = TrimSpace (ct_title inp)"
proof -
  let ?inp = "inp\<lparr>ct_title := TrimSpace (ct_title inp)\<rparr>"
  obtain a rule m where a: "authorize ctx ActionTaskCreate no_resource = Inr a"
    and tx: "create_tx ctx ?inp rule (begin_tx e ctx a s) = Inr (m, out)" and s': "s' = flush m"
    using assms(1) unfolding service_CreateTask_def Let_def
    by (auto split: sum.splits prod.splits if_splits dest!: write_tx_Inr elim!: rbind_InrE)
  let ?m = "begin_tx e ctx a s"
  obtain p w fs parent m1 seq assignee status m2 t where
    p: "projectForTask s (ct_project ?inp) = Inr p" and w: "GetWorkflowByID s (pr_workflow p) = Inr w"
    and status: "starting_status (wf_definition w) ?inp = Inr status"
    and seq: "on_store (NextSeq (pr_id p)) ?m = Inr (m1, seq)"
    and create: "tx_create (new_task ?inp p (wf_definition w) rule fs parent seq assignee status m1) m1 = Inr (m2, t)"
    and rest: "rows_stay (m_store m2) (m_store m)" and out: "GetTask (m_store m) (id_ref (t_id t)) = Inr out"
    using create_tx_steps [OF tx] unfolding begin_tx_simps by blast
  have counted: "NextSeq (pr_id p) s = Inr (m_store m1, seq)" and m1: "m_env m1 = e" "m_actor m1 = a"
    using seq by (auto simp: on_store_Inr_iff)
  have pin: "p \<in> set (projects s)" using p by (rule projectForTask_in)
  then have number: "seq = pr_seq_counter p + 1"
    using NextSeq_number [OF counted] assms(2) distinct_key_inj [of pr_id "projects s"]
    by (auto simp: schema_ok_def keys_ok_def)
  then have "seq \<noteq> 0" using assms(3) pin by auto
  have w': "workflow_of s (pr_workflow p) = Some w" using w by (auto simp: GetWorkflowByID_def split: option.splits)
  let ?t = "new_task ?inp p (wf_definition w) rule fs parent seq assignee status m1"
  have cols: "t_id ?t = []" "t_project ?t = pr_id p" "t_seq ?t = seq" "t_status ?t = status" "t_version ?t = 0"
    "t_creator ?t = a_id a" "t_title ?t = TrimSpace (ct_title inp)" "t_claimed_by ?t = None"
    using m1 by (simp_all add: new_task_def empty_task_def)
  have made: "task_row_of (m_store m2) (t_id t) = Some (new_row t)" "\<not> task_exists (m_store m1) (t_id t)"
    "t_project t = pr_id p" "t_status t = status" "t_creator t = a_id a" "t_title t = TrimSpace (ct_title inp)"
    "t_seq t = seq" "t_version t = 1"
    using tx_create_row [OF create cols(1)] cols(2-7) \<open>seq \<noteq> 0\<close> by auto
  have unclaimed: "t_claimed_by (new_row t) = None"
    using create cols(8) by (auto simp: tx_create_def new_id_def on_store_Inr_iff CreateTask_def Let_def Text_def null_text_def
        split: if_splits)
  have old: "tasks (m_store m1) = tasks s" using NextSeq_shape [OF counted] by simp
  have stay: "rows_stay s (m_store m)"
    using NextSeq_rows [OF seq] tx_create_rows [OF create] rest by (auto intro: rows_stay_trans)
  have ok: "schema_ok s'" using schema.create_service [OF assms(1)] assms(2) by (simp add: keeps_schema_def)
  then have dist: "distinct_ids (m_store m)" using s' by (simp add: schema_ok_def keys_ok_def)
  have row: "task_row_of (m_store m) (t_id t) = Some (new_row t)" using rows_stay_row [OF rest made(1)] .
  obtain r where "task_row_of (m_store m) (t_id out) = Some r" "out = scanTask r" using GetTask_row [OF dist out] by blast
  moreover have "t_id out = t_id t" by (rule GetTask_id [OF out])
  ultimately have out': "out = scanTask (new_row t)" "t_id out = t_id t" using row by simp_all
  have free: "\<forall>r\<in>set (tasks s). \<not> (t_project r = pr_id p \<and> t_seq r = seq)"
  proof
    fix r assume r: "r \<in> set (tasks s)"
    have in': "r \<in> set (tasks s')" "new_row t \<in> set (tasks s')"
      using r stay row by (auto simp: s' rows_stay_def dest: task_row_of_SomeD)
    have "t_id t \<notin> t_id ` set (tasks s)" using made(2) old by (simp add: task_exists_def)
    then have "r \<noteq> new_row t" using r by (metis imageI new_row_simps(1))
    then show "\<not> (t_project r = pr_id p \<and> t_seq r = seq)"
      using ok distinct_key_inj [of "\<lambda>t. (t_project t, t_seq t)" "tasks s'" r "new_row t"] in' made(3,7)
      by (auto simp: schema_ok_def keys_ok_def)
  qed
  have "ct_status inp = [] \<longrightarrow> status = initial (wf_definition w)"
    and "ct_status inp \<noteq> [] \<longrightarrow> status = ct_status inp \<and> HasState (wf_definition w) (ct_status inp)"
    using starting_status_ok [OF status] by (auto split: if_splits)
  then show ?thesis
    using pin w' authorize_caller [OF a] made(2) old row out' stay number free unclaimed made(3-8)
    by (intro exI [of _ p] exI [of _ w] exI [of _ "new_row t"] exI [of _ a])
      (simp add: s' task_exists_def rows_stay_row)
qed

text \<open>A still smaller database, on which the creation of a task is followed step by step.\<close>

definition tiny_workflow :: workflow where
  "tiny_workflow = \<lparr>wf_id = ''w'', wf_key = ''w'', wf_name = [], wf_definition = \<lparr>initial = ''a'',
     states = [plain_state ''a'' [] CategoryTodo False, plain_state ''z'' [] CategoryDone True],
     transitions = [plain_edge ''a'' ''z''], default_lease = 0\<rparr>, wf_builtin = True, wf_created_at = 0, wf_updated_at = 0\<rparr>"

definition tiny_project :: project where
  "tiny_project = sample_project\<lparr>pr_id := ''p'', pr_key := ''p'', pr_workflow := ''w''\<rparr>"

definition tiny_store :: store where
  "tiny_store = sample_store\<lparr>tasks := [], deps := [], projects := [tiny_project], workflows := [tiny_workflow],
     actors := [\<lparr>ac_id = ''u1'', ac_handle = []\<rparr>]\<rparr>"

definition tiny_new :: create_input where
  "tiny_new = \<lparr>ct_project = ''p'', ct_title = ''n'', ct_body = [], ct_status = [], ct_priority = 0, ct_tags = [],
     ct_assignee = [], ct_parent = [], ct_due = None, ct_recurrence = [], ct_fields = [], ct_depends = [], ct_lease = 0\<rparr>"

abbreviation tiny_env :: env where "tiny_env \<equiv> sample_env 1000 ''k1''"

definition tiny_tx :: mutation where
  "tiny_tx = begin_tx tiny_env sample_ctx sample_actor tiny_store"

definition tiny_counted :: mutation where
  "tiny_counted = tiny_tx\<lparr>m_store := tiny_store\<lparr>projects := [tiny_project\<lparr>pr_seq_counter := 4\<rparr>]\<rparr>\<rparr>"

definition tiny_task :: task where
  "tiny_task = new_task tiny_new tiny_project (wf_definition tiny_workflow) [] [] [] 4 [] ''a'' tiny_counted"

lemma tiny_steps:
  "projectForTask tiny_store (ct_project tiny_new) = Inr tiny_project"
  "GetWorkflowByID tiny_store (pr_workflow tiny_project) = Inr tiny_workflow"
  "NextSeq (pr_id tiny_project) tiny_store = Inr (tiny_store\<lparr>projects := [tiny_project\<lparr>pr_seq_counter := 4\<rparr>]\<rparr>, 4)"
  "is_ok (authorize sample_ctx ActionTaskCreate \<lparr>r_tenant = [], r_project = pr_id tiny_project, r_owner = []\<rparr>)"
  "validateTaskFields [] [] True = Inr []" "resolveAssignee tiny_store [] = Inr []" "initial (wf_definition tiny_workflow) = ''a''"
  "is_ok (task_lease_ok tiny_counted tiny_task)"
  "case tx_create tiny_task tiny_counted of Inr (m, t) \<Rightarrow> is_ok (GetTask (m_store m) (id_ref (t_id t))) | _ \<Rightarrow> False"
  "project_fields tiny_store (pr_id tiny_project) = []"
  by code_simp+

lemma is_ok_ex: "is_ok r \<longleftrightarrow> (\<exists>x. r = Inr x)"
  by (cases r) (simp_all add: is_ok_def)

lemma tiny_made: "\<exists>m out. create_tx sample_ctx tiny_new [] tiny_tx = Inr (m, out)"
proof -
  have store: "m_store tiny_tx = tiny_store" by (simp add: tiny_tx_def)
  have count: "on_store (NextSeq (pr_id tiny_project)) tiny_tx = Inr (tiny_counted, 4)"
    by (simp add: on_store_def store tiny_steps tiny_counted_def)
  have other: "m_store tiny_counted = tiny_store\<lparr>projects := [tiny_project\<lparr>pr_seq_counter := 4\<rparr>]\<rparr>" by (simp add: tiny_counted_def)
  have res: "resolveAssignee (m_store tiny_counted) [] = Inr []" by (simp add: resolveAssignee_def TrimSpace_def)
  obtain a m t out where steps: "authorize sample_ctx ActionTaskCreate \<lparr>r_tenant = [], r_project = pr_id tiny_project, r_owner = []\<rparr> = Inr a"
    "task_lease_ok tiny_counted tiny_task = Inr ()" "tx_create tiny_task tiny_counted = Inr (m, t)"
    "GetTask (m_store m) (id_ref (t_id t)) = Inr out"
    using tiny_steps(4,8,9) by (auto simp: is_ok_ex split: sum.splits)
  have inp: "ct_status tiny_new = []" "ct_fields tiny_new = []" "ct_parent tiny_new = []" "ct_assignee tiny_new = []"
    "ct_tags tiny_new = []" "ct_depends tiny_new = []" by (simp_all add: tiny_new_def)
  show ?thesis
    unfolding create_tx_def Let_def store tiny_steps on_field_def inp
    by (simp add: tiny_steps count steps res link_all_def tiny_task_def [symmetric])
qed

lemma tiny_created: "\<exists>s' out. service_CreateTask tiny_env sample_ctx tiny_new tiny_store = (s', Inr out)"
proof -
  have trim: "TrimSpace (ct_title tiny_new) = ''n''" "tiny_new\<lparr>ct_title := ''n''\<rparr> = tiny_new" "validate_create tiny_new = Inr ()"
    "\<not> MaxBodyLength < int (length (ct_body tiny_new))" "NormalizeRecurrence (ct_recurrence tiny_new) = Inr []"
    "authorize sample_ctx ActionTaskCreate no_resource = Inr sample_actor"
    by code_simp+
  obtain m out where "create_tx sample_ctx tiny_new [] (begin_tx tiny_env sample_ctx sample_actor tiny_store) = Inr (m, out)"
    using tiny_made unfolding tiny_tx_def by blast
  then show ?thesis by (simp add: service_CreateTask_def Let_def trim on_field_def write_tx_def)
qed

theorem create_fresh_numbered_witness:
  "\<exists>s' row. fst (service_CreateTask tiny_env sample_ctx tiny_new tiny_store) = s' \<and> row \<in> set (tasks s') \<and>
     t_seq row = 4 \<and> t_status row = ''a'' \<and> t_title row = ''n'' \<and> t_creator row = ''u1''"
proof -
  obtain s' out where call: "service_CreateTask tiny_env sample_ctx tiny_new tiny_store = (s', Inr out)"
    using tiny_created by blast
  have ok: "schema_ok tiny_store" "\<forall>p\<in>set (projects tiny_store). 0 \<le> pr_seq_counter p" by code_simp+
  from create_fresh_numbered [OF call this] obtain p w row who where p: "p \<in> set (projects tiny_store)"
    and w: "workflow_of tiny_store (pr_workflow p) = Some w" and who: "c_actor sample_ctx = Some who"
    and row: "task_row_of s' (t_id out) = Some row" "t_seq row = pr_seq_counter p + 1" "t_creator row = a_id who"
      "t_status row = initial (wf_definition w)" "t_title row = TrimSpace ''n''"
    by (auto simp: tiny_new_def)
  have "p = tiny_project" using p by (simp add: tiny_store_def)
  then have "w = tiny_workflow" "t_seq row = 4"
    using w row(2) by (simp_all add: workflow_of_def tiny_store_def tiny_project_def tiny_workflow_def sample_project_def)
  moreover have "who = sample_actor" using who by (simp add: sample_ctx_def)
  moreover have "TrimSpace ''n'' = ''n''" by code_simp
  ultimately show ?thesis
    using row call task_row_of_SomeD [OF row(1)] by (auto simp: tiny_workflow_def sample_actor_def)
qed

end
