(* ===== verification/Ulid.thy ===== *)
theory Ulid
  imports Ident
begin

text \<open>
  Identifiers sort as the numbers they stand for: the accumulator loop of \<open>encode\<close> writes the 26
  base-32 digits of the 128-bit number its bytes make, so identifiers are equal or ordered as
  their bytes are, and the generator's next identifier sorts after its last.
\<close>

section \<open>Numbers and digits\<close>

text \<open>The number a list of bytes makes, most significant first, and the \<open>n\<close> lowest base-32 digits of a number.\<close>

definition bytes_value :: "8 word list \<Rightarrow> nat" where
  "bytes_value bs = foldl (\<lambda>v b. v * 256 + unat b) 0 bs"

fun digits :: "nat \<Rightarrow> nat \<Rightarrow> nat list" where
  "digits 0 v = []"
| "digits (Suc n) v = (v div 32 ^ n) mod 32 # digits n v"

lemma foldl_value: "foldl (\<lambda>v b. v * 256 + unat (b :: 8 word)) x bs = x * 256 ^ length bs + bytes_value bs"
proof (induction bs arbitrary: x)
  case Nil
  then show ?case by (simp add: bytes_value_def)
next
  case (Cons b bs)
  have "foldl (\<lambda>v b. v * 256 + unat b) x (b # bs) = (x * 256 + unat b) * 256 ^ length bs + bytes_value bs"
    by (simp add: Cons.IH)
  moreover have "bytes_value (b # bs) = unat b * 256 ^ length bs + bytes_value bs"
    using Cons.IH [of "unat b"] by (simp add: bytes_value_def)
  ultimately show ?case by (simp add: algebra_simps)
qed

lemma bytes_value_simps [simp]:
  "bytes_value [] = 0" "bytes_value (b # bs) = unat b * 256 ^ length bs + bytes_value bs"
  using foldl_value [of "unat b" bs] by (simp_all add: bytes_value_def)

lemma bytes_value_append: "bytes_value (xs @ ys) = bytes_value xs * 256 ^ length ys + bytes_value ys"
  by (induction xs) (simp_all add: power_add algebra_simps)

lemma unat_byte: "unat (b :: 8 word) < 256"
  by (rule order_less_le_trans [OF unsigned_less]) simp

lemma bytes_value_less: "bytes_value bs < 256 ^ length bs"
proof (induction bs)
  case (Cons b bs)
  have "unat b * 256 ^ length bs + bytes_value bs < Suc (unat b) * 256 ^ length bs" using Cons.IH by simp
  also have "\<dots> \<le> 256 * 256 ^ length bs" using unat_byte [of b] by (intro mult_le_mono1) simp
  finally show ?case by simp
qed simp

lemma length_digits [simp]: "length (digits n v) = n"
  by (induction n) auto

lemma digits_mod_le: "n \<le> m \<Longrightarrow> digits n (v mod 32 ^ m) = digits n v"
proof (induction n)
  case (Suc n)
  then obtain k where m: "m = n + Suc k" by (metis add_Suc_right less_eqE add_Suc)
  have "v mod (32 ^ n * 32 ^ Suc k) div 32 ^ n = v div 32 ^ n mod 32 ^ Suc k"
    by (simp add: mod_mult2_eq del: power_Suc)
  then have "v mod 32 ^ m div 32 ^ n mod 32 = v div 32 ^ n mod 32"
    unfolding m power_add by (simp add: mod_mod_cancel)
  with Suc show ?case by simp
qed simp

lemma digits_cong: "v mod 32 ^ n = w mod 32 ^ n \<Longrightarrow> digits n v = digits n w"
  by (metis digits_mod_le order_refl)

lemma digits_split: "digits (n + k) v = digits n (v div 32 ^ k) @ digits k v"
  by (induction n) (simp_all add: power_add mult.commute [of "32 ^ k"] flip: div_mult2_eq)

section \<open>The accumulator loop\<close>

abbreviation crock :: "nat \<Rightarrow> char" where "crock d \<equiv> crockford ! d"

lemma unat_and_31: "unat (w AND 31 :: 'a::len word) = unat w mod 32"
proof -
  have "w AND 31 = take_bit 5 w" by (simp add: take_bit_eq_mask mask_eq_exp_minus_1)
  moreover have "unat (take_bit 5 w) = take_bit 5 (unat w)" by (rule unsigned_take_bit_eq)
  moreover have "take_bit 5 (unat w) = unat w mod 32" by (simp add: take_bit_eq_mod)
  ultimately show ?thesis by simp
qed

lemma emit_digits: "emit acc (5 * q + r) = map crock (digits q (unat acc div 2 ^ r))" if "r < 5"
proof (induction q)
  case 0
  with that show ?case by (simp add: emit.simps)
next
  case (Suc q)
  have shift: "5 * Suc q + r - 5 = 5 * q + r" by simp
  have "unat (drop_bit (5 * q + r) acc AND 31) = unat acc div 2 ^ (5 * q + r) mod 32"
    unfolding unat_and_31 unat_drop_bit_eq by (simp add: drop_bit_eq_div)
  also have "(2 :: nat) ^ (5 * q + r) = 2 ^ r * 32 ^ q" by (simp add: power_add power_mult)
  finally have "unat (drop_bit (5 * q + r) acc AND 31) = unat acc div 2 ^ r div 32 ^ q mod 32"
    by (simp add: div_mult2_eq)
  with Suc shift show ?case by (subst emit.simps) simp
qed

lemma or_low_byte: "b < 256 \<Longrightarrow> push_bit 8 a OR b = a * 256 + (b :: nat)"
proof -
  assume "b < 256"
  then have "b = take_bit 8 b" by (simp add: take_bit_eq_mod)
  then have "\<not> bit b n" if "8 \<le> n" for n using that by (metis bit_take_bit_iff not_less)
  then have "push_bit 8 a AND b = 0" by (auto simp: bit_eq_iff bit_simps not_le)
  then show ?thesis by (simp add: push_bit_eq_mult flip: disjunctive_add_eq_or)
qed

lemma unat_shift_in: "unat (push_bit 8 acc OR ucast (b :: 8 word) :: 32 word) = (unat acc mod 2 ^ 24) * 256 + unat b"
proof -
  have "unat (push_bit 8 acc OR ucast b :: 32 word) = push_bit 8 (take_bit 24 (unat acc)) OR unat b"
    by (simp add: unsigned_or_eq unsigned_push_bit_eq unsigned_ucast_eq take_bit_push_bit take_bit_nat_eq_self unat_byte
        order_less_trans [OF unat_byte])
  then show ?thesis using unat_byte [of b] by (simp add: or_low_byte take_bit_eq_mod)
qed

lemma encode_rest_digits:
  "r < 5 \<Longrightarrow> r + 8 * length bs = 5 * m \<Longrightarrow>
    encode_rest acc r bs = map crock (digits m (unat acc * 256 ^ length bs + bytes_value bs))"
proof (induction bs arbitrary: acc r m)
  case Nil
  then show ?case by simp
next
  case (Cons b bs)
  let ?acc = "push_bit 8 acc OR ucast b :: 32 word" and ?n = "length bs"
  define X where "X = unat ?acc"
  define q where "q = (r + 8) div 5"
  define s where "s = (r + 8) mod 5"
  define k where "k = m - q"
  have bits: "r + 8 = 5 * q + s" "s < 5" by (simp_all add: q_def s_def)
  have total: "5 * q + s + 8 * ?n = 5 * m" using Cons.prems(2) bits(1) by simp
  then have rest: "s + 8 * ?n = 5 * k" and m: "m = q + k" by (simp_all add: k_def)
  have p32: "(32 :: nat) ^ k = 2 ^ s * 256 ^ ?n"
  proof -
    have "(32 :: nat) ^ k = 2 ^ (s + 8 * ?n)" unfolding rest by (simp add: power_mult)
    then show ?thesis by (simp add: power_add power_mult)
  qed
  let ?W = "X * 256 ^ ?n + bytes_value bs"
  have "?W div 32 ^ k = X div 2 ^ s"
    using bytes_value_less [of bs] by (simp add: p32 mult.commute [of "2 ^ s"] div_mult2_eq)
  then have "digits m ?W = digits q (X div 2 ^ s) @ digits k ?W" by (simp add: m digits_split)
  moreover have "encode_rest acc r (b # bs) = map crock (digits q (X div 2 ^ s)) @ map crock (digits k ?W)"
    using Cons.IH [OF bits(2) rest, of ?acc] emit_digits [OF bits(2), of ?acc q] bits
    by (simp add: Let_def X_def s_def [symmetric])
  moreover have "digits m ?W = digits m (unat acc * 256 ^ length (b # bs) + bytes_value (b # bs))"
  proof (rule digits_cong)
    have X: "X = unat acc mod 2 ^ 24 * 256 + unat b" by (simp add: X_def unat_shift_in)
    have "(32 :: nat) ^ m = 2 ^ (r + 8) * 256 ^ ?n"
      unfolding m power_add [of 32] p32 bits(1) by (simp add: power_add power_mult)
    also have "\<dots> dvd 2 ^ 32 * 256 ^ ?n" using Cons.prems(1) by (intro mult_dvd_mono le_imp_power_dvd) simp_all
    finally obtain c where c: "2 ^ 32 * 256 ^ ?n = (32 :: nat) ^ m * c" by (auto simp: dvd_def)
    have "unat acc * 256 ^ length (b # bs) + bytes_value (b # bs) =
        ?W + (unat acc div 2 ^ 24) * (2 ^ 32 * 256 ^ ?n)"
    proof -
      have "unat acc * 256 = unat acc mod 16777216 * 256 + unat acc div 16777216 * 4294967296"
        using div_mult_mod_eq [of "unat acc" 16777216] by linarith
      then have "unat acc * 256 * 256 ^ ?n = (unat acc mod 16777216 * 256 + unat acc div 16777216 * 4294967296) * 256 ^ ?n"
        by (rule arg_cong)
      then show ?thesis unfolding X by (simp add: algebra_simps)
    qed
    then have "unat acc * 256 ^ length (b # bs) + bytes_value (b # bs) = ?W + 32 ^ m * (c * (unat acc div 2 ^ 24))"
      unfolding c by (simp only: ac_simps)
    then show "?W mod 32 ^ m = (unat acc * 256 ^ length (b # bs) + bytes_value (b # bs)) mod 32 ^ m"
      by (simp only: mod_mult_self2)
  qed
  ultimately show ?case by simp
qed

lemma unat_top_bits: "unat (drop_bit 5 (b AND 0xE0 :: 8 word)) = unat b div 32"
proof -
  have "drop_bit 5 (b AND 0xE0) = drop_bit 5 b AND mask 3" by (simp add: drop_bit_and mask_eq_exp_minus_1)
  also have "\<dots> = drop_bit 5 (take_bit 8 b)" by (simp add: drop_bit_take_bit flip: take_bit_eq_mask)
  also have "take_bit 8 b = b" by (rule take_bit_length_eq [where 'a = 8, simplified])
  finally show ?thesis by (simp only: unat_drop_bit_eq) (simp add: drop_bit_eq_div)
qed

lemma encode_digits:
  assumes "length raw = 16"
  shows "encode raw = map crock (digits 26 (bytes_value raw))"
proof -
  obtain b bs where raw: "raw = b # bs" and n: "length bs = 15" using assms by (cases raw) auto
  let ?V = "bytes_value raw"
  have V: "?V = unat b * 32 ^ 24 + bytes_value bs" and small: "bytes_value bs < 32 ^ 24"
    using bytes_value_less [of bs] by (simp_all add: raw n)
  have rest: "encode_rest 0 0 bs = map crock (digits 24 (bytes_value bs))"
    using encode_rest_digits [of 0 bs 24 0] n by simp
  have low: "digits 24 ?V = digits 24 (bytes_value bs)" by (rule digits_cong) (simp add: V)
  have top: "?V div 32 ^ 24 = unat b" using small by (simp add: V)
  have "?V div 32 ^ Suc 24 = ?V div 32 ^ 24 div 32" by (simp only: power_Suc2 div_mult2_eq)
  then have top': "?V div 32 ^ Suc 24 = unat b div 32" by (simp only: top)
  have "digits (Suc (Suc 24)) ?V = unat b div 32 mod 32 # unat b mod 32 # digits 24 (bytes_value bs)"
    by (simp only: digits.simps(2) top top' low)
  moreover have "unat b div 32 mod 32 = unat b div 32" using unat_byte [of b] by simp
  ultimately have "digits 26 ?V = [unat b div 32, unat b mod 32] @ digits 24 (bytes_value bs)" by simp
  then show ?thesis unfolding raw by (simp only: encode_def list.sel rest unat_top_bits unat_and_31) simp
qed

section \<open>Order\<close>

lemma digits_less:
  "v < 32 ^ n \<Longrightarrow> w < 32 ^ n \<Longrightarrow> digits n v < digits n w \<longleftrightarrow> v < w"
proof (induction n arbitrary: v w)
  case (Suc n)
  let ?B = "(32 :: nat) ^ n"
  have top: "v div ?B < 32" "w div ?B < 32" using Suc.prems by (simp_all add: less_mult_imp_div_less)
  have low: "digits n v < digits n w \<longleftrightarrow> v mod ?B < w mod ?B"
    using Suc.IH [of "v mod ?B" "w mod ?B"] by (simp add: digits_mod_le)
  have "v < w \<longleftrightarrow> v div ?B < w div ?B \<or> v div ?B = w div ?B \<and> v mod ?B < w mod ?B"
  proof (cases "v div ?B" "w div ?B" rule: linorder_cases)
    case less
    then show ?thesis using div_le_mono [of w v ?B] by linarith
  next
    case equal
    then have "v = w div ?B * ?B + v mod ?B" "w = w div ?B * ?B + w mod ?B" by (metis div_mult_mod_eq)+
    with equal show ?thesis by linarith
  next
    case greater
    then show ?thesis using div_le_mono [of v w ?B] by linarith
  qed
  with low top show ?case by (simp add: Cons_less_Cons)
qed simp

lemma crock_less: "d < 32 \<Longrightarrow> e < 32 \<Longrightarrow> crock d < crock e \<longleftrightarrow> d < e"
proof -
  have "sorted_wrt (<) crockford" by code_simp
  moreover have "length crockford = 32" by code_simp
  ultimately show "d < 32 \<Longrightarrow> e < 32 \<Longrightarrow> ?thesis"
    by (metis linorder_neqE_nat order_less_asym order_less_irrefl sorted_wrt_nth_less)
qed

lemma map_crock_less:
  "\<forall>d\<in>set xs \<union> set ys. d < 32 \<Longrightarrow> map crock xs < map crock ys \<longleftrightarrow> xs < ys"
proof (induction xs arbitrary: ys)
  case Nil
  then show ?case by (cases ys) auto
next
  case (Cons x xs)
  show ?case
  proof (cases ys)
    case (Cons y ys')
    have "crock x < crock y \<longleftrightarrow> x < y" "crock x = crock y \<longleftrightarrow> x = y"
      using Cons.prems crock_less [of x y] crock_less [of y x] unfolding Cons by (auto simp: not_less_iff_gr_or_eq)
    with Cons.IH [of ys'] Cons.prems show ?thesis by (simp add: Cons Cons_less_Cons)
  qed simp
qed

lemma digits_bound: "d \<in> set (digits n v) \<Longrightarrow> d < 32"
  by (induction n) auto

lemma encode_less:
  assumes "length a = 16" "length b = 16"
  shows "encode a < encode b \<longleftrightarrow> bytes_value a < bytes_value b"
proof -
  have "bytes_value a < 32 ^ 26" "bytes_value b < 32 ^ 26"
    using bytes_value_less [of a] bytes_value_less [of b] assms by simp_all
  then show ?thesis
    using map_crock_less [of "digits 26 (bytes_value a)" "digits 26 (bytes_value b)"]
    by (simp only: encode_digits assms digits_less) (auto dest: digits_bound)
qed

lemma bytes_value_order:
  "length a = length b \<Longrightarrow> bytes_value a < bytes_value b \<longleftrightarrow> a < b"
proof (induction a arbitrary: b)
  case (Cons x a)
  then obtain y b' where b: "b = y # b'" and n: "length b' = length a" by (cases b) auto
  have small: "bytes_value a < 256 ^ length a" "bytes_value b' < 256 ^ length a"
    using bytes_value_less [of a] bytes_value_less [of b'] n by simp_all
  have IH: "bytes_value a < bytes_value b' \<longleftrightarrow> a < b'" using Cons.IH n by simp
  show ?case
  proof (cases "unat x" "unat y" rule: linorder_cases)
    case less
    then have "Suc (unat x) * 256 ^ length a \<le> unat y * 256 ^ length a" by (intro mult_le_mono1) simp
    with less small show ?thesis by (simp add: b n Cons_less_Cons word_less_nat_alt)
  next
    case equal
    then have "x = y" by (simp add: word_unat_eq_iff)
    then show ?thesis using IH by (simp add: b n Cons_less_Cons)
  next
    case greater
    then have "Suc (unat y) * 256 ^ length a \<le> unat x * 256 ^ length a" by (intro mult_le_mono1) simp
    with greater small show ?thesis by (simp add: b n Cons_less_Cons word_less_nat_alt word_unat_eq_iff)
  qed
qed simp

text \<open>Identifiers compare as the sixteen bytes they were written from: the accumulator loop, with its
  32-bit shifts and leftover bits, keeps the byte order, so sorting rows by identifier sorts them by
  millisecond stamp and then by entropy, and two identifiers are equal only when their bytes are.\<close>

theorem encode_order:
  assumes "length a = 16" "length b = 16"
  shows "(encode a < encode b \<longleftrightarrow> a < b) \<and> (encode a = encode b \<longleftrightarrow> a = b)"
proof -
  have "encode a < encode b \<longleftrightarrow> a < b" "encode b < encode a \<longleftrightarrow> b < a"
    using assms by (simp_all add: encode_less bytes_value_order)
  then show ?thesis by (metis linorder_neqE order_less_irrefl)
qed

lemma encode_order_witness:
  "encode (replicate 15 7 @ [1]) < encode (replicate 14 7 @ [8, 0]) \<and>
   encode (replicate 16 7) \<noteq> encode (replicate 15 7 @ [8])"
proof -
  have "replicate 15 7 @ [1] < replicate 14 7 @ [8, 0 :: 8 word]" by code_simp
  moreover have "replicate 16 7 \<noteq> replicate 15 7 @ [8 :: 8 word]" by code_simp
  ultimately show ?thesis
    using encode_order [of "replicate 15 7 @ [1]" "replicate 14 7 @ [8, 0]"]
      encode_order [of "replicate 16 7" "replicate 15 7 @ [8]"] by simp
qed

section \<open>The generator\<close>

fun big_endian :: "nat \<Rightarrow> 64 word \<Rightarrow> 8 word list" where
  "big_endian 0 w = []"
| "big_endian (Suc n) w = ucast (drop_bit (8 * n) w) # big_endian n w"

lemma length_big_endian [simp]: "length (big_endian n w) = n"
  by (induction n) auto

lemma big_endian_value: "bytes_value (big_endian n w) = unat w mod 256 ^ n"
proof (induction n)
  case (Suc n)
  have "unat (ucast (drop_bit (8 * n) w) :: 8 word) = unat w div 256 ^ n mod 256"
    by (simp only: unsigned_ucast_eq unat_drop_bit_eq) (simp add: take_bit_eq_mod drop_bit_eq_div power_mult)
  moreover have "unat w mod 256 ^ Suc n = 256 ^ n * (unat w div 256 ^ n mod 256) + unat w mod 256 ^ n"
    by (simp only: power_Suc2 mod_mult2_eq)
  ultimately show ?case using Suc by (simp del: power_Suc add: mult.commute)
qed simp

lemma stamp_big_endian: "take 6 (stamp_bytes ms) = big_endian 6 ms"
proof -
  have "ucast (drop_bit (k + 16) (push_bit 16 ms)) = (ucast (drop_bit k ms) :: 8 word)" if "k + 8 \<le> 48" for k
    using that by (intro bit_word_eqI) (simp add: bit_simps)
  from this [of 0] this [of 8] this [of 16] this [of 24] this [of 32] this [of 40] show ?thesis
    by (simp add: stamp_bytes_def eval_nat_numeral upt_rec)
qed

lemma raw_id_value:
  "unat ms < 2 ^ 48 \<Longrightarrow> length e = 10 \<Longrightarrow> bytes_value (raw_id ms e) = unat ms * 256 ^ 10 + bytes_value e"
  by (simp add: raw_id_def stamp_big_endian bytes_value_append big_endian_value)

lemma incr_rev_value:
  "bytes_value (rev (fst (incr_rev bs))) + (if snd (incr_rev bs) then 256 ^ length bs else 0) =
    Suc (bytes_value (rev bs))"
  and length_incr_rev [simp]: "length (fst (incr_rev bs)) = length bs"
proof (induction bs)
  case Nil
  { case 1 then show ?case by simp next case 2 then show ?case by simp }
next
  case (Cons b bs)
  have step: "unat (b + 1) = Suc (unat b)" if "b + 1 \<noteq> 0" using that by (simp add: unatSuc add.commute)
  have last: "unat b = 255" if "b + 1 = 0"
  proof -
    have "b = - 1" using that by (simp add: eq_neg_iff_add_eq_0)
    then show ?thesis by (simp add: unsigned_minus_1_eq_mask mask_eq_exp_minus_1)
  qed
  { case 1 show ?case
      using Cons.IH(1) step last by (auto simp: bytes_value_append Cons.IH(2) split: prod.splits) }
  { case 2 show ?case using Cons.IH(2) by (auto split: prod.splits) }
qed

text \<open>\<open>incr\<close> adds one, and says it wrapped exactly when no larger value fits.\<close>

lemma incr_value:
  "incr b = (b', wrapped) \<Longrightarrow> length b' = length b \<and> (\<not> wrapped \<longrightarrow> bytes_value b' = Suc (bytes_value b)) \<and>
    (wrapped \<longrightarrow> bytes_value b' = 0 \<and> Suc (bytes_value b) = 256 ^ length b)"
proof (cases "incr_rev (rev b)")
  case (Pair r w)
  moreover assume "incr b = (b', wrapped)"
  ultimately have b': "b' = rev r" "wrapped = w" by (simp_all add: incr_def)
  have "length r = length b" using length_incr_rev [of "rev b"] unfolding Pair by simp
  then show ?thesis
    using incr_rev_value [of "rev b"] bytes_value_less [of "rev r"] bytes_value_less [of b]
    by (cases w) (auto simp: Pair b')
qed


text \<open>The identifier a generator gave last, the identifiers a sequence of calls gives, and the calls
  whose clock is not behind the generator and within the 48 bits of a stamp.\<close>

definition last_id :: "generator \<Rightarrow> string" where
  "last_id g = encode (raw_id (lastMS g) (lastRand g))"

fun made :: "(64 word \<times> 8 word list) list \<Rightarrow> generator \<Rightarrow> string list" where
  "made [] g = []"
| "made ((ms, drawn) # calls) g = (let (g', s) = NewAt ms drawn g in s # made calls g')"

fun timely :: "(64 word \<times> 8 word list) list \<Rightarrow> generator \<Rightarrow> bool" where
  "timely [] g = True"
| "timely ((ms, drawn) # calls) g \<longleftrightarrow>
    lastMS g \<le> ms \<and> ms < 0xFFFFFFFFFFFF \<and> length drawn = 10 \<and> timely calls (fst (NewAt ms drawn g))"

lemma NewAt_after_last:
  assumes "NewAt ms drawn g = (g', s)" "lastMS g \<le> ms" "ms < 0xFFFFFFFFFFFF" "length drawn = 10" "length (lastRand g) = 10"
  shows "s = last_id g' \<and> length (lastRand g') = 10 \<and> last_id g < s"
proof -
  obtain nxt wrapped where incr: "incr (lastRand g) = (nxt, wrapped)" by fastforce
  define ms' where "ms' = (if ms = lastMS g \<and> wrapped then ms + 1 else ms)"
  define e where "e = (if ms = lastMS g \<and> \<not> wrapped then nxt else drawn)"
  have s: "s = encode (raw_id ms' e)" and g': "lastMS g' = ms'" "lastRand g' = e"
    using assms(1) by (auto simp: NewAt_def incr ms'_def e_def split: if_splits)
  have e: "length e = 10" using assms(4,5) incr_value [OF incr] by (simp add: e_def)
  have small: "unat ms < 2 ^ 48 - 1" using assms(3) by (simp add: word_less_nat_alt)
  have "ms \<noteq> - 1" using assms(3) by auto
  then have "ms + 1 \<noteq> 0" by (simp add: eq_neg_iff_add_eq_0)
  then have up: "unat (ms + 1) = unat ms + 1" by (metis Suc_eq_plus1 add.commute unatSuc)
  have bound: "unat ms' < 2 ^ 48" "unat (lastMS g) < 2 ^ 48"
  proof -
    have "unat ms' \<le> unat ms + 1" using up by (auto simp: ms'_def)
    then show "unat ms' < 2 ^ 48" using small by linarith
    have "unat (lastMS g) \<le> unat ms" using assms(2) by (simp only: word_le_nat_alt)
    then show "unat (lastMS g) < 2 ^ 48" using small by linarith
  qed
  have "bytes_value (raw_id (lastMS g) (lastRand g)) < bytes_value (raw_id ms' e)"
  proof (cases "lastMS g = ms'")
    case True
    have "\<not> (ms = lastMS g \<and> wrapped)"
    proof
      assume wrap: "ms = lastMS g \<and> wrapped"
      then have "ms + 1 = ms" using True unfolding ms'_def by metis
      then have "unat (ms + 1) = unat ms" by (rule arg_cong)
      then show False unfolding up by simp
    qed
    moreover from this True have "ms = lastMS g" unfolding ms'_def by metis
    ultimately have "ms = lastMS g" "\<not> wrapped" by simp_all
    then show ?thesis using True incr_value [OF incr] bound assms(5) e by (simp add: raw_id_value e_def)
  next
    case False
    then have "unat (lastMS g) < unat ms'"
    proof (cases "ms = lastMS g \<and> wrapped")
      case True
      with up show ?thesis by (simp add: ms'_def)
    next
      case False
      with \<open>lastMS g \<noteq> ms'\<close> assms(2) have "lastMS g < ms'" by (simp add: ms'_def)
      then show ?thesis by (simp only: word_less_nat_alt)
    qed
    then have "Suc (unat (lastMS g)) * 256 ^ 10 \<le> unat ms' * 256 ^ 10" by (intro mult_le_mono1) simp
    then show ?thesis using bytes_value_less [of "lastRand g"] bound assms(5) e by (simp add: raw_id_value)
  qed
  then have "last_id g < s"
    using assms(5) e unfolding s last_id_def
    by (subst encode_less) (simp_all add: raw_id_def stamp_big_endian)
  with s g' e show ?thesis by (simp add: last_id_def)
qed

text \<open>C24: Identifiers sort in the order they were made: as long as the clock is not behind the stamp the
  generator last used (which runs ahead of the clock when the entropy of a millisecond is used up), every
  identifier is greater than all before it, whatever entropy is drawn; so no two are equal.\<close>

theorem identifiers_sorted:
  assumes "timely calls g" "length (lastRand g) = 10"
  shows "sorted_wrt (<) (last_id g # made calls g)"
  using assms
proof (induction calls arbitrary: g)
  case (Cons call calls)
  obtain ms drawn where call: "call = (ms, drawn)" by fastforce
  obtain g' s where new: "NewAt ms drawn g = (g', s)" by fastforce
  have after: "s = last_id g'" "length (lastRand g') = 10" "last_id g < s"
    using NewAt_after_last [OF new] Cons.prems unfolding call timely.simps by blast+
  then have "sorted_wrt (<) (s # made calls g')" using Cons.IH [of g'] Cons.prems new by (simp add: call)
  with after(3) new show ?case by (auto simp: call)
qed simp

definition fresh_generator :: generator where
  "fresh_generator = \<lparr>lastMS = 0, lastRand = replicate 10 0\<rparr>"

lemma identifiers_sorted_witness:
  "sorted_wrt (<) (last_id fresh_generator # made [(5, replicate 10 255), (5, replicate 10 0), (6, replicate 10 7)] fresh_generator)"
proof (rule identifiers_sorted)
  show "timely [(5, replicate 10 255), (5, replicate 10 0), (6, replicate 10 7)] fresh_generator" by code_simp
  show "length (lastRand fresh_generator) = 10" by code_simp
qed

end
