(* ===== verification/Qr_Field.thy ===== *)
theory Qr_Field
  imports Prelude "HOL-Library.Word"
begin

text \<open>
  The field of the enrolment QR code (\<open>internal/qr/galois.go\<close>): bytes modulo
  \<open>x^8 + x^4 + x^3 + x^2 + 1\<close>, multiplied through tables of powers and logarithms, the generator
  polynomial of the error correction and its codewords. Lemmas: a product by a logarithm is a
  power of the doubling step, so it distributes over exclusive or; the words a block is followed by
  make it a codeword, a polynomial that vanishes at every root of the generator.
\<close>

unbundle bit_operations_syntax

type_synonym byte = "8 word"

section \<open>Tables\<close>

definition fieldPoly :: "int" where "fieldPoly = 0x11D"

definition next_power :: "int \<Rightarrow> int" where
  "next_power x = (let x = push_bit 1 x in if x AND 0x100 \<noteq> 0 then x XOR fieldPoly else x)"

text \<open>The values the loop of \<open>init\<close> gives \<open>x\<close>, and the two tables it fills.\<close>

fun powers :: "nat \<Rightarrow> int \<Rightarrow> byte list" where
  "powers 0 x = []"
| "powers (Suc n) x = word_of_int x # powers n (next_power x)"

text \<open>The upper half is copied entry by entry from the place 255 before it.\<close>

definition expTable :: "byte list" where
  "expTable = foldl (\<lambda>t i. t @ [t ! (i - 255)]) (powers 255 1) [255..<512]"

definition logTable :: "byte list" where
  "logTable = foldl (\<lambda>t (i, x). t[unat x := word_of_int (int i)]) (replicate 256 0) (enumerate 0 (powers 255 1))"

definition mul :: "byte \<Rightarrow> byte \<Rightarrow> byte" where
  "mul a b = (if a = 0 \<or> b = 0 then 0 else expTable ! (unat (logTable ! unat a) + unat (logTable ! unat b)))"

section \<open>Error correction\<close>

text \<open>One factor of the generator polynomial: every coefficient is added to its own place and,
  multiplied by the root, to the next.\<close>

definition add_at :: "nat \<Rightarrow> byte \<Rightarrow> byte list \<Rightarrow> byte list" where
  "add_at i b xs = xs[i := xs ! i XOR b]"

definition times_root :: "byte \<Rightarrow> byte list \<Rightarrow> byte list" where
  "times_root r poly = foldl (\<lambda>nxt (j, c). add_at (Suc j) (mul c r) (add_at j c nxt))
     (replicate (length poly + 1) 0) (enumerate 0 poly)"

fun generator_poly :: "nat \<Rightarrow> byte list" where
  "generator_poly 0 = [1]"
| "generator_poly (Suc n) = times_root (expTable ! n) (generator_poly n)"

text \<open>One data word shifted into the remainder register.\<close>

definition feed :: "byte list \<Rightarrow> byte list \<Rightarrow> byte \<Rightarrow> byte list" where
  "feed gen rem d =
    (let factor = d XOR hd rem;
         rem = tl rem @ [0]
     in foldl (\<lambda>rem (i, g). add_at i (mul g factor) rem) rem (enumerate 0 (tl gen)))"

definition reedSolomon :: "byte list \<Rightarrow> nat \<Rightarrow> byte list" where
  "reedSolomon data n = foldl (feed (generator_poly n)) (replicate n 0) data"

section \<open>The tables agree with repeated doubling\<close>

definition double :: "byte \<Rightarrow> byte" where
  "double b = push_bit 1 b XOR (if bit b 7 then 0x1D else 0)"

abbreviation pow2 :: "nat \<Rightarrow> byte" where "pow2 i \<equiv> (double ^^ i) 1"

lemma int_bit_test: "(x :: int) AND 256 \<noteq> 0 \<longleftrightarrow> bit x 8"
  using bit_iff_and_push_bit_not_eq_0 [of x 8] by simp

lemma next_power_eq: "next_power x = (if (2 * x) AND 256 \<noteq> 0 then (2 * x) XOR 285 else 2 * x)"
  by (simp add: next_power_def fieldPoly_def Let_def push_bit_eq_mult mult.commute)

lemma double_step: "word_of_int (next_power x) = double (word_of_int x)"
proof (rule bit_word_eqI)
  fix n assume n: "n < LENGTH(8)"
  have "bit (285 :: int) n = bit (29 :: byte) n"
  proof -
    have "(29 :: byte) = word_of_int 285" by simp
    then show ?thesis using n by (simp only: bit_word_of_int_iff) simp
  qed
  then show "bit (word_of_int (next_power x) :: byte) n = bit (double (word_of_int x)) n"
    using n unfolding next_power_def Let_def fieldPoly_def int_bit_test double_def
    by (auto simp: bit_simps simp del: push_bit_Suc push_bit_numeral)
qed

lemma powers_eq: "powers n x = map (\<lambda>i. (double ^^ i) (word_of_int x)) [0..<n]"
proof (induction n arbitrary: x)
  case (Suc n)
  have "powers (Suc n) x = word_of_int x # map (\<lambda>i. (double ^^ Suc i) (word_of_int x)) [0..<n]"
    by (simp add: Suc.IH double_step funpow_Suc_right del: funpow.simps)
  also have "map (\<lambda>i. (double ^^ Suc i) (word_of_int x)) [0..<n] = map (\<lambda>i. (double ^^ i) (word_of_int x)) [Suc 0..<Suc n]"
    by (simp only: map_Suc_upt [symmetric] map_map comp_def)
  finally show ?case by (simp add: upt_conv_Cons del: upt_Suc)
qed simp

fun never_one :: "nat \<Rightarrow> int \<Rightarrow> bool" where
  "never_one 0 x \<longleftrightarrow> x mod 256 = 1"
| "never_one (Suc n) x \<longleftrightarrow> x mod 256 \<noteq> 1 \<and> never_one n (next_power x)"

lemma never_one_254: "never_one 254 2"
  by (simp add: eval_nat_numeral next_power_eq)


lemma xor_cancel: "a XOR c = b XOR c \<longleftrightarrow> a = (b :: byte)"
  by (metis xor.assoc xor.right_neutral xor_self_eq)

lemma double_xor: "double (a XOR b) = double a XOR double b"
  by (rule bit_word_eqI) (auto simp: double_def bit_simps)

lemma double_0 [simp]: "double 0 = 0"
  by (simp add: double_def)

lemma double_inj: "double a = double b \<longleftrightarrow> a = b"
proof
  assume eq: "double a = double b"
  have lsb: "bit (double c) 0 = bit c 7" for c
    unfolding double_def bit_xor_iff bit_push_bit_iff by simp
  have top: "bit a 7 = bit b 7" using lsb eq by metis
  then have "push_bit 1 a = push_bit 1 b" using eq by (auto simp: double_def xor_cancel split: if_splits)
  moreover have "bit (push_bit 1 c) (Suc n) \<longleftrightarrow> bit c n" if "n < 7" for c :: byte and n
    using that by (simp only: bit_push_bit_iff) simp
  ultimately have "bit a n = bit b n" if "n < 7" for n using that by metis
  with top have "bit a n = bit b n" if "n < 8" for n
    using that by (cases "n = 7") auto
  then show "a = b" by (intro bit_word_eqI) simp
qed simp

lemma pow_xor: "(double ^^ n) (a XOR b) = (double ^^ n) a XOR (double ^^ n) b"
  by (induction n) (simp_all add: double_xor)

lemma pow_0 [simp]: "(double ^^ n) 0 = 0"
  by (induction n) simp_all

lemma pow_inj: "(double ^^ n) a = (double ^^ n) b \<longleftrightarrow> a = b"
  by (induction n) (simp_all add: double_inj)

lemma word_of_int_1: "(word_of_int x :: byte) = 1 \<longleftrightarrow> x mod 256 = 1"
proof -
  have "(word_of_int x :: byte) = word_of_int 1 \<longleftrightarrow> take_bit 8 x = take_bit 8 1"
    by (subst word_of_int_eq_iff) simp
  then show ?thesis by (simp add: take_bit_eq_mod)
qed

lemma never_one_pow: "never_one n x \<Longrightarrow> i < n \<Longrightarrow> (double ^^ i) (word_of_int x) \<noteq> 1"
  and never_one_end: "never_one n x \<Longrightarrow> (double ^^ n) (word_of_int x) = 1"
proof (induction n arbitrary: x i)
  case 0
  { case 1 then show ?case by simp next case 2 then show ?case by (simp add: word_of_int_1) }
next
  case (Suc n)
  { case 1
    then show ?case using Suc.IH(1) [of "next_power x" "i - 1"]
      by (cases i) (simp_all add: double_step word_of_int_1 funpow_Suc_right del: funpow.simps)
  next
    case 2
    then show ?case using Suc.IH(2) [of "next_power x"]
      by (simp add: double_step funpow_Suc_right del: funpow.simps) }
qed

lemma pow2_cycle: "pow2 255 = 1" and pow2_not_1: "0 < i \<Longrightarrow> i < 255 \<Longrightarrow> pow2 i \<noteq> 1"
proof -
  have 2: "double 1 = word_of_int 2" using double_step [of 1] by (simp add: next_power_eq)
  have "pow2 (Suc i) = (double ^^ i) (word_of_int 2)" for i by (simp only: funpow_Suc_right comp_def 2)
  from this [of 254] this [of "i - 1"] show "pow2 255 = 1" "0 < i \<Longrightarrow> i < 255 \<Longrightarrow> pow2 i \<noteq> 1"
    using never_one_end [OF never_one_254] never_one_pow [OF never_one_254, of "i - 1"] by simp_all
qed

lemma pow2_add: "pow2 (i + j) = (double ^^ i) (pow2 j)"
  by (simp add: funpow_add)

lemma pow2_nonzero: "pow2 i \<noteq> 0"
  using pow_inj [of i 1 0] by simp

lemma pow2_inj: "inj_on pow2 {..<255}"
proof (rule inj_onI)
  have less: False if "i < j" "j < 255" "pow2 i = pow2 j" for i j
  proof -
    have "(double ^^ i) 1 = (double ^^ i) (pow2 (j - i))" using that pow2_add [of i "j - i"] by simp
    then show False using pow2_not_1 [of "j - i"] that by (simp only: pow_inj) (simp add: eq_commute less_imp_diff_less)
  qed
  then show "i = j" if "i \<in> {..<255}" "j \<in> {..<255}" "pow2 i = pow2 j" for i j
    using that by (metis lessThan_iff linorder_neqE_nat)
qed

lemma pow2_onto: "b \<noteq> 0 \<Longrightarrow> \<exists>i < 255. b = pow2 i"
proof -
  have powers: "card (pow2 ` {..<255}) = 255" using card_image [OF pow2_inj] by simp
  have "CARD(byte) = 2 ^ 8" unfolding card_word by simp
  then have bytes: "card (UNIV - {0 :: byte}) = 255" using card_Diff_singleton [of 0 "UNIV :: byte set"] by simp
  have "pow2 ` {..<255} \<subseteq> UNIV - {0}" 
    by (rule image_subsetI) (simp only: Diff_iff UNIV_I singleton_iff pow2_nonzero not_False_eq_True simp_thms)
  from card_subset_eq [OF _ this] powers bytes have "pow2 ` {..<255} = UNIV - {0}" by (metis finite)
  moreover assume "b \<noteq> 0"
  ultimately have "b \<in> pow2 ` {..<255}" by blast
  then show ?thesis by blast
qed

section \<open>The product\<close>

lemma length_powers [simp]: "length (powers n x) = n"
  by (simp add: powers_eq)

lemma pow2_mod: "pow2 k = pow2 (k mod 255)"
proof (induction k rule: less_induct)
  case (less k)
  show ?case
  proof (cases "k < 255")
    case False
    then have "pow2 k = (double ^^ (k - 255)) (pow2 255)" using pow2_add [of "k - 255" 255] by simp
    also have "\<dots> = pow2 ((k - 255) mod 255)" using less.IH [of "k - 255"] False by (simp only: pow2_cycle)
    finally show ?thesis using False by (simp add: le_mod_geq not_less)
  qed simp
qed

lemma repeat_cycle:
  assumes "0 < m" "\<And>k. f (m + k) = f k"
  shows "foldl (\<lambda>t i. t @ [t ! (i - m)]) (map f [0..<m]) [m..<m + n] = map f [0..<m + n]"
  using assms by (induction n) simp_all

lemma expTable_nth: "k < 512 \<Longrightarrow> expTable ! k = pow2 k"
proof -
  have "pow2 (255 + n) = pow2 n" for n using pow2_mod [of n] pow2_mod [of "255 + n"] by simp
  then have "foldl (\<lambda>t i. t @ [t ! (i - 255)]) (map pow2 [0..<255]) [255..<255 + 257] = map pow2 [0..<255 + 257]"
    by (intro repeat_cycle) simp_all
  moreover have "powers 255 1 = map pow2 [0..<255]" by (simp only: powers_eq of_int_1)
  moreover have "(512 :: nat) = 255 + 257" by simp
  ultimately have "expTable = map pow2 [0..<255 + 257]" unfolding expTable_def by (simp only:)
  moreover assume "k < 512"
  ultimately show ?thesis using nth_map_upt [of k "255 + 257" 0 pow2] by (simp only:) simp
qed

lemma fill_other: "(\<And>x. x \<in> snd ` set xs \<Longrightarrow> x \<noteq> y) \<Longrightarrow>
    foldl (\<lambda>t (i, x). t[unat x := h i]) t xs ! unat (y :: byte) = t ! unat y"
proof (induction xs arbitrary: t)
  case (Cons p xs)
  then have "unat (snd p) \<noteq> unat y" by (metis image_eqI list.set_intros(1) word_unat_eq_iff)
  with Cons show ?case by (cases p) simp
qed simp

lemma fill_at: "distinct (map snd xs) \<Longrightarrow> (i, y) \<in> set xs \<Longrightarrow> length t = 256 \<Longrightarrow>
    foldl (\<lambda>t (i, x). t[unat x := h i]) t xs ! unat (y :: byte) = h i"
proof (induction xs arbitrary: t)
  case (Cons p xs)
  obtain j x where p: "p = (j, x)" by fastforce
  have x: "unat x < length t" using Cons.prems(3) unsigned_less [of x] by simp
  show ?case
  proof (cases "(i, y) = p")
    case True
    moreover have "x \<notin> snd ` set xs" using Cons.prems(1) p by simp
    then have "foldl (\<lambda>t (i, x). t[unat x := h i]) (t[unat x := h j]) xs ! unat x = t[unat x := h j] ! unat x"
      by (intro fill_other) blast
    ultimately show ?thesis using p x by simp
  next
    case False
    then show ?thesis using Cons p by auto
  qed
qed simp

lemma logTable_pow2: "i < 255 \<Longrightarrow> unat (logTable ! unat (pow2 i)) = i"
proof -
  assume i: "i < 255"
  have powers: "powers 255 1 = map pow2 [0..<255]" by (simp only: powers_eq of_int_1)
  have "distinct (map pow2 [0..<255])" by (simp only: distinct_map distinct_upt set_upt atLeast0LessThan pow2_inj simp_thms)
  then have "distinct (map snd (enumerate 0 (powers 255 1)))" by (simp only: powers map_snd_enumerate)
  moreover have "(i, pow2 i) \<in> set (enumerate 0 (powers 255 1))"
    using i by (simp only: in_set_enumerate_eq powers length_map length_upt nth_map_upt) simp
  ultimately have "logTable ! unat (pow2 i) = word_of_int (int i)"
    unfolding logTable_def by (rule fill_at) simp
  then show ?thesis using i by (simp add: unat_of_nat)
qed

text \<open>A product is repeated doubling, as often as the logarithm of the second factor says.\<close>

lemma mul_pow2: "i < 255 \<Longrightarrow> mul a (pow2 i) = (double ^^ i) a"
proof (cases "a = 0")
  case False
  then obtain j where j: "j < 255" "a = pow2 j" using pow2_onto by blast
  assume "i < 255"
  with j show ?thesis using pow2_add [of i j]
    by (simp add: mul_def pow2_nonzero logTable_pow2 expTable_nth add.commute)
qed (simp add: mul_def)

lemma mul_commute: "mul a b = mul b a"
  by (simp add: mul_def add.commute)

lemma mul_power: "mul a (pow2 k) = (double ^^ k) a"
proof (cases "a = 0")
  case False
  then obtain j where j: "a = pow2 j" using pow2_onto by blast
  have "mul a (pow2 (k mod 255)) = pow2 (k mod 255 + j)"
    using mul_pow2 [of "k mod 255" a] unfolding j pow2_add by simp
  also have "\<dots> = pow2 (k + j)"
    using pow2_mod [of "k mod 255 + j"] pow2_mod [of "k + j"] by (simp only: mod_add_left_eq)
  finally show ?thesis by (simp only: j pow2_add pow2_mod [of k, symmetric])
qed (simp add: mul_def)

lemma mul_xor: "mul (a XOR b) c = mul a c XOR mul b c"
proof (cases "c = 0")
  case False
  then obtain k where "c = pow2 k" using pow2_onto by blast
  then show ?thesis by (simp only: mul_power pow_xor)
qed (simp add: mul_def)

lemma mul_xor_right: "mul c (a XOR b) = mul c a XOR mul c b"
  by (metis mul_commute mul_xor)

lemma mul_0 [simp]: "mul 0 a = 0" "mul a 0 = 0"
  by (simp_all add: mul_def)

lemma mul_1 [simp]: "mul a 1 = a" "mul 1 a = a"
  using mul_power [of a 0] by (simp_all add: mul_commute)

lemma mul_assoc: "mul (mul a b) c = mul a (mul b c)"
proof (cases "b = 0 \<or> c = 0")
  case False
  then obtain j k where "b = pow2 j" "c = pow2 k" using pow2_onto by metis
  then show ?thesis by (simp only: mul_power flip: funpow_add comp_apply [of "double ^^ _"] )
qed auto

section \<open>Codewords\<close>

text \<open>The value of a polynomial, highest power first, and the roots of the generator.\<close>

definition poly_at :: "byte \<Rightarrow> byte list \<Rightarrow> byte" where
  "poly_at r p = foldl (\<lambda>v c. mul v r XOR c) 0 p"

fun gf_power :: "byte \<Rightarrow> nat \<Rightarrow> byte" where
  "gf_power r 0 = 1"
| "gf_power r (Suc n) = mul (gf_power r n) r"

lemma foldl_poly: "foldl (\<lambda>v c. mul v r XOR c) v p = mul v (gf_power r (length p)) XOR poly_at r p"
proof (induction p arbitrary: v)
  case (Cons c p)
  have "foldl (\<lambda>v c. mul v r XOR c) v (c # p) = mul (mul v r XOR c) (gf_power r (length p)) XOR poly_at r p"
    by (simp add: Cons.IH)
  moreover have "poly_at r (c # p) = mul c (gf_power r (length p)) XOR poly_at r p"
    using Cons.IH [of c] by (simp add: poly_at_def)
  ultimately show ?case by (simp add: mul_xor mul_assoc mul_commute [of r] xor.assoc)
qed (simp add: poly_at_def)

lemma poly_at_Cons: "poly_at r (c # p) = mul c (gf_power r (length p)) XOR poly_at r p"
  using foldl_poly [of r c p] by (simp add: poly_at_def)

lemma poly_at_Nil [simp]: "poly_at r [] = 0"
  by (simp add: poly_at_def)

lemma poly_at_append: "poly_at r (p @ q) = mul (poly_at r p) (gf_power r (length q)) XOR poly_at r q"
proof -
  have "poly_at r (p @ q) = foldl (\<lambda>v c. mul v r XOR c) (poly_at r p) q" by (simp add: poly_at_def)
  then show ?thesis by (simp only: foldl_poly)
qed

lemma length_add_at [simp]: "length (add_at i b xs) = length xs"
  by (simp add: add_at_def)

lemma poly_at_add_at:
  "i < length xs \<Longrightarrow> poly_at r (add_at i b xs) = poly_at r xs XOR mul b (gf_power r (length xs - Suc i))"
proof (induction xs arbitrary: i)
  case (Cons x xs)
  then show ?case
    by (cases i) (simp_all add: add_at_def poly_at_Cons mul_xor ac_simps)
qed simp

lemma length_fold_add: "length (foldl (\<lambda>a (i, c). add_at i (f c) a) a xs) = length a"
  by (induction xs arbitrary: a) auto

lemma poly_at_fold_add:
  "length rem = k + length gs \<Longrightarrow>
    poly_at r (foldl (\<lambda>rem (i, g). add_at i (mul g factor) rem) rem (enumerate k gs)) =
      poly_at r rem XOR mul factor (poly_at r gs)"
proof (induction gs arbitrary: k rem)
  case (Cons g gs)
  then show ?case
    by (simp add: poly_at_add_at poly_at_Cons mul_xor_right mul_commute [of g] mul_assoc xor.assoc)
qed simp

lemma poly_at_times_fold:
  "length nxt = k + length poly + 1 \<Longrightarrow>
    poly_at r (foldl (\<lambda>nxt (j, c). add_at (Suc j) (mul c s) (add_at j c nxt)) nxt (enumerate k poly)) =
      poly_at r nxt XOR mul (poly_at r poly) (r XOR s)"
proof (induction poly arbitrary: k nxt)
  case (Cons c poly)
  let ?L = "gf_power r (length poly)"
  have "mul c (gf_power r (Suc (length poly))) XOR mul (mul c s) ?L = mul (mul c ?L) (r XOR s)"
    by (simp add: mul_xor_right mul_assoc mul_commute [of s])
  then have "mul c (gf_power r (Suc (length poly))) XOR (mul (mul c s) ?L XOR z) = mul (mul c ?L) (r XOR s) XOR z" for z
    by (simp only: xor.assoc [symmetric])
  with Cons show ?case
    by (simp add: poly_at_add_at poly_at_Cons mul_xor xor.assoc)
qed simp

lemma poly_at_zeros [simp]: "poly_at r (replicate n 0) = 0"
  by (induction n) (simp_all add: poly_at_Cons)

lemma poly_at_times_root: "poly_at r (times_root s poly) = mul (poly_at r poly) (r XOR s)"
  by (simp add: times_root_def poly_at_times_fold poly_at_Cons)

lemma length_times_fold:
  "length (foldl (\<lambda>nxt (j, c). add_at (Suc j) (mul c s) (add_at j c nxt)) nxt xs) = length nxt"
  by (induction xs arbitrary: nxt) auto

lemma length_generator_poly [simp]: "length (generator_poly n) = Suc n"
  by (induction n) (simp_all add: times_root_def length_times_fold)

lemma generator_root: "i < n \<Longrightarrow> poly_at (expTable ! i) (generator_poly n) = 0"
proof (induction n)
  case (Suc n)
  then show ?case by (cases "i = n") (auto simp: poly_at_times_root)
qed simp

lemma add_at_Nil [simp]: "add_at i b xs = [] \<longleftrightarrow> xs = []"
  by (simp add: add_at_def)

lemma hd_add_at: "xs \<noteq> [] \<Longrightarrow> hd (add_at i b xs) = (if i = 0 then hd xs XOR b else hd xs)"
  by (cases xs; cases i) (auto simp: add_at_def)

lemma hd_times_fold:
  "0 < k \<Longrightarrow> nxt \<noteq> [] \<Longrightarrow>
    hd (foldl (\<lambda>nxt (j, c). add_at (Suc j) (mul c s) (add_at j c nxt)) nxt (enumerate k p)) = hd nxt"
proof (induction p arbitrary: k nxt)
  case (Cons c p)
  then show ?case by (simp add: hd_add_at)
qed simp

lemma hd_generator_poly: "hd (generator_poly n) = 1"
proof (induction n)
  case (Suc n)
  obtain c p where poly: "generator_poly n = c # p" using length_generator_poly [of n] by (cases "generator_poly n") auto
  with Suc show ?case
    by (simp add: times_root_def hd_times_fold hd_add_at)
qed simp

lemma feed_length [simp]: "rem \<noteq> [] \<Longrightarrow> length (feed gen rem d) = length rem"
  by (simp add: feed_def length_fold_add Let_def)

text \<open>The register holds the remainder: its value at a root is that of what was fed, shifted by the register's width.\<close>

lemma feed_root:
  assumes "i < n" "length rem = n"
  shows "poly_at (expTable ! i) (feed (generator_poly n) rem d) =
    mul (poly_at (expTable ! i) rem) (expTable ! i) XOR mul d (gf_power (expTable ! i) n)"
proof -
  let ?r = "expTable ! i" and ?gen = "generator_poly n"
  obtain c rest where rem: "rem = c # rest" and n: "n = Suc (length rest)" using assms by (cases rem) auto
  obtain g gen' where gen: "?gen = g # gen'" using length_generator_poly [of n] by (cases ?gen) auto
  have g: "g = 1" and lg: "length gen' = n" using hd_generator_poly [of n] length_generator_poly [of n] gen by simp_all
  have "poly_at ?r gen' = gf_power ?r n"
  proof -
    have "gf_power ?r n XOR poly_at ?r gen' = 0" using generator_root [OF assms(1)] gen g lg by (simp add: poly_at_Cons)
    then show ?thesis using xor_cancel [of "poly_at ?r gen'" "poly_at ?r gen'" "gf_power ?r n"] by simp
  qed
  moreover have "length (rest @ [0]) = 0 + length gen'" by (simp add: lg n)
  ultimately have "poly_at ?r (feed ?gen rem d) = poly_at ?r (rest @ [0]) XOR mul (d XOR c) (gf_power ?r n)"
    unfolding feed_def gen rem Let_def list.sel by (simp only: poly_at_fold_add)
  moreover have "poly_at ?r (rest @ [0]) = mul (poly_at ?r rest) ?r" by (simp add: poly_at_append poly_at_Cons)
  moreover have "mul (poly_at ?r rem) ?r = mul c (gf_power ?r n) XOR mul (poly_at ?r rest) ?r"
    by (simp add: rem poly_at_Cons mul_xor mul_assoc n)
  ultimately show ?thesis by (simp add: mul_xor ac_simps)
qed

lemma reedSolomon_length: "0 < n \<Longrightarrow> length (reedSolomon data n) = n"
proof -
  have "length rem = n \<Longrightarrow> 0 < n \<Longrightarrow> length (foldl (feed gen) rem data) = n" for rem gen
    by (induction data arbitrary: rem) auto
  then show "0 < n \<Longrightarrow> ?thesis" by (simp add: reedSolomon_def)
qed

text \<open>C26: The words a data block is followed by make it a codeword: read as one polynomial over the field
  of 256 elements, highest power first, the block and its error correction vanish at each of the \<open>n\<close>
  consecutive powers of 2, which is what lets a reader find and undo damage; and there are \<open>n\<close> of them.\<close>

theorem reedSolomon_codeword:
  assumes "0 < n"
  shows "length (reedSolomon data n) = n \<and>
    (\<forall>i < n. foldl (\<lambda>v c. mul v (expTable ! i) XOR c) 0 (data @ reedSolomon data n) = 0)"
proof -
  have "poly_at (expTable ! i) (data @ reedSolomon data n) = 0" if i: "i < n" for i
  proof -
    let ?r = "expTable ! i"
    have fed: "poly_at ?r (foldl (feed (generator_poly n)) rem data) =
        mul (foldl (\<lambda>v d. mul v ?r XOR d) w data) (gf_power ?r n)"
      if "length rem = n" "poly_at ?r rem = mul w (gf_power ?r n)" for rem w
      using that
    proof (induction data arbitrary: rem w)
      case (Cons d data)
      have "poly_at ?r (feed (generator_poly n) rem d) = mul (mul w ?r XOR d) (gf_power ?r n)"
        unfolding feed_root [OF i Cons.prems(1)] Cons.prems(2) mul_xor mul_assoc by (simp only: mul_commute)
      moreover have "length (feed (generator_poly n) rem d) = n" using Cons.prems(1) assms by (cases rem) simp_all
      ultimately show ?case using Cons.IH by simp
    qed simp
    from fed [of "replicate n 0" 0] show ?thesis
      by (simp add: poly_at_append reedSolomon_length [OF assms]) (simp add: reedSolomon_def poly_at_def)
  qed
  then show ?thesis using reedSolomon_length [OF assms] by (simp add: poly_at_def)
qed

theorem reedSolomon_codeword_witness:
  "length (reedSolomon [64, 16] 2) = 2 \<and>
   foldl (\<lambda>v c. mul v (expTable ! 1) XOR c) 0 ([64, 16] @ reedSolomon [64, 16] 2) = 0"
  using reedSolomon_codeword [of 2 "[64, 16]"] by simp

end
