(* ===== verification/Qr_Words.thy ===== *)
theory Qr_Words
  imports Qr_Field
begin

text \<open>
  The words of the enrolment QR code (\<open>internal/qr/qr.go\<close>): the geometry of its ten versions, the
  choice of a version, the bit stream of a text, its padding, its split into blocks and the order
  in which a symbol reads them. The main result is against a reader written from the standard:
  it gives back exactly the text, whatever the text and the version chosen.
\<close>

section \<open>Versions\<close>

record versionSpec =
  dataWords :: nat
  ecWords :: nat
  blocks :: "(nat \<times> nat) list"
  align :: "nat list"
  remainder :: nat

definition maxVersion :: nat where "maxVersion = 10"

definition spec_of :: "nat \<Rightarrow> nat \<Rightarrow> (nat \<times> nat) list \<Rightarrow> nat list \<Rightarrow> nat \<Rightarrow> versionSpec" where
  "spec_of d e b a r = \<lparr>dataWords = d, ecWords = e, blocks = b, align = a, remainder = r\<rparr>"

fun versions :: "nat \<Rightarrow> versionSpec option" where
  "versions v =
    (if v = 1 then Some (spec_of 16 10 [(1, 16)] [] 0)
     else if v = 2 then Some (spec_of 28 16 [(1, 28)] [6, 18] 7)
     else if v = 3 then Some (spec_of 44 26 [(1, 44)] [6, 22] 7)
     else if v = 4 then Some (spec_of 64 18 [(2, 32)] [6, 26] 7)
     else if v = 5 then Some (spec_of 86 24 [(2, 43)] [6, 30] 7)
     else if v = 6 then Some (spec_of 108 16 [(4, 27)] [6, 34] 7)
     else if v = 7 then Some (spec_of 124 18 [(4, 31)] [6, 22, 38] 0)
     else if v = 8 then Some (spec_of 154 22 [(2, 38), (2, 39)] [6, 24, 42] 0)
     else if v = 9 then Some (spec_of 182 22 [(3, 36), (2, 37)] [6, 26, 46] 0)
     else if v = 10 then Some (spec_of 216 26 [(4, 43), (1, 44)] [6, 28, 50] 0)
     else None)"

declare versions.simps [simp del]

definition headerBytes :: "nat \<Rightarrow> nat" where
  "headerBytes version = (if version < 10 then 2 else 3)"

definition countBits :: "nat \<Rightarrow> nat" where
  "countBits version = (if version < 10 then 8 else 16)"

text \<open>The only error is \<open>ErrTooLong\<close>.\<close>

definition pick_version :: "nat \<Rightarrow> (nat \<times> versionSpec) option" where
  "pick_version n =
    (case find (\<lambda>v. \<exists>spec\<in>set_option (versions v). int n \<le> int (dataWords spec) - int (headerBytes v)) [1..<maxVersion + 1] of
       Some v \<Rightarrow> map_option (Pair v) (versions v)
     | None \<Rightarrow> None)"

section \<open>The bit stream\<close>

record bits =
  b_bytes :: "byte list"
  b_len :: nat

definition no_bits :: bits where "no_bits = \<lparr>b_bytes = [], b_len = 0\<rparr>"

definition add_bit :: "bool \<Rightarrow> bits \<Rightarrow> bits" where
  "add_bit dark b =
    (let bs = (if b_len b mod 8 = 0 then b_bytes b @ [0] else b_bytes b);
         bs = (if dark then bs[b_len b div 8 := bs ! (b_len b div 8) OR push_bit (7 - b_len b mod 8) 1] else bs)
     in \<lparr>b_bytes = bs, b_len = b_len b + 1\<rparr>)"

fun add_bits :: "64 word \<Rightarrow> nat \<Rightarrow> bits \<Rightarrow> bits" where
  "add_bits v 0 b = b"
| "add_bits v (Suc i) b = add_bits v i (add_bit (v AND push_bit i 1 \<noteq> 0) b)"

definition padWords :: "64 word list" where "padWords = [0xEC, 0x11]"

lemma b_len_add_bits [simp]: "b_len (add_bits v w b) = b_len b + w"
  by (induction w arbitrary: b) (simp_all add: add_bit_def Let_def)

function pad_bits :: "nat \<Rightarrow> nat \<Rightarrow> bits \<Rightarrow> bits" where
  "pad_bits i want b = (if b_len b < want then pad_bits (i + 1) want (add_bits (padWords ! (i mod 2)) 8 b) else b)"
  by pat_completeness auto
termination by (relation "measure (\<lambda>(_, want, b). want - b_len b)") auto

declare pad_bits.simps [simp del]

definition data_bits :: "byte list \<Rightarrow> nat \<Rightarrow> versionSpec \<Rightarrow> bits" where
  "data_bits data version spec =
    (let b = add_bits 0b0100 4 no_bits;
         b = add_bits (of_nat (length data)) (countBits version) b;
         b = foldl (\<lambda>b c. add_bits (ucast c) 8 b) b data;
         b = add_bits 0 (min 4 (dataWords spec * 8 - b_len b)) b;
         b = add_bits 0 ((8 - b_len b mod 8) mod 8) b
     in pad_bits 0 (dataWords spec * 8) b)"

section \<open>Blocks\<close>

definition block_sizes :: "versionSpec \<Rightarrow> nat list" where
  "block_sizes spec = concat (map (\<lambda>(count, words). replicate count words) (blocks spec))"

fun split_blocks :: "nat list \<Rightarrow> byte list \<Rightarrow> byte list list" where
  "split_blocks [] bs = []"
| "split_blocks (l # ls) bs = take l bs # split_blocks ls (drop l bs)"

definition interleave :: "byte list list \<Rightarrow> byte list list \<Rightarrow> byte list" where
  "interleave data ecc =
    (let longest = foldl (\<lambda>m d. max m (length d)) 0 data
     in concat (map (\<lambda>i. concat (map (\<lambda>d. if i < length d then [d ! i] else []) data)) [0..<longest]) @
        concat (map (\<lambda>i. map (\<lambda>e. e ! i) ecc) [0..<length (hd ecc)]))"

definition codewords :: "byte list \<Rightarrow> nat \<Rightarrow> versionSpec \<Rightarrow> byte list" where
  "codewords data version spec =
    (let groups = split_blocks (block_sizes spec) (b_bytes (data_bits data version spec))
     in interleave groups (map (\<lambda>chunk. reedSolomon chunk (ecWords spec)) groups))"

section \<open>A reader\<close>

text \<open>What a reader does, by the standard: deal the words out to the blocks round by round, put the
  data of the blocks one after the other, and read the mode, the count and that many bytes.\<close>

fun deal_round :: "nat \<Rightarrow> nat list \<Rightarrow> byte list list \<Rightarrow> byte list \<Rightarrow> byte list list \<times> byte list" where
  "deal_round k (l # ls) (a # as) ws =
    (if k < l then (let (as, rest) = deal_round k ls as (tl ws) in ((a @ [hd ws]) # as, rest))
     else (let (as, rest) = deal_round k ls as ws in (a # as, rest)))"
| "deal_round k _ _ ws = ([], ws)"

definition deal :: "nat list \<Rightarrow> byte list \<Rightarrow> byte list list" where
  "deal ls ws = fst (foldl (\<lambda>(as, ws) k. deal_round k ls as ws) (map (\<lambda>_. []) ls, ws) [0..<foldl max 0 ls])"

definition bits_of_byte :: "byte \<Rightarrow> bool list" where
  "bits_of_byte b = map (\<lambda>i. bit b (7 - i)) [0..<8]"

definition value_of :: "bool list \<Rightarrow> nat" where
  "value_of bs = foldl (\<lambda>v b. 2 * v + of_bool b) 0 bs"

fun read_bytes :: "nat \<Rightarrow> bool list \<Rightarrow> byte list" where
  "read_bytes 0 bs = []"
| "read_bytes (Suc n) bs = of_nat (value_of (take 8 bs)) # read_bytes n (drop 8 bs)"

definition read_words :: "nat \<Rightarrow> versionSpec \<Rightarrow> byte list \<Rightarrow> byte list option" where
  "read_words version spec ws =
    (let ls = block_sizes spec;
         groups = deal ls ws;
         bs = concat (map bits_of_byte (concat groups))
     in if value_of (take 4 bs) = 4
        then Some (read_bytes (value_of (take (countBits version) (drop 4 bs))) (drop (4 + countBits version) bs))
        else None)"

section \<open>Dealing undoes interleaving\<close>

lemma deal_round_take:
  "deal_round k (map length gs) (map (take k) gs) (concat (map (\<lambda>d. if k < length d then [d ! k] else []) gs) @ ws) =
    (map (take (Suc k)) gs, ws)"
  by (induction gs) (simp_all add: take_Suc_conv_app_nth)

lemma deal_rounds:
  "foldl (\<lambda>(as, ws) k. deal_round k (map length gs) as ws)
     (map (\<lambda>_. []) gs, concat (map (\<lambda>i. concat (map (\<lambda>d. if i < length d then [d ! i] else []) gs)) [0..<n]) @ ws) [0..<n] =
   (map (take n) gs, ws)"
  by (induction n arbitrary: ws) (simp_all add: deal_round_take)

lemma foldl_max: "foldl max (x :: nat) ls \<ge> x" "l \<in> set ls \<Longrightarrow> l \<le> foldl max x ls"
  by (induction ls arbitrary: x) (auto intro: order_trans [OF max.cobounded1] order_trans [OF max.cobounded2])

lemma deal_interleave: "deal (map length gs) (interleave gs es) = gs"
proof -
  let ?n = "foldl max 0 (map length gs)"
  have "foldl (\<lambda>m d. max m (length d)) 0 gs = ?n" by (simp add: foldl_map)
  moreover have "map (\<lambda>_. []) (map length gs) = map (\<lambda>_. [] :: byte list) gs" by simp
  ultimately have "deal (map length gs) (interleave gs es) = map (take ?n) gs"
    unfolding deal_def interleave_def Let_def by (simp only: deal_rounds fst_conv)
  also have "\<dots> = gs" using foldl_max(2) [of _ "map length gs" 0] by (intro map_idI) simp
  finally show ?thesis .
qed

lemma split_blocks_lengths: "sum_list ls = length bs \<Longrightarrow> map length (split_blocks ls bs) = ls"
  by (induction ls arbitrary: bs) auto

lemma split_blocks_concat: "sum_list ls = length bs \<Longrightarrow> concat (split_blocks ls bs) = bs"
  by (induction ls arbitrary: bs) auto

section \<open>What the stream holds\<close>

definition stream :: "bits \<Rightarrow> bool list" where
  "stream b = take (b_len b) (concat (map bits_of_byte (b_bytes b)))"

definition bits_ok :: "bits \<Rightarrow> bool" where
  "bits_ok b \<longleftrightarrow> length (b_bytes b) = (b_len b + 7) div 8 \<and>
    (\<forall>i < 8 * length (b_bytes b). b_len b \<le> i \<longrightarrow> \<not> concat (map bits_of_byte (b_bytes b)) ! i)"

lemma length_bits_of_byte [simp]: "length (bits_of_byte b) = 8"
  by (simp add: bits_of_byte_def)

lemma length_concat_bits [simp]: "length (concat (map bits_of_byte bs)) = 8 * length bs"
  by (induction bs) simp_all

lemma nth_concat_bits:
  "i < 8 * length bs \<Longrightarrow> concat (map bits_of_byte bs) ! i \<longleftrightarrow> bit (bs ! (i div 8)) (7 - i mod 8)"
proof (induction bs arbitrary: i)
  case (Cons b bs)
  show ?case
  proof (cases "i < 8")
    case True
    then show ?thesis by (simp add: nth_append) (simp add: bits_of_byte_def)
  next
    case False
    then have "i div 8 = Suc ((i - 8) div 8)" "i mod 8 = (i - 8) mod 8" by (simp_all add: le_div_geq le_mod_geq)
    with False Cons show ?thesis by (simp add: nth_append)
  qed
qed simp


lemma bit_single: "bit (push_bit k 1 :: byte) n \<longleftrightarrow> n = k \<and> k < 8"
  by (auto simp: bit_exp_iff possible_bit_word)

lemma round_up: "n mod 8 = 0 \<Longrightarrow> Suc ((n + 7) div 8) = (n + 8) div 8" "n mod 8 \<noteq> 0 \<Longrightarrow> (n + 7) div 8 = (n + 8) div 8"
  for n :: nat
proof -
  have split: "n + 8 = 8 * ((n + 8) div 8) + n mod 8" using div_mult_mod_eq [of "n + 8" 8] by (simp only: mod_add_self2 mult.commute)
  show "Suc ((n + 7) div 8) = (n + 8) div 8" if "n mod 8 = 0"
  proof -
    have "n = n div 8 * 8" using that div_mult_mod_eq [of n 8] by (simp only: add_0_right)
    then obtain q where "n = q * 8" by blast
    then show ?thesis by simp
  qed
  show "(n + 7) div 8 = (n + 8) div 8" if "n mod 8 \<noteq> 0"
  proof -
    have "n + 8 = 8 * q + r \<Longrightarrow> r \<noteq> 0 \<Longrightarrow> r < 8 \<Longrightarrow> 8 * q \<le> n + 7 \<and> n + 7 < 8 * Suc q" for q r :: nat by auto
    from this [OF split that] show ?thesis by (intro div_nat_eqI) simp_all
  qed
qed

lemma eight_up: "n \<le> 8 * ((n + 7) div 8)" for n :: nat
  using div_mult_mod_eq [of "n + 7" 8] mod_less_divisor [of 8 "n + 7"] by linarith

lemma bit_place: "i div 8 = n div 8 \<and> 7 - i mod 8 = 7 - n mod 8 \<longleftrightarrow> i = n" for i n :: nat
proof
  assume same: "i div 8 = n div 8 \<and> 7 - i mod 8 = 7 - n mod 8"
  moreover have "i mod 8 \<le> 7" "n mod 8 \<le> 7" using mod_less_divisor [of 8 i] mod_less_divisor [of 8 n] by linarith+
  ultimately have "i mod 8 = n mod 8" by linarith
  with same show "i = n" by (metis div_mult_mod_eq)
qed simp

text \<open>Adding a bit appends it to the stream; the bits past the end stay clear.\<close>

lemma add_bit_ok:
  assumes "bits_ok b"
  shows "bits_ok (add_bit x b) \<and> stream (add_bit x b) = stream b @ [x]"
proof -
  define n where "n = b_len b"
  define bs where "bs = (if n mod 8 = 0 then b_bytes b @ [0] else b_bytes b)"
  define bs' where "bs' = (if x then bs[n div 8 := bs ! (n div 8) OR push_bit (7 - n mod 8) 1] else bs)"
  have new: "b_bytes (add_bit x b) = bs'" "b_len (add_bit x b) = n + 1"
    by (simp_all add: add_bit_def Let_def n_def bs_def bs'_def)
  have old: "length (b_bytes b) = (n + 7) div 8"
    "i < 8 * length (b_bytes b) \<Longrightarrow> n \<le> i \<Longrightarrow> \<not> bit (b_bytes b ! (i div 8)) (7 - i mod 8)" for i
    using assms nth_concat_bits [of i "b_bytes b"] unfolding bits_ok_def n_def by blast+
  have len: "length bs = (n + 8) div 8"
  proof (cases "n mod 8 = 0")
    case True
    then have "length bs = Suc (length (b_bytes b))" by (simp add: bs_def)
    then show ?thesis unfolding old(1) round_up(1) [OF True] .
  next
    case False
    then have "length bs = length (b_bytes b)" by (simp add: bs_def)
    then show ?thesis unfolding old(1) round_up(2) [OF False] .
  qed
  have len': "length bs' = length bs" by (simp add: bs'_def)
  have n: "n < 8 * length bs" using len by presburger
  have bs: "bit (bs ! (i div 8)) (7 - i mod 8) \<longleftrightarrow> i < n \<and> concat (map bits_of_byte (b_bytes b)) ! i"
    if "i < 8 * length bs" for i
  proof (cases "i < 8 * length (b_bytes b)")
    case True
    then have "bs ! (i div 8) = b_bytes b ! (i div 8)" by (auto simp: bs_def nth_append)
    with True old(2) [of i] nth_concat_bits [of i "b_bytes b"] show ?thesis by (cases "n \<le> i") auto
  next
    case False
    then have new: "bs = b_bytes b @ [0]" using that by (auto simp: bs_def split: if_splits)
    then have "i div 8 = length (b_bytes b)" using False that by (intro div_nat_eqI) simp_all
    moreover have "n \<le> i" using False eight_up [of n] unfolding old(1) by linarith
    ultimately show ?thesis by (simp add: new)
  qed
  have bs': "concat (map bits_of_byte bs') ! i \<longleftrightarrow> (if i = n then x else i < n \<and> concat (map bits_of_byte (b_bytes b)) ! i)"
    if i: "i < 8 * length bs" for i
  proof -
    have "concat (map bits_of_byte bs') ! i \<longleftrightarrow> bit (bs' ! (i div 8)) (7 - i mod 8)"
      using i by (simp add: nth_concat_bits len')
    moreover have "bit (bs' ! (i div 8)) (7 - i mod 8) \<longleftrightarrow> (bit (bs ! (i div 8)) (7 - i mod 8) \<or> x \<and> i = n)"
    proof (cases "x \<and> i div 8 = n div 8")
      case True
      then have "bs' ! (i div 8) = bs ! (i div 8) OR push_bit (7 - n mod 8) 1" using n by (simp add: bs'_def)
      then show ?thesis using True bit_place [of i n] by (simp only: bit_or_iff bit_single) auto
    next
      case False
      then have "bs' ! (i div 8) = bs ! (i div 8)" by (auto simp: bs'_def)
      then show ?thesis using False by auto
    qed
    ultimately show ?thesis using bs [OF i] by auto
  qed
  have "stream (add_bit x b) = stream b @ [x]"
  proof (rule nth_equalityI)
    show "length (stream (add_bit x b)) = length (stream b @ [x])"
      using n eight_up [of n] unfolding old(1) [symmetric] by (simp add: stream_def new len' n_def [symmetric] min_absorb1)
    fix i assume "i < length (stream (add_bit x b))"
    then have "i \<le> n" by (simp add: stream_def new)
    with n bs' [of i] show "stream (add_bit x b) ! i = (stream b @ [x]) ! i"
      using old(1) by (auto simp: stream_def new nth_append n_def)
  qed
  moreover have "bits_ok (add_bit x b)"
    using bs' len by (auto simp: bits_ok_def new len')
  ultimately show ?thesis by blast
qed

lemma test_bit: "(v :: 64 word) AND push_bit i 1 \<noteq> 0 \<longleftrightarrow> bit v i"
  by (simp only: bit_iff_and_push_bit_not_eq_0)

definition word_bits :: "64 word \<Rightarrow> nat \<Rightarrow> bool list" where
  "word_bits v w = map (bit v) (rev [0..<w])"

lemma length_word_bits [simp]: "length (word_bits v w) = w"
  by (simp add: word_bits_def)

lemma add_bits_ok: "bits_ok b \<Longrightarrow> bits_ok (add_bits v w b) \<and> stream (add_bits v w b) = stream b @ word_bits v w"
proof (induction w arbitrary: b)
  case (Suc w)
  with add_bit_ok [OF Suc.prems, of "bit v w"] show ?case by (simp only: add_bits.simps test_bit) (simp add: word_bits_def)
qed (simp add: word_bits_def)

lemma add_bytes_ok:
  "bits_ok b \<Longrightarrow> bits_ok (foldl (\<lambda>b c. add_bits (ucast c) 8 b) b data) \<and>
    stream (foldl (\<lambda>b c. add_bits (ucast c) 8 b) b data) = stream b @ concat (map (\<lambda>c. word_bits (ucast c) 8) data)"
proof (induction data arbitrary: b)
  case (Cons c data)
  with add_bits_ok [OF Cons.prems, of "ucast c" 8] show ?case by simp
qed simp

lemma b_len_add_bytes: "b_len (foldl (\<lambda>b c. add_bits (ucast c) 8 b) b data) = b_len b + 8 * length data"
  by (induction data arbitrary: b) simp_all

lemma pad_bits_ok:
  "bits_ok b \<Longrightarrow> bits_ok (pad_bits i n b) \<and> (\<exists>rest. stream (pad_bits i n b) = stream b @ rest)"
proof (induction i n b rule: pad_bits.induct)
  case (1 i n b)
  show ?case
  proof (cases "b_len b < n")
    case True
    let ?b = "add_bits (padWords ! (i mod 2)) 8 b"
    have b: "bits_ok ?b" "stream ?b = stream b @ word_bits (padWords ! (i mod 2)) 8" using add_bits_ok "1.prems" by auto
    with "1.IH" [OF True] True show ?thesis by (subst (1 2) pad_bits.simps) auto
  next
    case False
    with "1.prems" show ?thesis by (subst (1 2) pad_bits.simps) auto
  qed
qed

lemma b_len_pad_bits: "b_len b mod 8 = n mod 8 \<Longrightarrow> b_len b \<le> n \<Longrightarrow> b_len (pad_bits i n b) = n"
proof (induction i n b rule: pad_bits.induct)
  case (1 i n b)
  show ?case
  proof (cases "b_len b < n")
    case True
    then obtain k where k: "n = b_len b + k" "0 < k" using less_imp_add_positive by blast
    with "1.prems"(1) have "k mod 8 = 0" by (metis add_cancel_left_right mod_add_cong mod_eq_dvd_iff_nat le_add1 diff_add_inverse dvd_imp_mod_0)
    then have "8 \<le> k" using k(2) by (metis dvd_imp_le mod_0_imp_dvd)
    with "1.IH" [OF True] True "1.prems" k show ?thesis by (subst pad_bits.simps) simp
  next
    case False
    with "1.prems" show ?thesis by (subst pad_bits.simps) simp
  qed
qed

section \<open>Reading the stream back\<close>

lemma foldl_value_of: "foldl (\<lambda>v b. 2 * v + of_bool b) x bs = x * 2 ^ length bs + value_of bs"
proof (induction bs arbitrary: x)
  case (Cons b bs)
  have "value_of (b # bs) = of_bool b * 2 ^ length bs + value_of bs"
    using Cons.IH [of "of_bool b"] by (simp add: value_of_def)
  then show ?case unfolding foldl_Cons Cons.IH [of "2 * x + of_bool b"] by (simp add: algebra_simps)
qed (simp add: value_of_def)

lemma value_of_Cons: "value_of (b # bs) = of_bool b * 2 ^ length bs + value_of bs"
  using foldl_value_of [of "of_bool b" bs] by (simp add: value_of_def)

lemma value_of_word_bits: "value_of (word_bits v w) = take_bit w (unat v)"
proof (induction w)
  case (Suc w)
  have "bit (unat v) w = bit v w" by (simp add: bit_unsigned_iff)
  then show ?case using Suc by (simp add: word_bits_def value_of_Cons take_bit_Suc_from_most)
qed (simp add: word_bits_def value_of_def)

lemma read_bytes_word_bits:
  "read_bytes (length data) (concat (map (\<lambda>c. word_bits (ucast c) 8) data) @ rest) = data"
proof (induction data)
  case (Cons c data)
  have "of_nat (take_bit 8 (unat (ucast c :: 64 word))) = c"
  proof -
    have c: "unat c < 256" by (rule order_less_le_trans [OF unsigned_less]) simp
    have "unat (ucast c :: 64 word) = unat c" 
      unfolding unsigned_ucast_eq using c by (intro take_bit_nat_eq_self) simp
    moreover have "take_bit 8 (unat c) = unat c" using c by (intro take_bit_nat_eq_self) simp
    ultimately show ?thesis by simp
  qed
  with Cons show ?case by (simp add: value_of_word_bits)
qed simp

lemma stream_full: "b_len b = 8 * length (b_bytes b) \<Longrightarrow> stream b = concat (map bits_of_byte (b_bytes b))"
  by (simp add: stream_def)

lemma b_len_no_bits [simp]: "b_len no_bits = 0"
  by (simp add: no_bits_def)

lemma no_bits_ok: "bits_ok no_bits \<and> stream no_bits = []"
  by (simp add: no_bits_def bits_ok_def stream_def)

text \<open>The data words of a text that fits: they fill the version exactly, and their bits are the mode,
  the count, the text and padding.\<close>

lemma data_bits_ok:
  assumes "length data + headerBytes version \<le> dataWords spec"
  shows "length (b_bytes (data_bits data version spec)) = dataWords spec \<and>
    (\<exists>rest. concat (map bits_of_byte (b_bytes (data_bits data version spec))) =
      word_bits 4 4 @ word_bits (of_nat (length data)) (countBits version) @
      concat (map (\<lambda>c. word_bits (ucast c) 8) data) @ rest)"
proof -
  define b1 where "b1 = add_bits 0b0100 4 no_bits"
  define b2 where "b2 = add_bits (of_nat (length data)) (countBits version) b1"
  define b3 where "b3 = foldl (\<lambda>b c. add_bits (ucast c) 8 b) b2 data"
  define b4 where "b4 = add_bits 0 (min 4 (dataWords spec * 8 - b_len b3)) b3"
  define b5 where "b5 = add_bits 0 ((8 - b_len b4 mod 8) mod 8) b4"
  define b where "b = pad_bits 0 (dataWords spec * 8) b5"
  have b: "data_bits data version spec = b"
    by (simp add: data_bits_def Let_def b1_def b2_def b3_def b4_def b5_def b_def)
  have head: "4 + countBits version + 4 = 8 * headerBytes version" by (simp add: countBits_def headerBytes_def)
  have l3: "b_len b3 = 4 + countBits version + 8 * length data"
    by (simp add: b3_def b_len_add_bytes b2_def b1_def)
  then have l4: "b_len b4 = 8 * (headerBytes version + length data)"
    using assms head by (simp add: b4_def)
  then have l5: "b_len b5 = 8 * (headerBytes version + length data)" by (simp add: b5_def)
  then have len: "b_len b = 8 * dataWords spec"
    unfolding b_def using assms by (subst b_len_pad_bits) simp_all
  have ok1: "bits_ok b1" "stream b1 = word_bits 4 4" using add_bits_ok [of no_bits 4 4] no_bits_ok by (simp_all add: b1_def)
  have ok2: "bits_ok b2" "stream b2 = stream b1 @ word_bits (of_nat (length data)) (countBits version)"
    using add_bits_ok [OF ok1(1)] by (simp_all add: b2_def)
  have ok3: "bits_ok b3" "stream b3 = stream b2 @ concat (map (\<lambda>c. word_bits (ucast c) 8) data)"
    using add_bytes_ok [OF ok2(1), of data] by (simp_all add: b3_def)
  obtain r4 where ok4: "bits_ok b4" "stream b4 = stream b3 @ r4" using add_bits_ok [OF ok3(1)] by (auto simp: b4_def)
  obtain r5 where ok5: "bits_ok b5" "stream b5 = stream b4 @ r5" using add_bits_ok [OF ok4(1)] by (auto simp: b5_def)
  obtain r where ok: "bits_ok b" "stream b = stream b5 @ r" using pad_bits_ok [OF ok5(1)] by (auto simp: b_def)
  have bytes: "length (b_bytes b) = dataWords spec" using ok(1) len by (simp add: bits_ok_def)
  then have "concat (map bits_of_byte (b_bytes b)) = stream b" using len by (simp add: stream_full)
  then show ?thesis using bytes unfolding b ok(2) ok5(2) ok4(2) ok3(2) ok2(2) ok1(2) by auto
qed

lemma versions_fit: "versions v = Some spec \<Longrightarrow> sum_list (block_sizes spec) = dataWords spec \<and> 0 < ecWords spec"
  by (auto simp: versions.simps spec_of_def block_sizes_def sum_list_replicate split: if_splits)

lemma pick_version_SomeD:
  assumes "pick_version n = Some (v, spec)"
  shows "versions v = Some spec \<and> n + headerBytes v \<le> dataWords spec \<and> v \<in> {1..10} \<and>
    (\<forall>u spec'. 1 \<le> u \<longrightarrow> u < v \<longrightarrow> versions u = Some spec' \<longrightarrow> dataWords spec' < n + headerBytes u)"
proof -
  let ?P = "\<lambda>v. \<exists>spec\<in>set_option (versions v). int n \<le> int (dataWords spec) - int (headerBytes v)"
  obtain u where found: "find ?P [1..<maxVersion + 1] = Some u" and u: "map_option (Pair u) (versions u) = Some (v, spec)"
    using assms by (auto simp: pick_version_def split: option.splits)
  then have v: "u = v" "versions v = Some spec" by auto
  from found obtain i where i: "i < length [1..<maxVersion + 1]" "?P ([1..<maxVersion + 1] ! i)" "v = [1..<maxVersion + 1] ! i"
    and first: "\<forall>j < i. \<not> ?P ([1..<maxVersion + 1] ! j)" unfolding find_Some_iff v by blast
  have vi: "v = i + 1" "i < 10" using i(1,3) by (simp_all add: maxVersion_def)
  have not_earlier: "\<not> ?P u" if "1 \<le> u" "u < v" for u
    using first [rule_format, of "u - 1"] that vi by (simp add: maxVersion_def del: upt_Suc)
  have "\<forall>u spec'. 1 \<le> u \<longrightarrow> u < v \<longrightarrow> versions u = Some spec' \<longrightarrow> dataWords spec' < n + headerBytes u"
  proof (intro allI impI)
    fix u spec' assume u: "1 \<le> u" "u < v" "versions u = Some spec'"
    have "\<not> ?P u" by (rule not_earlier [OF u(1,2)])
    then show "dataWords spec' < n + headerBytes u" unfolding u(3) by simp
  qed
  moreover have "n + headerBytes v \<le> dataWords spec" using i(2) unfolding i(3) [symmetric] v(2) by simp
  ultimately show ?thesis using v vi by simp
qed

text \<open>The words hold the whole text.\<close>

lemma codewords_read_text:
  assumes "pick_version (length data) = Some (v, spec)"
  shows "read_words v spec (codewords data v spec) = Some data"
proof -
  let ?b = "data_bits data v spec"
  let ?groups = "split_blocks (block_sizes spec) (b_bytes ?b)"
  have v: "versions v = Some spec" "length data + headerBytes v \<le> dataWords spec" using pick_version_SomeD [OF assms] by auto
  from data_bits_ok [OF v(2)] obtain rest where len: "length (b_bytes ?b) = dataWords spec"
    and bits: "concat (map bits_of_byte (b_bytes ?b)) = word_bits 4 4 @ word_bits (of_nat (length data)) (countBits v) @
      concat (map (\<lambda>c. word_bits (ucast c) 8) data) @ rest" by blast
  have sum: "sum_list (block_sizes spec) = length (b_bytes ?b)" using versions_fit [OF v(1)] len by simp
  have "deal (block_sizes spec) (codewords data v spec) = ?groups"
    unfolding codewords_def Let_def
    using deal_interleave [of ?groups] by (simp only: split_blocks_lengths [OF sum])
  moreover have "concat ?groups = b_bytes ?b" by (rule split_blocks_concat [OF sum])
  moreover have "length data < 2 ^ countBits v"
    using v versions_fit [OF v(1)] by (auto simp: versions.simps spec_of_def countBits_def headerBytes_def split: if_splits)
  then have "take_bit (countBits v) (unat (of_nat (length data) :: 64 word)) = length data"
    by (simp add: unat_of_nat take_bit_nat_eq_self countBits_def split: if_splits)
  ultimately show ?thesis by (simp add: read_words_def bits value_of_word_bits read_bytes_word_bits)
qed

end
