(* ===== verification/Qr_Patterns.thy ===== *)
theory Qr_Patterns
  imports Qr_Symbol
begin

text \<open>
  The function patterns of a symbol: what \<open>reserve\<close> marks is, for each of the ten versions, what the
  standard calls function patterns, stated apart from the loops that draw them.
\<close>

section \<open>The function patterns\<close>

text \<open>A module belongs to a function pattern: a finder with its separator and the format information
  beside it, a timing row, an alignment pattern, the version information.\<close>

definition aligned :: "nat list \<Rightarrow> nat \<Rightarrow> nat \<Rightarrow> nat \<Rightarrow> bool" where
  "aligned al n x y \<longleftrightarrow> list_ex (\<lambda>cx. cx - 2 \<le> x \<and> x \<le> cx + 2 \<and>
     list_ex (\<lambda>cy. cy - 2 \<le> y \<and> y \<le> cy + 2 \<and> \<not> (cx = 6 \<and> cy = 6 \<or> cx = 6 \<and> cy = n - 7 \<or> cx = n - 7 \<and> cy = 6)) al) al"

definition pattern_at :: "nat \<Rightarrow> versionSpec \<Rightarrow> nat \<Rightarrow> nat \<Rightarrow> bool" where
  "pattern_at v sp x y \<longleftrightarrow>
    (let n = v * 4 + 17
     in x < 9 \<and> (y < 9 \<or> n - 8 \<le> y) \<or> n - 8 \<le> x \<and> y < 9 \<or> x = 6 \<or> y = 6 \<or> aligned (align sp) n x y \<or>
        7 \<le> v \<and> (x < 6 \<and> n - 11 \<le> y \<or> y < 6 \<and> n - 11 \<le> x))"

text \<open>Matrices of the symbol's size, and what a run of \<open>set\<close> marks.\<close>

definition square :: "nat \<Rightarrow> matrix \<Rightarrow> bool" where
  "square n m \<longleftrightarrow> length m = n \<and> (\<forall>row\<in>set m. length row = n)"

definition sound :: "symbol \<Rightarrow> bool" where
  "sound s \<longleftrightarrow> square (side s) (modules s) \<and> square (side s) (is_fixed s)"

definition marks :: "(int \<times> int) set \<Rightarrow> symbol \<Rightarrow> symbol \<Rightarrow> bool" where
  "marks C s s' \<longleftrightarrow> side s' = side s \<and> version s' = version s \<and> spec s' = spec s \<and> (sound s \<longrightarrow> sound s' \<and>
     (\<forall>x < side s. \<forall>y < side s. is_fixed s' ! y ! x \<longleftrightarrow> is_fixed s ! y ! x \<or> (int x, int y) \<in> C))"

lemma square_row: "square n m \<Longrightarrow> y < n \<Longrightarrow> length (m ! y) = n"
  by (simp add: square_def)

lemma square_put [simp]: "square n m \<Longrightarrow> square n (put x y d m)"
  by (cases "y < length m") (auto simp: square_def put_def list_update_beyond dest!: set_update_subset_insert [THEN subsetD])

lemma put_nth: "square n m \<Longrightarrow> x < n \<Longrightarrow> y < n \<Longrightarrow> x' < n \<Longrightarrow> y' < n \<Longrightarrow>
    put x y d m ! y' ! x' = (if x' = x \<and> y' = y then d else m ! y' ! x')"
  by (auto simp: put_def square_def nth_list_update)

lemma marks_set: "marks {(x, y)} s (set_module x y d s)"
proof (cases "x < 0 \<or> y < 0 \<or> int (side s) \<le> x \<or> int (side s) \<le> y")
  case True
  then show ?thesis by (auto simp: marks_def set_module_def)
next
  case False
  then obtain a b where "x = int a" "y = int b" "a < side s" "b < side s"
    by (metis int_nat_eq not_less of_nat_less_iff)
  then show ?thesis by (auto simp: marks_def set_module_def sound_def put_nth [of "side s"])
qed

lemma marks_refl: "marks {} s s"
  by (simp add: marks_def)

lemma marks_trans: "marks C s s' \<Longrightarrow> marks D s' s'' \<Longrightarrow> marks (C \<union> D) s s''"
  by (auto simp: marks_def)

lemma marks_fold: "(\<And>i s. i \<in> set xs \<Longrightarrow> marks (C i) s (f i s)) \<Longrightarrow> marks (\<Union>i\<in>set xs. C i) s (fold f xs s)"
proof (induction xs arbitrary: s)
  case (Cons a xs)
  have "marks (C a) s (f a s)" using Cons.prems by simp
  moreover have "marks (\<Union>i\<in>set xs. C i) (f a s) (fold f xs (f a s))" using Cons by simp
  ultimately show ?case using marks_trans by (fastforce simp: Un_commute)
qed (simp add: marks_refl)

lemma marks_eq: "marks C s s' \<Longrightarrow> C = D \<Longrightarrow> marks D s s'"
  by simp

definition box :: "int \<Rightarrow> int \<Rightarrow> int \<Rightarrow> int \<Rightarrow> (int \<times> int) set" where
  "box x1 x2 y1 y2 = {x1..x2} \<times> {y1..y2}"

lemma box_union: "(\<Union>dy\<in>set [a..b]. \<Union>dx\<in>set [c..d]. {(ox + dx, oy + dy)}) = box (ox + c) (ox + d) (oy + a) (oy + b)"
proof (rule set_eqI)
  fix p :: "int \<times> int"
  obtain x y where p: "p = (x, y)" by fastforce
  have "p \<in> (\<Union>dy\<in>set [a..b]. \<Union>dx\<in>set [c..d]. {(ox + dx, oy + dy)}) \<longleftrightarrow> y - oy \<in> {a..b} \<and> x - ox \<in> {c..d}"
    unfolding p set_upto by auto (metis add_diff_cancel_left' atLeastAtMost_iff diff_add_cancel add.commute)+
  then show "p \<in> (\<Union>dy\<in>set [a..b]. \<Union>dx\<in>set [c..d]. {(ox + dx, oy + dy)}) \<longleftrightarrow> p \<in> box (ox + c) (ox + d) (oy + a) (oy + b)"
    by (auto simp: p box_def)
qed

lemma marks_finder:
  assumes "C = box (ox - 1) (ox + 7) (oy - 1) (oy + 7)"
  shows "marks C s (finder ox oy s)"
proof (rule marks_eq)
  show "marks (\<Union>dy\<in>set [-1..7]. \<Union>dx\<in>set [-1..7]. {(ox + dx, oy + dy)}) s (finder ox oy s)"
    unfolding finder_def Let_def by (intro marks_fold marks_set)
qed (simp only: box_union assms, simp)

lemma marks_align_centre:
  assumes "C = box (cx - 2) (cx + 2) (cy - 2) (cy + 2)"
  shows "marks C s (align_centre cx cy s)"
proof (rule marks_eq)
  show "marks (\<Union>dy\<in>set [-2..2]. \<Union>dx\<in>set [-2..2]. {(cx + dx, cy + dy)}) s (align_centre cx cy s)"
    unfolding align_centre_def Let_def by (intro marks_fold marks_set)
qed (simp only: box_union assms, simp)

lemma marks_two: "C = {(x, y), (x', y')} \<Longrightarrow> marks C s (set_module x' y' d' (set_module x y d s))"
  using marks_trans [OF marks_set marks_set] by (simp add: insert_commute)

definition align_marks :: "nat list \<Rightarrow> (int \<times> int) set" where
  "align_marks al = (\<Union>(i, cy)\<in>set (enumerate 0 al). \<Union>(j, cx)\<in>set (enumerate 0 al).
     if i = 0 \<and> j = 0 \<or> i = 0 \<and> int j = int (length al) - 1 \<or> int i = int (length al) - 1 \<and> j = 0 then {}
     else box (int cx - 2) (int cx + 2) (int cy - 2) (int cy + 2))"

lemma marks_alignment: "marks (align_marks (align (spec s))) s (alignment s)"
  unfolding alignment_def Let_def align_marks_def
  by (intro marks_fold) (auto intro!: marks_fold marks_refl marks_align_centre split: prod.splits)

definition reserved :: "nat \<Rightarrow> versionSpec \<Rightarrow> (int \<times> int) set" where
  "reserved v sp = (let n = 4 * int v + 17 in
     (\<Union>(px, py)\<in>set [(0, 0), (n - 7, 0), (0, n - 7)]. box (px - 1) (px + 7) (py - 1) (py + 7)) \<union>
     (\<Union>i\<in>set [8..n - 9]. {(i, 6)} \<union> {(6, i)}) \<union> align_marks (align sp) \<union> {(8, n - 8)} \<union>
     (\<Union>(c, d)\<in>set (formatCells (v * 4 + 17)). {(int (fst c), int (snd c))} \<union> {(int (fst d), int (snd d))}) \<union>
     (if 7 \<le> v then (\<Union>i\<in>set [0..<18]. {(int (i div 3), n - 11 + int (i mod 3))} \<union> {(n - 11 + int (i mod 3), int (i div 3))}) else {}))"

lemma marks_reserve:
  assumes "side s = version s * 4 + 17"
  shows "marks (reserved (version s) (spec s)) s (reserve s)"
proof -
  let ?n = "int (side s)"
  define s1 where "s1 = fold (\<lambda>(px, py). finder px py) [(0, 0), (?n - 7, 0), (0, ?n - 7)] s"
  define s2 where "s2 = fold (\<lambda>i s. let dark = i mod 2 = 0 in set_module 6 i dark (set_module i 6 dark s)) [8..?n - 9] s1"
  define s3 where "s3 = alignment s2"
  define s4 where "s4 = set_module 8 (?n - 8) True s3"
  define s5 where "s5 = reserveFormat s4"
  have r: "reserve s = (if 7 \<le> version s5 then reserveVersion s5 else s5)"
    by (simp add: reserve_def s1_def s2_def s3_def s4_def s5_def Let_def)
  have m1: "marks (\<Union>(px, py)\<in>set [(0, 0), (?n - 7, 0), (0, ?n - 7)]. box (px - 1) (px + 7) (py - 1) (py + 7)) s s1"
    unfolding s1_def by (intro marks_fold) (auto split: prod.splits intro: marks_finder)
  have m2: "marks (\<Union>i\<in>set [8..?n - 9]. {(i, 6)} \<union> {(6, i)}) s1 s2"
    unfolding s2_def Let_def by (intro marks_fold marks_trans [OF marks_set marks_set])
  have m12: "marks ((\<Union>(px, py)\<in>set [(0, 0), (?n - 7, 0), (0, ?n - 7)]. box (px - 1) (px + 7) (py - 1) (py + 7)) \<union>
      (\<Union>i\<in>set [8..?n - 9]. {(i, 6)} \<union> {(6, i)})) s s2" by (rule marks_trans [OF m1 m2])
  then have same: "spec s2 = spec s" "side s2 = side s" "version s2 = version s" by (simp_all only: marks_def)
  have m3: "marks (align_marks (align (spec s))) s2 s3" using marks_alignment [of s2] by (simp add: s3_def same)
  have m4: "marks {(8, ?n - 8)} s3 s4" unfolding s4_def by (rule marks_set)
  have m34: "marks (align_marks (align (spec s)) \<union> {(8, ?n - 8)}) s2 s4" by (rule marks_trans [OF m3 m4])
  then have same': "side s4 = side s" "version s4 = version s" by (simp_all only: marks_def same)
  have m5: "marks (\<Union>(c, d)\<in>set (formatCells (side s)). {(int (fst c), int (snd c))} \<union> {(int (fst d), int (snd d))}) s4 s5"
    unfolding s5_def reserveFormat_def same'(1) [symmetric]
    by (intro marks_fold) (auto split: prod.splits intro!: marks_two)
  then have same'': "side s5 = side s" "version s5 = version s" by (simp_all only: marks_def same')
  have m6: "marks (\<Union>i\<in>set [0..<18]. {(int (i div 3), ?n - 11 + int (i mod 3))} \<union> {(?n - 11 + int (i mod 3), int (i div 3))})
      s5 (reserveVersion s5)"
    unfolding reserveVersion_def Let_def same'' by (intro marks_fold marks_trans [OF marks_set marks_set])
  have n: "?n = 4 * int (version s) + 17" using assms by simp
  show ?thesis
    using marks_trans [OF marks_trans [OF marks_trans [OF m12 m34] m5] m6] marks_trans [OF marks_trans [OF m12 m34] m5]
    unfolding r same'' reserved_def Let_def n [symmetric] assms [symmetric]
    by (cases "7 \<le> version s") (simp_all only: if_True if_False Un_assoc Un_empty_right)
qed

text \<open>For a symbol of at least version 1, what is reserved is what the standard calls function patterns.\<close>

definition first_copy :: "nat \<Rightarrow> nat \<times> nat" where
  "first_copy i = (if i < 6 then (8, i) else if i = 6 then (8, 7) else if i = 7 then (8, 8) else if i = 8 then (7, 8) else (14 - i, 8))"

definition second_copy :: "nat \<Rightarrow> nat \<Rightarrow> nat \<times> nat" where
  "second_copy n i = (if i < 8 then (n - 1 - i, 8) else (8, n - 15 + i))"

lemma first_copies: "(\<exists>i < 15. first_copy i = (x, y)) \<longleftrightarrow> x = 8 \<and> y < 9 \<and> y \<noteq> 6 \<or> y = 8 \<and> x < 9 \<and> x \<noteq> 6"
proof
  assume "x = 8 \<and> y < 9 \<and> y \<noteq> 6 \<or> y = 8 \<and> x < 9 \<and> x \<noteq> 6"
  then show "\<exists>i < 15. first_copy i = (x, y)"
  proof (elim disjE conjE)
    assume "x = 8" "y < 9" "y \<noteq> 6"
    then have "y < 6 \<or> y = 7 \<or> y = 8" by linarith
    with \<open>x = 8\<close> show ?thesis
      by (intro exI [of _ "if y < 6 then y else y - 1"]) (auto simp: first_copy_def)
  next
    assume "y = 8" "x < 9" "x \<noteq> 6"
    then have "x < 6 \<or> x = 7 \<or> x = 8" by linarith
    with \<open>y = 8\<close> show ?thesis
      by (intro exI [of _ "if x = 8 then 7 else if x = 7 then 8 else 14 - x"]) (auto simp: first_copy_def)
  qed
qed (auto simp: first_copy_def split: if_splits)

lemma second_copies:
  assumes "21 \<le> n" "x < n" "y < n"
  shows "(\<exists>i < 15. second_copy n i = (x, y)) \<longleftrightarrow> y = 8 \<and> n - 8 \<le> x \<or> x = 8 \<and> n - 7 \<le> y"
proof
  assume "y = 8 \<and> n - 8 \<le> x \<or> x = 8 \<and> n - 7 \<le> y"
  then show "\<exists>i < 15. second_copy n i = (x, y)" using assms
    by (intro exI [of _ "if y = 8 then n - 1 - x else y + 15 - n"]) (auto simp: second_copy_def)
qed (use assms in \<open>auto simp: second_copy_def split: if_splits\<close>)

lemma formatCells_copies: "formatCells n = map (\<lambda>i. (first_copy i, second_copy n i)) [0..<15]"
  by (simp add: formatCells_def first_copy_def second_copy_def)

lemma format_marks:
  assumes "21 \<le> n" "x < n" "y < n"
  shows "(int x, int y) \<in> (\<Union>(c, d)\<in>set (formatCells n). {(int (fst c), int (snd c))} \<union> {(int (fst d), int (snd d))}) \<longleftrightarrow>
    x = 8 \<and> (y < 9 \<and> y \<noteq> 6 \<or> n - 7 \<le> y) \<or> y = 8 \<and> (x < 9 \<and> x \<noteq> 6 \<or> n - 8 \<le> x)" (is "?l \<longleftrightarrow> ?r")
proof -
  have "?l \<longleftrightarrow> (\<exists>i < 15. first_copy i = (x, y)) \<or> (\<exists>i < 15. second_copy n i = (x, y))"
    unfolding formatCells_copies by (force simp: prod_eq_iff)
  then show ?thesis unfolding first_copies second_copies [OF assms] by blast
qed

lemma version_copies:
  fixes x m :: nat
  shows "(\<exists>i < 18. x = i div 3 \<and> m = i mod 3) \<longleftrightarrow> x < 6 \<and> m < 3"
proof
  assume "x < 6 \<and> m < 3"
  then show "\<exists>i < 18. x = i div 3 \<and> m = i mod 3" by (intro exI [of _ "3 * x + m"]) auto
qed (auto simp: less_mult_imp_div_less)

lemma version_marks:
  assumes "21 \<le> n" "x < n" "y < n"
  shows "(int x, int y) \<in> (\<Union>i\<in>set [0..<18]. {(int (i div 3), int n - 11 + int (i mod 3))} \<union> {(int n - 11 + int (i mod 3), int (i div 3))}) \<longleftrightarrow>
    x < 6 \<and> n - 11 \<le> y \<and> y \<le> n - 9 \<or> y < 6 \<and> n - 11 \<le> x \<and> x \<le> n - 9" (is "?l \<longleftrightarrow> ?r")
proof -
  have shift: "int z = int n - 11 + int (i mod 3) \<longleftrightarrow> n - 11 \<le> z \<and> z - (n - 11) = i mod 3" for z i using assms by auto
  have copy: "(\<exists>i < 18. w = i div 3 \<and> n - 11 \<le> z \<and> z - (n - 11) = i mod 3) \<longleftrightarrow> w < 6 \<and> n - 11 \<le> z \<and> z \<le> n - 9" for w z
  proof -
    have "(\<exists>i < 18. w = i div 3 \<and> n - 11 \<le> z \<and> z - (n - 11) = i mod 3) \<longleftrightarrow> n - 11 \<le> z \<and> (\<exists>i < 18. w = i div 3 \<and> z - (n - 11) = i mod 3)"
      by blast
    then show ?thesis unfolding version_copies using assms(1) by auto
  qed
  have "?l \<longleftrightarrow> (\<exists>i < 18. x = i div 3 \<and> int y = int n - 11 + int (i mod 3)) \<or> (\<exists>i < 18. y = i div 3 \<and> int x = int n - 11 + int (i mod 3))"
    by (auto simp: atLeast0LessThan)
  then show ?thesis unfolding shift copy .
qed

lemma finder_marks:
  assumes "21 \<le> n" "x < n" "y < n"
  shows "(int x, int y) \<in> (\<Union>(px, py)\<in>set [(0, 0), (int n - 7, 0), (0, int n - 7)]. box (px - 1) (px + 7) (py - 1) (py + 7)) \<longleftrightarrow>
    x < 8 \<and> y < 8 \<or> n - 8 \<le> x \<and> y < 8 \<or> x < 8 \<and> n - 8 \<le> y"
  using assms by (auto simp: box_def)

lemma timing_marks:
  assumes "21 \<le> n" "x < n" "y < n"
  shows "(int x, int y) \<in> (\<Union>i\<in>set [8..int n - 9]. {(i, 6)} \<union> {(6, i)}) \<longleftrightarrow>
    y = 6 \<and> 8 \<le> x \<and> x \<le> n - 9 \<or> x = 6 \<and> 8 \<le> y \<and> y \<le> n - 9"
  using assms by auto

lemma box_nat: "(int x, int y) \<in> box (int cx - 2) (int cx + 2) (int cy - 2) (int cy + 2) \<longleftrightarrow>
    cx - 2 \<le> x \<and> x \<le> cx + 2 \<and> cy - 2 \<le> y \<and> y \<le> cy + 2" if "2 \<le> cx" "2 \<le> cy"
  using that by (auto simp: box_def)

definition near :: "nat \<Rightarrow> nat \<Rightarrow> nat \<Rightarrow> nat \<Rightarrow> bool" where
  "near cx cy x y \<longleftrightarrow> cx - 2 \<le> x \<and> x \<le> cx + 2 \<and> cy - 2 \<le> y \<and> y \<le> cy + 2"

lemma marks_two_centres: "2 \<le> b \<Longrightarrow> (int x, int y) \<in> align_marks [6, b] \<longleftrightarrow> near b b x y"
  by (simp add: align_marks_def box_nat near_def)

lemma marks_three_centres: "2 \<le> a \<Longrightarrow> 2 \<le> b \<Longrightarrow> (int x, int y) \<in> align_marks [6, a, b] \<longleftrightarrow>
    near 6 a x y \<or> near a 6 x y \<or> near a a x y \<or> near a b x y \<or> near b a x y \<or> near b b x y"
  using box_nat [of 6 a x y] box_nat [of a 6 x y]
  by (simp add: align_marks_def box_nat near_def) blast

lemma aligned_near: "aligned al n x y \<longleftrightarrow> list_ex (\<lambda>cx. list_ex (\<lambda>cy.
    \<not> (cx = 6 \<and> cy = 6 \<or> cx = 6 \<and> cy = n - 7 \<or> cx = n - 7 \<and> cy = 6) \<and> near cx cy x y) al) al"
  by (auto simp: aligned_def near_def list_ex_iff)

lemma align_marks_aligned:
  assumes "versions v = Some sp"
  shows "(int x, int y) \<in> align_marks (align sp) \<longleftrightarrow> aligned (align sp) (v * 4 + 17) x y"
proof -
  have "align sp = [] \<or> align sp = [6, v * 4 + 10] \<and> 2 \<le> v \<or> (\<exists>a. align sp = [6, a, v * 4 + 10] \<and> 6 < a \<and> a < v * 4 + 10)"
    using assms by (auto simp: versions.simps spec_of_def split: if_splits)
  then show ?thesis
  proof (elim disjE exE conjE)
    fix a assume a: "align sp = [6, a, v * 4 + 10]" "6 < a" "a < v * 4 + 10"
    have "v * 4 + 17 - 7 = v * 4 + 10" by simp
    with a show ?thesis unfolding a(1) aligned_near by (subst marks_three_centres) auto
  next
    assume two: "align sp = [6, v * 4 + 10]" "2 \<le> v"
    show ?thesis unfolding two(1) aligned_near using two(2) by (subst marks_two_centres) auto
  qed (simp add: align_marks_def aligned_near)
qed

lemma core_regions:
  fixes x y n :: nat
  assumes "21 \<le> n" "x < n" "y < n"
  shows "(x < 8 \<and> y < 8 \<or> n - 8 \<le> x \<and> y < 8 \<or> x < 8 \<and> n - 8 \<le> y) \<or>
     (y = 6 \<and> 8 \<le> x \<and> x \<le> n - 9 \<or> x = 6 \<and> 8 \<le> y \<and> y \<le> n - 9) \<or> (x = 8 \<and> y = n - 8) \<or>
     (x = 8 \<and> (y < 9 \<and> y \<noteq> 6 \<or> n - 7 \<le> y) \<or> y = 8 \<and> (x < 9 \<and> x \<noteq> 6 \<or> n - 8 \<le> x)) \<longleftrightarrow>
   x < 9 \<and> (y < 9 \<or> n - 8 \<le> y) \<or> n - 8 \<le> x \<and> y < 9 \<or> x = 6 \<or> y = 6"
proof -
  obtain k where n: "n = k + 21" using assms(1) by (metis add.commute le_Suc_ex)
  consider "x = 8" | "y = 8" "x \<noteq> 8" | "x < 8" "y \<noteq> 8" | "8 < x" "y \<noteq> 8" by linarith
  then show ?thesis using assms(2,3) unfolding n by cases auto
qed

lemma version_regions:
  fixes x y n :: nat
  shows "x < 9 \<and> (y < 9 \<or> n - 8 \<le> y) \<or> n - 8 \<le> x \<and> y < 9 \<or> R \<or> (x < 6 \<and> n - 11 \<le> y \<and> y \<le> n - 9 \<or> y < 6 \<and> n - 11 \<le> x \<and> x \<le> n - 9) \<longleftrightarrow>
     x < 9 \<and> (y < 9 \<or> n - 8 \<le> y) \<or> n - 8 \<le> x \<and> y < 9 \<or> R \<or> (x < 6 \<and> n - 11 \<le> y \<or> y < 6 \<and> n - 11 \<le> x)"
  by (cases "n - 8 \<le> x"; cases "n - 8 \<le> y") auto

lemma reserved_pattern:
  assumes "versions v = Some sp" "x < v * 4 + 17" "y < v * 4 + 17"
  shows "(int x, int y) \<in> reserved v sp \<longleftrightarrow> pattern_at v sp x y"
proof -
  define n where "n = v * 4 + 17"
  have "0 < v" using assms(1) by (auto simp: versions.simps split: if_splits)
  then have n: "21 \<le> n" "x < n" "y < n" "4 * int v + 17 = int n" using assms(2,3) by (simp_all add: n_def)
  have corner: "(int x, int y) \<in> {(8, int n - 8)} \<longleftrightarrow> x = 8 \<and> y = n - 8" using n by auto
  have "(int x, int y) \<in> reserved v sp \<longleftrightarrow>
      ((x < 8 \<and> y < 8 \<or> n - 8 \<le> x \<and> y < 8 \<or> x < 8 \<and> n - 8 \<le> y) \<or>
       (y = 6 \<and> 8 \<le> x \<and> x \<le> n - 9 \<or> x = 6 \<and> 8 \<le> y \<and> y \<le> n - 9) \<or>
       aligned (align sp) n x y \<or> (x = 8 \<and> y = n - 8) \<or>
       (x = 8 \<and> (y < 9 \<and> y \<noteq> 6 \<or> n - 7 \<le> y) \<or> y = 8 \<and> (x < 9 \<and> x \<noteq> 6 \<or> n - 8 \<le> x)) \<or>
       7 \<le> v \<and> (x < 6 \<and> n - 11 \<le> y \<and> y \<le> n - 9 \<or> y < 6 \<and> n - 11 \<le> x \<and> x \<le> n - 9))"
    using finder_marks [OF n(1-3)] timing_marks [OF n(1-3)] align_marks_aligned [OF assms(1), of x y]
      format_marks [OF n(1-3)] version_marks [OF n(1-3)] corner
    unfolding reserved_def Let_def n(4) n_def [symmetric] Un_iff
    by (cases "7 \<le> v") (simp_all only: if_True if_False disj_assoc empty_iff simp_thms)
  also have "\<dots> \<longleftrightarrow> pattern_at v sp x y"
    using core_regions [OF n(1-3)] version_regions [of x y n] unfolding pattern_at_def Let_def n_def [symmetric] by metis
  finally show ?thesis .
qed

end
