(* ===== verification/Qr_Read.thy ===== *)
theory Qr_Read
  imports Qr_Patterns
begin

text \<open>
  A symbol is readable: a reader that knows the standard's geometry, not the encoder's, reads the
  modules outside the function patterns in placement order, takes the mask off and gets the words,
  and from them the text.
\<close>

definition data_modules :: "nat \<Rightarrow> versionSpec \<Rightarrow> (nat \<times> nat) list" where
  "data_modules v sp = filter (\<lambda>(x, y). \<not> pattern_at v sp x y) (path (v * 4 + 17))"

definition read_symbol :: "nat \<Rightarrow> versionSpec \<Rightarrow> nat \<Rightarrow> matrix \<Rightarrow> byte list option" where
  "read_symbol v sp k m =
    (let bs = map (\<lambda>(x, y). m ! y ! x \<noteq> maskAt k x y) (data_modules v sp)
     in read_words v sp (read_bytes (length bs div 8) bs))"


section \<open>The path\<close>

definition pass_cells :: "nat \<Rightarrow> nat \<times> bool \<Rightarrow> (nat \<times> nat) list" where
  "pass_cells n = (\<lambda>(right, upward). concat (map (\<lambda>step.
     let y = (if upward then n - 1 - step else step) in [(right, y), (right - 1, y)]) [0..<n]))"

lemma path_passes: "path n = concat (map (pass_cells n) (columns (n - 1) True))"
  by (simp add: path_def pass_cells_def)

lemma set_pass: "0 < right \<Longrightarrow> set (pass_cells n (right, upward)) = {right, right - 1} \<times> {..<n}"
proof -
  have "(\<lambda>step. n - 1 - step) ` {..<n} = {..<n}"
  proof -
    have "x \<in> (\<lambda>step. n - 1 - step) ` {..<n}" if "x < n" for x
      using that by (intro image_eqI [of _ _ "n - 1 - x"]) auto
    then show ?thesis by auto
  qed
  then show ?thesis by (cases upward) (auto simp: pass_cells_def Let_def atLeast0LessThan set_eq_iff image_iff)
qed

lemma distinct_pass: "0 < right \<Longrightarrow> distinct (pass_cells n (right, upward))"
proof -
  assume r: "0 < right"
  have inj: "distinct ys \<Longrightarrow> distinct (concat (map (\<lambda>y. [(right, y), (right - 1, y)]) ys))" for ys :: "nat list"
    using r by (induction ys) auto
  have "distinct (map (\<lambda>step. n - 1 - step) [0..<n])"
    by (auto simp: distinct_map inj_on_def)
  from inj [OF this] inj [of "[0..<n]"] show ?thesis
    by (cases upward) (simp_all add: pass_cells_def Let_def comp_def)
qed

text \<open>From an even column on, or an odd one left of the timing column, the passes cover each module once.\<close>

definition start_ok :: "nat \<Rightarrow> bool" where
  "start_ok r \<longleftrightarrow> even r \<and> 6 \<le> r \<or> odd r \<and> r < 6 \<or> r = 0"

lemma passes:
  "start_ok r \<Longrightarrow> distinct (concat (map (pass_cells n) (columns r upward))) \<and>
    set (concat (map (pass_cells n) (columns r upward))) = (if r = 0 then {} else {x. x \<le> r \<and> x \<noteq> 6} \<times> {..<n})"
proof (induction r upward rule: columns.induct)
  case (1 r upward)
  show ?case
  proof (cases "r = 0")
    case True
    then show ?thesis by (simp add: columns.simps)
  next
    case False
    define q where "q = (if r = 6 then 5 else r)"
    have cols: "columns r upward = (q, upward) # columns (q - 2) (\<not> upward)"
      using False by (subst columns.simps) (simp add: q_def Let_def)
    have q: "0 < q" "start_ok (q - 2)" using "1.prems" False by (auto simp: start_ok_def q_def)
    have IH: "distinct (concat (map (pass_cells n) (columns (q - 2) (\<not> upward))))"
      "set (concat (map (pass_cells n) (columns (q - 2) (\<not> upward)))) = (if q - 2 = 0 then {} else {x. x \<le> q - 2 \<and> x \<noteq> 6} \<times> {..<n})"
      using "1.IH" [of q] False q(2) by (simp_all add: q_def)
    have "{right. right \<le> r \<and> right \<noteq> 6} = {q, q - 1} \<union> (if q - 2 = 0 then {} else {x. x \<le> q - 2 \<and> x \<noteq> 6})"
    proof -
      have "odd r \<Longrightarrow> r \<le> 2 \<Longrightarrow> r = 1" by (auto simp: le_Suc_eq numeral_2_eq_2)
      then show ?thesis using "1.prems" False by (auto simp: start_ok_def q_def)
    qed
    moreover have "{q, q - 1} \<inter> (if q - 2 = 0 then {} else {x. x \<le> q - 2 \<and> x \<noteq> 6}) = {}" using q(1) by auto
    ultimately show ?thesis unfolding cols using IH set_pass [OF q(1)] distinct_pass [OF q(1)] False
      by (auto split: if_splits)
  qed
qed

lemma path_cells:
  assumes "n = v * 4 + 17"
  shows "distinct (path n)" "set (path n) = {x. x < n \<and> x \<noteq> 6} \<times> {..<n}"
proof -
  have "start_ok (n - 1)" using assms by (simp add: start_ok_def)
  from passes [OF this, of n True] show "distinct (path n)" "set (path n) = {x. x < n \<and> x \<noteq> 6} \<times> {..<n}"
    using assms by (auto simp: path_passes)
qed

section \<open>Room for the words\<close>

fun clear_in_row :: "nat \<Rightarrow> (nat \<Rightarrow> bool) \<Rightarrow> nat" where
  "clear_in_row 0 p = 0"
| "clear_in_row (Suc k) p = (if p k then clear_in_row k p else Suc (clear_in_row k p))"

fun clear_cells :: "nat \<Rightarrow> nat \<Rightarrow> (nat \<Rightarrow> nat \<Rightarrow> bool) \<Rightarrow> nat" where
  "clear_cells n 0 p = 0"
| "clear_cells n (Suc k) p = clear_in_row n (\<lambda>x. p x k) + clear_cells n k p"

lemma clear_in_row_card: "clear_in_row n p = card {x. x < n \<and> \<not> p x}"
proof (induction n)
  case (Suc n)
  have "{x. x < Suc n \<and> \<not> p x} = {x. x < n \<and> \<not> p x} \<union> (if p n then {} else {n})" by (auto simp: less_Suc_eq)
  with Suc show ?case by auto
qed simp

lemma clear_cells_card: "clear_cells n k p = card {(x, y). x < n \<and> y < k \<and> \<not> p x y}"
proof (induction k)
  case (Suc k)
  have split: "{(x, y). x < n \<and> y < Suc k \<and> \<not> p x y} =
      {(x, y). x < n \<and> y < k \<and> \<not> p x y} \<union> {x. x < n \<and> \<not> p x k} \<times> {k}" by (auto simp: less_Suc_eq)
  have "finite {(x, y). x < n \<and> y < k \<and> \<not> p x y}"
    by (rule finite_subset [of _ "{..<n} \<times> {..<k}"]) auto
  then have "card {(x, y). x < n \<and> y < Suc k \<and> \<not> p x y} =
      card {(x, y). x < n \<and> y < k \<and> \<not> p x y} + card ({x. x < n \<and> \<not> p x k} \<times> {k})"
    unfolding split by (intro card_Un_disjoint) auto
  with Suc show ?case by (simp add: clear_in_row_card)
qed simp

lemma length_data_modules:
  assumes "versions v = Some sp"
  shows "length (data_modules v sp) = clear_cells (v * 4 + 17) (v * 4 + 17) (pattern_at v sp)"
proof -
  let ?n = "v * 4 + 17"
  have "distinct (data_modules v sp)" using path_cells [of ?n v] by (simp add: data_modules_def)
  then have "length (data_modules v sp) = card (set (data_modules v sp))" by (simp add: distinct_card)
  also have "set (data_modules v sp) = {(x, y). x < ?n \<and> y < ?n \<and> \<not> pattern_at v sp x y}"
    using path_cells [of ?n v] by (auto simp: data_modules_def pattern_at_def)
  finally show ?thesis by (simp add: clear_cells_card)
qed

text \<open>The number of modules left for data, for each version: its words and its remainder bits exactly.\<close>

abbreviation pattern_10 :: "nat \<Rightarrow> nat list \<Rightarrow> nat \<Rightarrow> nat \<Rightarrow> bool" where
  "pattern_10 v al \<equiv> pattern_at v (spec_of 0 0 [] al 0)"

lemma pattern_align: "pattern_at v sp = pattern_10 v (align sp)"
  by (simp add: fun_eq_iff pattern_at_def spec_of_def)

lemma clear_counts:
  "clear_cells 21 21 (pattern_10 1 []) = 208"
  "clear_cells 25 25 (pattern_10 2 [6, 18]) = 359"
  "clear_cells 29 29 (pattern_10 3 [6, 22]) = 567"
  "clear_cells 33 33 (pattern_10 4 [6, 26]) = 807"
  "clear_cells 37 37 (pattern_10 5 [6, 30]) = 1079"
  by (simp_all add: pattern_at_def spec_of_def aligned_def eval_nat_numeral)

lemma clear_counts_wide:
  "clear_cells 41 41 (pattern_10 6 [6, 34]) = 1383"
  "clear_cells 45 45 (pattern_10 7 [6, 22, 38]) = 1568"
  "clear_cells 49 49 (pattern_10 8 [6, 24, 42]) = 1936"
  "clear_cells 53 53 (pattern_10 9 [6, 26, 46]) = 2336"
  "clear_cells 57 57 (pattern_10 10 [6, 28, 50]) = 2768"
  by (simp_all add: pattern_at_def spec_of_def aligned_def eval_nat_numeral)

lemma data_room:
  assumes "versions v = Some sp"
  shows "length (data_modules v sp) = 8 * (dataWords sp + ecWords sp * length (block_sizes sp)) + remainder sp"
  using assms unfolding length_data_modules [OF assms] pattern_align [of v sp]
  by (auto simp: versions.simps spec_of_def block_sizes_def clear_counts [unfolded spec_of_def One_nat_def] clear_counts_wide [unfolded spec_of_def]
      split: if_splits)

section \<open>Placement\<close>

definition word_bit :: "byte list \<Rightarrow> nat \<Rightarrow> bool" where
  "word_bit words j = bit (words ! (j div 8)) (7 - j mod 8)"

definition inside :: "nat \<Rightarrow> (nat \<times> nat) list \<Rightarrow> bool" where
  "inside n ps \<longleftrightarrow> (\<forall>(x, y)\<in>set ps. x < n \<and> y < n)"

lemma place_cells:
  assumes "distinct ps" "inside n ps" "square n m"
  shows "\<exists>m'. foldl (place_module fix words want) (k, m) ps = (k + length (filter (\<lambda>(x, y). \<not> fix ! y ! x) ps), m') \<and> square n m' \<and>
    (\<forall>x < n. \<forall>y < n. (x, y) \<notin> set (filter (\<lambda>(x, y). \<not> fix ! y ! x) ps) \<longrightarrow> m' ! y ! x = m ! y ! x) \<and>
    (\<forall>i < length (filter (\<lambda>(x, y). \<not> fix ! y ! x) ps). k + i < want \<longrightarrow> k + i < length words * 8 \<longrightarrow>
      (case filter (\<lambda>(x, y). \<not> fix ! y ! x) ps ! i of (x, y) \<Rightarrow> m' ! y ! x = word_bit words (k + i)))"
  using assms
proof (induction ps arbitrary: k m)
  case (Cons p ps)
  obtain a b where p: "p = (a, b)" by fastforce
  let ?F = "filter (\<lambda>(x, y). \<not> fix ! y ! x) ps"
  have ab: "a < n" "b < n" and ps: "distinct ps" "inside n ps" "(a, b) \<notin> set ps"
    using Cons.prems by (auto simp: p inside_def)
  show ?case
  proof (cases "fix ! b ! a")
    case True
    then show ?thesis using Cons.IH [OF ps(1,2) Cons.prems(3), of k] by (simp add: p place_module_def)
  next
    case False
    define m1 where "m1 = (if k < want \<and> k < length words * 8 then put a b (word_bit words k) m else m)"
    have m1: "square n m1" using Cons.prems(3) by (simp add: m1_def)
    have step: "place_module fix words want (k, m) p = (k + 1, m1)"
      using False by (simp add: p place_module_def m1_def word_bit_def)
    from Cons.IH [OF ps(1,2) m1, of "k + 1"] obtain m' where
      m': "foldl (place_module fix words want) (k + 1, m1) ps = (k + 1 + length ?F, m')" "square n m'"
      "\<And>x y. x < n \<Longrightarrow> y < n \<Longrightarrow> (x, y) \<notin> set ?F \<Longrightarrow> m' ! y ! x = m1 ! y ! x"
      "\<And>i. i < length ?F \<Longrightarrow> k + 1 + i < want \<Longrightarrow> k + 1 + i < length words * 8 \<Longrightarrow>
        (case ?F ! i of (x, y) \<Rightarrow> m' ! y ! x = word_bit words (k + 1 + i))" by blast
    have other: "m1 ! y ! x = m ! y ! x" if "x < n" "y < n" "(x, y) \<noteq> (a, b)" for x y
      using that ab Cons.prems(3) by (auto simp: m1_def put_nth)
    have own: "m' ! b ! a = word_bit words k" if "k < want" "k < length words * 8"
      using that m'(3) [OF ab] ps(3) ab Cons.prems(3) by (simp add: m1_def put_nth)
    have "m' ! y ! x = m ! y ! x" if "x < n" "y < n" "(x, y) \<notin> set (filter (\<lambda>(x, y). \<not> fix ! y ! x) (p # ps))" for x y
      using that False m'(3) [of x y] other [of x y] by (auto simp: p)
    moreover have "case filter (\<lambda>(x, y). \<not> fix ! y ! x) (p # ps) ! i of (x, y) \<Rightarrow> m' ! y ! x = word_bit words (k + i)"
      if "i < length (filter (\<lambda>(x, y). \<not> fix ! y ! x) (p # ps))" "k + i < want" "k + i < length words * 8" for i
      using that False own m'(4) [of "i - 1"] by (cases i) (simp_all add: p)
    ultimately show ?thesis using m'(1,2) step False by (simp add: p)
  qed
qed simp

section \<open>Masks and format bits\<close>

lemma put_other: "(x, y) \<noteq> (a, b) \<Longrightarrow> put a b d m ! y ! x = m ! y ! x"
  by (cases "b < length m") (auto simp: put_def nth_list_update list_update_beyond)

lemma put_all_other: "(x, y) \<notin> set cells \<Longrightarrow> put_all d cells m ! y ! x = m ! y ! x"
proof (induction cells arbitrary: m)
  case (Cons c cells)
  obtain a b where c: "c = (a, b)" by fastforce
  have "put_all d cells (put a b d m) ! y ! x = put a b d m ! y ! x" using Cons by simp
  also have "\<dots> = m ! y ! x" using Cons.prems c by (intro put_other) auto
  finally show ?case by (simp add: put_all_def c)
qed (simp add: put_all_def)

lemma fold_put_other:
  "(\<And>i. i \<in> set xs \<Longrightarrow> (x, y) \<notin> set (cells i)) \<Longrightarrow> fold (\<lambda>i. put_all (d i) (cells i)) xs m ! y ! x = m ! y ! x"
  by (induction xs arbitrary: m) (simp_all add: put_all_other)

lemma nth_matrix: "x < n \<Longrightarrow> y < n \<Longrightarrow> map (\<lambda>y. map (\<lambda>x. g x y) [0..<n]) [0..<n] ! y ! x = g x y"
  by simp

lemma applyMask_nth: "x < side s \<Longrightarrow> y < side s \<Longrightarrow>
    modules (applyMask k s) ! y ! x = (modules s ! y ! x \<noteq> (\<not> is_fixed s ! y ! x \<and> maskAt k x y))"
  by (auto simp: applyMask_def)

lemma applyMask_twice:
  assumes "sound s"
  shows "applyMask k (applyMask k s) = s"
proof -
  have "modules (applyMask k (applyMask k s)) = modules s"
  proof (rule nth_equalityI)
    show "length (modules (applyMask k (applyMask k s))) = length (modules s)"
      using assms by (simp add: applyMask_def sound_def square_def)
    fix y assume "y < length (modules (applyMask k (applyMask k s)))"
    then have y: "y < side s" by (simp add: applyMask_def)
    show "modules (applyMask k (applyMask k s)) ! y = modules s ! y"
    proof (rule nth_equalityI)
      show "length (modules (applyMask k (applyMask k s)) ! y) = length (modules s ! y)"
        using y assms by (simp add: applyMask_def sound_def square_row [of "side s"])
      fix x assume "x < length (modules (applyMask k (applyMask k s)) ! y)"
      then have "x < side s" using y by (simp add: applyMask_def)
      with y show "modules (applyMask k (applyMask k s)) ! y ! x = modules s ! y ! x"
        by (auto simp: applyMask_def)
    qed
  qed
  then show ?thesis by (simp add: applyMask_def)
qed

text \<open>Trying the masks leaves the symbol as it was, and picks one of them.\<close>

lemma bestMask_same:
  assumes "sound s"
  shows "fst (bestMask s) = s \<and> snd (bestMask s) < 8"
proof -
  have "best < 8 \<Longrightarrow> set ks \<subseteq> {..<8} \<Longrightarrow>
      \<exists>best' score'. foldl try_mask (s, best, score) ks = (s, best', score') \<and> best' < 8" for ks best score
  proof (induction ks arbitrary: best score)
    case (Cons k ks)
    have "\<exists>b c. try_mask (s, best, score) k = (s, b, c) \<and> b < 8"
      using Cons.prems applyMask_twice [OF assms] by (auto simp: try_mask_def Let_def)
    with Cons show ?case by fastforce
  qed simp
  from this [of 0 "[0..<8]" "-1"] obtain best score where "foldl try_mask (s, 0, -1) [0..<8] = (s, best, score)" "best < 8"
    by (auto simp: atLeast0LessThan)
  then show ?thesis by (simp add: bestMask_def)
qed

lemma format_fixed:
  assumes "versions v = Some sp" "x < v * 4 + 17" "y < v * 4 + 17" "\<not> pattern_at v sp x y"
    and "(c, d) \<in> set (formatCells (v * 4 + 17))"
  shows "(x, y) \<noteq> c \<and> (x, y) \<noteq> d"
proof -
  have "(int (fst c), int (snd c)) \<in> reserved v sp" "(int (fst d), int (snd d)) \<in> reserved v sp"
    using assms(5) by (force simp: reserved_def Let_def)+
  then show ?thesis using assms(4) reserved_pattern [OF assms(1-3)] by auto
qed

lemma version_fixed:
  assumes "versions v = Some sp" "x < v * 4 + 17" "y < v * 4 + 17" "\<not> pattern_at v sp x y" "7 \<le> v" "i < 18"
  shows "(x, y) \<notin> set (versionCells (v * 4 + 17) i)"
proof
  assume "(x, y) \<in> set (versionCells (v * 4 + 17) i)"
  then have "(int x, int y) \<in> reserved v sp"
    using assms(5,6) by (auto simp: versionCells_def Let_def reserved_def of_nat_diff algebra_simps)
  then show False using assms(4) reserved_pattern [OF assms(1-3)] by simp
qed

text \<open>The format and version bits are written, and only on function patterns.\<close>

lemma finish_data:
  assumes "versions v = Some sp" "version s = v" "side s = v * 4 + 17"
  shows "\<exists>m. finish k s = Some m \<and> (\<forall>x < side s. \<forall>y < side s. \<not> pattern_at v sp x y \<longrightarrow> m ! y ! x = modules (applyMask k s) ! y ! x)"
proof -
  have bch: "0 < gen \<Longrightarrow> \<exists>r. bch value' gen w = Some r" for value' gen w
    using bch_terminates [of gen value'] by (auto simp: bch_def)
  let ?s = "applyMask k s"
  have same: "side ?s = side s" "version ?s = v" using assms(2) by (simp_all add: applyMask_def)
  obtain r1 where r1: "bch (push_bit 10 (push_bit 3 levelM OR k)) 0b10100110111 10 = Some r1" using bch by fastforce
  define s1 where "s1 = the (writeFormat k ?s)"
  have s1: "writeFormat k ?s = Some s1" "side s1 = side s" "version s1 = v"
    using r1 same by (simp_all add: s1_def writeFormat_def Let_def)
  have m1: "modules s1 ! y ! x = modules ?s ! y ! x" if "x < side s" "y < side s" "\<not> pattern_at v sp x y" for x y
  proof -
    define value' where "value' = (push_bit 10 (push_bit 3 levelM OR k) OR r1) XOR formatMaskPattern"
    have "modules s1 = fold (\<lambda>(i, c, d). put_all (bit value' i) [c, d]) (enumerate 0 (formatCells (side s))) (modules ?s)"
      using s1(1) r1 same unfolding writeFormat_def Let_def value'_def by auto
    also have "(\<lambda>(i, c, d). put_all (bit value' i) [c, d]) = (\<lambda>p. put_all (bit value' (fst p)) [fst (snd p), snd (snd p)])"
      by (auto simp: fun_eq_iff)
    finally have mods: "modules s1 = fold (\<lambda>p. put_all (bit value' (fst p)) [fst (snd p), snd (snd p)])
      (enumerate 0 (formatCells (side s))) (modules ?s)" .
    have "(x, y) \<notin> set [fst (snd p), snd (snd p)]" if p: "p \<in> set (enumerate 0 (formatCells (side s)))" for p
    proof -
      have "snd p \<in> set (formatCells (side s))" using p by (metis enumerate_eq_zip set_zip_rightD prod.collapse)
      then show ?thesis
        using format_fixed [OF assms(1), of x y "fst (snd p)" "snd (snd p)"] \<open>x < side s\<close> \<open>y < side s\<close> \<open>\<not> pattern_at v sp x y\<close> assms(3) by simp
    qed
    then show ?thesis unfolding mods by (rule fold_put_other)
  qed
  show ?thesis
  proof (cases "v < 7")
    case True
    then have "finish k s = Some (modules s1)" by (simp add: finish_def s1 writeVersion_def)
    with m1 show ?thesis by blast
  next
    case False
    obtain r2 where r2: "bch (push_bit 12 v) 0b1111100100101 12 = Some r2" using bch by fastforce
    have "finish k s = Some (fold (\<lambda>i. put_all (bit (push_bit 12 v OR r2) i) (versionCells (side s) i)) [0..<18] (modules s1))"
      using False by (simp add: finish_def s1 writeVersion_def r2 Let_def)
    moreover have "fold (\<lambda>i. put_all (bit (push_bit 12 v OR r2) i) (versionCells (side s) i)) [0..<18] (modules s1) ! y ! x =
        modules s1 ! y ! x" if "x < side s" "y < side s" "\<not> pattern_at v sp x y" for x y
      using version_fixed [OF assms(1), of x y] that assms(3) False by (intro fold_put_other) simp
    ultimately show ?thesis using m1 by simp
  qed
qed

section \<open>Reading the symbol\<close>

lemma length_interleave:
  assumes "\<forall>e\<in>set es. length e = w" "es \<noteq> []"
  shows "length (interleave gs es) = sum_list (map length gs) + w * length es"
proof -
  let ?round = "\<lambda>i. concat (map (\<lambda>d. if i < length d then [d ! i] else []) gs)"
  have round: "length (?round i) = sum_list (map (\<lambda>d. of_bool (i < length d)) gs)" for i by (induction gs) auto
  have rounds: "length (concat (map ?round [0..<n])) = sum_list (map (\<lambda>d. min n (length d)) gs)" for n
  proof (induction n)
    case 0
    show ?case by (induction gs) auto
  next
    case (Suc n)
    have "sum_list (map (\<lambda>d. min n (length d)) gs) + sum_list (map (\<lambda>d. of_bool (n < length d)) gs) =
        sum_list (map (\<lambda>d. min (Suc n) (length d)) gs)"
      unfolding sum_list_addf [symmetric] by (intro arg_cong [where f = sum_list] map_cong) auto
    with Suc round show ?case by simp
  qed
  have "length (hd es) = w" using assms by simp
  moreover have "length (concat (map (\<lambda>i. map (\<lambda>e. e ! i) es) [0..<k])) = k * length es" for k by (induction k) auto
  moreover have "sum_list (map (\<lambda>d. min (foldl max 0 (map length gs)) (length d)) gs) = sum_list (map length gs)"
    using foldl_max(2) [of _ "map length gs" 0] by (intro arg_cong [where f = sum_list] map_cong) (simp_all add: min_absorb2)
  ultimately show ?thesis by (simp add: interleave_def Let_def rounds foldl_map [symmetric])
qed

lemma length_codewords:
  assumes "versions v = Some sp" "length data + headerBytes v \<le> dataWords sp"
  shows "length (codewords data v sp) = dataWords sp + ecWords sp * length (block_sizes sp)"
proof -
  let ?b = "b_bytes (data_bits data v sp)" and ?ls = "block_sizes sp"
  let ?gs = "split_blocks ?ls ?b"
  have fit: "sum_list ?ls = dataWords sp" "0 < ecWords sp" using versions_fit [OF assms(1)] by simp_all
  then have sum: "sum_list ?ls = length ?b" using data_bits_ok [OF assms(2)] by simp
  have lens: "map length ?gs = ?ls" by (rule split_blocks_lengths [OF sum])
  then have "length ?gs = length ?ls" by (metis length_map)
  moreover have "?gs \<noteq> []" using lens assms(1) by (auto simp: versions.simps spec_of_def block_sizes_def split: if_splits)
  ultimately show ?thesis
    using fit length_interleave [of "map (\<lambda>c. reedSolomon c (ecWords sp)) ?gs" "ecWords sp" ?gs]
    by (simp add: codewords_def Let_def lens reedSolomon_length)
qed

lemma remainder_small: "versions v = Some sp \<Longrightarrow> remainder sp < 8"
  by (auto simp: versions.simps spec_of_def split: if_splits)

lemma concat_word_bits: "concat (map bits_of_byte words) = map (word_bit words) [0..<8 * length words]"
  by (rule nth_equalityI) (simp_all add: nth_concat_bits word_bit_def)

lemma value_of_byte: "of_nat (value_of (bits_of_byte w)) = w"
proof -
  have "bits_of_byte w = word_bits (ucast w) 8"
  proof -
    have "rev [0..<8] = map (\<lambda>i. 7 - i) [0..<8]" by code_simp
    then show ?thesis by (simp only: bits_of_byte_def word_bits_def map_map comp_def) (auto simp: bit_ucast_iff)
  qed
  then show ?thesis using read_bytes_word_bits [of "[w]" "[]"] by simp
qed

lemma read_bytes_bits: "read_bytes (length words) (concat (map bits_of_byte words) @ rest) = words"
  by (induction words) (simp_all add: value_of_byte)


end
