(* ===== verification/Encodings.thy ===== *)
theory Encodings
  imports Prelude "HOL-Library.Word"
begin

text \<open>
  The parts of \<open>encoding/base64\<close> and \<open>encoding/base32\<close> the credential code relies on: bytes are
  written as groups of \<open>k\<close> bits, most significant first, the last group filled up with zeros. A reader
  skips line breaks, refuses a character outside the alphabet and a length that leaves a piece of a byte.
\<close>

type_synonym octet = "8 word"

definition bytes_of_text :: "string \<Rightarrow> octet list" where "bytes_of_text s = map (\<lambda>c. word_of_nat (of_char c)) s"
definition text_of_bytes :: "octet list \<Rightarrow> string" where "text_of_bytes bs = map (\<lambda>b. char_of (unat b)) bs"

section \<open>Groups of bits\<close>

definition octet_bits :: "octet \<Rightarrow> bool list" where "octet_bits b = map (bit b) (rev [0..<8])"
definition octet_of :: "bool list \<Rightarrow> octet" where "octet_of bs = horner_sum of_bool 2 (rev bs)"

definition digit_bits :: "nat \<Rightarrow> nat \<Rightarrow> bool list" where "digit_bits k n = map (bit n) (rev [0..<k])"
definition digit_of :: "bool list \<Rightarrow> nat" where "digit_of bs = horner_sum of_bool 2 (rev bs)"

fun groups :: "nat \<Rightarrow> nat \<Rightarrow> bool list \<Rightarrow> bool list list" where
  "groups k 0 bs = []"
| "groups k (Suc n) bs = take k (bs @ replicate k False) # groups k n (drop k bs)"

fun octets_of :: "nat \<Rightarrow> bool list \<Rightarrow> octet list" where
  "octets_of 0 bs = []"
| "octets_of (Suc n) bs = octet_of (take 8 bs) # octets_of n (drop 8 bs)"

definition group_count :: "nat \<Rightarrow> nat \<Rightarrow> nat" where "group_count k n = (8 * n + k - 1) div k"

fun position :: "'a \<Rightarrow> 'a list \<Rightarrow> nat option" where
  "position x [] = None"
| "position x (y # ys) = (if x = y then Some 0 else map_option Suc (position x ys))"

definition encode_base :: "nat \<Rightarrow> string \<Rightarrow> octet list \<Rightarrow> string" where
  "encode_base k alphabet bs =
    map (\<lambda>g. alphabet ! digit_of g) (groups k (group_count k (length bs)) (concat (map octet_bits bs)))"

definition line_break :: "char \<Rightarrow> bool" where "line_break c \<longleftrightarrow> c = CHR 0x0D \<or> c = CHR 0x0A"

definition decode_base :: "nat \<Rightarrow> string \<Rightarrow> string \<Rightarrow> octet list option" where
  "decode_base k alphabet s =
    (let s = filter (\<lambda>c. \<not> line_break c) s; ds = map (\<lambda>c. position c alphabet) s; n = length s * k div 8
     in if None \<in> set ds \<or> group_count k n \<noteq> length s then None
        else Some (octets_of n (concat (map (digit_bits k \<circ> the) ds))))"

section \<open>The alphabets\<close>

definition upper_letters :: string where "upper_letters = map char_of [65..<91 :: nat]"
definition lower_letters :: string where "lower_letters = map char_of [97..<123 :: nat]"

definition digits :: string where "digits = map char_of [48..<58 :: nat]"

definition std64 :: string where "std64 = upper_letters @ lower_letters @ digits @ ''+/''"
definition url64 :: string where "url64 = upper_letters @ lower_letters @ digits @ ''-_''"
definition std32 :: string where "std32 = upper_letters @ drop 2 (take 8 digits)"

text \<open>\<open>base64.RawStdEncoding\<close>, \<open>base64.RawURLEncoding\<close>, \<open>base32.StdEncoding.WithPadding(NoPadding)\<close>
  and the padded \<open>base64.StdEncoding\<close>.\<close>

definition raw64 :: "octet list \<Rightarrow> string" where "raw64 = encode_base 6 std64"
definition raw64_decode :: "string \<Rightarrow> octet list option" where "raw64_decode = decode_base 6 std64"
definition rawurl64 :: "octet list \<Rightarrow> string" where "rawurl64 = encode_base 6 url64"
definition rawurl64_decode :: "string \<Rightarrow> octet list option" where "rawurl64_decode = decode_base 6 url64"
definition base32 :: "octet list \<Rightarrow> string" where "base32 = encode_base 5 std32"
definition base32_decode :: "string \<Rightarrow> octet list option" where "base32_decode = decode_base 5 std32"

definition base64 :: "octet list \<Rightarrow> string" where
  "base64 bs = (let s = raw64 bs in s @ replicate ((4 - length s mod 4) mod 4) (CHR ''=''))"

definition base64_decode :: "string \<Rightarrow> octet list option" where
  "base64_decode s =
    (let s = filter (\<lambda>c. \<not> line_break c) s; pad = length (takeWhile (\<lambda>c. c = CHR ''='') (rev s))
     in if length s mod 4 \<noteq> 0 \<or> 2 < pad then None else raw64_decode (take (length s - pad) s))"

section \<open>Reading back what was written\<close>

lemma text_bytes [simp]: "text_of_bytes (bytes_of_text s) = s"
proof -
  have "unat (word_of_nat (of_char c) :: octet) = of_char c" for c
    using nat_of_char_less_256 [of c] by (simp add: unat_of_nat)
  then show ?thesis by (simp add: text_of_bytes_def bytes_of_text_def comp_def)
qed

lemma octet_of_bits [simp]: "octet_of (octet_bits b) = b"
  by (rule bit_word_eqI) (simp add: octet_of_def octet_bits_def bit_horner_sum_bit_iff rev_map nth_append)

lemma length_octet_bits [simp]: "length (octet_bits b) = 8"
  by (simp add: octet_bits_def)

lemma digit_bits_of [simp]: "length bs = k \<Longrightarrow> digit_bits k (digit_of bs) = bs"
  by (rule nth_equalityI) (auto simp: digit_bits_def digit_of_def bit_horner_sum_bit_iff rev_nth)

lemma digit_of_less: "digit_of bs < 2 ^ length bs"
  using horner_sum_of_bool_2_less [of "rev bs", where ?'a = nat] by (simp add: digit_of_def)

lemma octets_of_append: "octets_of (length bs) (concat (map octet_bits bs) @ rest) = bs"
  by (induction bs) simp_all

lemma groups_shape: "g \<in> set (groups k n bs) \<Longrightarrow> length g = k"
  by (induction n arbitrary: bs) (auto simp: min_def)

lemma length_groups [simp]: "length (groups k n bs) = n"
  by (induction n arbitrary: bs) auto

lemma concat_groups: "length bs \<le> k * n \<Longrightarrow> \<exists>m. concat (groups k n bs) = bs @ replicate m False"
proof (induction n arbitrary: bs)
  case (Suc n)
  have "length (drop k bs) \<le> k * n" using Suc.prems by simp
  then obtain m where m: "concat (groups k n (drop k bs)) = drop k bs @ replicate m False" using Suc.IH by blast
  show ?case
  proof (cases "k \<le> length bs")
    case True
    then have "concat (groups k (Suc n) bs) = bs @ replicate m False"
      using m by (simp flip: append_assoc)
    then show ?thesis by blast
  next
    case False
    then have "take k (bs @ replicate k False) = bs @ replicate (k - length bs) False"
      by (simp add: min_def)
    then show ?thesis using m False by (auto simp: replicate_add [symmetric])
  qed
qed simp

lemma position_nth: "distinct xs \<Longrightarrow> i < length xs \<Longrightarrow> position (xs ! i) xs = Some i"
  by (induction xs arbitrary: i) (auto simp: nth_Cons split: nat.splits)

locale alphabet =
  fixes k :: nat and letters :: string
  assumes k_pos: "0 < k" "k \<le> 8"
    and size: "length letters = 2 ^ k"
    and distinct: "distinct letters"
    and clean: "\<forall>c\<in>set letters. \<not> line_break c"
begin

lemma letter: "length g = k \<Longrightarrow> letters ! digit_of g \<in> set letters"
  using digit_of_less [of g] size by simp

lemma count_bytes: "group_count k n * k div 8 = n"
proof -
  have "group_count k n * k + (8 * n + k - 1) mod k = 8 * n + k - 1"
    unfolding group_count_def by (rule div_mult_mod_eq)
  moreover have "(8 * n + k - 1) mod k < k" using k_pos by simp
  ultimately have "8 * n \<le> group_count k n * k" and "group_count k n * k \<le> 8 * n + k - 1" using k_pos by linarith+
  then have "8 * n \<le> group_count k n * k" and "group_count k n * k < 8 * Suc n" using k_pos by simp_all
  then show ?thesis by (intro div_nat_eqI) simp_all
qed

lemma enough_groups: "8 * n \<le> k * group_count k n"
  using count_bytes [of n] by (metis div_times_less_eq_dividend mult.commute)

lemma decode_encode: "decode_base k letters (encode_base k letters bs) = Some bs"
proof -
  let ?bits = "concat (map octet_bits bs)" and ?n = "group_count k (length bs)"
  let ?s = "encode_base k letters bs"
  have len: "length ?bits = 8 * length bs" by (induction bs) simp_all
  have same: "filter (\<lambda>c. \<not> line_break c) ?s = ?s"
    using letter groups_shape clean by (fastforce simp: encode_base_def intro: filter_True)
  have pos: "map (\<lambda>c. position c letters) ?s = map (\<lambda>g. Some (digit_of g)) (groups k ?n ?bits)"
    using digit_of_less size distinct by (auto simp: encode_base_def groups_shape intro!: position_nth)
      (metis groups_shape)
  have recovered: "map (digit_bits k \<circ> the) (map (\<lambda>g. Some (digit_of g)) (groups k ?n ?bits)) = groups k ?n ?bits"
    by (auto simp: groups_shape intro: map_idI)
  obtain m where m: "concat (groups k ?n ?bits) = ?bits @ replicate m False"
    using concat_groups [of ?bits k ?n] enough_groups [of "length bs"] len by auto
  have "length ?s = ?n" by (simp add: encode_base_def)
  then show ?thesis
    unfolding decode_base_def Let_def same pos recovered m
    by (simp add: count_bytes octets_of_append image_iff)
qed

lemma encode_letters: "set (encode_base k letters bs) \<subseteq> set letters"
  using letter groups_shape by (fastforce simp: encode_base_def)

end

interpretation b64: alphabet 6 std64
  by unfold_locales code_simp+

interpretation u64: alphabet 6 url64
  by unfold_locales code_simp+

interpretation b32: alphabet 5 std32
  by unfold_locales code_simp+

lemma raw64_decode_raw64 [simp]: "raw64_decode (raw64 bs) = Some bs"
  by (simp add: raw64_def raw64_decode_def b64.decode_encode)

lemma rawurl64_decode_rawurl64 [simp]: "rawurl64_decode (rawurl64 bs) = Some bs"
  by (simp add: rawurl64_def rawurl64_decode_def u64.decode_encode)

lemma base32_decode_base32 [simp]: "base32_decode (base32 bs) = Some bs"
  by (simp add: base32_def base32_decode_def b32.decode_encode)

lemma length_raw64: "length (raw64 bs) = group_count 6 (length bs)"
  by (simp add: raw64_def encode_base_def)

lemma count_mod4: "group_count 6 n mod 4 \<noteq> 1"
proof -
  obtain q r where n: "n = 3 * q + r" and r: "r = 0 \<or> r = 1 \<or> r = 2"
    using div_mult_mod_eq [of n 3] mod_less_divisor [of 3 n] by (metis less_Suc_eq mult.commute numeral_3_eq_3 numeral_2_eq_2 less_one zero_less_Suc One_nat_def)
  from r show ?thesis
  proof (elim disjE)
    assume "r = 0"
    then have "group_count 6 n = 4 * q" unfolding n group_count_def by (intro div_nat_eqI) simp_all
    then show ?thesis by simp
  next
    assume "r = 1"
    then have "group_count 6 n = 2 + 4 * q" unfolding n group_count_def by (intro div_nat_eqI) simp_all
    then show ?thesis by (simp only: mod_mult_self2) simp
  next
    assume "r = 2"
    then have "group_count 6 n = 3 + 4 * q" unfolding n group_count_def by (intro div_nat_eqI) simp_all
    then show ?thesis by (simp only: mod_mult_self2) simp
  qed
qed

lemma filled_up: "(m + (4 - m mod 4) mod 4) mod 4 = (0 :: nat)"
proof -
  have "q * 4 + r + (4 - r) = 4 * (q + 1)" if "r < 4" for q r :: nat using that by simp
  from this [of "m mod 4" "m div 4"] have "m + (4 - m mod 4) = 4 * (m div 4 + 1)" by simp
  then have "(m + (4 - m mod 4)) mod 4 = 0" by simp
  then show ?thesis by (simp only: mod_add_right_eq)
qed

lemma base64_decode_base64 [simp]: "base64_decode (base64 bs) = Some bs"
proof -
  let ?s = "raw64 bs" and ?p = "(4 - length (raw64 bs) mod 4) mod 4"
  have letters: "c \<in> set std64" if "c \<in> set ?s" for c using b64.encode_letters that by (auto simp: raw64_def)
  have clean: "\<forall>c\<in>set std64. \<not> line_break c \<and> c \<noteq> CHR ''=''" by code_simp
  have same: "filter (\<lambda>c. \<not> line_break c) (base64 bs) = base64 bs"
    using letters clean by (auto simp: base64_def Let_def line_break_def)
  have rest: "takeWhile (\<lambda>c. c = CHR ''='') (rev ?s) = []"
    using letters clean by (cases "rev ?s") (auto dest: arg_cong [where f = set])
  then have "takeWhile (\<lambda>c. c = CHR ''='') (rev (base64 bs)) = replicate ?p (CHR ''='')"
    by (simp add: base64_def Let_def takeWhile_append)
  moreover have "(4 - m) mod 4 \<le> 2" if "m \<noteq> 1" for m :: nat using that by (cases "m = 0") simp_all
  then have "?p \<le> 2" using count_mod4 [of "length bs"] unfolding length_raw64 [symmetric] .
  moreover have "length (base64 bs) mod 4 = 0" by (simp add: base64_def Let_def filled_up)
  ultimately show ?thesis
    unfolding base64_decode_def Let_def same by (simp add: base64_def Let_def)
qed

end
