(* ===== verification/Ticket.thy ===== *)
theory Ticket
  imports Task_Ref Encodings
begin

text \<open>
  The ticket that carries the first step of a sign-in into the second (\<open>internal/auth/ticket.go\<close>), the key it
  is signed with (\<open>seal.go\<close>) and the surfaces a second factor can be required on
  (\<open>internal/core/totp.go\<close>). HMAC-SHA256 is the argument \<open>mac\<close>.
\<close>

type_synonym keyed_hash = "octet list \<Rightarrow> octet list \<Rightarrow> octet list"

definition SurfaceWeb :: string where "SurfaceWeb = ''web''"
definition SurfaceCLI :: string where "SurfaceCLI = ''cli''"
definition SurfaceSSH :: string where "SurfaceSSH = ''ssh''"

definition Surfaces :: "string list" where "Surfaces = [SurfaceWeb, SurfaceCLI, SurfaceSSH]"
definition valid_surface :: "string \<Rightarrow> bool" where "valid_surface s \<longleftrightarrow> s \<in> set Surfaces"

definition SurfaceOf :: "string \<Rightarrow> string option" where
  "SurfaceOf src =
    (if src = ''web'' then Some SurfaceWeb
     else if src = ''cli'' \<or> src = ''api'' then Some SurfaceCLI
     else if src = ''tui'' then Some SurfaceSSH
     else None)"

section \<open>The key\<close>

definition TOTPKeyLength :: nat where "TOTPKeyLength = 32"

definition ParseTOTPKey :: "string \<Rightarrow> octet list res" where
  "ParseTOTPKey encoded =
    (if encoded = [] then Inl (fail KindInvalid)
     else case base64_decode encoded of
       None \<Rightarrow> Inl (fail KindInvalid)
     | Some key \<Rightarrow> if length key \<noteq> TOTPKeyLength then Inl (fail KindInvalid) else Inr key)"

section \<open>Minting and parsing\<close>

definition unix_epoch :: time where "unix_epoch = 62135596800 * Second"
definition Unix :: "time \<Rightarrow> int" where "Unix t = (t - unix_epoch) div Second"
definition from_unix :: "int \<Rightarrow> time" where "from_unix s = unix_epoch + s * Second"

definition TicketTTL :: duration where "TicketTTL = 5 * Minute"

record ticket =
  tk_user :: string
  tk_tenant :: string
  tk_surface :: string
  tk_expires :: time
  tk_method :: string

definition errTicket :: goerr where "errTicket = fail KindUnauthenticated"

definition ticketSignature :: "keyed_hash \<Rightarrow> octet list \<Rightarrow> string \<Rightarrow> octet list" where
  "ticketSignature mac key body = mac key (bytes_of_text (''tix-login-ticket'' @ body))"

definition ticket_payload :: "ticket \<Rightarrow> string" where
  "ticket_payload t =
    join ''|'' [tk_user t, tk_tenant t, tk_surface t, FormatInt (Unix (tk_expires t)), tk_method t]"

definition MintTicket :: "keyed_hash \<Rightarrow> string \<Rightarrow> ticket \<Rightarrow> string res" where
  "MintTicket mac encoded t =
    rbind (ParseTOTPKey encoded) (\<lambda>key.
      if tk_user t = [] then Inl (fail KindInvalid)
      else if tk_tenant t = [] then Inl (fail KindInvalid)
      else if \<not> valid_surface (tk_surface t) then Inl (fail KindInvalid)
      else let body = rawurl64 (bytes_of_text (ticket_payload t))
           in Inr (body @ ''.'' @ rawurl64 (ticketSignature mac key body)))"

definition cut_at :: "char \<Rightarrow> string \<Rightarrow> (string \<times> string) option" where
  "cut_at c s = (if c \<in> set s then Some (takeWhile (\<lambda>x. x \<noteq> c) s, tl (dropWhile (\<lambda>x. x \<noteq> c) s)) else None)"

definition ticket_of :: "string list \<Rightarrow> time \<Rightarrow> ticket res" where
  "ticket_of parts now =
    (if length parts \<noteq> 4 \<and> length parts \<noteq> 5 then Inl errTicket
     else case ParseInt (parts ! 3) of
       None \<Rightarrow> Inl errTicket
     | Some unix \<Rightarrow>
         let t = \<lparr>tk_user = parts ! 0, tk_tenant = parts ! 1, tk_surface = parts ! 2, tk_expires = from_unix unix,
                tk_method = (if length parts = 5 then parts ! 4 else [])\<rparr>
         in if \<not> valid_surface (tk_surface t) \<or> \<not> After (tk_expires t) now then Inl errTicket else Inr t)"

definition ParseTicket :: "keyed_hash \<Rightarrow> string \<Rightarrow> string \<Rightarrow> time \<Rightarrow> ticket res" where
  "ParseTicket mac encoded s now =
    rbind (ParseTOTPKey encoded) (\<lambda>key.
      case cut_at (CHR ''.'') s of
        None \<Rightarrow> Inl errTicket
      | Some (body, sig) \<Rightarrow>
          (case rawurl64_decode sig of
             None \<Rightarrow> Inl errTicket
           | Some given \<Rightarrow>
               if given \<noteq> ticketSignature mac key body then Inl errTicket
               else (case rawurl64_decode body of
                   None \<Rightarrow> Inl errTicket
                 | Some raw \<Rightarrow> ticket_of (split_on (CHR ''|'') (text_of_bytes raw)) now)))"

section \<open>Lemmas\<close>

lemma url64_plain: "CHR ''.'' \<notin> set (rawurl64 bs)"
proof -
  have "CHR ''.'' \<notin> set url64" by code_simp
  then show ?thesis using u64.encode_letters by (auto simp: rawurl64_def)
qed

lemma cut_at_append: "c \<notin> set s \<Longrightarrow> cut_at c (s @ c # t) = Some (s, t)"
  by (auto simp: cut_at_def takeWhile_append2 dropWhile_append2) (induction s; auto)+

lemma number_plain: "c \<in> set (FormatInt i) \<Longrightarrow> c \<noteq> CHR ''|''"
proof -
  have "is_digit c \<Longrightarrow> c \<noteq> CHR ''|''" by (auto simp: is_digit_def less_eq_char_def)
  then show "c \<in> set (FormatInt i) \<Longrightarrow> c \<noteq> CHR ''|''"
    using format_nat_props [of "nat i"] format_nat_props [of "nat (- i)"]
    by (auto simp: FormatInt_def digits_only_def split: if_splits)
qed

lemma valid_surface_plain: "valid_surface s \<Longrightarrow> CHR ''|'' \<notin> set s"
  by (auto simp: valid_surface_def Surfaces_def SurfaceWeb_def SurfaceCLI_def SurfaceSSH_def)

text \<open>C20: A ticket minted for a sign-in parses back to the same user, tenant, surface and method for as long as the
  second it expires in has not begun, and from then on it is refused.\<close>

theorem ParseTicket_MintTicket:
  assumes "MintTicket mac key t = Inr s"
    and "CHR ''|'' \<notin> set (tk_user t @ tk_tenant t @ tk_method t)"
    and "0 \<le> Unix (tk_expires t)" and "in_int64 (Unix (tk_expires t))"
  shows "ParseTicket mac key s now =
    (if now < from_unix (Unix (tk_expires t)) then Inr (t\<lparr>tk_expires := from_unix (Unix (tk_expires t))\<rparr>)
     else Inl errTicket)"
proof -
  from assms(1) obtain k where k: "ParseTOTPKey key = Inr k" and surface: "valid_surface (tk_surface t)"
    and s: "s = rawurl64 (bytes_of_text (ticket_payload t)) @
      CHR ''.'' # rawurl64 (ticketSignature mac k (rawurl64 (bytes_of_text (ticket_payload t))))"
    by (auto simp: MintTicket_def Let_def split: if_splits)
  have "split_on (CHR ''|'') (ticket_payload t) =
      [tk_user t, tk_tenant t, tk_surface t, FormatInt (Unix (tk_expires t)), tk_method t]"
    unfolding ticket_payload_def using assms(2) surface valid_surface_plain number_plain
    by (intro split_on_join) auto
  then show ?thesis
    using k surface assms(3,4)
    by (cases t) (simp add: ParseTicket_def s cut_at_append url64_plain ticket_of_def ParseInt_FormatInt After_def Let_def)
qed

definition sample_mac :: keyed_hash where "sample_mac key text = take 4 text @ take 4 key"

definition sample_ticket :: ticket where
  "sample_ticket = \<lparr>tk_user = ''u1'', tk_tenant = ''t1'', tk_surface = SurfaceWeb,
     tk_expires = from_unix 1700000000 + 5, tk_method = ''password''\<rparr>"

theorem ParseTicket_MintTicket_witness:
  "\<exists>s. MintTicket sample_mac (base64 (replicate 32 7)) sample_ticket = Inr s \<and>
     ParseTicket sample_mac (base64 (replicate 32 7)) s (from_unix 1699999999) =
       Inr (sample_ticket\<lparr>tk_expires := from_unix 1700000000\<rparr>) \<and>
     ParseTicket sample_mac (base64 (replicate 32 7)) s (from_unix 1700000000) = Inl errTicket"
proof -
  have "base64 (replicate 32 7) \<noteq> []" using base64_decode_base64 [of "replicate 32 7"] by (auto simp: base64_decode_def raw64_decode_def decode_base_def group_count_def)
  then have key: "ParseTOTPKey (base64 (replicate 32 7)) = Inr (replicate 32 7)" by (simp add: ParseTOTPKey_def TOTPKeyLength_def)
  then obtain s where s: "MintTicket sample_mac (base64 (replicate 32 7)) sample_ticket = Inr s"
    by (simp add: MintTicket_def sample_ticket_def valid_surface_def Surfaces_def Let_def)
  have seconds: "Unix (tk_expires sample_ticket) = 1700000000"
    by (simp add: Unix_def sample_ticket_def from_unix_def Second_def)
  have "CHR ''|'' \<notin> set (tk_user sample_ticket @ tk_tenant sample_ticket @ tk_method sample_ticket)"
    by (simp add: sample_ticket_def)
  note parsed = ParseTicket_MintTicket [OF s this, unfolded seconds]
  show ?thesis using s parsed by (simp add: from_unix_def Second_def min_int64_def max_int64_def)
qed

end
