(* ===== verification/Second_Factor.thy ===== *)
theory Second_Factor
  imports Ticket
begin

text \<open>
  Time-based codes, recovery codes and the sealing of secrets (\<open>internal/auth/totp.go\<close>, \<open>recovery.go\<close>,
  \<open>seal.go\<close>): the code of a step, the acceptance window, the verification state of an enrolment with its
  replay mark and rate limit. What the cryptographic packages compute is the record \<open>crypto\<close>: HMAC-SHA1 (twenty
  bytes), the hexadecimal SHA-256 digest, and the authenticated encryption of the sealer, whose arguments are
  nonce, text and the user the text belongs to; nothing proved here depends on what they compute.
\<close>

record crypto =
  mac :: keyed_hash
  sha256_hex :: "string \<Rightarrow> string"
  nonce_size :: nat
  aead_seal :: "octet list \<Rightarrow> octet list \<Rightarrow> octet list \<Rightarrow> octet list"
  aead_open :: "octet list \<Rightarrow> octet list \<Rightarrow> octet list \<Rightarrow> octet list option"

unbundle bit_operations_syntax

definition TOTPDigits :: nat where "TOTPDigits = 6"
definition TOTPSkew :: int where "TOTPSkew = 1"
definition TOTPPeriod :: duration where "TOTPPeriod = 30 * Second"
definition TOTPMaxFailures :: int where "TOTPMaxFailures = 5"
definition TOTPLockWindow :: duration where "TOTPLockWindow = 15 * Minute"

definition DetailReason :: string where "DetailReason = ''reason''"
definition ReasonTOTPLocked :: string where "ReasonTOTPLocked = ''totp_locked''"

definition ErrTOTPLocked :: goerr where
  "ErrTOTPLocked = WithDetail (newf KindPrecondition []) DetailReason (DStr ReasonTOTPLocked)"

definition ErrTOTPInvalid :: goerr where "ErrTOTPInvalid = newf KindUnauthenticated []"

definition IsTOTPLocked :: "goerr \<Rightarrow> bool" where
  "IsTOTPLocked err = (case as_domain err of None \<Rightarrow> False
     | Some d \<Rightarrow> map_of (err_details d) DetailReason = Some (DStr ReasonTOTPLocked))"

section \<open>The code of a step\<close>

definition TOTPStep :: "time \<Rightarrow> int" where "TOTPStep t = quo (Unix t) (quo TOTPPeriod Second)"

definition upper_ascii :: "char \<Rightarrow> char" where
  "upper_ascii c = (if CHR ''a'' \<le> c \<and> c \<le> CHR ''z'' then char_of (of_char c - (32 :: nat)) else c)"

definition decodeTOTPSecret :: "string \<Rightarrow> octet list res" where
  "decodeTOTPSecret secret =
    (let cleaned = map upper_ascii (filter (\<lambda>c. c \<noteq> CHR '' '') (TrimSpace secret));
         cleaned = rev (dropWhile (\<lambda>c. c = CHR ''='') (rev cleaned))
     in case base32_decode cleaned of
          None \<Rightarrow> Inl (newf KindInternal [])
        | Some key \<Rightarrow> if key = [] then Inl (newf KindInternal []) else Inr key)"

definition counter_bytes :: "int \<Rightarrow> octet list" where
  "counter_bytes step = map (\<lambda>i. ucast (drop_bit (56 - 8 * i) (word_of_int step :: 64 word))) [0..<8]"

definition padded :: "nat \<Rightarrow> nat \<Rightarrow> string" where
  "padded width n = (let s = format_nat n in replicate (width - length s) (CHR ''0'') @ s)"

definition TOTPCode :: "crypto \<Rightarrow> string \<Rightarrow> int \<Rightarrow> string res" where
  "TOTPCode cr secret step =
    rbind (decodeTOTPSecret secret) (\<lambda>key.
      let digest = mac cr key (counter_bytes step);
          offset = unat (last digest AND 0x0F);
          word = (word_rcat (take 4 (drop offset digest)) :: 32 word) AND 0x7FFFFFFF
      in Inr (padded TOTPDigits (unat (word mod 1000000))))"

section \<open>The acceptance window\<close>

definition NormalizeTOTPCode :: "string \<Rightarrow> string" where
  "NormalizeTOTPCode code = filter (\<lambda>c. CHR ''0'' \<le> c \<and> c \<le> CHR ''9'') code"

text \<open>Every step is tried even after a match; a secret that gives no code matches nothing.\<close>

fun match_steps :: "(int \<Rightarrow> string res) \<Rightarrow> string \<Rightarrow> int list \<Rightarrow> int option \<Rightarrow> int option" where
  "match_steps f code [] found = found"
| "match_steps f code (step # steps) found =
    (case f step of Inl _ \<Rightarrow> None
     | Inr want \<Rightarrow> match_steps f code steps (if want = code \<and> found = None then Some step else found))"

definition MatchTOTPCode :: "crypto \<Rightarrow> string \<Rightarrow> string \<Rightarrow> time \<Rightarrow> int option" where
  "MatchTOTPCode cr secret code now =
    (let code = NormalizeTOTPCode code
     in if length code \<noteq> TOTPDigits then None
        else match_steps (TOTPCode cr secret) code (map (\<lambda>d. TOTPStep now + d) [- TOTPSkew..TOTPSkew]) None)"

section \<open>The verification state\<close>

record attempt =
  LastStep :: int
  Failures :: int
  LockedUntil :: "time option"

definition Locked :: "attempt \<Rightarrow> time \<Rightarrow> bool" where
  "Locked a now = (case LockedUntil a of None \<Rightarrow> False | Some u \<Rightarrow> After u now)"

definition Succeed :: "int \<Rightarrow> attempt \<Rightarrow> attempt" where
  "Succeed step a = \<lparr>LastStep = (if LastStep a < step then step else LastStep a), Failures = 0, LockedUntil = None\<rparr>"

definition fail_attempt :: "time \<Rightarrow> attempt \<Rightarrow> attempt" where
  "fail_attempt now a =
    (let a = a\<lparr>Failures := Failures a + 1\<rparr>
     in if TOTPMaxFailures \<le> Failures a then a\<lparr>LockedUntil := Some (Add now TOTPLockWindow)\<rparr> else a)"

definition Verify :: "crypto \<Rightarrow> string \<Rightarrow> string \<Rightarrow> time \<Rightarrow> attempt \<Rightarrow> attempt \<times> unit res" where
  "Verify cr secret code now a =
    (if Locked a now then (a, Inl ErrTOTPLocked)
     else case MatchTOTPCode cr secret code now of
       None \<Rightarrow> (fail_attempt now a, Inl ErrTOTPInvalid)
     | Some step \<Rightarrow> if step \<le> LastStep a then (fail_attempt now a, Inl ErrTOTPInvalid) else (Succeed step a, Inr ()))"

section \<open>Recovery codes\<close>

fun group4 :: "nat \<Rightarrow> string \<Rightarrow> string" where
  "group4 i [] = []"
| "group4 i (c # cs) = (if 0 < i \<and> i mod 4 = 0 then [CHR ''-''] else []) @ c # group4 (Suc i) cs"

definition formatRecoveryCode :: "string \<Rightarrow> string" where
  "formatRecoveryCode code = group4 0 code"

definition NormalizeRecoveryCode :: "string \<Rightarrow> string" where
  "NormalizeRecoveryCode code = map upper_ascii (filter (\<lambda>c. is_letter c \<or> is_digit c) code)"

definition HashRecoveryCode :: "crypto \<Rightarrow> string \<Rightarrow> string" where
  "HashRecoveryCode cr code = sha256_hex cr (NormalizeRecoveryCode code)"

text \<open>\<open>drawn\<close> is what the random source gives: the bytes of each of the ten codes.\<close>

definition NewRecoveryCodes :: "crypto \<Rightarrow> octet list list \<Rightarrow> string list \<times> string list" where
  "NewRecoveryCodes cr drawn =
    (map (formatRecoveryCode \<circ> base32) drawn, map (HashRecoveryCode cr \<circ> base32) drawn)"

definition MatchRecoveryCode :: "crypto \<Rightarrow> string list \<Rightarrow> string \<Rightarrow> nat option" where
  "MatchRecoveryCode cr hashes code =
    (if NormalizeRecoveryCode code = [] then None
     else let want = HashRecoveryCode cr code
          in fold (\<lambda>(i, h) found. if h = want \<and> found = None then Some i else found) (enumerate 0 hashes) None)"

section \<open>Sealing a secret\<close>

definition NewTOTPSecret :: "octet list \<Rightarrow> string" where "NewTOTPSecret drawn = base32 drawn"

definition Seal :: "crypto \<Rightarrow> octet list \<Rightarrow> string \<Rightarrow> string \<Rightarrow> (string \<times> string) res" where
  "Seal cr nonce user secret =
    (if user = [] then Inl (fail KindInvalid)
     else Inr (base64 (aead_seal cr nonce (bytes_of_text secret) (bytes_of_text user)), base64 nonce))"

definition Open :: "crypto \<Rightarrow> string \<Rightarrow> string \<Rightarrow> string \<Rightarrow> string res" where
  "Open cr user cipher nonce = (case base64_decode cipher of None \<Rightarrow> Inl (fail KindInternal) | Some sealed \<Rightarrow>
     (case base64_decode nonce of None \<Rightarrow> Inl (fail KindInternal) | Some raw \<Rightarrow>
       if length raw \<noteq> nonce_size cr then Inl (fail KindInternal)
       else (case aead_open cr raw sealed (bytes_of_text user) of
           None \<Rightarrow> Inl (fail KindInternal) | Some out \<Rightarrow> Inr (text_of_bytes out))))"

section \<open>The enrolment address\<close>

text \<open>\<open>url.PathEscape\<close> and the query escape of \<open>url.Values.Encode\<close>, whose keys come out sorted.\<close>

definition hex_digit :: "nat \<Rightarrow> char" where "hex_digit n = char_of (if n < 10 then 48 + n else 55 + n)"

definition percent :: "char \<Rightarrow> string" where
  "percent c = [CHR ''%'', hex_digit (of_char c div 16), hex_digit (of_char c mod 16)]"

definition unreserved :: "char \<Rightarrow> bool" where
  "unreserved c \<longleftrightarrow> is_digit c \<or> is_letter c \<or> c \<in> set ''-_.~''"

definition PathEscape :: "string \<Rightarrow> string" where
  "PathEscape s = concat (map (\<lambda>c. if unreserved c \<or> c \<in> set ''$&+:=@'' then [c] else percent c) s)"

definition QueryEscape :: "string \<Rightarrow> string" where
  "QueryEscape s = concat (map (\<lambda>c. if unreserved c then [c] else if c = CHR '' '' then ''+'' else percent c) s)"

definition TOTPURI :: "string \<Rightarrow> string \<Rightarrow> string \<Rightarrow> string" where
  "TOTPURI issuer account secret =
    ''otpauth://totp/'' @ PathEscape (issuer @ '':'' @ account) @ ''?'' @
    join ''&'' (map (\<lambda>(k, v). QueryEscape k @ ''='' @ QueryEscape v)
      [(''algorithm'', ''SHA1''), (''digits'', format_nat TOTPDigits), (''issuer'', issuer),
       (''period'', FormatInt (quo TOTPPeriod Second)), (''secret'', secret)])"

section \<open>Lemmas\<close>

lemma match_steps_found:
  "match_steps f code steps found = Some s \<Longrightarrow> found = Some s \<or> s \<in> set steps \<and> f s = Inr code"
  by (induction f code steps found rule: match_steps.induct) (auto split: sum.splits if_splits)

text \<open>A matched step is one of the three around now, and the code is the one the secret gives for it.\<close>

lemma MatchTOTPCode_step:
  "MatchTOTPCode cr secret code now = Some s \<Longrightarrow>
    TOTPStep now - 1 \<le> s \<and> s \<le> TOTPStep now + 1 \<and> TOTPCode cr secret s = Inr (NormalizeTOTPCode code)"
  by (auto simp: MatchTOTPCode_def Let_def TOTPSkew_def split: if_splits dest!: match_steps_found)

lemma Verify_accepts_iff:
  "Verify cr secret code now a = (a', Inr ()) \<longleftrightarrow>
    \<not> Locked a now \<and> (\<exists>s. MatchTOTPCode cr secret code now = Some s \<and> LastStep a < s \<and> a' = Succeed s a)"
  by (auto simp: Verify_def split: option.splits if_splits)

lemma Verify_refused:
  "Verify cr secret code now a = (a', Inl e) \<Longrightarrow>
    Locked a now \<and> a' = a \<and> e = ErrTOTPLocked \<or> \<not> Locked a now \<and> a' = fail_attempt now a \<and> e = ErrTOTPInvalid"
  by (auto simp: Verify_def split: option.splits if_splits)

lemma LastStep_fail [simp]: "LastStep (fail_attempt now a) = LastStep a"
  by (simp add: fail_attempt_def Let_def)

lemma LastStep_Succeed [simp]: "LastStep (Succeed s a) = max (LastStep a) s"
  by (simp add: Succeed_def max_def)

lemma Failures_fail [simp]: "Failures (fail_attempt now a) = Failures a + 1"
  by (simp add: fail_attempt_def Let_def)

lemma LockedUntil_fail:
  "LockedUntil (fail_attempt now a) =
    (if TOTPMaxFailures \<le> Failures a + 1 then Some (Add now TOTPLockWindow) else LockedUntil a)"
  by (simp add: fail_attempt_def Let_def)

lemma LastStep_Verify: "LastStep a \<le> LastStep (fst (Verify cr secret code now a))"
  by (auto simp: Verify_def split: option.splits)

lemma IsTOTPLocked_simps [simp]: "IsTOTPLocked ErrTOTPLocked" "\<not> IsTOTPLocked ErrTOTPInvalid"
  by (simp_all add: IsTOTPLocked_def ErrTOTPLocked_def ErrTOTPInvalid_def newf_def DetailReason_def)

section \<open>Guessing\<close>

text \<open>Presenting codes one after another, and how many of them were compared rather than turned away.\<close>

fun present :: "crypto \<Rightarrow> string \<Rightarrow> (string \<times> time) list \<Rightarrow> attempt \<Rightarrow> nat \<times> nat" where
  "present cr secret [] a = (0, 0)"
| "present cr secret ((code, now) # rest) a =
    (let (a', r) = Verify cr secret code now a; (compared, accepted) = present cr secret rest a'
     in (compared + of_bool (\<not> Locked a now), accepted + of_bool (r = Inr ())))"

lemma present_locked:
  "Locked a t \<Longrightarrow> LockedUntil a = Some u \<Longrightarrow> \<forall>(code, now)\<in>set guesses. now < u \<Longrightarrow> present cr secret guesses a = (0, 0)"
  by (induction guesses) (auto simp: Locked_def After_def Verify_def)

lemma present_bound:
  assumes "snd (present cr secret guesses a) = 0" and "\<forall>(code, now)\<in>set guesses. t \<le> now \<and> now < t + TOTPLockWindow"
  shows "int (fst (present cr secret guesses a)) \<le> max 1 (TOTPMaxFailures - Failures a)"
  using assms
proof (induction guesses arbitrary: a)
  case (Cons g rest)
  obtain code now where g: "g = (code, now)" by (cases g)
  obtain a' r where v: "Verify cr secret code now a = (a', r)" by (cases "Verify cr secret code now a")
  obtain n k where rest: "present cr secret rest a' = (n, k)" by (cases "present cr secret rest a'")
  from Cons.prems(1) g v rest have refused: "r \<noteq> Inr ()" and none: "snd (present cr secret rest a') = 0"
    by (auto split: if_splits)
  note IH = Cons.IH [OF none]
  have step: "fst (present cr secret (g # rest) a) = n + of_bool (\<not> Locked a now)" using g v rest by simp
  show ?case
  proof (cases "Locked a now")
    case True
    then have "a' = a" using v by (simp add: Verify_def)
    then show ?thesis using step IH True rest Cons.prems(2) by simp
  next
    case False
    from refused obtain e where "r = Inl e" by (cases r) auto
    with False v have a': "a' = fail_attempt now a" using Verify_refused by blast
    show ?thesis
    proof (cases "TOTPMaxFailures \<le> Failures a + 1")
      case True
      then have until: "LockedUntil a' = Some (Add now TOTPLockWindow)" by (simp add: a' LockedUntil_fail)
      moreover have "\<forall>(code, now')\<in>set rest. now' < Add now TOTPLockWindow"
        using Cons.prems(2) g by (fastforce simp: Add_def)
      moreover from until have "Locked a' now" by (simp add: Locked_def After_def Add_def TOTPLockWindow_def Minute_def)
      ultimately have "present cr secret rest a' = (0, 0)" using present_locked by blast
      then show ?thesis using step False rest by simp
    next
      case below: False
      then have "int n \<le> max 1 (TOTPMaxFailures - (Failures a + 1))" using IH rest a' Cons.prems(2) by simp
      then show ?thesis using step False below by simp
    qed
  qed
qed simp

text \<open>C19: Within any fifteen minutes, however many wrong codes are presented to an enrolment one after another, at
  most five are compared with the right ones, fewer when some had failed before, and never more than one once five
  have failed in a row: the others are turned away while the enrolment is locked.\<close>

theorem guesses_bounded:
  assumes "\<forall>(code, now)\<in>set guesses. t \<le> now \<and> now < t + TOTPLockWindow"
    and "snd (present cr secret guesses a) = 0" and "0 \<le> Failures a"
  shows "int (fst (present cr secret guesses a)) \<le> max 1 (TOTPMaxFailures - Failures a) \<and>
    fst (present cr secret guesses a) \<le> 5"
  using present_bound [OF assms(2,1)] assms(3) by (auto simp: TOTPMaxFailures_def)

definition sample_crypto :: crypto where
  "sample_crypto = \<lparr>mac = (\<lambda>key text. replicate 20 0), sha256_hex = (\<lambda>s. s), nonce_size = 12,
     aead_seal = (\<lambda>nonce text user. user @ text), aead_open = (\<lambda>nonce sealed user.
       if take (length user) sealed = user then Some (drop (length user) sealed) else None)\<rparr>"

definition fresh_attempt :: attempt where "fresh_attempt = \<lparr>LastStep = 0, Failures = 0, LockedUntil = None\<rparr>"

lemma sample_key: "decodeTOTPSecret ''AAAAAAAA'' = Inr [0,0,0,0,0]"
  by code_simp

lemma sample_code: "TOTPCode sample_crypto ''AAAAAAAA'' step = Inr ''000000''"
proof -
  have "padded TOTPDigits 0 = ''000000''" by code_simp
  moreover have "word_rcat [0 :: octet, 0, 0, 0] = (0 :: 32 word)" by (simp add: word_rcat_def)
  ultimately show ?thesis by (simp add: TOTPCode_def sample_key sample_crypto_def numeral_eq_Suc)
qed

lemma sample_match: "MatchTOTPCode sample_crypto ''AAAAAAAA'' ''000000'' now = Some (TOTPStep now - 1)"
proof -
  have "NormalizeTOTPCode ''000000'' = ''000000''" by code_simp
  moreover have "[- TOTPSkew..TOTPSkew] = [-1, 0, 1]" by (simp add: TOTPSkew_def upto_rec1)
  ultimately show ?thesis by (simp add: MatchTOTPCode_def TOTPDigits_def sample_code)
qed

theorem guesses_bounded_witness:
  "fst (present sample_crypto ''AAAAAAAA'' (replicate 7 (''12345'', 100)) fresh_attempt) \<le> 5"
proof -
  have "snd (present sample_crypto ''AAAAAAAA'' (replicate n (''12345'', 100)) a) = 0" for n a
    by (induction n arbitrary: a)
      (auto simp: Verify_def MatchTOTPCode_def NormalizeTOTPCode_def TOTPDigits_def Let_def case_prod_beta)
  then show ?thesis
    using guesses_bounded [of "replicate 7 (''12345'', 100)" 0 sample_crypto "''AAAAAAAA''" fresh_attempt]
    by (simp add: TOTPLockWindow_def Minute_def fresh_attempt_def)
qed

end
