(* ===== verification/Accounts.thy ===== *)
theory Accounts
  imports Mutation Second_Factor
begin

text \<open>
  The rows sign-in reads and writes, seen from one tenant (\<open>internal/store/sqlite/auth.go\<close>, \<open>totp.go\<close>):
  accounts, the tenant's actors with their account and membership, second factors, recovery codes, sessions and the
  account log, with the statements the service runs on them. Times are stored to the nanosecond. An actor row
  here carries the role of its membership, empty when it has none; \<open>v_elsewhere\<close> names the accounts that hold
  a membership of another tenant.
\<close>

record user_row =
  us_id :: string
  us_email :: string
  us_hash :: string
  us_global :: bool
  us_change :: bool
  us_disabled :: "time option"

record member_row =
  mb_actor :: string
  mb_user :: string
  mb_handle :: string
  mb_role :: string
  mb_disabled :: "time option"

record totp_row =
  ut_user :: string
  ut_cipher :: string
  ut_nonce :: string
  ut_confirmed :: "time option"
  ut_step :: int
  ut_failures :: int
  ut_locked :: "time option"
  ut_created :: time
  ut_updated :: time

record recovery_row =
  rc_id :: string
  rc_user :: string
  rc_hash :: string
  rc_created :: time
  rc_used :: "time option"

record session_row =
  se_id :: string
  se_actor :: string
  se_hash :: string
  se_created :: time
  se_expires :: time

record account_entry =
  al_user :: string
  al_action :: string
  al_tenant :: string
  al_by :: string
  al_email :: string
  al_global :: bool
  al_detail :: "(string \<times> detail) list"
  al_at :: time

record tenant_row =
  tn_id :: string
  tn_key :: string
  tn_name :: string
  tn_web :: bool
  tn_cli :: bool
  tn_ssh :: bool

record vault =
  v_tenant :: tenant_row
  v_users :: "user_row list"
  v_members :: "member_row list"
  v_elsewhere :: "string list"
  v_totps :: "totp_row list"
  v_codes :: "recovery_row list"
  v_sessions :: "session_row list"
  v_log :: "account_entry list"
  v_audits :: "audit list"
  v_events :: "event list"

section \<open>Reading\<close>

definition Confirmed :: "totp_row \<Rightarrow> bool" where "Confirmed e \<longleftrightarrow> ut_confirmed e \<noteq> None"

definition RequiresTOTP :: "tenant_row \<Rightarrow> string \<Rightarrow> bool" where
  "RequiresTOTP t s \<longleftrightarrow>
    (if s = SurfaceWeb then tn_web t else if s = SurfaceCLI then tn_cli t else if s = SurfaceSSH then tn_ssh t else False)"

definition found :: "'a option \<Rightarrow> 'a res" where
  "found x = (case x of None \<Rightarrow> Inl (fail KindNotFound) | Some y \<Rightarrow> Inr y)"

definition GetUser :: "string \<Rightarrow> vault \<Rightarrow> user_row res" where
  "GetUser k v = found (find (\<lambda>u. us_id u = k) (v_users v))"

definition GetUserByEmail :: "string \<Rightarrow> vault \<Rightarrow> user_row res" where
  "GetUserByEmail email v = found (find (\<lambda>u. us_email u = email) (v_users v))"

definition GetMemberActor :: "string \<Rightarrow> vault \<Rightarrow> member_row res" where
  "GetMemberActor k v = found (find (\<lambda>m. mb_actor m = k) (v_members v))"

definition GetActorByUser :: "string \<Rightarrow> vault \<Rightarrow> member_row res" where
  "GetActorByUser k v = found (find (\<lambda>m. mb_user m = k \<and> k \<noteq> []) (v_members v))"

definition accountOf :: "member_row \<Rightarrow> vault \<Rightarrow> user_row res" where
  "accountOf m v = (if mb_user m = [] then Inl (fail KindNotFound) else GetUser (mb_user m) v)"

definition accountOfActor :: "string \<Rightarrow> vault \<Rightarrow> user_row res" where
  "accountOfActor k v = rbind (GetMemberActor k v) (\<lambda>m. accountOf m v)"

definition GetUserTOTP :: "string \<Rightarrow> vault \<Rightarrow> totp_row res" where
  "GetUserTOTP k v = found (find (\<lambda>e. ut_user e = k) (v_totps v))"

definition ListRecoveryCodes :: "string \<Rightarrow> vault \<Rightarrow> recovery_row list" where
  "ListRecoveryCodes k v = sort_key rc_created (sort_key rc_id (filter (\<lambda>c. rc_user c = k) (v_codes v)))"

section \<open>Writing\<close>

definition UpdateUser :: "user_row \<Rightarrow> string \<Rightarrow> vault \<Rightarrow> vault res" where
  "UpdateUser u hash v =
    (if rows_matching (\<lambda>r. us_id r = us_id u) (v_users v) = 0 then Inl (fail KindNotFound)
     else Inr (v\<lparr>v_users := update_where (\<lambda>r. us_id r = us_id u)
       (\<lambda>r. r\<lparr>us_email := us_email u, us_disabled := us_disabled u, us_change := us_change u,
          us_hash := (if hash = [] then us_hash r else hash)\<rparr>) (v_users v)\<rparr>))"

definition DeleteUserTOTP :: "string \<Rightarrow> vault \<Rightarrow> vault res" where
  "DeleteUserTOTP k v =
    (if rows_matching (\<lambda>e. ut_user e = k) (v_totps v) = 0 then Inl (fail KindNotFound)
     else Inr (v\<lparr>v_totps := filter (\<lambda>e. ut_user e \<noteq> k) (v_totps v)\<rparr>))"

definition PutUserTOTP :: "time \<Rightarrow> totp_row \<Rightarrow> vault \<Rightarrow> vault res" where
  "PutUserTOTP now e v =
    (if ut_user e = [] then Inl (fail KindInvalid)
     else let e = e\<lparr>ut_created := (if IsZero (ut_created e) then now else ut_created e), ut_updated := now\<rparr>;
              put = (\<lambda>v. if ut_user e \<notin> us_id ` set (v_users v) then Inl (fail KindPrecondition)
                     else Inr (v\<lparr>v_totps := v_totps v @ [e]\<rparr>))
          in case DeleteUserTOTP (ut_user e) v of
               Inl err \<Rightarrow> if IsKind (Some err) KindNotFound then put v else Inl err
             | Inr v' \<Rightarrow> put v')"

definition SaveUserTOTPAttempt :: "time \<Rightarrow> string \<Rightarrow> attempt \<Rightarrow> vault \<Rightarrow> vault res" where
  "SaveUserTOTPAttempt db k a v =
    (if rows_matching (\<lambda>e. ut_user e = k) (v_totps v) = 0 then Inl (fail KindNotFound)
     else Inr (v\<lparr>v_totps := update_where (\<lambda>e. ut_user e = k)
       (\<lambda>e. e\<lparr>ut_step := LastStep a, ut_failures := Failures a, ut_locked := LockedUntil a, ut_updated := db\<rparr>) (v_totps v)\<rparr>))"

definition ConfirmUserTOTP :: "string \<Rightarrow> time \<Rightarrow> vault \<Rightarrow> vault res" where
  "ConfirmUserTOTP k at_time v =
    (if rows_matching (\<lambda>e. ut_user e = k) (v_totps v) = 0 then Inl (fail KindNotFound)
     else Inr (v\<lparr>v_totps := update_where (\<lambda>e. ut_user e = k)
       (\<lambda>e. e\<lparr>ut_confirmed := Some at_time, ut_updated := at_time\<rparr>) (v_totps v)\<rparr>))"

definition DeleteRecoveryCodes :: "string \<Rightarrow> vault \<Rightarrow> vault" where
  "DeleteRecoveryCodes k v = v\<lparr>v_codes := filter (\<lambda>c. rc_user c \<noteq> k) (v_codes v)\<rparr>"

definition insert_code :: "recovery_row \<Rightarrow> vault \<Rightarrow> vault res" where
  "insert_code c v =
    (if rc_id c \<in> rc_id ` set (v_codes v) then Inl (fail KindConflict)
     else if (rc_user c, rc_hash c) \<in> (\<lambda>c. (rc_user c, rc_hash c)) ` set (v_codes v) then Inl (fail KindConflict)
     else if rc_user c \<notin> us_id ` set (v_users v) then Inl (fail KindPrecondition)
     else Inr (v\<lparr>v_codes := v_codes v @ [c]\<rparr>))"

definition ReplaceRecoveryCodes :: "time \<Rightarrow> (string \<times> string) list \<Rightarrow> string \<Rightarrow> vault \<Rightarrow> vault res" where
  "ReplaceRecoveryCodes now rows k v =
    (if k = [] then Inl (fail KindInvalid)
     else fold_res (\<lambda>(code_id, h). insert_code
       \<lparr>rc_id = code_id, rc_user = k, rc_hash = h, rc_created = now, rc_used = None\<rparr>) rows (DeleteRecoveryCodes k v))"

definition unspent :: "string \<Rightarrow> recovery_row \<Rightarrow> bool" where
  "unspent k c \<longleftrightarrow> rc_id c = k \<and> rc_used c = None"

definition SpendRecoveryCode :: "string \<Rightarrow> time \<Rightarrow> vault \<Rightarrow> vault \<times> bool" where
  "SpendRecoveryCode k at_time v =
    (v\<lparr>v_codes := update_where (unspent k) (\<lambda>c. c\<lparr>rc_used := Some at_time\<rparr>) (v_codes v)\<rparr>,
     0 < rows_matching (unspent k) (v_codes v))"

definition CreateSession :: "string \<Rightarrow> time \<Rightarrow> string \<Rightarrow> string \<Rightarrow> time \<Rightarrow> vault \<Rightarrow> vault res" where
  "CreateSession session_id db actor_id hash expires v =
    (if session_id \<in> se_id ` set (v_sessions v) \<or> hash \<in> se_hash ` set (v_sessions v) then Inl (fail KindConflict)
     else if actor_id \<notin> mb_actor ` set (v_members v) then Inl (fail KindPrecondition)
     else Inr (v\<lparr>v_sessions := v_sessions v @
       [\<lparr>se_id = session_id, se_actor = actor_id, se_hash = hash, se_created = db, se_expires = expires\<rparr>]\<rparr>))"

end
