(* ===== verification/Passwords.thy ===== *)
theory Passwords
  imports Task_Ref Encodings
begin

text \<open>
  Password hashes (\<open>internal/auth/password.go\<close>): the cost parameters, the self-describing text of a hash,
  verification and the test for a hash weaker than the policy. The argon2id derivation is the argument
  \<open>derive\<close>, the salt what the random source gave, and \<open>overloaded\<close> whether the bound on concurrent
  derivations (\<open>gate.go\<close>) turned the caller away.
\<close>

definition algorithm :: string where "algorithm = ''argon2id''"
definition argonVersion :: int where "argonVersion = 19"
definition MinPasswordLength :: nat where "MinPasswordLength = 12"
definition MaxSaltLength :: nat where "MaxSaltLength = 1024"
definition MaxKeyLength :: nat where "MaxKeyLength = 1024"

record Params =
  p_memory :: "32 word"
  p_time :: "32 word"
  p_threads :: "8 word"
  p_salt :: "32 word"
  p_key :: "32 word"

type_synonym derivation = "string \<Rightarrow> octet list \<Rightarrow> Params \<Rightarrow> octet list"

definition DefaultParams :: Params where
  "DefaultParams = \<lparr>p_memory = 65536, p_time = 3, p_threads = 4, p_salt = 16, p_key = 32\<rparr>"

definition params_Validate :: "Params \<Rightarrow> unit res" where
  "params_Validate p =
    (if p_memory p < 8 then Inl (fail KindInvalid)
     else if p_time p = 0 then Inl (fail KindInvalid)
     else if p_threads p = 0 then Inl (fail KindInvalid)
     else if p_salt p < 8 then Inl (fail KindInvalid)
     else if p_key p < 16 then Inl (fail KindInvalid)
     else if MaxSaltLength < unat (p_salt p) then Inl (fail KindInvalid)
     else if MaxKeyLength < unat (p_key p) then Inl (fail KindInvalid)
     else Inr ())"

definition weakerThan :: "Params \<Rightarrow> Params \<Rightarrow> bool" where
  "weakerThan p want \<longleftrightarrow>
    p_memory p < p_memory want \<or> p_time p < p_time want \<or> p_threads p < p_threads want \<or>
    p_salt p < p_salt want \<or> p_key p < p_key want"

definition ValidatePassword :: "string \<Rightarrow> unit res" where
  "ValidatePassword password = (if length password < MinPasswordLength then Inl (fail KindInvalid) else Inr ())"

section \<open>The text of a hash\<close>

definition param_text :: "Params \<Rightarrow> string" where
  "param_text p = ''m='' @ format_nat (unat (p_memory p)) @ '',t='' @ format_nat (unat (p_time p)) @
     '',p='' @ format_nat (unat (p_threads p))"

definition encode_hash :: "Params \<Rightarrow> octet list \<Rightarrow> octet list \<Rightarrow> string" where
  "encode_hash p salt key =
    join ''$'' [[], algorithm, ''v='' @ FormatInt argonVersion, param_text p, raw64 salt, raw64 key]"

text \<open>\<open>fmt.Sscanf\<close> on the formats used: literal text matches itself; \<open>%d\<close> skips blanks, takes an
  optional sign (for a signed operand) and at least one digit, and refuses a number outside the operand's
  type; what follows the last operand is not looked at.\<close>

fun literal :: "string \<Rightarrow> string \<Rightarrow> string option" where
  "literal [] s = Some s"
| "literal (c # cs) [] = None"
| "literal (c # cs) (x # xs) = (if c = x then literal cs xs else None)"

definition scan_blank :: "char \<Rightarrow> bool" where "scan_blank c \<longleftrightarrow> is_space c \<and> c \<noteq> CHR 0x0A"

definition scan_uint :: "nat \<Rightarrow> string \<Rightarrow> (nat \<times> string) option" where
  "scan_uint width s =
    (let s = dropWhile scan_blank s; ds = takeWhile is_digit s
     in if ds = [] \<or> 2 ^ width \<le> parse_nat ds then None else Some (parse_nat ds, dropWhile is_digit s))"

definition scan_int :: "string \<Rightarrow> (int \<times> string) option" where
  "scan_int s =
    (let s = dropWhile scan_blank s; neg = (s \<noteq> [] \<and> hd s = CHR ''-'');
         s = (if s \<noteq> [] \<and> (hd s = CHR ''-'' \<or> hd s = CHR ''+'') then tl s else s);
         ds = takeWhile is_digit s; v = (if neg then - int (parse_nat ds) else int (parse_nat ds))
     in if ds = [] \<or> \<not> in_int64 v then None else Some (v, dropWhile is_digit s))"

definition scan_version :: "string \<Rightarrow> int option" where
  "scan_version s = (case literal ''v='' s of None \<Rightarrow> None | Some s \<Rightarrow> map_option fst (scan_int s))"

definition scan_params :: "string \<Rightarrow> (32 word \<times> 32 word \<times> 8 word) option" where
  "scan_params s = (case literal ''m='' s of None \<Rightarrow> None | Some s \<Rightarrow>
     (case scan_uint 32 s of None \<Rightarrow> None | Some (m, s) \<Rightarrow>
     (case literal '',t='' s of None \<Rightarrow> None | Some s \<Rightarrow>
     (case scan_uint 32 s of None \<Rightarrow> None | Some (t, s) \<Rightarrow>
     (case literal '',p='' s of None \<Rightarrow> None | Some s \<Rightarrow>
     (case scan_uint 8 s of None \<Rightarrow> None | Some (p, _) \<Rightarrow>
       Some (word_of_nat m, word_of_nat t, word_of_nat p)))))))"

definition decode_hash :: "string \<Rightarrow> (Params \<times> octet list \<times> octet list) res" where
  "decode_hash encoded = (case split_on (CHR ''$'') encoded of
     [first, alg, version, costs, salt, key] \<Rightarrow>
       if first \<noteq> [] then Inl (fail KindUnauthenticated)
       else if alg \<noteq> algorithm then Inl (fail KindUnauthenticated)
       else if scan_version version \<noteq> Some argonVersion then Inl (fail KindUnauthenticated)
       else (case scan_params costs of None \<Rightarrow> Inl (fail KindUnauthenticated) | Some (m, t, p) \<Rightarrow>
            (case raw64_decode salt of None \<Rightarrow> Inl (fail KindUnauthenticated) | Some salt \<Rightarrow>
            (case raw64_decode key of None \<Rightarrow> Inl (fail KindUnauthenticated) | Some key \<Rightarrow>
              if MaxSaltLength < length salt \<or> MaxKeyLength < length key then Inl (fail KindUnauthenticated)
              else let p = \<lparr>p_memory = m, p_time = t, p_threads = p,
                       p_salt = word_of_nat (length salt), p_key = word_of_nat (length key)\<rparr>
                   in (case params_Validate p of Inl _ \<Rightarrow> Inl (fail KindUnauthenticated)
                      | Inr _ \<Rightarrow> Inr (p, salt, key)))))
   | _ \<Rightarrow> Inl (fail KindUnauthenticated))"

section \<open>Hashing and verifying\<close>

definition Hash :: "derivation \<Rightarrow> Params \<Rightarrow> octet list \<Rightarrow> string \<Rightarrow> string res" where
  "Hash derive p salt password =
    rbind (ValidatePassword password) (\<lambda>_. rbind (params_Validate p) (\<lambda>_.
      Inr (encode_hash p salt (derive password salt p))))"

definition ErrVerifyOverloaded :: goerr where "ErrVerifyOverloaded = fail KindPrecondition"

definition verify_password :: "derivation \<Rightarrow> bool \<Rightarrow> string \<Rightarrow> string \<Rightarrow> unit res" where
  "verify_password derive overloaded encoded password =
    rbind (decode_hash encoded) (\<lambda>(p, salt, want).
      if overloaded then Inl ErrVerifyOverloaded
      else if derive password salt p \<noteq> want then Inl (fail KindUnauthenticated) else Inr ())"

definition NeedsRehash :: "string \<Rightarrow> Params \<Rightarrow> bool" where
  "NeedsRehash encoded want = (case decode_hash encoded of Inl _ \<Rightarrow> True | Inr (p, _) \<Rightarrow> weakerThan p want)"

section \<open>Lemmas\<close>

lemma literal_append: "literal a (a @ s) = Some s"
  by (induction a) simp_all

lemma not_blank_digit: "is_digit c \<Longrightarrow> \<not> scan_blank c"
  by (auto simp: scan_blank_def is_space_def is_digit_def less_eq_char_def)

lemma scan_uint_format:
  assumes "n < 2 ^ w" and "s = [] \<or> \<not> is_digit (hd s)"
  shows "scan_uint w (format_nat n @ s) = Some (n, s)"
proof -
  have digits: "format_nat n \<noteq> []" "\<forall>c\<in>set (format_nat n). is_digit c" "parse_nat (format_nat n) = n"
    using format_nat_props [of n] by (auto simp: digits_only_def)
  then have "dropWhile scan_blank (format_nat n @ s) = format_nat n @ s"
    using not_blank_digit by (cases "format_nat n") auto
  moreover have "takeWhile is_digit (format_nat n @ s) = format_nat n" "dropWhile is_digit (format_nat n @ s) = s"
    using digits(2) assms(2) by (simp_all add: takeWhile_append2 dropWhile_append2) (cases s; auto)+
  ultimately show ?thesis using digits assms by (simp add: scan_uint_def)
qed

lemma scan_params_text: "scan_params (param_text p) = Some (p_memory p, p_time p, p_threads p)"
proof -
  have less: "unat (w :: 32 word) < 2 ^ 32" "unat (v :: 8 word) < 2 ^ 8" for w v
    using unsigned_less [of w, where ?'a = nat] unsigned_less [of v, where ?'a = nat] by simp_all
  have comma: "\<not> is_digit (CHR '','')" by code_simp
  have "scan_uint 32 (format_nat (unat (p_memory p)) @ '',t='' @ r) = Some (unat (p_memory p), '',t='' @ r)"
    and "scan_uint 32 (format_nat (unat (p_time p)) @ '',p='' @ r) = Some (unat (p_time p), '',p='' @ r)"
    and "scan_uint 8 (format_nat (unat (p_threads p))) = Some (unat (p_threads p), [])" for r
    using scan_uint_format [of "unat (p_memory p)" 32 "'',t='' @ r"] scan_uint_format [of "unat (p_time p)" 32 "'',p='' @ r"]
      scan_uint_format [of "unat (p_threads p)" 8 "[]"] less comma by simp_all
  then show ?thesis
    unfolding scan_params_def param_text_def by (simp only: literal_append option.case prod.case) simp
qed

lemma scan_version_text: "scan_version (''v='' @ FormatInt argonVersion) = Some argonVersion"
  by code_simp

lemma scan_plain: "c \<in> set (format_nat n) \<Longrightarrow> c \<noteq> CHR ''$''"
  using format_nat_props [of n] by (auto simp: digits_only_def is_digit_def less_eq_char_def)

lemma std64_plain: "c \<in> set (raw64 bs) \<Longrightarrow> c \<noteq> CHR ''$''"
proof -
  have "CHR ''$'' \<notin> set std64" by code_simp
  then show "c \<in> set (raw64 bs) \<Longrightarrow> c \<noteq> CHR ''$''"
    using b64.encode_letters by (auto simp: raw64_def)
qed

lemma split_encode:
  "split_on (CHR ''$'') (encode_hash p salt key) =
    [[], algorithm, ''v='' @ FormatInt argonVersion, param_text p, raw64 salt, raw64 key]"
proof -
  have "CHR ''$'' \<notin> set (''v='' @ FormatInt argonVersion)" and "CHR ''$'' \<notin> set algorithm" by code_simp+
  moreover have "CHR ''$'' \<notin> set (param_text p)" using scan_plain by (auto simp: param_text_def)
  moreover have "CHR ''$'' \<notin> set (raw64 bs)" for bs using std64_plain by blast
  ultimately show ?thesis unfolding encode_hash_def by (intro split_on_join) simp_all
qed

lemma params_bounds:
  "params_Validate p = Inr () \<Longrightarrow> unat (p_salt p) \<le> MaxSaltLength \<and> unat (p_key p) \<le> MaxKeyLength"
  by (simp add: params_Validate_def split: if_splits)

lemma decode_encode_hash:
  assumes "params_Validate p = Inr ()" and "length salt = unat (p_salt p)" and "length key = unat (p_key p)"
  shows "decode_hash (encode_hash p salt key) = Inr (p, salt, key)"
  using assms params_bounds [OF assms(1)] scan_params_text [of p]
  by (cases p) (simp add: decode_hash_def split_encode scan_version_text [simplified] Let_def)

text \<open>C21: A password checked against its own hash is accepted, and another password is accepted only when the
  derivation gives it the same key; the hash is not weaker than the parameters it was made with, and no
  password below the minimum length gets a hash at all.\<close>

theorem Hash_verify:
  assumes "\<forall>password salt. length (derive password salt p) = unat (p_key p)" and "length salt = unat (p_salt p)"
    and "Hash derive p salt password = Inr h"
  shows "verify_password derive False h password = Inr () \<and>
    (verify_password derive False h other = Inr () \<longleftrightarrow> derive other salt p = derive password salt p) \<and>
    \<not> NeedsRehash h p \<and> MinPasswordLength \<le> length password"
proof -
  from assms(3) have ok: "params_Validate p = Inr ()" and long: "MinPasswordLength \<le> length password"
    and h: "h = encode_hash p salt (derive password salt p)"
    by (auto simp: Hash_def ValidatePassword_def split: if_splits)
  then have "decode_hash h = Inr (p, salt, derive password salt p)"
    using decode_encode_hash assms by simp
  then show ?thesis using long by (auto simp: verify_password_def NeedsRehash_def weakerThan_def)
qed

definition sample_derive :: derivation where
  "sample_derive password salt p = take (unat (p_key p)) (bytes_of_text password @ replicate (unat (p_key p)) 0)"

theorem Hash_verify_witness:
  "\<exists>h. Hash sample_derive DefaultParams (replicate 16 7) ''correct horse staple'' = Inr h \<and>
     verify_password sample_derive False h ''correct horse staple'' = Inr () \<and>
     verify_password sample_derive False h ''correct horse battery'' \<noteq> Inr ()"
proof -
  have "params_Validate DefaultParams = Inr ()"
    by (simp add: params_Validate_def DefaultParams_def MaxSaltLength_def MaxKeyLength_def)
  then obtain h where h: "Hash sample_derive DefaultParams (replicate 16 7) ''correct horse staple'' = Inr h"
    by (simp add: Hash_def ValidatePassword_def MinPasswordLength_def)
  have "sample_derive ''correct horse battery'' (replicate 16 7) DefaultParams \<noteq>
      sample_derive ''correct horse staple'' (replicate 16 7) DefaultParams"
    by (simp add: sample_derive_def DefaultParams_def bytes_of_text_def)
  moreover have "length (sample_derive password salt DefaultParams) = unat (p_key DefaultParams)" for password salt
    by (simp add: sample_derive_def)
  ultimately show ?thesis
    using Hash_verify [OF _ _ h, of "''correct horse battery''"] h by (auto simp: DefaultParams_def)
qed

end
