(* ===== verification/Sign_In.thy ===== *)
theory Sign_In
  imports Accounts Passwords
begin

text \<open>
  Signing in and the second factor (\<open>internal/service/session.go\<close>, \<open>totp.go\<close>, \<open>accountlog.go\<close>): the password
  step, the challenge it may answer with, the code step, recovery codes, enrolment and its removal. Each write
  transaction either commits all it did or nothing (\<open>write_vault\<close>); nothing reads the audit entries and events
  a transaction queues, so they are appended as they are recorded. The record \<open>desk\<close> holds the configuration and
  what the outside world supplies to a call: the clock when a ticket is minted or read, when a code is checked, in the write transaction and in the
  store, identifiers, and the bytes the random source gives.
\<close>

record acting =
  by_id :: string
  by_email :: string
  by_global :: bool

record desk =
  dk_crypto :: crypto
  dk_mac256 :: keyed_hash
  dk_key :: string
  dk_derive :: derivation
  dk_params :: Params
  dk_busy :: bool
  dk_start :: time
  dk_clock :: time
  dk_now :: time
  dk_db :: time
  dk_ids :: "nat \<Rightarrow> string"
  dk_secret :: "octet list"
  dk_nonce :: "octet list"
  dk_codes :: "octet list list"
  dk_token :: "octet list"
  dk_salt :: "octet list"
  dk_dummy :: "octet list"
  dk_standing :: "acting option"

definition SessionTTL :: duration where "SessionTTL = 12 * Hour"

definition errInvalidCredentials :: goerr where "errInvalidCredentials = fail KindUnauthenticated"
definition errNoTOTPKey :: goerr where "errNoTOTPKey = fail KindPrecondition"

definition HashToken :: "desk \<Rightarrow> string \<Rightarrow> string" where "HashToken d s = sha256_hex (dk_crypto d) s"

section \<open>One write transaction\<close>

definition write_vault :: "(vault \<Rightarrow> (vault \<times> 'a) res) \<Rightarrow> vault \<Rightarrow> vault \<times> 'a res" where
  "write_vault f v = (case f v of Inl err \<Rightarrow> (v, Inl err) | Inr (v', x) \<Rightarrow> (v', Inr x))"

definition record_change ::
  "desk \<Rightarrow> call_ctx \<Rightarrow> actor \<Rightarrow> string \<Rightarrow> string \<Rightarrow> string \<Rightarrow> string \<Rightarrow> (string \<times> detail) list option \<Rightarrow>
    (string \<times> detail) list option \<Rightarrow> (string \<times> detail) list \<Rightarrow> vault \<Rightarrow> vault" where
  "record_change d ctx a action typ subject_type subject before after payload v =
    v\<lparr>v_audits := v_audits v @ [\<lparr>au_action = action, au_subject_type = subject_type, au_subject = subject,
        au_actor = a_id a, au_before = map_option RowSnap before, au_after = map_option RowSnap after,
        au_source = SourceFrom ctx, au_at = dk_now d\<rparr>],
      v_events := v_events v @ [\<lparr>ev_type = typ, ev_subject_type = subject_type, ev_subject = subject,
        ev_project = [], ev_actor = a_id a, ev_payload = withActor a payload, ev_at = dk_now d\<rparr>]\<rparr>"

definition accountBehind :: "actor \<Rightarrow> vault \<Rightarrow> acting res" where
  "accountBehind a v = (case accountOfActor (a_id a) v of
     Inl err \<Rightarrow> if IsKind (Some err) KindNotFound then Inr \<lparr>by_id = [], by_email = [], by_global = False\<rparr> else Inl err
   | Inr u \<Rightarrow> Inr \<lparr>by_id = us_id u, by_email = us_email u, by_global = us_global u \<and> us_disabled u = None\<rparr>)"

definition logAccount ::
  "desk \<Rightarrow> call_ctx \<Rightarrow> actor \<Rightarrow> string \<Rightarrow> string \<Rightarrow> (string \<times> detail) list \<Rightarrow> vault \<Rightarrow> vault res" where
  "logAccount d ctx a k action info v =
    (if k = [] then Inr v
     else rbind (case dk_standing d of Some acts \<Rightarrow> Inr acts
           | None \<Rightarrow> rbind (accountBehind a v) (\<lambda>acts. Inr (acts\<lparr>by_global := by_global acts \<or> c_direct_store ctx\<rparr>)))
       (\<lambda>acts. Inr (v\<lparr>v_log := v_log v @ [\<lparr>al_user = k, al_action = action, al_tenant = tn_key (v_tenant v),
          al_by = by_id acts, al_email = by_email acts, al_global = by_global acts, al_detail = info,
          al_at = dk_now d\<rparr>]\<rparr>)))"

section \<open>Enrolment\<close>

definition totpSelf :: "call_ctx \<Rightarrow> vault \<Rightarrow> (actor \<times> user_row) res" where
  "totpSelf ctx v = rbind (RequireActor ctx) (\<lambda>a. case accountOfActor (a_id a) v of
     Inl err \<Rightarrow> Inl (if IsKind (Some err) KindNotFound then fail KindInvalid else err)
   | Inr u \<Rightarrow> Inr (a, u))"

record totp_status =
  ts_enrolled :: bool
  ts_pending :: bool
  ts_confirmed :: "time option"
  ts_left :: nat
  ts_web :: bool
  ts_cli :: bool
  ts_ssh :: bool
  ts_locked :: bool
  ts_lock_end :: "time option"

definition TOTPStatus :: "desk \<Rightarrow> call_ctx \<Rightarrow> vault \<Rightarrow> totp_status res" where
  "TOTPStatus d ctx v = rbind (totpSelf ctx v) (\<lambda>(a, u).
     let t = v_tenant v;
         out = \<lparr>ts_enrolled = False, ts_pending = False, ts_confirmed = None, ts_left = 0, ts_web = tn_web t,
           ts_cli = tn_cli t, ts_ssh = tn_ssh t, ts_locked = False, ts_lock_end = None\<rparr>
     in case GetUserTOTP (us_id u) v of
          Inl err \<Rightarrow> if IsKind (Some err) KindNotFound then Inr out else Inl err
        | Inr e \<Rightarrow>
            let locked = (case ut_locked e of None \<Rightarrow> False | Some until \<Rightarrow> After until (dk_clock d))
            in Inr (out\<lparr>ts_enrolled := Confirmed e, ts_pending := \<not> Confirmed e, ts_confirmed := ut_confirmed e,
                 ts_locked := locked, ts_lock_end := (if locked then ut_locked e else None),
                 ts_left := length (filter (\<lambda>c. rc_used c = None) (ListRecoveryCodes (us_id u) v))\<rparr>))"

definition sealer :: "desk \<Rightarrow> crypto res" where
  "sealer d = (if dk_key d = [] then Inl errNoTOTPKey
     else case ParseTOTPKey (dk_key d) of Inl _ \<Rightarrow> Inl errNoTOTPKey | Inr _ \<Rightarrow> Inr (dk_crypto d))"

record enrolment =
  en_secret :: string
  en_uri :: string
  en_issuer :: string
  en_account :: string

definition beginEnrolment ::
  "desk \<Rightarrow> call_ctx \<Rightarrow> actor \<Rightarrow> user_row \<Rightarrow> vault \<Rightarrow> vault \<times> enrolment res" where
  "beginEnrolment d ctx a u v =
    (let secret = NewTOTPSecret (dk_secret d) in
     case rbind (sealer d) (\<lambda>cr. Seal cr (dk_nonce d) (us_id u) secret) of
       Inl err \<Rightarrow> (v, Inl err)
     | Inr (cipher, nonce) \<Rightarrow> write_vault (\<lambda>v.
         let named = TrimSpace (tn_name (v_tenant v)); issuer = (if named \<noteq> [] then named else ''tix'')
         in rbind (PutUserTOTP (dk_db d) \<lparr>ut_user = us_id u, ut_cipher = cipher, ut_nonce = nonce, ut_confirmed = None,
                ut_step = 0, ut_failures = 0, ut_locked = None, ut_created = 0, ut_updated = 0\<rparr> v) (\<lambda>v.
              Inr (record_change d ctx a ''user.totp.enrol'' ''user.totp.enrolled'' ''totp'' (us_id u) None
                  (Some [(''user_id'', DStr (us_id u)), (''confirmed'', DBool False)]) [(''user_id'', DStr (us_id u))] v,
                \<lparr>en_secret = secret, en_uri = TOTPURI issuer (us_email u) secret, en_issuer = issuer,
                 en_account = us_email u\<rparr>))) v)"

definition BeginTOTPEnrolment :: "desk \<Rightarrow> call_ctx \<Rightarrow> vault \<Rightarrow> vault \<times> enrolment res" where
  "BeginTOTPEnrolment d ctx v = (case totpSelf ctx v of
     Inl err \<Rightarrow> (v, Inl err) | Inr (a, u) \<Rightarrow> beginEnrolment d ctx a u v)"

section \<open>Checking a code\<close>

definition attempt_of :: "totp_row \<Rightarrow> attempt" where
  "attempt_of e = \<lparr>LastStep = ut_step e, Failures = ut_failures e, LockedUntil = ut_locked e\<rparr>"

definition recordFailedAttempt :: "desk \<Rightarrow> string \<Rightarrow> attempt \<Rightarrow> vault \<Rightarrow> vault" where
  "recordFailedAttempt d k a v = (case SaveUserTOTPAttempt (dk_db d) k a v of Inl _ \<Rightarrow> v | Inr v' \<Rightarrow> v')"

definition verifyCode :: "desk \<Rightarrow> string \<Rightarrow> totp_row \<Rightarrow> string \<Rightarrow> vault \<Rightarrow> vault \<times> attempt res" where
  "verifyCode d k e code v =
    (case rbind (sealer d) (\<lambda>cr. Open cr k (ut_cipher e) (ut_nonce e)) of
       Inl err \<Rightarrow> (v, Inl err)
     | Inr secret \<Rightarrow>
         (case Verify (dk_crypto d) secret code (dk_clock d) (attempt_of e) of
            (a, Inl err) \<Rightarrow> (recordFailedAttempt d k a v, Inl err)
          | (a, Inr _) \<Rightarrow> (v, Inr a)))"

definition spendRecoveryCode :: "desk \<Rightarrow> string \<Rightarrow> string \<Rightarrow> vault \<Rightarrow> vault \<times> string \<times> bool" where
  "spendRecoveryCode d k submitted v =
    (if NormalizeRecoveryCode submitted = [] then (v, [], False)
     else let unused = filter (\<lambda>c. rc_used c = None) (ListRecoveryCodes k v)
          in case MatchRecoveryCode (dk_crypto d) (map rc_hash unused) submitted of
               None \<Rightarrow> (v, [], False)
             | Some i \<Rightarrow> let (v, spent) = SpendRecoveryCode (rc_id (unused ! i)) (dk_now d) v
                         in (v, rc_id (unused ! i), spent))"

definition no_attempt :: attempt where "no_attempt = \<lparr>LastStep = 0, Failures = 0, LockedUntil = None\<rparr>"

text \<open>The body both fallbacks share: spending a matching code clears the attempt state and is recorded.\<close>

definition redeem :: "desk \<Rightarrow> call_ctx \<Rightarrow> actor \<Rightarrow> string \<Rightarrow> string \<Rightarrow> vault \<Rightarrow> (vault \<times> bool) res" where
  "redeem d ctx a k submitted v =
    (case spendRecoveryCode d k submitted v of (v, code_id, spent) \<Rightarrow>
       if \<not> spent then Inr (v, False)
       else rbind (SaveUserTOTPAttempt (dk_db d) k no_attempt v) (\<lambda>v.
         rbind (logAccount d ctx a k ''account.recovery_code_used'' [(''recovery_code_id'', DStr code_id)] v) (\<lambda>v.
           Inr (record_change d ctx a ''user.totp.recovery_spent'' ''user.totp.recovery_spent'' ''totp'' k
             (Some [(''user_id'', DStr k), (''recovery_code_id'', DStr code_id), (''used'', DBool False)])
             (Some [(''user_id'', DStr k), (''recovery_code_id'', DStr code_id), (''used'', DBool True)])
             [(''user_id'', DStr k), (''recovery_code_id'', DStr code_id)] v, True))))"

definition verifyWithRecoveryCode ::
  "desk \<Rightarrow> call_ctx \<Rightarrow> actor \<Rightarrow> string \<Rightarrow> string \<Rightarrow> goerr \<Rightarrow> vault \<Rightarrow> vault \<times> unit res" where
  "verifyWithRecoveryCode d ctx a k submitted code_err v =
    (case write_vault (redeem d ctx a k submitted) v of
       (v, Inl err) \<Rightarrow> (v, Inl err)
     | (v, Inr accepted) \<Rightarrow> (v, if accepted then Inr () else Inl code_err))"

text \<open>\<open>prove\<close> is what \<open>VerifySecondFactor\<close> does once it has read the enrolment, in transactions of their own.\<close>

definition prove :: "desk \<Rightarrow> call_ctx \<Rightarrow> actor \<Rightarrow> string \<Rightarrow> totp_row \<Rightarrow> string \<Rightarrow> vault \<Rightarrow> vault \<times> unit res" where
  "prove d ctx a k e code v =
    (case verifyCode d k e code v of
       (v, Inl err) \<Rightarrow> if IsTOTPLocked err then (v, Inl err) else verifyWithRecoveryCode d ctx a k code err v
     | (v, Inr att) \<Rightarrow> write_vault (\<lambda>v. rbind (SaveUserTOTPAttempt (dk_db d) k att v) (\<lambda>v. Inr (v, ()))) v)"

definition VerifySecondFactor :: "desk \<Rightarrow> call_ctx \<Rightarrow> string \<Rightarrow> vault \<Rightarrow> vault \<times> unit res" where
  "VerifySecondFactor d ctx code v = (case totpSelf ctx v of
     Inl err \<Rightarrow> (v, Inl err)
   | Inr (a, u) \<Rightarrow> (case GetUserTOTP (us_id u) v of
         Inl err \<Rightarrow> (v, Inl (if IsKind (Some err) KindNotFound then fail KindPrecondition else err))
       | Inr e \<Rightarrow> if \<not> Confirmed e then (v, Inl (fail KindPrecondition)) else prove d ctx a (us_id u) e code v))"

section \<open>Recovery codes and removal\<close>

definition code_rows :: "desk \<Rightarrow> (string \<times> string) list" where
  "code_rows d = map (\<lambda>(i, h). (dk_ids d i, h)) (enumerate 0 (snd (NewRecoveryCodes (dk_crypto d) (dk_codes d))))"

definition RecoveryCodeCount :: nat where "RecoveryCodeCount = 10"

text \<open>Replacing the codes inside a transaction, as \<open>issueRecoveryCodes\<close> and an enrolling sign-in both do.\<close>

definition put_codes :: "desk \<Rightarrow> call_ctx \<Rightarrow> actor \<Rightarrow> string \<Rightarrow> vault \<Rightarrow> vault res" where
  "put_codes d ctx a k v =
    (let rows = code_rows d; count = [(''codes'', DInt (int (length rows)))] in
     rbind (ReplaceRecoveryCodes (dk_db d) rows k v) (\<lambda>v.
       rbind (logAccount d ctx a k ''account.recovery_codes_issued'' count v) (\<lambda>v.
         Inr (record_change d ctx a ''user.totp.codes_issued'' ''user.totp.codes_issued'' ''totp'' k None
           (Some ((''user_id'', DStr k) # count)) ((''user_id'', DStr k) # count) v))))"

definition issueRecoveryCodes ::
  "desk \<Rightarrow> call_ctx \<Rightarrow> actor \<Rightarrow> string \<Rightarrow> (vault \<Rightarrow> vault res) \<Rightarrow> vault \<Rightarrow> vault \<times> string list res" where
  "issueRecoveryCodes d ctx a k also v =
    write_vault (\<lambda>v. rbind (also v) (\<lambda>v. rbind (put_codes d ctx a k v) (\<lambda>v.
      Inr (v, fst (NewRecoveryCodes (dk_crypto d) (dk_codes d)))))) v"

text \<open>Confirming an enrolment inside a transaction, shared by \<open>ConfirmTOTPEnrolment\<close> and an enrolling sign-in.\<close>

definition confirm_factor :: "desk \<Rightarrow> call_ctx \<Rightarrow> actor \<Rightarrow> string \<Rightarrow> attempt \<Rightarrow> vault \<Rightarrow> vault res" where
  "confirm_factor d ctx a k att v =
    rbind (SaveUserTOTPAttempt (dk_db d) k att v) (\<lambda>v.
      rbind (ConfirmUserTOTP k (dk_now d) v) (\<lambda>v.
        rbind (logAccount d ctx a k ''account.second_factor_enrolled'' [] v) (\<lambda>v.
          Inr (record_change d ctx a ''user.totp.confirm'' ''user.totp.confirmed'' ''totp'' k
            (Some [(''user_id'', DStr k), (''confirmed'', DBool False)])
            (Some [(''user_id'', DStr k), (''confirmed'', DBool True)]) [(''user_id'', DStr k)] v))))"

definition ConfirmTOTPEnrolment :: "desk \<Rightarrow> call_ctx \<Rightarrow> string \<Rightarrow> vault \<Rightarrow> vault \<times> string list res" where
  "ConfirmTOTPEnrolment d ctx code v = (case totpSelf ctx v of
     Inl err \<Rightarrow> (v, Inl err)
   | Inr (a, u) \<Rightarrow> (case GetUserTOTP (us_id u) v of
         Inl err \<Rightarrow> (v, Inl (if IsKind (Some err) KindNotFound then fail KindPrecondition else err))
       | Inr e \<Rightarrow> if Confirmed e then (v, Inl (fail KindPrecondition))
           else (case verifyCode d (us_id u) e code v of
               (v, Inl err) \<Rightarrow> (v, Inl err)
             | (v, Inr att) \<Rightarrow> issueRecoveryCodes d ctx a (us_id u) (confirm_factor d ctx a (us_id u) att) v)))"

definition RegenerateRecoveryCodes :: "desk \<Rightarrow> call_ctx \<Rightarrow> vault \<Rightarrow> vault \<times> string list res" where
  "RegenerateRecoveryCodes d ctx v = (case totpSelf ctx v of
     Inl err \<Rightarrow> (v, Inl err)
   | Inr (a, u) \<Rightarrow> (case GetUserTOTP (us_id u) v of
         Inl err \<Rightarrow> (v, Inl (if IsKind (Some err) KindNotFound then fail KindPrecondition else err))
       | Inr e \<Rightarrow> if \<not> Confirmed e then (v, Inl (fail KindPrecondition))
           else issueRecoveryCodes d ctx a (us_id u) Inr v))"

definition clearEnrolment :: "desk \<Rightarrow> call_ctx \<Rightarrow> actor \<Rightarrow> string \<Rightarrow> string \<Rightarrow> string \<Rightarrow> vault \<Rightarrow> vault \<times> unit res" where
  "clearEnrolment d ctx a k action typ v =
    write_vault (\<lambda>v. rbind (DeleteUserTOTP k v) (\<lambda>v.
      rbind (logAccount d ctx a k ''account.second_factor_cleared''
          [(''by_owner'', DBool (action = ''user.totp.remove''))] (DeleteRecoveryCodes k v)) (\<lambda>v.
        Inr (record_change d ctx a action typ ''totp'' k
          (Some [(''user_id'', DStr k), (''enrolled'', DBool True)]) None [(''user_id'', DStr k)] v, ())))) v"

definition RemoveTOTP :: "desk \<Rightarrow> call_ctx \<Rightarrow> vault \<Rightarrow> vault \<times> unit res" where
  "RemoveTOTP d ctx v = (case totpSelf ctx v of
     Inl err \<Rightarrow> (v, Inl err)
   | Inr (a, u) \<Rightarrow>
       if (case SurfaceOf (SourceFrom ctx) of None \<Rightarrow> False | Some s \<Rightarrow> RequiresTOTP (v_tenant v) s)
       then (v, Inl (fail KindPrecondition))
       else clearEnrolment d ctx a (us_id u) ''user.totp.remove'' ''user.totp.removed'' v)"

definition isGlobalAdmin :: "actor \<Rightarrow> vault \<Rightarrow> bool res" where
  "isGlobalAdmin a v = (case accountOfActor (a_id a) v of
     Inl err \<Rightarrow> if IsKind (Some err) KindNotFound then Inr False else Inl err
   | Inr u \<Rightarrow> Inr (us_global u \<and> us_disabled u = None))"

definition authorizeGlobal :: "call_ctx \<Rightarrow> vault \<Rightarrow> actor res" where
  "authorizeGlobal ctx v = rbind (RequireActor ctx) (\<lambda>a.
     rbind (if \<not> c_direct_store ctx \<or> a_token a \<noteq> [] then isGlobalAdmin a v else Inr False) (\<lambda>glob.
       rbind (CanGlobal (Some a) \<lparr>direct_store = c_direct_store ctx, global_admin = glob\<rparr>) (\<lambda>_. Inr a)))"

definition globalAllowed :: "call_ctx \<Rightarrow> vault \<Rightarrow> bool res" where
  "globalAllowed ctx v = (case authorizeGlobal ctx v of
     Inr _ \<Rightarrow> Inr True | Inl err \<Rightarrow> if IsKind (Some err) KindForbidden then Inr False else Inl err)"

definition reachOver :: "desk \<Rightarrow> call_ctx \<Rightarrow> string \<Rightarrow> vault \<Rightarrow> bool res" where
  "reachOver d ctx account v =
    (if account \<notin> set (v_elsewhere v) then Inr True
     else if dk_standing d \<noteq> None then Inr True
     else globalAllowed ctx v)"

definition errAccountInOtherTenants :: goerr where
  "errAccountInOtherTenants = fail_with KindForbidden [(''reason'', DStr ''account_in_other_tenants'')]"

definition ClearUserTOTP :: "desk \<Rightarrow> call_ctx \<Rightarrow> string \<Rightarrow> vault \<Rightarrow> vault \<times> unit res" where
  "ClearUserTOTP d ctx user v = (case authorize ctx ActionTOTPAdmin no_resource of
     Inl err \<Rightarrow> (v, Inl err)
   | Inr a \<Rightarrow>
       let k = TrimSpace user in
       if k = [] then (v, Inl (fail KindInvalid))
       else (case accountOfActor k v of
           Inl err \<Rightarrow> (v, Inl err)
         | Inr u \<Rightarrow> (case reachOver d ctx (us_id u) v of
               Inl err \<Rightarrow> (v, Inl err)
             | Inr allowed \<Rightarrow>
                 if \<not> allowed then (v, Inl errAccountInOtherTenants)
                 else clearEnrolment d ctx a (us_id u) ''user.totp.clear'' ''user.totp.cleared'' v)))"

section \<open>Minting a session\<close>

record session_out =
  so_token :: string
  so_actor :: string
  so_tenant :: string
  so_expires :: time

record challenge =
  ch_kind :: string
  ch_ticket :: string
  ch_enrolment :: "enrolment option"

record login_result =
  lr_session :: "session_out option"
  lr_challenge :: "challenge option"
  lr_codes :: "string list"

definition session_result :: "session_out \<Rightarrow> login_result" where
  "session_result s = \<lparr>lr_session = Some s, lr_challenge = None, lr_codes = []\<rparr>"

definition challenge_result :: "challenge \<Rightarrow> login_result" where
  "challenge_result c = \<lparr>lr_session = None, lr_challenge = Some c, lr_codes = []\<rparr>"

definition MintSession :: "desk \<Rightarrow> actor \<Rightarrow> (session_out \<times> string) res" where
  "MintSession d a =
    (if TrimSpace (a_id a) = [] then Inl (fail KindInvalid)
     else if TrimSpace (a_tenant a) = [] then Inl (fail KindInvalid)
     else let secret = ToLower (base32 (dk_token d))
          in Inr (\<lparr>so_token = secret, so_actor = a_id a, so_tenant = a_tenant a,
               so_expires = Add (dk_clock d) SessionTTL\<rparr>, HashToken d secret))"

definition mintSessionIf ::
  "desk \<Rightarrow> call_ctx \<Rightarrow> actor \<Rightarrow> string \<Rightarrow> (vault \<Rightarrow> (vault \<times> bool) res) \<Rightarrow> vault \<Rightarrow> vault \<times> login_result option res" where
  "mintSessionIf d ctx a method also v = (case MintSession d a of
     Inl err \<Rightarrow> (v, Inl err)
   | Inr (s, hash) \<Rightarrow> write_vault (\<lambda>v. rbind (also v) (\<lambda>(v, ok).
       if \<not> ok then Inr (v, None)
       else rbind (CreateSession (dk_ids d RecoveryCodeCount) (dk_db d) (a_id a) hash (so_expires s) v) (\<lambda>v.
         Inr (record_change d ctx a ''user.login'' ''session.created'' ''session'' (a_id a) None
             (Some [(''actor_id'', DStr (a_id a)), (''expires_at'', DInt (so_expires s)), (''method'', DStr method)])
             [(''actor_id'', DStr (a_id a)), (''handle'', DStr (a_handle a)), (''method'', DStr method)] v,
           Some (session_result s))))) v)"

definition mintSession ::
  "desk \<Rightarrow> call_ctx \<Rightarrow> actor \<Rightarrow> user_row \<Rightarrow> string \<Rightarrow> string \<Rightarrow> (vault \<Rightarrow> vault res) \<Rightarrow> vault \<Rightarrow> vault \<times> login_result res" where
  "mintSession d ctx a u rehashed method also v =
    (case mintSessionIf d ctx a method (\<lambda>v. rbind (if rehashed \<noteq> [] then UpdateUser u rehashed v else Inr v) (\<lambda>v.
        rbind (also v) (\<lambda>v. Inr (v, True)))) v of
       (v, Inl err) \<Rightarrow> (v, Inl err)
     | (v, Inr None) \<Rightarrow> (v, Inl errInvalidCredentials)
     | (v, Inr (Some out)) \<Rightarrow> (v, Inr out))"

section \<open>The password step\<close>

record login_input =
  li_email :: string
  li_password :: string
  li_new_password :: string
  li_surface :: string
  li_ticket :: string
  li_code :: string

record candidate =
  cd_user :: "user_row option"
  cd_actor :: "member_row option"

definition no_candidate :: candidate where "no_candidate = \<lparr>cd_user = None, cd_actor = None\<rparr>"

definition findCandidate :: "string \<Rightarrow> vault \<Rightarrow> candidate" where
  "findCandidate email v =
    (if email = [] then no_candidate
     else case GetUserByEmail email v of
       Inl _ \<Rightarrow> no_candidate
     | Inr u \<Rightarrow> (case GetActorByUser (us_id u) v of
           Inl _ \<Rightarrow> no_candidate | Inr m \<Rightarrow> \<lparr>cd_user = Some u, cd_actor = Some m\<rparr>))"

definition is_member :: "member_row \<Rightarrow> bool" where
  "is_member m \<longleftrightarrow> mb_role m \<noteq> [] \<and> mb_disabled m = None"

definition usable :: "user_row \<Rightarrow> member_row \<Rightarrow> bool" where
  "usable u m \<longleftrightarrow> us_disabled u = None \<and> us_hash u \<noteq> [] \<and> is_member m"

definition sessionActor :: "string \<Rightarrow> member_row \<Rightarrow> actor" where
  "sessionActor tenant m = \<lparr>a_id = mb_actor m, a_tenant = tenant, a_kind = ActorUser, a_handle = mb_handle m,
     a_scopes = [], a_role = mb_role m, a_token = [], a_project = []\<rparr>"

definition dummyHash :: "desk \<Rightarrow> string" where
  "dummyHash d = (case Hash (dk_derive d) (dk_params d) (dk_dummy d) (concat (replicate 4 ''tix-absent-'')) of
     Inl _ \<Rightarrow> [] | Inr h \<Rightarrow> h)"

definition replacementPassword :: "desk \<Rightarrow> user_row \<Rightarrow> login_input \<Rightarrow> string res" where
  "replacementPassword d u i =
    (if li_new_password i = [] then Inr []
     else if \<not> us_change u then Inl (fail_with KindInvalid [(DetailField, DStr ''new_password'')])
     else if \<not> is_ok (ValidatePassword (li_new_password i)) then Inl (fail_with KindInvalid [(DetailField, DStr ''new_password'')])
     else if li_new_password i = li_password i then Inl (fail_with KindInvalid [(DetailField, DStr ''new_password'')])
     else Hash (dk_derive d) (dk_params d) (dk_salt d) (li_new_password i))"

definition recordPasswordChange :: "desk \<Rightarrow> call_ctx \<Rightarrow> actor \<Rightarrow> user_row \<Rightarrow> string \<Rightarrow> vault \<Rightarrow> vault res" where
  "recordPasswordChange d ctx a u hash v =
    rbind (UpdateUser (u\<lparr>us_change := False\<rparr>) hash v) (\<lambda>v.
      rbind (logAccount d ctx a (us_id u) ''account.password_set'' [(''required_change'', DBool True)] v) (\<lambda>v.
        Inr (record_change d ctx a ''user.password_change'' ''user.password_changed'' ''user'' (a_id a)
          (Some [(''user_id'', DStr (us_id u)), (''require_password_change'', DBool True)])
          (Some [(''user_id'', DStr (us_id u)), (''require_password_change'', DBool False)])
          [(''user_id'', DStr (us_id u)), (''email'', DStr (us_email u))] v)))"

definition secondFactorFor ::
  "desk \<Rightarrow> call_ctx \<Rightarrow> string \<Rightarrow> string \<Rightarrow> actor \<Rightarrow> user_row \<Rightarrow> string \<Rightarrow> vault \<Rightarrow> vault \<times> challenge option res" where
  "secondFactorFor d ctx tenant surface a u method v =
    (let enrolled = (case GetUserTOTP (us_id u) v of Inl _ \<Rightarrow> False | Inr e \<Rightarrow> Confirmed e)
     in if \<not> RequiresTOTP (v_tenant v) surface \<and> \<not> enrolled then (v, Inr None)
        else case MintTicket (dk_mac256 d) (dk_key d) \<lparr>tk_user = us_id u, tk_tenant = tenant, tk_surface = surface,
               tk_expires = Add (dk_start d) TicketTTL, tk_method = method\<rparr> of
          Inl err \<Rightarrow> (v, Inl err)
        | Inr ticket \<Rightarrow>
            if enrolled then (v, Inr (Some \<lparr>ch_kind = ''code'', ch_ticket = ticket, ch_enrolment = None\<rparr>))
            else (case beginEnrolment d ctx a u v of
                (v, Inl err) \<Rightarrow> (v, Inl err)
              | (v, Inr en) \<Rightarrow> (v, Inr (Some \<lparr>ch_kind = ''enrol'', ch_ticket = ticket, ch_enrolment = Some en\<rparr>))))"

definition rehash :: "desk \<Rightarrow> user_row \<Rightarrow> login_input \<Rightarrow> string \<Rightarrow> string res" where
  "rehash d u i changed =
    (if changed = [] \<and> NeedsRehash (us_hash u) (dk_params d)
     then Hash (dk_derive d) (dk_params d) (dk_salt d) (li_password i) else Inr [])"

text \<open>\<open>admit\<close> is the password step from the point where the password was accepted.\<close>

definition admit ::
  "desk \<Rightarrow> call_ctx \<Rightarrow> string \<Rightarrow> string \<Rightarrow> login_input \<Rightarrow> user_row \<Rightarrow> member_row \<Rightarrow> vault \<Rightarrow> vault \<times> login_result res" where
  "admit d ctx tenant surface i u m v = (case replacementPassword d u i of
     Inl err \<Rightarrow> (v, Inl err)
   | Inr changed \<Rightarrow>
       if changed = [] \<and> us_change u
       then (v, Inr (challenge_result \<lparr>ch_kind = ''password_change'', ch_ticket = [], ch_enrolment = None\<rparr>))
       else (case rehash d u i changed of
           Inl err \<Rightarrow> (v, Inl err)
         | Inr rehashed \<Rightarrow>
             let a = sessionActor tenant m in
             (case secondFactorFor d ctx tenant surface a u ''password'' v of
                (v, Inl err) \<Rightarrow> (v, Inl err)
              | (v, Inr None) \<Rightarrow>
                  if changed \<noteq> [] then mintSession d ctx a u [] ''password'' (recordPasswordChange d ctx a u changed) v
                  else mintSession d ctx a u rehashed ''password'' Inr v
              | (v, Inr (Some c)) \<Rightarrow>
                  if changed \<noteq> []
                  then (case write_vault (\<lambda>v. rbind (recordPasswordChange d ctx a u changed v) (\<lambda>v. Inr (v, ()))) v of
                      (v, Inl err) \<Rightarrow> (v, Inl err) | (v, Inr _) \<Rightarrow> (v, Inr (challenge_result c)))
                  else (v, Inr (challenge_result c)))))"

definition beginLogin :: "desk \<Rightarrow> call_ctx \<Rightarrow> string \<Rightarrow> string \<Rightarrow> login_input \<Rightarrow> vault \<Rightarrow> vault \<times> login_result res" where
  "beginLogin d ctx tenant surface i v =
    (let c = findCandidate (ToLower (TrimSpace (li_email i))) v;
         hash = (case cd_user c of None \<Rightarrow> [] | Some u \<Rightarrow> us_hash u);
         stored = (if hash \<noteq> [] then hash else dummyHash d);
         verified = is_ok (verify_password (dk_derive d) (dk_busy d) stored (li_password i))
     in case (cd_user c, cd_actor c) of
          (Some u, Some m) \<Rightarrow>
            if \<not> verified \<or> \<not> usable u m then (v, Inl errInvalidCredentials)
            else admit d ctx tenant surface i u m v
        | _ \<Rightarrow> (v, Inl errInvalidCredentials))"

section \<open>The code step\<close>

definition loginWithRecoveryCode ::
  "desk \<Rightarrow> call_ctx \<Rightarrow> actor \<Rightarrow> string \<Rightarrow> string \<Rightarrow> string \<Rightarrow> goerr \<Rightarrow> vault \<Rightarrow> vault \<times> login_result res" where
  "loginWithRecoveryCode d ctx a k method submitted code_err v =
    (case mintSessionIf d ctx a method (redeem d ctx a k submitted) v of
       (v, Inl err) \<Rightarrow> (v, Inl err)
     | (v, Inr None) \<Rightarrow> (v, Inl code_err)
     | (v, Inr (Some out)) \<Rightarrow> (v, Inr out))"

text \<open>\<open>settle\<close> is the code step once the ticket named an enabled member and the enrolment was read.\<close>

definition settle ::
  "desk \<Rightarrow> call_ctx \<Rightarrow> actor \<Rightarrow> user_row \<Rightarrow> string \<Rightarrow> totp_row \<Rightarrow> string \<Rightarrow> vault \<Rightarrow> vault \<times> login_result res" where
  "settle d ctx a u method e code v =
    (case verifyCode d (us_id u) e code v of
       (v, Inl err) \<Rightarrow>
         if IsTOTPLocked err \<or> \<not> Confirmed e then (v, Inl err)
         else loginWithRecoveryCode d ctx a (us_id u) method code err v
     | (v, Inr att) \<Rightarrow>
         if Confirmed e then mintSession d ctx a u [] method (SaveUserTOTPAttempt (dk_db d) (us_id u) att) v
         else (case mintSession d ctx a u [] method
             (\<lambda>v. rbind (confirm_factor d ctx a (us_id u) att v) (put_codes d ctx a (us_id u))) v of
             (v, Inl err) \<Rightarrow> (v, Inl err)
           | (v, Inr out) \<Rightarrow> (v, Inr (out\<lparr>lr_codes := fst (NewRecoveryCodes (dk_crypto d) (dk_codes d))\<rparr>))))"

definition ticket_holder :: "ticket \<Rightarrow> vault \<Rightarrow> (user_row \<times> member_row \<times> totp_row) res" where
  "ticket_holder t v = rbind (GetUser (tk_user t) v) (\<lambda>u. rbind (GetActorByUser (tk_user t) v) (\<lambda>m.
     rbind (GetUserTOTP (tk_user t) v) (\<lambda>e. Inr (u, m, e))))"

definition completeLogin :: "desk \<Rightarrow> call_ctx \<Rightarrow> string \<Rightarrow> string \<Rightarrow> login_input \<Rightarrow> vault \<Rightarrow> vault \<times> login_result res" where
  "completeLogin d ctx tenant surface i v =
    (case ParseTicket (dk_mac256 d) (dk_key d) (li_ticket i) (dk_start d) of
       Inl err \<Rightarrow> (v, Inl err)
     | Inr t \<Rightarrow>
         if tk_tenant t \<noteq> tenant \<or> tk_surface t \<noteq> surface then (v, Inl (fail KindUnauthenticated))
         else (case ticket_holder t v of
             Inl err \<Rightarrow> (v, Inl (if IsKind (Some err) KindNotFound then errInvalidCredentials else err))
           | Inr (u, m, e) \<Rightarrow>
               if us_disabled u \<noteq> None \<or> \<not> is_member m then (v, Inl errInvalidCredentials)
               else settle d ctx (sessionActor tenant m) u
                 (if tk_method t = [] then ''password'' else tk_method t) e (li_code i) v))"

definition Login :: "desk \<Rightarrow> call_ctx \<Rightarrow> login_input \<Rightarrow> vault \<Rightarrow> vault \<times> login_result res" where
  "Login d ctx i v = (case RequireTenant ctx of
     Inl err \<Rightarrow> (v, Inl err)
   | Inr tenant \<Rightarrow>
       let surface = (if li_surface i = [] then SurfaceCLI else li_surface i)
       in if \<not> valid_surface surface then (v, Inl (fail KindInvalid))
          else if li_ticket i \<noteq> [] then completeLogin d ctx tenant surface i v
          else beginLogin d ctx tenant surface i v)"

end
