(* ===== verification/Factor_Rules.thy ===== *)
theory Factor_Rules
  imports Sign_In
begin

text \<open>
  What signing in guarantees: a session is minted only for a member who passed every step asked of them, and
  a time-based code is accepted once. The second statement follows the replay mark and the unspent recovery codes of
  one account through a run of calls; the lemmas at the end show what it does not cover.
\<close>

definition enrolled :: "string \<Rightarrow> vault \<Rightarrow> totp_row option" where
  "enrolled k v = find (\<lambda>e. ut_user e = k) (v_totps v)"

definition left_codes :: "string \<Rightarrow> vault \<Rightarrow> recovery_row list" where
  "left_codes k v = filter (\<lambda>c. rc_user c = k \<and> rc_used c = None) (v_codes v)"

definition same_factor :: "totp_row \<Rightarrow> totp_row \<Rightarrow> bool" where
  "same_factor e e' \<longleftrightarrow> ut_user e' = ut_user e \<and> ut_cipher e' = ut_cipher e \<and> ut_nonce e' = ut_nonce e \<and>
     ut_confirmed e' = ut_confirmed e"

text \<open>The account \<open>k\<close> keeps its confirmed factor, and its replay mark unless a recovery code of it was spent.\<close>

definition keeps_mark :: "string \<Rightarrow> vault \<Rightarrow> vault \<Rightarrow> bool" where
  "keeps_mark k v v' \<longleftrightarrow> (\<forall>e. enrolled k v = Some e \<longrightarrow> Confirmed e \<longrightarrow>
     (\<exists>e'. enrolled k v' = Some e' \<and> same_factor e e' \<and>
       (length (left_codes k v') < length (left_codes k v) \<or>
        length (left_codes k v') = length (left_codes k v) \<and> ut_step e \<le> ut_step e')))"

named_theorems mark_intros "steps that keep the mark of every other account"

lemma keeps_mark_refl [mark_intros]: "keeps_mark k v v"
  by (auto simp: keeps_mark_def same_factor_def)

lemma keeps_mark_trans: "keeps_mark k v v' \<Longrightarrow> keeps_mark k v' v'' \<Longrightarrow> keeps_mark k v v''"
  unfolding keeps_mark_def same_factor_def Confirmed_def by (fastforce intro: order_trans less_trans)

section \<open>What the statements do to one account\<close>

definition same_factors :: "vault \<Rightarrow> vault \<Rightarrow> bool" where
  "same_factors v v' \<longleftrightarrow> v_totps v' = v_totps v \<and> v_codes v' = v_codes v"

lemma same_factors_keeps [mark_intros]: "same_factors v v' \<Longrightarrow> keeps_mark k v v'"
  by (auto simp: same_factors_def keeps_mark_def enrolled_def left_codes_def same_factor_def)

lemma same_factors_record: "same_factors v (record_change d ctx a act typ st k b af pl v)"
  by (simp add: same_factors_def record_change_def)

lemma same_factors_logAccount: "logAccount d ctx a k act info v = Inr v' \<Longrightarrow> same_factors v v'"
  by (auto simp: logAccount_def same_factors_def split: if_splits)

lemma same_factors_UpdateUser: "UpdateUser u h v = Inr v' \<Longrightarrow> same_factors v v'"
  by (auto simp: UpdateUser_def same_factors_def split: if_splits)

lemma same_factors_CreateSession: "CreateSession i db k h x v = Inr v' \<Longrightarrow> same_factors v v'"
  by (auto simp: CreateSession_def same_factors_def split: if_splits)

lemma same_factors_trans: "same_factors v v' \<Longrightarrow> same_factors v' v'' \<Longrightarrow> same_factors v v''"
  by (simp add: same_factors_def)

lemmas untouched = same_factors_record same_factors_logAccount same_factors_UpdateUser same_factors_CreateSession

lemma enrolled_Save:
  "SaveUserTOTPAttempt db k' a v = Inr v' \<Longrightarrow> enrolled k v' = map_option
     (\<lambda>e. if k = k' then e\<lparr>ut_step := LastStep a, ut_failures := Failures a, ut_locked := LockedUntil a, ut_updated := db\<rparr>
       else e) (enrolled k v)"
  "SaveUserTOTPAttempt db k' a v = Inr v' \<Longrightarrow> v_codes v' = v_codes v"
proof -
  assume ok: "SaveUserTOTPAttempt db k' a v = Inr v'"
  let ?f = "\<lambda>e. e\<lparr>ut_step := LastStep a, ut_failures := Failures a, ut_locked := LockedUntil a, ut_updated := db\<rparr>"
  from ok have "enrolled k v' = map_option (\<lambda>e. if ut_user e = k' then ?f e else e) (enrolled k v)"
    unfolding enrolled_def by (auto simp: SaveUserTOTPAttempt_def find_update_where split: if_splits)
  also have "\<dots> = map_option (\<lambda>e. if k = k' then ?f e else e) (enrolled k v)"
    by (cases "enrolled k v") (auto simp: enrolled_def dest: find_SomeD)
  finally show "enrolled k v' = map_option (\<lambda>e. if k = k' then ?f e else e) (enrolled k v)" .
  from ok show "v_codes v' = v_codes v" by (auto simp: SaveUserTOTPAttempt_def split: if_splits)
qed

lemma Save_keeps:
  assumes "SaveUserTOTPAttempt db k' a v = Inr v'" and "\<forall>e. enrolled k' v = Some e \<longrightarrow> ut_step e \<le> LastStep a"
  shows "keeps_mark k v v'"
  using assms(2) enrolled_Save [OF assms(1)]
  by (auto simp: keeps_mark_def left_codes_def same_factor_def)

lemma recordFailed_keeps:
  assumes "\<forall>e. enrolled k' v = Some e \<longrightarrow> ut_step e \<le> LastStep a"
  shows "keeps_mark k v (recordFailedAttempt d k' a v)"
  using Save_keeps [OF _ assms, of "dk_db d"]
  by (auto simp: recordFailedAttempt_def keeps_mark_refl split: sum.split)

lemma left_codes_Spend:
  assumes "SpendRecoveryCode i t v = (v', spent)"
  shows "v_totps v' = v_totps v" and "left_codes k v' = filter (\<lambda>c. rc_id c \<noteq> i) (left_codes k v)"
proof -
  have "filter (\<lambda>c. rc_user c = k \<and> rc_used c = None)
      (map (\<lambda>c. if rc_id c = i \<and> rc_used c = None then c\<lparr>rc_used := Some t\<rparr> else c) cs) =
    filter (\<lambda>c. rc_user c = k \<and> rc_used c = None \<and> rc_id c \<noteq> i) cs" for cs
    by (induction cs) auto
  then show "left_codes k v' = filter (\<lambda>c. rc_id c \<noteq> i) (left_codes k v)"
    using assms by (auto simp: SpendRecoveryCode_def left_codes_def update_where_def unspent_def)
  show "v_totps v' = v_totps v" using assms by (auto simp: SpendRecoveryCode_def)
qed

lemma Spend_own:
  assumes "SpendRecoveryCode (rc_id c) t v = (v', spent)" and "c \<in> set (left_codes k v)"
  shows "length (left_codes k v') < length (left_codes k v)"
  unfolding left_codes_Spend(2) [OF assms(1)] using assms(2) by (intro length_filter_less) auto

lemma match_found:
  assumes "fold (\<lambda>(i, h) z. if h = want \<and> z = None then Some i else z) xs z = Some i"
  shows "z = Some i \<or> (\<exists>h. (i, h) \<in> set xs \<and> h = want)"
  using assms
proof (induction xs arbitrary: z)
  case (Cons x xs)
  obtain j h where x: "x = (j, h)" by (cases x)
  with Cons.prems have "fold (\<lambda>(i, h) z. if h = want \<and> z = None then Some i else z) xs
      (if h = want \<and> z = None then Some j else z) = Some i" by simp
  from Cons.IH [OF this] x show ?case by (auto split: if_splits)
qed simp

lemma MatchRecoveryCode_Some:
  "MatchRecoveryCode cr hashes code = Some i \<Longrightarrow> i < length hashes \<and> hashes ! i = HashRecoveryCode cr code"
  by (auto simp: MatchRecoveryCode_def Let_def in_set_enumerate_eq split: if_splits dest!: match_found)

text \<open>Spending a submitted code: it was one of the account's unspent codes, and it no longer is.\<close>

lemma spendRecoveryCode_spent:
  assumes "spendRecoveryCode d k submitted v = (v', i, True)"
  shows "\<exists>c\<in>set (left_codes k v). rc_id c = i \<and> rc_hash c = HashRecoveryCode (dk_crypto d) submitted \<and>
    SpendRecoveryCode (rc_id c) (dk_now d) v = (v', True)"
proof -
  let ?unused = "filter (\<lambda>c. rc_used c = None) (ListRecoveryCodes k v)"
  from assms obtain n where n: "MatchRecoveryCode (dk_crypto d) (map rc_hash ?unused) submitted = Some n"
    and spend: "SpendRecoveryCode (rc_id (?unused ! n)) (dk_now d) v = (v', True)" and i: "i = rc_id (?unused ! n)"
    by (auto simp: spendRecoveryCode_def Let_def split: if_splits option.splits prod.splits)
  let ?c = "?unused ! n"
  from MatchRecoveryCode_Some [OF n] have "n < length ?unused" and hash: "rc_hash ?c = HashRecoveryCode (dk_crypto d) submitted"
    by (metis length_map, metis length_map nth_map)
  then have "?c \<in> set ?unused" by (intro nth_mem)
  then have "?c \<in> set (left_codes k v)" by (auto simp: ListRecoveryCodes_def left_codes_def)
  then show ?thesis using hash spend i by blast
qed

lemma spendRecoveryCode_unspent:
  assumes "spendRecoveryCode d k submitted v = (v', i, False)"
  shows "keeps_mark k' v v'"
proof -
  have "v' = v \<or> (\<exists>j. SpendRecoveryCode j (dk_now d) v = (v', False))"
    using assms by (auto simp: spendRecoveryCode_def Let_def split: if_splits option.splits prod.splits)
  then show ?thesis
  proof
    assume "\<exists>j. SpendRecoveryCode j (dk_now d) v = (v', False)"
    then obtain j where "rows_matching (unspent j) (v_codes v) = 0" and "v' = fst (SpendRecoveryCode j (dk_now d) v)"
      by (auto simp: SpendRecoveryCode_def)
    then have "v' = v" by (simp add: SpendRecoveryCode_def update_where_none)
    then show ?thesis by (simp add: keeps_mark_refl)
  qed (simp add: keeps_mark_refl)
qed

lemma redeem_keeps:
  assumes "redeem d ctx a k submitted v = Inr (v', ok)"
  shows "keeps_mark k' v v' \<and> (ok \<longrightarrow> length (left_codes k v') < length (left_codes k v))"
proof -
  obtain v1 i spent where s: "spendRecoveryCode d k submitted v = (v1, i, spent)"
    by (cases "spendRecoveryCode d k submitted v")
  show ?thesis
  proof (cases spent)
    case False
    then show ?thesis using assms s spendRecoveryCode_unspent by (simp add: redeem_def)
  next
    case True
    with s have "spendRecoveryCode d k submitted v = (v1, i, True)" by simp
    from spendRecoveryCode_spent [OF this] obtain c where c: "c \<in> set (left_codes k v)" "rc_id c = i"
      and spend: "SpendRecoveryCode i (dk_now d) v = (v1, True)" by auto
    from assms s True obtain v2 v3 where save: "SaveUserTOTPAttempt (dk_db d) k no_attempt v1 = Inr v2"
      and ok and log: "same_factors v2 v'"
      by (auto simp: redeem_def intro: same_factors_trans untouched)
    have codes: "left_codes j v' = filter (\<lambda>c. rc_id c \<noteq> i) (left_codes j v)" for j
      using left_codes_Spend(2) [OF spend] enrolled_Save(2) [OF save] log by (simp add: left_codes_def same_factors_def)
    have less: "length (left_codes k v') < length (left_codes k v)"
      unfolding codes using c by (intro length_filter_less) auto
    have rows: "enrolled j v' = enrolled j v2" for j using log by (simp add: enrolled_def same_factors_def)
    have before: "enrolled j v1 = enrolled j v" for j using left_codes_Spend(1) [OF spend] by (simp add: enrolled_def)
    have "length (left_codes j v') \<le> length (left_codes j v)" for j unfolding codes by (rule length_filter_le)
    then have "keeps_mark k' v v'"
      using less enrolled_Save(1) [OF save, of k'] rows [of k'] before [of k']
      by (auto simp: keeps_mark_def same_factor_def order.order_iff_strict)
    then show ?thesis using less by blast
  qed
qed

section \<open>What the calls do to it\<close>

text \<open>A statement about an account without a confirmed factor says nothing: only \<open>k\<close> being another one is left.\<close>

definition not_confirmed :: "string \<Rightarrow> vault \<Rightarrow> bool" where
  "not_confirmed k v \<longleftrightarrow> (case enrolled k v of None \<Rightarrow> True | Some e \<Rightarrow> \<not> Confirmed e)"

lemma keeps_unless: "(\<not> not_confirmed k v \<Longrightarrow> keeps_mark k v v') \<Longrightarrow> keeps_mark k v v'"
  by (auto simp: not_confirmed_def keeps_mark_def split: option.splits)

lemma verifyCode_ok:
  "verifyCode d k e code v = (v', Inr att) \<Longrightarrow> v' = v \<and>
    (\<exists>secret s. Open (dk_crypto d) k (ut_cipher e) (ut_nonce e) = Inr secret \<and> \<not> Locked (attempt_of e) (dk_clock d) \<and>
       MatchTOTPCode (dk_crypto d) secret code (dk_clock d) = Some s \<and> ut_step e < s \<and> att = Succeed s (attempt_of e))"
  by (auto simp: verifyCode_def sealer_def attempt_of_def Verify_accepts_iff split: sum.splits prod.splits if_splits)

lemma verifyCode_refused_keeps:
  assumes "verifyCode d k' e code v = (v', Inl err)" and "enrolled k' v = Some e"
  shows "keeps_mark k v v'"
proof -
  have "v' = v \<or> (\<exists>secret a. Verify (dk_crypto d) secret code (dk_clock d) (attempt_of e) = (a, Inl err) \<and>
      v' = recordFailedAttempt d k' a v)"
    using assms(1) by (auto simp: verifyCode_def split: sum.splits prod.splits)
  moreover have "LastStep a = ut_step e"
    if "Verify (dk_crypto d) secret code (dk_clock d) (attempt_of e) = (a, Inl err)" for secret a
    using Verify_refused [OF that] by (auto simp: attempt_of_def)
  ultimately have "v' = v \<or> (\<exists>a. LastStep a = ut_step e \<and> v' = recordFailedAttempt d k' a v)" by blast
  then show ?thesis
    using recordFailed_keeps [of k' v] assms(2) by (auto simp: keeps_mark_refl)
qed

lemma accepted_keeps:
  assumes "verifyCode d k' e code v = (v', Inr att)" and "enrolled k' v = Some e"
    and "SaveUserTOTPAttempt db k' att v = Inr v''"
  shows "keeps_mark k v v''"
  using verifyCode_ok [OF assms(1)] assms(2)
  by (intro Save_keeps [OF assms(3)]) (auto simp: attempt_of_def)

lemma prove_keeps:
  assumes "prove d ctx a k' e code v = (v', r)" and "enrolled k' v = Some e"
  shows "keeps_mark k v v'"
proof -
  obtain v1 r1 where c: "verifyCode d k' e code v = (v1, r1)" by (cases "verifyCode d k' e code v")
  show ?thesis
  proof (cases r1)
    case (Inl err)
    with c assms(2) have first: "keeps_mark k v v1" using verifyCode_refused_keeps by blast
    have "v' = v1 \<or> (\<exists>ok. redeem d ctx a k' code v1 = Inr (v', ok))"
      using assms(1) c Inl by (auto simp: prove_def verifyWithRecoveryCode_def write_vault_def split: if_splits sum.splits)
    with first show ?thesis using redeem_keeps keeps_mark_trans by blast
  next
    case (Inr att)
    then have "v1 = v" using verifyCode_ok c by blast
    then show ?thesis
      using assms c Inr accepted_keeps
      by (auto simp: prove_def write_vault_def keeps_mark_refl rbind_def split: sum.splits)
  qed
qed

lemma GetUserTOTP_enrolled: "GetUserTOTP k v = Inr e \<longleftrightarrow> enrolled k v = Some e"
  by (auto simp: GetUserTOTP_def found_def enrolled_def split: option.splits)

lemma VerifySecondFactor_keeps: "VerifySecondFactor d ctx code v = (v', r) \<Longrightarrow> keeps_mark k v v'"
  by (auto simp: VerifySecondFactor_def GetUserTOTP_enrolled keeps_mark_refl intro: prove_keeps split: sum.splits if_splits)

lemma mintSessionIf_keeps:
  assumes "mintSessionIf d ctx a way also v = (v', r)"
    and "\<And>v1 ok. also v = Inr (v1, ok) \<Longrightarrow> keeps_mark k v v1"
  shows "keeps_mark k v v'"
proof -
  have "v' = v \<or> (\<exists>v1 ok. also v = Inr (v1, ok) \<and> (v' = v1 \<or> same_factors v1 v'))"
    using assms(1)
    by (auto simp: mintSessionIf_def write_vault_def rbind_def split: sum.splits prod.splits if_splits
        intro: same_factors_trans untouched)
  then show ?thesis using assms(2) keeps_mark_trans same_factors_keeps keeps_mark_refl by blast
qed

lemma mintSession_keeps:
  assumes "mintSession d ctx a u h way also v = (v', r)"
    and "\<And>v0 v1. same_factors v v0 \<Longrightarrow> also v0 = Inr v1 \<Longrightarrow> keeps_mark k v v1"
  shows "keeps_mark k v v'"
proof -
  let ?also = "\<lambda>v. rbind (if h \<noteq> [] then UpdateUser u h v else Inr v) (\<lambda>v. rbind (also v) (\<lambda>v. Inr (v, True)))"
  obtain r' where m: "mintSessionIf d ctx a way ?also v = (v', r')"
    using assms(1) by (auto simp: mintSession_def split: prod.splits sum.splits option.splits)
  have "keeps_mark k v v1" if also_v: "?also v = Inr (v1, ok)" for v1 ok
  proof -
    from also_v obtain v0 where "(if h \<noteq> [] then UpdateUser u h v else Inr v) = Inr v0" and "also v0 = Inr v1" by auto
    moreover from this have "same_factors v v0"
      using untouched(3) by (cases "h = []") (auto simp: same_factors_def)
    ultimately show ?thesis using assms(2) by blast
  qed
  from mintSessionIf_keeps [OF m this] show ?thesis .
qed

lemma find_other:
  "k \<noteq> j \<Longrightarrow> find (\<lambda>e. ut_user e = k) (filter (\<lambda>e. ut_user e \<noteq> j) es) = find (\<lambda>e. ut_user e = k) es"
  by (induction es) auto

lemma beginEnrolment_keeps:
  assumes "beginEnrolment d ctx a u v = (v', r)" and "not_confirmed (us_id u) v"
  shows "keeps_mark k v v'"
proof (rule keeps_unless)
  assume "\<not> not_confirmed k v"
  with assms(2) have other: "k \<noteq> us_id u" by auto
  let ?row = "\<lambda>c n. \<lparr>ut_user = us_id u, ut_cipher = c, ut_nonce = n, ut_confirmed = None, ut_step = 0, ut_failures = 0,
    ut_locked = None, ut_created = 0, ut_updated = 0\<rparr>"
  have "v' = v \<or> (\<exists>c n v1. PutUserTOTP (dk_db d) (?row c n) v = Inr v1 \<and> same_factors v1 v')"
    using assms(1)
    by (auto simp: beginEnrolment_def Let_def write_vault_def rbind_def intro: same_factors_record
        split: sum.splits prod.splits)
  moreover have "ut_user (?row c n) = us_id u" for c n by simp
  ultimately have "v' = v \<or> (\<exists>e v1. ut_user e = us_id u \<and> PutUserTOTP (dk_db d) e v = Inr v1 \<and> same_factors v1 v')" by blast
  then show "keeps_mark k v v'"
  proof (elim disjE)
    assume "\<exists>e v1. ut_user e = us_id u \<and> PutUserTOTP (dk_db d) e v = Inr v1 \<and> same_factors v1 v'"
    then obtain e v1 where e: "ut_user e = us_id u" and put: "PutUserTOTP (dk_db d) e v = Inr v1"
      and v': "same_factors v1 v'" by blast
    have "enrolled k v1 = enrolled k v \<and> v_codes v1 = v_codes v"
      using put e other
      by (auto simp: PutUserTOTP_def DeleteUserTOTP_def Let_def enrolled_def find_append find_other split: if_splits option.splits)
    then have "keeps_mark k v v1" by (auto simp: keeps_mark_def left_codes_def same_factor_def)
    then show ?thesis using v' keeps_mark_trans same_factors_keeps by blast
  qed (simp add: keeps_mark_refl)
qed

lemma secondFactorFor_keeps:
  assumes "secondFactorFor d ctx tenant surface a u way v = (v', r)"
  shows "keeps_mark k v v'"
proof (cases "not_confirmed (us_id u) v")
  case False
  then obtain e where "GetUserTOTP (us_id u) v = Inr e" and "Confirmed e"
    by (auto simp: not_confirmed_def GetUserTOTP_enrolled split: option.splits)
  then have "v' = v" using assms by (auto simp: secondFactorFor_def Let_def split: if_splits sum.splits)
  then show ?thesis by (simp add: keeps_mark_refl)
next
  case True
  have "v' = v \<or> (\<exists>r. beginEnrolment d ctx a u v = (v', r))"
    using assms by (auto simp: secondFactorFor_def Let_def split: if_splits sum.splits prod.splits)
  then show ?thesis using True beginEnrolment_keeps keeps_mark_refl by blast
qed

lemma recordPasswordChange_same: "recordPasswordChange d ctx a u h v = Inr v' \<Longrightarrow> same_factors v v'"
  by (auto simp: recordPasswordChange_def same_factors_def record_change_def dest!: untouched(2,3))

lemma same_then_keeps: "same_factors v v0 \<Longrightarrow> same_factors v0 v1 \<Longrightarrow> keeps_mark k v v1"
  using same_factors_trans same_factors_keeps by blast

lemma admit_keeps:
  assumes "admit d ctx tenant surface i u m v = (v', r)"
  shows "keeps_mark k v v'"
proof -
  let ?a = "sessionActor tenant m"
  have "v' = v \<or> (\<exists>v1 r1. secondFactorFor d ctx tenant surface ?a u ''password'' v = (v1, r1) \<and> keeps_mark k v1 v')"
  proof (cases "replacementPassword d u i")
    case (Inr changed)
    have mint: "keeps_mark k v1 v2" if "mintSession d ctx ?a u h ''password'' extra v1 = (v2, r2)"
      and "\<And>x y. extra x = Inr y \<Longrightarrow> same_factors x y" for v1 v2 h r2 extra
      using mintSession_keeps [OF that(1)] that(2) same_then_keeps by blast
    have pass: "keeps_mark k v1 v2" if "mintSession d ctx ?a u h ''password'' (recordPasswordChange d ctx ?a u c) v1 = (v2, r2)"
      for v1 v2 h r2 c by (rule mint [OF that]) (rule recordPasswordChange_same)
    have plain: "keeps_mark k v1 v2" if "mintSession d ctx ?a u h ''password'' Inr v1 = (v2, r2)"
      for v1 v2 h r2 by (rule mint [OF that]) (simp add: same_factors_def)
    have stored: "keeps_mark k v1 v2"
      if "write_vault (\<lambda>v. rbind (recordPasswordChange d ctx ?a u c v) (\<lambda>v. Inr (v, ()))) v1 = (v2, r2)" for v1 v2 r2 c
      using that recordPasswordChange_same same_factors_keeps
      by (auto simp: write_vault_def rbind_def keeps_mark_refl split: sum.splits)
    obtain v1 r1 where f: "secondFactorFor d ctx tenant surface ?a u ''password'' v = (v1, r1)"
      by (cases "secondFactorFor d ctx tenant surface ?a u ''password'' v")
    show ?thesis
      using assms Inr f pass plain stored keeps_mark_refl
      by (auto simp: admit_def Let_def split: if_splits sum.splits option.splits prod.splits)
  qed (use assms in \<open>simp add: admit_def\<close>)
  then show ?thesis using secondFactorFor_keeps keeps_mark_refl keeps_mark_trans by blast
qed

lemma insert_code_other:
  "insert_code c v = Inr v' \<Longrightarrow> rc_user c \<noteq> k \<Longrightarrow> left_codes k v' = left_codes k v \<and> v_totps v' = v_totps v"
  by (auto simp: insert_code_def left_codes_def split: if_splits)

lemma ReplaceRecoveryCodes_other:
  assumes "ReplaceRecoveryCodes now rows k' v = Inr v'" and "k \<noteq> k'"
  shows "left_codes k v' = left_codes k v \<and> v_totps v' = v_totps v"
proof -
  let ?P = "\<lambda>w. left_codes k w = left_codes k v \<and> v_totps w = v_totps v"
  have "filter (\<lambda>c. rc_user c = k \<and> rc_used c = None) (filter (\<lambda>c. rc_user c \<noteq> k') cs) =
      filter (\<lambda>c. rc_user c = k \<and> rc_used c = None) cs" for cs
    using assms(2) by (induction cs) auto
  then have "?P (DeleteRecoveryCodes k' v)" by (simp add: DeleteRecoveryCodes_def left_codes_def)
  with assms show ?thesis
    unfolding ReplaceRecoveryCodes_def
    by (auto split: if_splits elim!: fold_res_invariant [where P = ?P] dest: insert_code_other)
qed

lemma put_codes_keeps: "put_codes d ctx a k' v = Inr v' \<Longrightarrow> k \<noteq> k' \<Longrightarrow> keeps_mark k v v'"
proof -
  assume put: "put_codes d ctx a k' v = Inr v'" and other: "k \<noteq> k'"
  then obtain v1 v2 where r: "ReplaceRecoveryCodes (dk_db d) (code_rows d) k' v = Inr v1" and l: "same_factors v1 v'"
    by (auto simp: put_codes_def Let_def intro: same_factors_trans untouched)
  from ReplaceRecoveryCodes_other [OF r other] have "keeps_mark k v v1"
    by (auto simp: keeps_mark_def enrolled_def same_factor_def)
  then show ?thesis using l same_factors_keeps keeps_mark_trans by blast
qed

lemma confirm_factor_keeps: "confirm_factor d ctx a k' att v = Inr v' \<Longrightarrow> k \<noteq> k' \<Longrightarrow> keeps_mark k v v'"
proof -
  assume "confirm_factor d ctx a k' att v = Inr v'" and other: "k \<noteq> k'"
  then obtain v1 v2 where save: "SaveUserTOTPAttempt (dk_db d) k' att v = Inr v1"
    and conf: "ConfirmUserTOTP k' (dk_now d) v1 = Inr v2" and l: "same_factors v2 v'"
    by (fastforce simp: confirm_factor_def same_factors_def record_change_def dest!: untouched(2))
  have "find (\<lambda>e. ut_user e = k) (update_where (\<lambda>e. ut_user e = k') f es) = find (\<lambda>e. ut_user e = k) es"
    if "\<And>e. ut_user (f e) = ut_user e" for f :: "totp_row \<Rightarrow> totp_row" and es
    using other that by (induction es) (auto simp: update_where_def)
  then have "enrolled k v2 = enrolled k v1" and "v_codes v2 = v_codes v1"
    using conf by (auto simp: ConfirmUserTOTP_def enrolled_def split: if_splits)
  then have "keeps_mark k v v2"
    using enrolled_Save [OF save] other by (auto simp: keeps_mark_def left_codes_def same_factor_def)
  then show ?thesis using l same_factors_keeps keeps_mark_trans by blast
qed

lemma settle_keeps:
  assumes "settle d ctx a u way e code v = (v', r)" and "enrolled (us_id u) v = Some e"
  shows "keeps_mark k v v'"
proof -
  obtain v1 r1 where c: "verifyCode d (us_id u) e code v = (v1, r1)" by (cases "verifyCode d (us_id u) e code v")
  show ?thesis
  proof (cases r1)
    case (Inl err)
    then have first: "keeps_mark k v v1" using c assms(2) verifyCode_refused_keeps by blast
    have "v' = v1 \<or> (\<exists>r2. mintSessionIf d ctx a way (redeem d ctx a (us_id u) code) v1 = (v', r2))"
      using assms(1) c Inl
      by (auto simp: settle_def loginWithRecoveryCode_def split: if_splits prod.splits sum.splits option.splits)
    then have "keeps_mark k v1 v'"
      using mintSessionIf_keeps [of d ctx a way "redeem d ctx a (us_id u) code" v1 v'] redeem_keeps keeps_mark_refl by blast
    with first show ?thesis by (rule keeps_mark_trans)
  next
    case (Inr att)
    then have v1: "v1 = v" using c verifyCode_ok by blast
    show ?thesis
    proof (cases "Confirmed e")
      case True
      then have "mintSession d ctx a u [] way (SaveUserTOTPAttempt (dk_db d) (us_id u) att) v = (v', r)"
        using assms(1) c Inr v1 by (simp add: settle_def)
      then show ?thesis
      proof (rule mintSession_keeps)
        fix v0 v2
        assume same: "same_factors v v0" and save: "SaveUserTOTPAttempt (dk_db d) (us_id u) att v0 = Inr v2"
        have "ut_step e \<le> LastStep att" using verifyCode_ok [OF c [unfolded Inr]] by (auto simp: attempt_of_def)
        then have "keeps_mark k v0 v2"
          using same assms(2) by (intro Save_keeps [OF save]) (simp add: same_factors_def enrolled_def)
        moreover have "keeps_mark k v v0" using same by (rule same_factors_keeps)
        ultimately show "keeps_mark k v v2" using keeps_mark_trans by blast
      qed
    next
      case False
      let ?extra = "\<lambda>v. rbind (confirm_factor d ctx a (us_id u) att v) (put_codes d ctx a (us_id u))"
      show ?thesis
      proof (rule keeps_unless)
        assume "\<not> not_confirmed k v"
        with False assms(2) have other: "k \<noteq> us_id u" by (auto simp: not_confirmed_def)
        obtain r2 where "mintSession d ctx a u [] way ?extra v = (v', r2)"
          using assms(1) c Inr v1 False by (auto simp: settle_def split: prod.splits sum.splits)
        then show "keeps_mark k v v'"
        proof (rule mintSession_keeps)
          fix v0 v2
          assume same: "same_factors v v0" and "?extra v0 = Inr v2"
          then obtain w where w: "confirm_factor d ctx a (us_id u) att v0 = Inr w" "put_codes d ctx a (us_id u) w = Inr v2"
            by auto
          from keeps_mark_trans [OF same_factors_keeps [OF same] confirm_factor_keeps [OF w(1) other]]
          show "keeps_mark k v v2" by (rule keeps_mark_trans) (rule put_codes_keeps [OF w(2) other])
        qed
      qed
    qed
  qed
qed

lemma completeLogin_keeps: "completeLogin d ctx tenant surface i v = (v', r) \<Longrightarrow> keeps_mark k v v'"
proof -
  have own: "enrolled (us_id u) v = Some e" if "ticket_holder t v = Inr (u, m, e)" for t u m e
    using that by (auto simp: ticket_holder_def GetUser_def found_def GetUserTOTP_enrolled split: option.splits dest!: find_SomeD(2))
  show "completeLogin d ctx tenant surface i v = (v', r) \<Longrightarrow> keeps_mark k v v'"
    unfolding completeLogin_def
    by (auto simp: keeps_mark_refl split: sum.splits if_splits dest!: own dest: settle_keeps)
qed

lemma Login_keeps: "Login d ctx i v = (v', r) \<Longrightarrow> keeps_mark k v v'"
  by (auto simp: Login_def beginLogin_def Let_def keeps_mark_refl intro: completeLogin_keeps admit_keeps
      split: sum.splits if_splits option.splits)

section \<open>A code is accepted once\<close>

text \<open>The two calls a second factor is presented to, and a run of them by anybody, on any desk.\<close>

datatype factor_call = Signs_in login_input | Proves string

fun serve_factor :: "desk \<times> call_ctx \<times> factor_call \<Rightarrow> vault \<Rightarrow> vault" where
  "serve_factor (d, ctx, Signs_in i) v = fst (Login d ctx i v)"
| "serve_factor (d, ctx, Proves code) v = fst (VerifySecondFactor d ctx code v)"

definition run_factor :: "(desk \<times> call_ctx \<times> factor_call) list \<Rightarrow> vault \<Rightarrow> vault" where
  "run_factor calls v = fold serve_factor calls v"

lemma run_keeps: "keeps_mark k v (run_factor calls v)"
proof -
  have step: "keeps_mark k v (serve_factor c v)" for c v
    by (cases "(c, v)" rule: serve_factor.cases) (auto intro: Login_keeps VerifySecondFactor_keeps prod.collapse [symmetric])
  have "keeps_mark k v (fold serve_factor calls w)" if "keeps_mark k v w" for w
    using that
  proof (induction calls arbitrary: w)
    case (Cons c calls)
    from Cons.IH [OF keeps_mark_trans [OF Cons.prems step]] show ?case by simp
  qed simp
  then show ?thesis unfolding run_factor_def using keeps_mark_refl by blast
qed

text \<open>The account \<open>k\<close> got through: the caller proved the factor, or the bearer of a ticket for it a session.\<close>

definition passes :: "string \<Rightarrow> desk \<Rightarrow> call_ctx \<Rightarrow> factor_call \<Rightarrow> vault \<Rightarrow> vault \<Rightarrow> bool" where
  "passes k d ctx c v v' \<longleftrightarrow> (case c of
     Proves code \<Rightarrow> VerifySecondFactor d ctx code v = (v', Inr ()) \<and> (\<exists>a u. totpSelf ctx v = Inr (a, u) \<and> us_id u = k)
   | Signs_in i \<Rightarrow> li_ticket i \<noteq> [] \<and> (\<exists>out t. Login d ctx i v = (v', Inr out) \<and>
       ParseTicket (dk_mac256 d) (dk_key d) (li_ticket i) (dk_start d) = Inr t \<and> tk_user t = k))"

definition presented :: "factor_call \<Rightarrow> string" where
  "presented c = (case c of Proves code \<Rightarrow> code | Signs_in i \<Rightarrow> li_code i)"

definition by_code :: "string \<Rightarrow> desk \<Rightarrow> string \<Rightarrow> totp_row \<Rightarrow> vault \<Rightarrow> bool" where
  "by_code k d code e v' \<longleftrightarrow> (\<exists>secret s e'. Open (dk_crypto d) k (ut_cipher e) (ut_nonce e) = Inr secret \<and>
     MatchTOTPCode (dk_crypto d) secret code (dk_clock d) = Some s \<and> ut_step e < s \<and>
     enrolled k v' = Some e' \<and> same_factor e e' \<and> ut_step e' = s)"

lemma saved_by_code:
  assumes "verifyCode d k e code v = (v1, Inr att)" and "enrolled k v = Some e"
    and "SaveUserTOTPAttempt (dk_db d) k att v0 = Inr v2" and "same_factors v v0" and "same_factors v2 v'"
  shows "by_code k d code e v'"
proof -
  from verifyCode_ok [OF assms(1)] obtain secret s where o: "Open (dk_crypto d) k (ut_cipher e) (ut_nonce e) = Inr secret"
    and m: "MatchTOTPCode (dk_crypto d) secret code (dk_clock d) = Some s" "ut_step e < s" and att: "att = Succeed s (attempt_of e)"
    by blast
  have "enrolled k v0 = Some e" using assms(2,4) by (simp add: enrolled_def same_factors_def)
  then have "enrolled k v2 = Some (e\<lparr>ut_step := s, ut_failures := 0, ut_locked := None, ut_updated := dk_db d\<rparr>)"
    using enrolled_Save(1) [OF assms(3), of k] m(2) by (simp add: att Succeed_def attempt_of_def)
  then have "enrolled k v' = Some (e\<lparr>ut_step := s, ut_failures := 0, ut_locked := None, ut_updated := dk_db d\<rparr>)"
    using assms(5) by (simp add: enrolled_def same_factors_def)
  then show ?thesis using o m unfolding by_code_def by (auto simp: same_factor_def)
qed

lemma prove_by_code:
  assumes "prove d ctx a k e code v = (v', Inr ())" and "enrolled k v = Some e" and "Confirmed e"
    and "length (left_codes k v') = length (left_codes k v)"
  shows "by_code k d code e v'"
proof -
  obtain v1 r1 where c: "verifyCode d k e code v = (v1, r1)" by (cases "verifyCode d k e code v")
  show ?thesis
  proof (cases r1)
    case (Inl err)
    then have "keeps_mark k v v1" using c assms(2) verifyCode_refused_keeps by blast
    then have "length (left_codes k v1) \<le> length (left_codes k v)" using assms(2,3) by (auto simp: keeps_mark_def)
    moreover have "redeem d ctx a k code v1 = Inr (v', True)"
      using assms(1) c Inl
      by (auto simp: prove_def verifyWithRecoveryCode_def write_vault_def split: if_splits sum.splits)
    ultimately show ?thesis using redeem_keeps assms(4) by fastforce
  next
    case (Inr att)
    then have "v1 = v" using c verifyCode_ok by blast
    then have "SaveUserTOTPAttempt (dk_db d) k att v = Inr v'"
      using assms(1) c Inr by (auto simp: prove_def write_vault_def rbind_def split: sum.splits)
    from saved_by_code [OF c [unfolded Inr] assms(2) this] show ?thesis by (simp add: same_factors_def)
  qed
qed

lemma minted:
  assumes "mintSession d ctx a u [] way extra v = (v', Inr out)"
  shows "\<exists>w. extra v = Inr w \<and> same_factors w v'"
  using assms
  by (auto simp: mintSession_def mintSessionIf_def write_vault_def rbind_def same_factors_def record_change_def
      split: sum.splits prod.splits if_splits dest!: untouched(4))

lemma settle_by_code:
  assumes "settle d ctx a u way e code v = (v', Inr out)" and "enrolled (us_id u) v = Some e" and "Confirmed e"
    and "length (left_codes (us_id u) v') = length (left_codes (us_id u) v)"
  shows "by_code (us_id u) d code e v'"
proof -
  obtain v1 r1 where c: "verifyCode d (us_id u) e code v = (v1, r1)" by (cases "verifyCode d (us_id u) e code v")
  show ?thesis
  proof (cases r1)
    case (Inl err)
    then have "keeps_mark (us_id u) v v1" using c assms(2) verifyCode_refused_keeps by blast
    then have few: "length (left_codes (us_id u) v1) \<le> length (left_codes (us_id u) v)" using assms(2,3) by (auto simp: keeps_mark_def)
    have "mintSessionIf d ctx a way (redeem d ctx a (us_id u) code) v1 = (v', Inr (Some out))"
      using assms(1) c Inl
      by (auto simp: settle_def loginWithRecoveryCode_def split: if_splits prod.splits sum.splits option.splits)
    then obtain w where "redeem d ctx a (us_id u) code v1 = Inr (w, True)" and "same_factors w v'"
      by (auto simp: mintSessionIf_def write_vault_def rbind_def same_factors_def record_change_def
          split: sum.splits prod.splits if_splits dest!: untouched(4))
    then have "length (left_codes (us_id u) v') < length (left_codes (us_id u) v1)"
      using redeem_keeps by (fastforce simp: same_factors_def left_codes_def)
    then show ?thesis using few assms(4) by simp
  next
    case (Inr att)
    then have "v1 = v" using c verifyCode_ok by blast
    then obtain w where "SaveUserTOTPAttempt (dk_db d) (us_id u) att v = Inr w" and "same_factors w v'"
      using assms(1,3) c Inr minted by (fastforce simp: settle_def)
    from saved_by_code [OF c [unfolded Inr] assms(2) this(1) _ this(2)] show ?thesis by (simp add: same_factors_def)
  qed
qed

lemma passes_by_code:
  assumes "passes k d ctx c v v'" and "enrolled k v = Some e" and "Confirmed e"
    and "length (left_codes k v') = length (left_codes k v)"
  shows "by_code k d (presented c) e v'"
proof (cases c)
  case (Proves code)
  with assms(1) obtain a u where v: "VerifySecondFactor d ctx code v = (v', Inr ())" "totpSelf ctx v = Inr (a, u)" "us_id u = k"
    by (auto simp: passes_def)
  then have "prove d ctx a k e code v = (v', Inr ())"
    using assms(2,3) GetUserTOTP_enrolled [of k v e] by (auto simp: VerifySecondFactor_def)
  from prove_by_code [OF this assms(2-4)] show ?thesis using Proves by (simp add: presented_def)
next
  case (Signs_in i)
  with assms(1) obtain out t where l: "li_ticket i \<noteq> []" "Login d ctx i v = (v', Inr out)" "tk_user t = k"
    and "ParseTicket (dk_mac256 d) (dk_key d) (li_ticket i) (dk_start d) = Inr t" by (auto simp: passes_def)
  then obtain u m a way where "ticket_holder t v = Inr (u, m, e)" and s: "settle d ctx a u way e (li_code i) v = (v', Inr out)"
    using assms(2) GetUserTOTP_enrolled [of k v e]
    by (auto simp: Login_def completeLogin_def Let_def ticket_holder_def split: sum.splits if_splits)
  then have k: "us_id u = k" using l(3) by (auto simp: ticket_holder_def GetUser_def found_def split: option.splits dest!: find_SomeD(2))
  from settle_by_code [OF s] assms(2-4) show ?thesis unfolding k using Signs_in by (simp add: presented_def)
qed

lemma passes_keeps: "passes k d ctx c v v' \<Longrightarrow> keeps_mark k v v'"
  by (auto simp: passes_def intro: Login_keeps VerifySecondFactor_keeps split: factor_call.splits)

lemma keeps_marked:
  "keeps_mark k v v' \<Longrightarrow> enrolled k v = Some e \<Longrightarrow> Confirmed e \<Longrightarrow>
    \<exists>e'. enrolled k v' = Some e' \<and> Confirmed e' \<and> same_factor e e' \<and>
      length (left_codes k v') \<le> length (left_codes k v) \<and>
      (length (left_codes k v') = length (left_codes k v) \<longrightarrow> ut_step e \<le> ut_step e')"
  by (fastforce simp: keeps_mark_def same_factor_def Confirmed_def)

text \<open>C18: A time-based code is accepted once. Take an account with a confirmed second factor that got through on a
  code, then any run of sign-ins and proofs by anybody, then the account getting through on a code again, with none of
  its recovery codes spent in between: the second code belongs to a strictly later time step than the first, so it
  is not the same code of the same step, however close together the two calls are.\<close>

theorem code_single_use:
  assumes "enrolled k v = Some e" and "Confirmed e" and "dk_crypto d' = dk_crypto d"
    and "passes k d ctx c v v1" and "run_factor calls v1 = v2" and "passes k d' ctx' c' v2 v3"
    and "length (left_codes k v3) = length (left_codes k v)"
  shows "\<exists>secret s s'. MatchTOTPCode (dk_crypto d) secret (presented c) (dk_clock d) = Some s \<and>
    MatchTOTPCode (dk_crypto d) secret (presented c') (dk_clock d') = Some s' \<and> s < s'"
proof -
  from keeps_marked [OF passes_keeps [OF assms(4)] assms(1,2)] obtain e1 where e1: "enrolled k v1 = Some e1" "Confirmed e1"
    and l1: "length (left_codes k v1) \<le> length (left_codes k v)" by blast
  from keeps_marked [OF run_keeps e1] assms(5) obtain e2 where e2: "enrolled k v2 = Some e2" "Confirmed e2" "same_factor e1 e2"
    and l2: "length (left_codes k v2) \<le> length (left_codes k v1)"
    and le: "length (left_codes k v2) = length (left_codes k v1) \<longrightarrow> ut_step e1 \<le> ut_step e2" by blast
  from keeps_marked [OF passes_keeps [OF assms(6)] e2(1,2)] have l3: "length (left_codes k v3) \<le> length (left_codes k v2)" by blast
  have first: "by_code k d (presented c) e v1" using l1 l2 l3 assms(7) by (intro passes_by_code [OF assms(4,1,2)]) simp
  have second: "by_code k d' (presented c') e2 v3" using l1 l2 l3 assms(7) by (intro passes_by_code [OF assms(6) e2(1,2)]) simp
  from first obtain secret s where f: "Open (dk_crypto d) k (ut_cipher e) (ut_nonce e) = Inr secret"
    "MatchTOTPCode (dk_crypto d) secret (presented c) (dk_clock d) = Some s" "same_factor e e1" "ut_step e1 = s"
    using e1(1) by (auto simp: by_code_def)
  from second obtain secret' s' where g: "Open (dk_crypto d) k (ut_cipher e2) (ut_nonce e2) = Inr secret'"
    "MatchTOTPCode (dk_crypto d) secret' (presented c') (dk_clock d') = Some s'" "ut_step e2 < s'"
    using assms(3) by (auto simp: by_code_def)
  have "secret' = secret" using f(1,3) g(1) e2(3) by (simp add: same_factor_def)
  moreover have "ut_step e1 \<le> ut_step e2" using le l1 l2 l3 assms(7) by simp
  ultimately show ?thesis
    using f(2,4) g(2,3) by (intro exI [of _ secret] exI [of _ s] exI [of _ s']) simp
qed

section \<open>A session is the end of every step\<close>

definition login_surface :: "login_input \<Rightarrow> string" where
  "login_surface i = (if li_surface i = [] then SurfaceCLI else li_surface i)"

definition session_for :: "desk \<Rightarrow> string \<Rightarrow> member_row \<Rightarrow> session_out \<Rightarrow> vault \<Rightarrow> bool" where
  "session_for d tenant m s v' \<longleftrightarrow> so_actor s = mb_actor m \<and> so_tenant s = tenant \<and>
     (\<exists>row\<in>set (v_sessions v'). se_actor row = mb_actor m \<and> se_hash row = HashToken d (so_token s) \<and> se_expires row = so_expires s)"

definition password_alone :: "desk \<Rightarrow> login_input \<Rightarrow> user_row \<Rightarrow> vault \<Rightarrow> bool" where
  "password_alone d i u v \<longleftrightarrow> us_email u = ToLower (TrimSpace (li_email i)) \<and>
     verify_password (dk_derive d) (dk_busy d) (us_hash u) (li_password i) = Inr () \<and>
     \<not> RequiresTOTP (v_tenant v) (login_surface i) \<and> not_confirmed (us_id u) v"

definition factor_shown :: "desk \<Rightarrow> string \<Rightarrow> login_input \<Rightarrow> user_row \<Rightarrow> vault \<Rightarrow> vault \<Rightarrow> bool" where
  "factor_shown d tenant i u v v' \<longleftrightarrow> (\<exists>t e.
     ParseTicket (dk_mac256 d) (dk_key d) (li_ticket i) (dk_start d) = Inr t \<and> tk_user t = us_id u \<and>
     tk_tenant t = tenant \<and> tk_surface t = login_surface i \<and> enrolled (us_id u) v = Some e \<and>
     ((\<exists>secret s. Open (dk_crypto d) (us_id u) (ut_cipher e) (ut_nonce e) = Inr secret \<and> \<not> Locked (attempt_of e) (dk_clock d) \<and>
         MatchTOTPCode (dk_crypto d) secret (li_code i) (dk_clock d) = Some s \<and> ut_step e < s) \<or>
      Confirmed e \<and> (\<exists>c\<in>set (left_codes (us_id u) v). rc_hash c = HashRecoveryCode (dk_crypto d) (li_code i)) \<and>
         length (left_codes (us_id u) v') < length (left_codes (us_id u) v)))"

lemma mintSessionIf_session:
  assumes "mintSessionIf d ctx (sessionActor tenant m) way extra v = (v', Inr (Some out))"
  shows "\<exists>w s. extra v = Inr (w, True) \<and> same_factors w v' \<and> out = session_result s \<and> session_for d tenant m s v'"
  using assms
  by (auto simp: mintSessionIf_def MintSession_def Let_def write_vault_def rbind_def session_for_def same_factors_def
      record_change_def CreateSession_def sessionActor_def split: sum.splits prod.splits if_splits)

lemma mintSession_session:
  assumes "mintSession d ctx (sessionActor tenant m) u h way extra v = (v', Inr out)"
  shows "\<exists>s. out = session_result s \<and> session_for d tenant m s v'"
  using assms mintSessionIf_session [of d ctx tenant m way _ v v']
  by (fastforce simp: mintSession_def split: prod.splits sum.splits option.splits)

lemma recordFailed_codes: "v_codes (recordFailedAttempt d k a v) = v_codes v"
  using enrolled_Save(2) by (auto simp: recordFailedAttempt_def split: sum.splits)

lemma verifyCode_codes: "verifyCode d k e code v = (v', r) \<Longrightarrow> left_codes j v' = left_codes j v"
  by (auto simp: verifyCode_def left_codes_def recordFailed_codes split: sum.splits prod.splits)

lemma redeem_code:
  "redeem d ctx a k submitted v = Inr (v', True) \<Longrightarrow>
    \<exists>c\<in>set (left_codes k v). rc_hash c = HashRecoveryCode (dk_crypto d) submitted"
  by (auto simp: redeem_def split: prod.splits if_splits dest!: spendRecoveryCode_spent)

lemma settle_session:
  assumes "settle d ctx (sessionActor tenant m) u way e code v = (v', Inr out)" and "lr_session out = Some s"
  shows "session_for d tenant m s v' \<and>
    ((\<exists>secret s. Open (dk_crypto d) (us_id u) (ut_cipher e) (ut_nonce e) = Inr secret \<and> \<not> Locked (attempt_of e) (dk_clock d) \<and>
        MatchTOTPCode (dk_crypto d) secret code (dk_clock d) = Some s \<and> ut_step e < s) \<or>
     Confirmed e \<and> (\<exists>c\<in>set (left_codes (us_id u) v). rc_hash c = HashRecoveryCode (dk_crypto d) code) \<and>
        length (left_codes (us_id u) v') < length (left_codes (us_id u) v))"
proof -
  let ?a = "sessionActor tenant m"
  obtain v1 r1 where c: "verifyCode d (us_id u) e code v = (v1, r1)" by (cases "verifyCode d (us_id u) e code v")
  show ?thesis
  proof (cases r1)
    case (Inl err)
    with assms(1) c have "Confirmed e"
      and "mintSessionIf d ctx ?a way (redeem d ctx ?a (us_id u) code) v1 = (v', Inr (Some out))"
      by (auto simp: settle_def loginWithRecoveryCode_def split: if_splits prod.splits sum.splits option.splits)
    from mintSessionIf_session [OF this(2)] obtain w s' where "redeem d ctx ?a (us_id u) code v1 = Inr (w, True)"
      and "same_factors w v'" and "out = session_result s'" and "session_for d tenant m s' v'" by blast
    moreover from this have "length (left_codes (us_id u) v') < length (left_codes (us_id u) v)"
      using redeem_keeps [of d ctx ?a "us_id u" code v1 w True] verifyCode_codes [OF c] by (simp add: same_factors_def left_codes_def)
    ultimately show ?thesis
      using redeem_code [of d ctx ?a "us_id u" code v1 w] verifyCode_codes [OF c] assms(2) \<open>Confirmed e\<close>
      by (auto simp: session_result_def)
  next
    case (Inr att)
    then have "\<exists>way extra out'. mintSession d ctx ?a u [] way extra v = (v', Inr out') \<and> lr_session out' = lr_session out"
      using assms(1) c verifyCode_ok by (fastforce simp: settle_def split: if_splits prod.splits sum.splits)
    then have "session_for d tenant m s v'"
      using mintSession_session assms(2) by (fastforce simp: session_result_def)
    then show ?thesis using verifyCode_ok [OF c [unfolded Inr]] by blast
  qed
qed

lemma secondFactorFor_None:
  "secondFactorFor d ctx tenant surface a u way v = (v', Inr None) \<Longrightarrow>
    v' = v \<and> \<not> RequiresTOTP (v_tenant v) surface \<and> not_confirmed (us_id u) v"
  by (auto simp: secondFactorFor_def Let_def not_confirmed_def GetUserTOTP_def found_def enrolled_def split: if_splits sum.splits prod.splits option.splits)

lemma admit_session:
  assumes "admit d ctx tenant surface i u m v = (v', Inr out)" and "lr_session out = Some s"
  shows "session_for d tenant m s v' \<and> \<not> RequiresTOTP (v_tenant v) surface \<and> not_confirmed (us_id u) v"
proof -
  let ?a = "sessionActor tenant m"
  have none: "lr_session (challenge_result c) = None" for c by (simp add: challenge_result_def)
  obtain v1 r1 where f: "secondFactorFor d ctx tenant surface ?a u ''password'' v = (v1, r1)"
    by (cases "secondFactorFor d ctx tenant surface ?a u ''password'' v")
  have "r1 = Inr None \<and> (\<exists>h extra. mintSession d ctx ?a u h ''password'' extra v1 = (v', Inr out))"
    using assms f none by (auto simp: admit_def Let_def split: sum.splits if_splits option.splits prod.splits)
  then show ?thesis
    using f secondFactorFor_None mintSession_session assms(2) by (fastforce simp: session_result_def)
qed

text \<open>C16: Whoever gets a session is an enabled member of the tenant and passed every step. Either no ticket was shown,
  the password was right, the tenant requires no second factor on this surface and the person has none of their own;
  or a ticket this service signed for this person, tenant and surface was shown with a code of their enrolled
  secret that is newer than any accepted before, while the enrolment was not locked, or with a recovery code of theirs
  that was unspent before and is spent now. The session stored and the session returned name that member.\<close>

theorem session_needs_every_step:
  assumes "Login d ctx i v = (v', Inr out)" and "lr_session out = Some s"
  shows "\<exists>tenant u m. RequireTenant ctx = Inr tenant \<and> u \<in> set (v_users v) \<and> m \<in> set (v_members v) \<and>
    mb_user m = us_id u \<and> us_disabled u = None \<and> is_member m \<and> session_for d tenant m s v' \<and>
    (if li_ticket i = [] then password_alone d i u v else factor_shown d tenant i u v v')"
proof -
  from assms(1) obtain tenant where tenant: "RequireTenant ctx = Inr tenant"
    and login: "(if li_ticket i \<noteq> [] then completeLogin d ctx tenant (login_surface i) i v
      else beginLogin d ctx tenant (login_surface i) i v) = (v', Inr out)"
    by (auto simp: Login_def login_surface_def Let_def split: sum.splits if_splits)
  show ?thesis
  proof (cases "li_ticket i = []")
    case True
    let ?c = "findCandidate (ToLower (TrimSpace (li_email i))) v"
    from login True obtain u m where c: "cd_user ?c = Some u" "cd_actor ?c = Some m" and "usable u m"
      and pw: "verify_password (dk_derive d) (dk_busy d) (us_hash u) (li_password i) = Inr ()"
      and adm: "admit d ctx tenant (login_surface i) i u m v = (v', Inr out)"
      by (auto simp: beginLogin_def Let_def usable_def is_ok_def split: option.splits if_splits sum.splits)
    from c have "u \<in> set (v_users v)" "us_email u = ToLower (TrimSpace (li_email i))" "m \<in> set (v_members v)" "mb_user m = us_id u"
      by (auto simp: findCandidate_def no_candidate_def GetUserByEmail_def GetActorByUser_def found_def
          split: if_splits option.splits sum.splits dest: find_SomeD)
    then show ?thesis
      using tenant admit_session [OF adm assms(2)] \<open>usable u m\<close> pw True
      by (auto simp: usable_def password_alone_def)
  next
    case False
    with login obtain t u m e way where t: "ParseTicket (dk_mac256 d) (dk_key d) (li_ticket i) (dk_start d) = Inr t"
      "tk_tenant t = tenant" "tk_surface t = login_surface i" and h: "ticket_holder t v = Inr (u, m, e)"
      and ok: "us_disabled u = None" "is_member m"
      and s: "settle d ctx (sessionActor tenant m) u way e (li_code i) v = (v', Inr out)"
      by (auto simp: completeLogin_def split: sum.splits if_splits)
    from h have own: "u \<in> set (v_users v)" "us_id u = tk_user t" "m \<in> set (v_members v)" "mb_user m = tk_user t"
      "enrolled (us_id u) v = Some e"
      by (auto simp: ticket_holder_def GetUser_def GetActorByUser_def found_def GetUserTOTP_enrolled
          split: option.splits dest: find_SomeD)
    then show ?thesis
      using tenant t ok settle_session [OF s assms(2)] False
      by (intro exI [of _ tenant] exI [of _ u] exI [of _ m]) (auto simp: factor_shown_def)
  qed
qed

section \<open>What it does not cover\<close>

lemma verifyCode_accepts:
  assumes "sealer d = Inr (dk_crypto d)" and "Open (dk_crypto d) k (ut_cipher e) (ut_nonce e) = Inr secret"
    and "\<not> Locked (attempt_of e) (dk_clock d)" and "MatchTOTPCode (dk_crypto d) secret code (dk_clock d) = Some s"
    and "ut_step e < s"
  shows "verifyCode d k e code v = (v, Inr (Succeed s (attempt_of e)))"
  using assms by (simp add: verifyCode_def Verify_def attempt_of_def)

lemma Save_present:
  assumes "enrolled k v = Some e"
  shows "\<exists>v'. SaveUserTOTPAttempt db k a v = Inr v' \<and> v_users v' = v_users v \<and> v_members v' = v_members v"
proof -
  from assms have "0 < rows_matching (\<lambda>e. ut_user e = k) (v_totps v)"
    by (auto simp: enrolled_def rows_matching_pos dest: find_SomeD)
  then show ?thesis by (simp add: SaveUserTOTPAttempt_def)
qed

lemma prove_accepts:
  assumes "verifyCode d k e code v = (v, Inr att)" and "enrolled k v = Some e0"
  shows "\<exists>v'. prove d ctx a k e code v = (v', Inr ()) \<and> SaveUserTOTPAttempt (dk_db d) k att v = Inr v' \<and>
    v_users v' = v_users v \<and> v_members v' = v_members v \<and> v_codes v' = v_codes v"
  using assms(1) Save_present [OF assms(2), of "dk_db d" att] enrolled_Save(2)
  by (auto simp: prove_def write_vault_def)

text \<open>The enrolment is read in one transaction and the replay mark is written in another. Two proofs that read the
  same enrolment, one after the other, are both accepted on the same code.\<close>

lemma concurrent_proofs_share_a_code:
  assumes "enrolled k v = Some e" and "sealer d = Inr (dk_crypto d)"
    and "Open (dk_crypto d) k (ut_cipher e) (ut_nonce e) = Inr secret"
    and "\<not> Locked (attempt_of e) (dk_clock d)" and "MatchTOTPCode (dk_crypto d) secret code (dk_clock d) = Some s"
    and "ut_step e < s"
  shows "\<exists>v1 v2. prove d ctx a k e code v = (v1, Inr ()) \<and> prove d ctx' a' k e code v1 = (v2, Inr ())"
proof -
  note ok = verifyCode_accepts [OF assms(2-6)]
  from prove_accepts [OF ok assms(1), of ctx a] obtain v1 where p: "prove d ctx a k e code v = (v1, Inr ())"
    and s: "SaveUserTOTPAttempt (dk_db d) k (Succeed s (attempt_of e)) v = Inr v1" by blast
  from enrolled_Save(1) [OF s, of k] assms(1) obtain e1 where "enrolled k v1 = Some e1" by auto
  from prove_accepts [OF ok this, of ctx' a'] p show ?thesis by blast
qed

text \<open>A recovery code that is accepted sets the replay mark back to the beginning, so a code that was already
  accepted is accepted again for as long as it stays in the window.\<close>

lemma recovery_code_reopens:
  assumes "totpSelf ctx w = Inr (a, u)" and "redeem d0 ctx0 a0 (us_id u) rc v = Inr (w, True)"
    and "enrolled (us_id u) v = Some e" and "Confirmed e" and "sealer d = Inr (dk_crypto d)"
    and "Open (dk_crypto d) (us_id u) (ut_cipher e) (ut_nonce e) = Inr secret"
    and "MatchTOTPCode (dk_crypto d) secret code (dk_clock d) = Some s" and "0 < s"
  shows "\<exists>w'. VerifySecondFactor d ctx code w = (w', Inr ())"
proof -
  let ?k = "us_id u"
  from assms(2) obtain v1 i v2 where sp: "spendRecoveryCode d0 ?k rc v = (v1, i, True)"
    and save: "SaveUserTOTPAttempt (dk_db d0) ?k no_attempt v1 = Inr v2" and w: "same_factors v2 w"
    by (auto simp: redeem_def same_factors_def record_change_def split: prod.splits if_splits dest!: untouched(2))
  from spendRecoveryCode_spent [OF sp] obtain j where "SpendRecoveryCode j (dk_now d0) v = (v1, True)" by blast
  then have "enrolled ?k v1 = Some e" using left_codes_Spend(1) assms(3) by (simp add: enrolled_def)
  with enrolled_Save(1) [OF save, of ?k]
  obtain e' where e': "enrolled ?k w = Some e'" "Confirmed e'" "ut_cipher e' = ut_cipher e" "ut_nonce e' = ut_nonce e"
    "attempt_of e' = no_attempt"
    using w assms(4) by (auto simp: enrolled_def same_factors_def Confirmed_def attempt_of_def no_attempt_def)
  then have "verifyCode d ?k e' code w = (w, Inr (Succeed s (attempt_of e')))"
    using assms by (intro verifyCode_accepts [of _ _ _ secret]) (auto simp: attempt_of_def no_attempt_def Locked_def)
  from prove_accepts [OF this e'(1), of ctx a] show ?thesis
    using assms(1) e' GetUserTOTP_enrolled [of ?k w e'] by (auto simp: VerifySecondFactor_def)
qed

section \<open>An example\<close>

definition sample_factor :: totp_row where
  "sample_factor = \<lparr>ut_user = ''u1'', ut_cipher = base64 (bytes_of_text ''u1AAAAAAAA''), ut_nonce = base64 (replicate 12 0),
     ut_confirmed = Some 0, ut_step = 0, ut_failures = 0, ut_locked = None, ut_created = 0, ut_updated = 0\<rparr>"

definition sample_vault :: vault where
  "sample_vault = \<lparr>v_tenant = \<lparr>tn_id = ''t1'', tn_key = ''t'', tn_name = ''T'', tn_web = True, tn_cli = False, tn_ssh = False\<rparr>,
     v_users = [\<lparr>us_id = ''u1'', us_email = ''a@b'', us_hash = ''x'', us_global = False, us_change = False, us_disabled = None\<rparr>],
     v_members = [\<lparr>mb_actor = ''a1'', mb_user = ''u1'', mb_handle = ''ann'', mb_role = ''member'', mb_disabled = None\<rparr>],
     v_elsewhere = [], v_totps = [sample_factor], v_codes = [], v_sessions = [], v_log = [], v_audits = [], v_events = []\<rparr>"

definition sample_desk :: "time \<Rightarrow> desk" where
  "sample_desk t = \<lparr>dk_crypto = sample_crypto, dk_mac256 = sample_mac, dk_key = base64 (replicate 32 7),
     dk_derive = sample_derive, dk_params = DefaultParams, dk_busy = False, dk_start = t, dk_clock = t, dk_now = t, dk_db = t,
     dk_ids = (\<lambda>n. format_nat n), dk_secret = [], dk_nonce = [], dk_codes = [], dk_token = [1], dk_salt = replicate 16 7,
     dk_dummy = replicate 16 7, dk_standing = None\<rparr>"

definition sample_caller :: call_ctx where
  "sample_caller = \<lparr>c_actor = Some \<lparr>a_id = ''a1'', a_tenant = ''t1'', a_kind = ActorUser, a_handle = ''ann'', a_scopes = [],
     a_role = ''member'', a_token = [], a_project = []\<rparr>, c_tenant = Some ''t1'', c_source = ''web'', c_direct_store = False\<rparr>"

lemma sample_opens:
  "sealer (sample_desk t) = Inr sample_crypto"
  "Open sample_crypto ''u1'' (ut_cipher sample_factor) (ut_nonce sample_factor) = Inr ''AAAAAAAA''"
proof -
  have "base64 (replicate 32 7) \<noteq> []"
    using base64_decode_base64 [of "replicate 32 7"] by (auto simp: base64_decode_def raw64_decode_def decode_base_def group_count_def)
  then show "sealer (sample_desk t) = Inr sample_crypto"
    by (simp add: sealer_def sample_desk_def ParseTOTPKey_def TOTPKeyLength_def)
  have "bytes_of_text ''u1AAAAAAAA'' = bytes_of_text ''u1'' @ bytes_of_text ''AAAAAAAA''"
    by (simp add: bytes_of_text_def)
  moreover have "length (bytes_of_text ''u1'') = 2" by (simp add: bytes_of_text_def)
  ultimately show "Open sample_crypto ''u1'' (ut_cipher sample_factor) (ut_nonce sample_factor) = Inr ''AAAAAAAA''"
    by (simp add: Open_def sample_factor_def sample_crypto_def)
qed

lemma sample_passes:
  assumes "totpSelf sample_caller v = Inr (a, u)" and "us_id u = ''u1''" and "enrolled ''u1'' v = Some e" and "Confirmed e"
    and "same_factor sample_factor e" and "ut_locked e = None" and "ut_step e < TOTPStep t - 1"
  shows "\<exists>v' e'. passes ''u1'' (sample_desk t) sample_caller (Proves ''000000'') v v' \<and> v_users v' = v_users v \<and>
    v_members v' = v_members v \<and> v_codes v' = v_codes v \<and> enrolled ''u1'' v' = Some e' \<and> Confirmed e' \<and>
    same_factor sample_factor e' \<and> ut_locked e' = None \<and> ut_step e' = TOTPStep t - 1"
proof -
  let ?d = "sample_desk t" and ?s = "TOTPStep t - 1"
  have cr: "dk_crypto ?d = sample_crypto" and clock: "dk_clock ?d = t" by (simp_all add: sample_desk_def)
  have v: "verifyCode ?d ''u1'' e ''000000'' v = (v, Inr (Succeed ?s (attempt_of e)))"
    using assms sample_opens sample_match
    by (intro verifyCode_accepts [of _ _ _ "''AAAAAAAA''"]) (simp_all add: cr clock same_factor_def attempt_of_def Locked_def)
  from prove_accepts [OF v assms(3), of sample_caller a] obtain v' where
    p: "prove ?d sample_caller a ''u1'' e ''000000'' v = (v', Inr ())"
    and s: "SaveUserTOTPAttempt (dk_db ?d) ''u1'' (Succeed ?s (attempt_of e)) v = Inr v'"
    and f: "v_users v' = v_users v" "v_members v' = v_members v" "v_codes v' = v_codes v" by blast
  have "passes ''u1'' ?d sample_caller (Proves ''000000'') v v'"
    using p assms(1-4) GetUserTOTP_enrolled [of "''u1''" v e] by (simp add: passes_def VerifySecondFactor_def)
  then show ?thesis
    using f enrolled_Save(1) [OF s, of "''u1''"] assms(3-7)
    by (auto simp: same_factor_def Confirmed_def Succeed_def attempt_of_def)
qed

theorem code_single_use_witness:
  "\<exists>v v1 v3. passes ''u1'' (sample_desk (from_unix 3000)) sample_caller (Proves ''000000'') v v1 \<and>
     passes ''u1'' (sample_desk (from_unix 3030)) sample_caller (Proves ''000000'') v1 v3 \<and>
     (\<exists>secret s s'. MatchTOTPCode sample_crypto secret ''000000'' (from_unix 3000) = Some s \<and>
       MatchTOTPCode sample_crypto secret ''000000'' (from_unix 3030) = Some s' \<and> s < s')"
proof -
  have steps: "TOTPStep (from_unix 3000) = 100" "TOTPStep (from_unix 3030) = 101"
    by (simp_all add: TOTPStep_def Unix_def from_unix_def TOTPPeriod_def Second_def quo_def sgn_if)
  have self: "\<exists>a u. totpSelf sample_caller w = Inr (a, u) \<and> us_id u = ''u1''"
    if "v_users w = v_users sample_vault" "v_members w = v_members sample_vault" for w
    using that by (simp add: totpSelf_def RequireActor_def sample_caller_def accountOfActor_def GetMemberActor_def
        accountOf_def GetUser_def found_def sample_vault_def)
  have e0: "enrolled ''u1'' sample_vault = Some sample_factor" "Confirmed sample_factor" "same_factor sample_factor sample_factor"
    "ut_locked sample_factor = None" "ut_step sample_factor < 99"
    by (simp_all add: enrolled_def sample_vault_def sample_factor_def Confirmed_def same_factor_def)
  from self [of sample_vault] obtain a u where "totpSelf sample_caller sample_vault = Inr (a, u)" "us_id u = ''u1''" by auto
  from sample_passes [OF this e0(1-4), of "from_unix 3000"] e0(5) steps
  obtain v1 e1 where p1: "passes ''u1'' (sample_desk (from_unix 3000)) sample_caller (Proves ''000000'') sample_vault v1"
    and f1: "v_users v1 = v_users sample_vault" "v_members v1 = v_members sample_vault" "v_codes v1 = v_codes sample_vault"
    and e1: "enrolled ''u1'' v1 = Some e1" "Confirmed e1" "same_factor sample_factor e1" "ut_locked e1 = None" "ut_step e1 = 99"
    by auto
  from self [OF f1(1,2)] obtain a' u' where "totpSelf sample_caller v1 = Inr (a', u')" "us_id u' = ''u1''" by auto
  from sample_passes [OF this e1(1-4), of "from_unix 3030"] e1(5) steps
  obtain v3 where p2: "passes ''u1'' (sample_desk (from_unix 3030)) sample_caller (Proves ''000000'') v1 v3"
    and f3: "v_codes v3 = v_codes v1" by auto
  have "run_factor [] v1 = v1" by (simp add: run_factor_def)
  from code_single_use [OF e0(1,2) _ p1 this p2] f1 f3 p1 p2 show ?thesis
    by (simp add: sample_desk_def left_codes_def presented_def) blast
qed

definition sample_hash :: string where
  "sample_hash = encode_hash DefaultParams (replicate 16 7) (sample_derive ''correct horse staple'' (replicate 16 7) DefaultParams)"

definition plain_vault :: vault where
  "plain_vault = sample_vault\<lparr>v_totps := [], v_users := [\<lparr>us_id = ''u1'', us_email = ''a@b'', us_hash = sample_hash, us_global = False,
     us_change = False, us_disabled = None\<rparr>]\<rparr>"

definition sample_login :: login_input where
  "sample_login = \<lparr>li_email = ''a@b'', li_password = ''correct horse staple'', li_new_password = [], li_surface = ''cli'',
     li_ticket = [], li_code = []\<rparr>"

lemma sample_session:
  "\<exists>v' s. Login (sample_desk 0) sample_caller sample_login plain_vault = (v', Inr (session_result s))"
proof -
  have "decode_hash sample_hash = Inr (DefaultParams, replicate 16 7, sample_derive ''correct horse staple'' (replicate 16 7) DefaultParams)"
    unfolding sample_hash_def
    by (intro decode_encode_hash)
      (simp_all add: params_Validate_def DefaultParams_def MaxSaltLength_def MaxKeyLength_def sample_derive_def)
  then have pw: "verify_password sample_derive False sample_hash ''correct horse staple'' = Inr ()" "\<not> NeedsRehash sample_hash DefaultParams"
    and some: "sample_hash \<noteq> []"
    by (auto simp: verify_password_def NeedsRehash_def weakerThan_def) (simp add: decode_hash_def)
  have texts: "ToLower (TrimSpace ''a@b'') = ''a@b''" "TrimSpace ''a1'' = ''a1''" "TrimSpace ''t1'' = ''t1''" "\<not> blank ''t1''"
    by code_simp+
  have cand: "findCandidate ''a@b'' plain_vault = \<lparr>cd_user = Some (hd (v_users plain_vault)), cd_actor = Some (hd (v_members plain_vault))\<rparr>"
    by (simp add: findCandidate_def GetUserByEmail_def GetActorByUser_def found_def plain_vault_def sample_vault_def)
  have tenant: "RequireTenant sample_caller = Inr ''t1''"
    using texts by (simp add: RequireTenant_def TenantFrom_def sample_caller_def)
  have none: "secondFactorFor (sample_desk 0) sample_caller ''t1'' ''cli'' a (hd (v_users plain_vault)) ''password'' plain_vault = (plain_vault, Inr None)" for a
    by (simp add: secondFactorFor_def RequiresTOTP_def SurfaceWeb_def SurfaceCLI_def GetUserTOTP_def found_def plain_vault_def sample_vault_def)
  obtain v' s where "mintSession (sample_desk 0) sample_caller (sessionActor ''t1'' (hd (v_members plain_vault))) (hd (v_users plain_vault)) []
      ''password'' Inr plain_vault = (v', Inr (session_result s))"
    by (simp add: mintSession_def mintSessionIf_def MintSession_def Let_def write_vault_def CreateSession_def sessionActor_def
        plain_vault_def sample_vault_def texts)
  then have "Login (sample_desk 0) sample_caller sample_login plain_vault = (v', Inr (session_result s))"
    using pw some texts(1) cand tenant none
    by (simp add: Login_def beginLogin_def admit_def replacementPassword_def rehash_def Let_def sample_login_def valid_surface_def Surfaces_def
        SurfaceCLI_def usable_def is_member_def sample_desk_def plain_vault_def sample_vault_def)
  then show ?thesis by blast
qed

theorem session_needs_every_step_witness:
  "\<exists>v' out s. Login (sample_desk 0) sample_caller sample_login plain_vault = (v', Inr out) \<and> lr_session out = Some s \<and>
     (\<exists>m\<in>set (v_members plain_vault). so_actor s = mb_actor m \<and> is_member m)"
proof -
  from sample_session obtain v' s where l: "Login (sample_desk 0) sample_caller sample_login plain_vault = (v', Inr (session_result s))" by blast
  have s: "lr_session (session_result s) = Some s" by (simp add: session_result_def)
  from session_needs_every_step [OF l s] l s show ?thesis by (fastforce simp: session_for_def)
qed

end
