(* ===== verification/Webhooks.thy ===== *)
theory Webhooks
  imports Task_Store "HOL-Library.List_Lexorder" "HOL-Library.Char_ord"
begin

text \<open>
  Outgoing deliveries (\<open>internal/webhook/webhook.go\<close>, \<open>schedule.go\<close>, \<open>dispatcher.go\<close> and the statements of
  \<open>internal/store/sqlite/webhook.go\<close> and \<open>inboxchannel.go\<close>): which endpoints an event is queued for, the
  retry schedule, claiming due deliveries under a lock, attempting them and recording the outcome. The webhook
  queue and the personal channels' queue have the same columns and the same statements, so one row type and one set of
  functions serve both; what a delivery is about is its \<open>dl_subject\<close>. The network, with the policy on
  addresses in front of it, is the outcome handed to an attempt.
\<close>

section \<open>Endpoints and events\<close>

record endpoint =
  ep_id :: string
  ep_url :: string
  ep_secret :: string
  ep_types :: "string list"
  ep_active :: bool
  ep_created :: time

definition HasSuffix :: "string \<Rightarrow> string \<Rightarrow> bool" where
  "HasSuffix s suffix \<longleftrightarrow> length suffix \<le> length s \<and> drop (length s - length suffix) s = suffix"

definition HasPrefix :: "string \<Rightarrow> string \<Rightarrow> bool" where
  "HasPrefix s prefix \<longleftrightarrow> take (length prefix) s = prefix"

definition MatchesType :: "string \<Rightarrow> string \<Rightarrow> bool" where
  "MatchesType pattern event_type =
    (let p = TrimSpace pattern in
     if p = ''*'' \<or> p = event_type then True
     else if HasSuffix p ''*'' then HasPrefix event_type (butlast p)
     else False)"

definition Matches :: "endpoint \<Rightarrow> string \<Rightarrow> bool" where
  "Matches e t =
    (if \<not> ep_active e then False
     else if ep_types e = [] then True
     else list_ex (\<lambda>p. MatchesType p t) (ep_types e))"

section \<open>The schedule\<close>

type_synonym schedule = "duration list"

definition DefaultSchedule :: schedule where
  "DefaultSchedule = [Second, 5 * Second, 30 * Second, 5 * Minute, 30 * Minute, 2 * Hour, 6 * Hour]"

definition MaxAttempts :: "schedule \<Rightarrow> int" where "MaxAttempts s = int (length s) + 1"

definition next_wait :: "schedule \<Rightarrow> int \<Rightarrow> duration option" where
  "next_wait s attempts =
    (let attempts = (if attempts < 1 then 1 else attempts)
     in if int (length s) < attempts then None else Some (s ! nat (attempts - 1)))"

definition NextAttemptAt :: "schedule \<Rightarrow> int \<Rightarrow> time \<Rightarrow> time \<times> bool" where
  "NextAttemptAt s attempts now = (case next_wait s attempts of None \<Rightarrow> (now, False) | Some w \<Rightarrow> (Add now w, True))"

section \<open>The queue\<close>

datatype subject = Of_event int | Of_item string | Test_message

record delivery =
  dl_id :: string
  dl_target :: string
  dl_subject :: subject
  dl_attempts :: int
  dl_next :: time
  dl_locked_by :: "string option"
  dl_locked_until :: "time option"
  dl_status :: string
  dl_error :: string
  dl_code :: int
  dl_created :: time

definition DeliveryPending :: string where "DeliveryPending = ''pending''"
definition DeliveryDelivered :: string where "DeliveryDelivered = ''delivered''"
definition DeliveryFailed :: string where "DeliveryFailed = ''failed''"

definition queued_delivery :: "string \<Rightarrow> string \<Rightarrow> subject \<Rightarrow> time \<Rightarrow> delivery" where
  "queued_delivery k target sub now = \<lparr>dl_id = k, dl_target = target, dl_subject = sub, dl_attempts = 0, dl_next = now,
     dl_locked_by = None, dl_locked_until = None, dl_status = DeliveryPending, dl_error = [], dl_code = 0, dl_created = now\<rparr>"

definition EnqueueDelivery :: "delivery \<Rightarrow> delivery list \<Rightarrow> delivery list res" where
  "EnqueueDelivery d rows =
    (if dl_id d \<in> dl_id ` set rows then Inl (fail KindConflict)
     else if (dl_target d, dl_subject d) \<in> (\<lambda>r. (dl_target r, dl_subject r)) ` set rows then Inl (fail KindConflict)
     else Inr (rows @ [d]))"

text \<open>\<open>Enqueue\<close>: one delivery of a persisted event for every endpoint that matches it.\<close>

definition Enqueue :: "(nat \<Rightarrow> string) \<Rightarrow> time \<Rightarrow> int \<Rightarrow> string \<Rightarrow> endpoint list \<Rightarrow> delivery list \<Rightarrow> (delivery list \<times> nat) res" where
  "Enqueue ids now seq typ endpoints rows =
    (if seq \<le> 0 then Inl (fail KindInvalid)
     else let matching = filter (\<lambda>e. Matches e typ) endpoints
          in rbind (fold_res (\<lambda>(i, e). EnqueueDelivery (queued_delivery (ids i) (ep_id e) (Of_event seq) now))
               (enumerate 0 matching) rows) (\<lambda>rows. Inr (rows, length matching)))"

definition claimable :: "time \<Rightarrow> delivery \<Rightarrow> bool" where
  "claimable now r \<longleftrightarrow> dl_status r = DeliveryPending \<and> dl_next r \<le> now \<and>
     (case dl_locked_until r of None \<Rightarrow> True | Some u \<Rightarrow> u \<le> now)"

definition by_due :: "delivery list \<Rightarrow> delivery list" where
  "by_due rows = sort_key dl_next (sort_key dl_id rows)"

definition ClaimDeliveries :: "string \<Rightarrow> time \<Rightarrow> time \<Rightarrow> int \<Rightarrow> delivery list \<Rightarrow> delivery list \<times> delivery list" where
  "ClaimDeliveries owner now until limit rows =
    (let n = (if limit \<le> 0 then DefaultPageLimit else nat limit);
         ids = map dl_id (take n (by_due (filter (claimable now) rows)));
         rows' = update_where (\<lambda>r. dl_id r \<in> set ids) (\<lambda>r. r\<lparr>dl_locked_by := Some owner, dl_locked_until := Some until\<rparr>) rows
     in if ids = [] then (rows, [])
        else (rows', by_due (filter (\<lambda>r. dl_locked_by r = Some owner \<and> dl_locked_until r = Some until) rows')))"

definition marked :: "string \<Rightarrow> int \<Rightarrow> string \<Rightarrow> time \<Rightarrow> delivery \<Rightarrow> delivery" where
  "marked status code err next_at r = r\<lparr>dl_status := status, dl_code := code, dl_error := err, dl_locked_by := None,
     dl_locked_until := None, dl_next := next_at, dl_attempts := dl_attempts r + 1\<rparr>"

definition mark :: "string \<Rightarrow> string \<Rightarrow> int \<Rightarrow> string \<Rightarrow> time \<Rightarrow> delivery list \<Rightarrow> delivery list res" where
  "mark k status code err next_at rows =
    (if rows_matching (\<lambda>r. dl_id r = k) rows = 0 then Inl (fail KindNotFound)
     else Inr (update_where (\<lambda>r. dl_id r = k) (marked status code err next_at) rows))"

definition MarkDelivered :: "string \<Rightarrow> int \<Rightarrow> time \<Rightarrow> delivery list \<Rightarrow> delivery list res" where
  "MarkDelivered k code at_time = mark k DeliveryDelivered code [] at_time"

definition MarkFailed :: "string \<Rightarrow> int \<Rightarrow> string \<Rightarrow> time \<Rightarrow> bool \<Rightarrow> delivery list \<Rightarrow> delivery list res" where
  "MarkFailed k code err next_at terminal = mark k (if terminal then DeliveryFailed else DeliveryPending) code err next_at"

section \<open>The dispatcher\<close>

record channel_row =
  cn_id :: string
  cn_actor :: string
  cn_active :: bool

record hooks =
  hk_endpoints :: "endpoint list"
  hk_events :: "int list"
  hk_channels :: "channel_row list"
  hk_items :: "(string \<times> string) list"
  hk_rows :: "delivery list"
  hk_channel_rows :: "delivery list"

record dispatcher =
  dp_owner :: string
  dp_lease :: duration
  dp_batch :: int
  dp_schedule :: schedule

datatype job = Hook_job delivery | Channel_job delivery

definition load :: "hooks \<Rightarrow> delivery \<Rightarrow> string" where
  "load h r = (case find (\<lambda>e. ep_id e = dl_target r) (hk_endpoints h) of
     None \<Rightarrow> ''endpoint is no longer registered''
   | Some e \<Rightarrow> if \<not> ep_active e then ''endpoint is inactive''
       else (case dl_subject r of Of_event seq \<Rightarrow> if seq \<in> set (hk_events h) then [] else ''event is no longer available''
             | _ \<Rightarrow> ''event is no longer available''))"

definition loadChannel :: "hooks \<Rightarrow> delivery \<Rightarrow> string" where
  "loadChannel h r = (case find (\<lambda>c. cn_id c = dl_target r) (hk_channels h) of
     None \<Rightarrow> ''channel is no longer registered''
   | Some c \<Rightarrow> if \<not> cn_active c then ''channel is turned off''
       else (case dl_subject r of Of_item k \<Rightarrow> if (cn_actor c, k) \<in> set (hk_items h) then [] else ''inbox item is no longer available''
             | _ \<Rightarrow> []))"

fun load_all :: "(delivery \<Rightarrow> string) \<Rightarrow> time \<Rightarrow> delivery list \<Rightarrow> delivery list \<Rightarrow> (delivery list \<times> delivery list) res" where
  "load_all reason now [] rows = Inr (rows, [])"
| "load_all reason now (r # claimed) rows =
    (if reason r \<noteq> []
     then rbind (MarkFailed (dl_id r) 0 (reason r) now True rows) (load_all reason now claimed)
     else rbind (load_all reason now claimed rows) (\<lambda>(rows, jobs). Inr (rows, r # jobs)))"

definition claim_jobs :: "dispatcher \<Rightarrow> time \<Rightarrow> int \<Rightarrow> hooks \<Rightarrow> (hooks \<times> job list) res" where
  "claim_jobs d now limit h =
    (case ClaimDeliveries (dp_owner d) now (Add now (dp_lease d)) limit (hk_rows h) of (rows, claimed) \<Rightarrow>
      rbind (load_all (load h) now claimed rows) (\<lambda>(rows, hooks).
        let h = h\<lparr>hk_rows := rows\<rparr>; jobs = map Hook_job hooks in
        if limit \<le> int (length claimed) then Inr (h, jobs)
        else (case ClaimDeliveries (dp_owner d) now (Add now (dp_lease d)) (limit - int (length claimed)) (hk_channel_rows h) of
            (crows, cclaimed) \<Rightarrow>
              rbind (load_all (loadChannel h) now cclaimed crows) (\<lambda>(crows, chans).
                Inr (h\<lparr>hk_channel_rows := crows\<rparr>, jobs @ map Channel_job chans)))))"

definition claim_due :: "dispatcher \<Rightarrow> time \<Rightarrow> int \<Rightarrow> hooks \<Rightarrow> hooks \<times> job list res" where
  "claim_due d now limit h = (case claim_jobs d now limit h of Inl e \<Rightarrow> (h, Inl e) | Inr (h, jobs) \<Rightarrow> (h, Inr jobs))"

text \<open>What came of sending: a status code, a failure to send described in a category, or a request that could not be built.\<close>

datatype outcome = Answered int | Unsent string | Unbuilt goerr

definition responseError :: "int \<Rightarrow> string" where
  "responseError code = (if code = 0 then ''no response'' else ''endpoint responded '' @ FormatInt code)"

definition success :: "outcome \<Rightarrow> bool" where
  "success out \<longleftrightarrow> (case out of Answered code \<Rightarrow> 200 \<le> code \<and> code < 300 | _ \<Rightarrow> False)"

definition settle_row :: "schedule \<Rightarrow> delivery \<Rightarrow> time \<Rightarrow> outcome \<Rightarrow> delivery list \<Rightarrow> delivery list res" where
  "settle_row sch r now out rows = (case out of
     Unbuilt err \<Rightarrow> Inl err
   | Answered code \<Rightarrow>
       if success out then MarkDelivered (dl_id r) code now rows
       else let (next_at, retry) = NextAttemptAt sch (dl_attempts r + 1) now
            in MarkFailed (dl_id r) code (responseError code) next_at (\<not> retry) rows
   | Unsent reason \<Rightarrow>
       let (next_at, retry) = NextAttemptAt sch (dl_attempts r + 1) now
       in MarkFailed (dl_id r) 0 reason next_at (\<not> retry) rows)"

definition attempt_job :: "dispatcher \<Rightarrow> job \<Rightarrow> time \<Rightarrow> outcome \<Rightarrow> hooks \<Rightarrow> hooks \<times> unit res" where
  "attempt_job d j now out h = (case j of
     Hook_job r \<Rightarrow> (case settle_row (dp_schedule d) r now out (hk_rows h) of
         Inl e \<Rightarrow> (h, Inl e) | Inr rows \<Rightarrow> (h\<lparr>hk_rows := rows\<rparr>, Inr ()))
   | Channel_job r \<Rightarrow> (case settle_row (dp_schedule d) r now out (hk_channel_rows h) of
         Inl e \<Rightarrow> (h, Inl e) | Inr rows \<Rightarrow> (h\<lparr>hk_channel_rows := rows\<rparr>, Inr ())))"

record drained =
  Attempted :: nat
  Delivered :: nat
  Failed :: nat

definition nothing_drained :: drained where "nothing_drained = \<lparr>Attempted = 0, Delivered = 0, Failed = 0\<rparr>"

definition add_drained :: "drained \<Rightarrow> drained \<Rightarrow> drained" where
  "add_drained a b = \<lparr>Attempted = Attempted a + Attempted b, Delivered = Delivered a + Delivered b, Failed = Failed a + Failed b\<rparr>"

text \<open>\<open>net i\<close> is when the \<open>i\<close>-th request of the pass ended and how.\<close>

fun attempt_all :: "dispatcher \<Rightarrow> (nat \<Rightarrow> time \<times> outcome) \<Rightarrow> nat \<Rightarrow> job list \<Rightarrow> hooks \<Rightarrow> hooks \<times> drained \<times> goerr option" where
  "attempt_all d net i [] h = (h, nothing_drained, None)"
| "attempt_all d net i (j # jobs) h =
    (case net i of (now, out) \<Rightarrow>
     (case attempt_job d j now out h of
        (h, Inl e) \<Rightarrow> (h, \<lparr>Attempted = 1, Delivered = 0, Failed = 0\<rparr>, Some e)
      | (h, Inr _) \<Rightarrow>
          (case attempt_all d net (Suc i) jobs h of (h, res, e) \<Rightarrow>
             (h, add_drained \<lparr>Attempted = 1, Delivered = of_bool (success out), Failed = of_bool (\<not> success out)\<rparr> res, e))))"

definition pass :: "dispatcher \<Rightarrow> time \<Rightarrow> (nat \<Rightarrow> time \<times> outcome) \<Rightarrow> int \<Rightarrow> hooks \<Rightarrow> hooks \<times> (drained \<times> nat \<times> goerr option)" where
  "pass d now net limit h = (case claim_due d now limit h of
     (h, Inl e) \<Rightarrow> (h, nothing_drained, 0, Some e)
   | (h, Inr jobs) \<Rightarrow> (case attempt_all d net 0 jobs h of (h, res, e) \<Rightarrow> (h, res, length jobs, e)))"

definition DrainOnce :: "dispatcher \<Rightarrow> time \<Rightarrow> (nat \<Rightarrow> time \<times> outcome) \<Rightarrow> hooks \<Rightarrow> hooks \<times> drained \<times> goerr option" where
  "DrainOnce d now net h = (case pass d now net (dp_batch d) h of (h, res, n, e) \<Rightarrow> (h, res, e))"

text \<open>\<open>Drain\<close> with a positive bound on deliveries: one at a time, while the budget lasts and something is claimed.
  \<open>world n\<close> gives the readings of the \<open>n\<close>-th round: the clock before it, its claim and its request.\<close>

fun drain_rounds :: "dispatcher \<Rightarrow> time \<Rightarrow> duration \<Rightarrow> (nat \<Rightarrow> time \<times> time \<times> time \<times> outcome) \<Rightarrow> nat \<Rightarrow> nat \<Rightarrow> drained \<Rightarrow> hooks \<Rightarrow>
    hooks \<times> drained \<times> goerr option" where
  "drain_rounds d start budget world n 0 res h = (h, res, None)"
| "drain_rounds d start budget world n (Suc left) res h =
    (case world n of (at_time, now, ended, out) \<Rightarrow>
     if 0 < budget \<and> budget \<le> Sub at_time start then (h, res, None)
     else (case pass d now (\<lambda>_. (ended, out)) 1 h of
        (h, r, claimed, Some e) \<Rightarrow> (h, add_drained res r, Some e)
      | (h, r, claimed, None) \<Rightarrow>
          if claimed = 0 then (h, add_drained res r, None)
          else drain_rounds d start budget world (Suc n) left (add_drained res r) h))"

definition Redeliver :: "string \<Rightarrow> time \<Rightarrow> hooks \<Rightarrow> hooks \<times> delivery res" where
  "Redeliver k now h = (case find (\<lambda>r. dl_id r = k) (hk_rows h) of
     None \<Rightarrow> (h, Inl (fail KindNotFound))
   | Some r \<Rightarrow> (case MarkFailed k 0 [] now False (hk_rows h) of
         Inl e \<Rightarrow> (h, Inl e)
       | Inr rows \<Rightarrow> (case find (\<lambda>r. dl_id r = k) rows of
             None \<Rightarrow> (h, Inl (fail KindNotFound)) | Some r \<Rightarrow> (h\<lparr>hk_rows := rows\<rparr>, Inr r))))"

end
