(* ===== verification/Delivery_Rules.thy ===== *)
theory Delivery_Rules
  imports Webhooks
begin

text \<open>
  What the delivery queue guarantees. A queue is well formed when its identifiers are distinct, a locked row is
  pending and a pending row has an attempt left; what is still owed, the attempts left to all pending rows together, goes
  down with every attempt, so a dispatcher that keeps draining settles everything. The last lemmas show what the
  lock does not cover.
\<close>

section \<open>A queue and what it still owes\<close>

definition delivery_ok :: "schedule \<Rightarrow> delivery \<Rightarrow> bool" where
  "delivery_ok sch r \<longleftrightarrow> dl_status r \<in> {DeliveryPending, DeliveryDelivered, DeliveryFailed} \<and>
     (dl_locked_until r \<noteq> None \<longrightarrow> dl_status r = DeliveryPending) \<and>
     (dl_status r = DeliveryPending \<longrightarrow> 0 \<le> dl_attempts r \<and> dl_attempts r < MaxAttempts sch)"

definition queue_ok :: "schedule \<Rightarrow> delivery list \<Rightarrow> bool" where
  "queue_ok sch rows \<longleftrightarrow> distinct (map dl_id rows) \<and> (\<forall>r\<in>set rows. delivery_ok sch r)"

definition owed_by :: "schedule \<Rightarrow> delivery \<Rightarrow> nat" where
  "owed_by sch r = (if dl_status r = DeliveryPending then nat (MaxAttempts sch - dl_attempts r) else 0)"

definition owed :: "schedule \<Rightarrow> delivery list \<Rightarrow> nat" where "owed sch rows = sum_list (map (owed_by sch) rows)"

lemmas statuses = DeliveryPending_def DeliveryDelivered_def DeliveryFailed_def

lemma owed_map:
  assumes "distinct (map dl_id rows)" and "r \<in> set rows"
  shows "owed sch (update_where (\<lambda>x. dl_id x = dl_id r) f rows) + owed_by sch r = owed sch rows + owed_by sch (f r)"
  using assms
proof (induction rows)
  case (Cons x rows)
  show ?case
  proof (cases "x = r")
    case True
    then have "\<forall>y\<in>set rows. dl_id y \<noteq> dl_id r" using Cons.prems(1) by (auto simp: image_iff)
    then have "update_where (\<lambda>x. dl_id x = dl_id r) f rows = rows" by (auto simp: update_where_def intro: map_idI)
    then show ?thesis using True by (simp add: owed_def update_where_def)
  next
    case False
    then have "dl_id x \<noteq> dl_id r" "r \<in> set rows" using Cons.prems by (auto simp: image_iff)
    then show ?thesis using Cons.IH Cons.prems(1) by (simp add: owed_def update_where_def)
  qed
qed simp

lemma marked_simps [simp]:
  "dl_id (marked st code err t r) = dl_id r" "dl_status (marked st code err t r) = st"
  "dl_locked_until (marked st code err t r) = None" "dl_attempts (marked st code err t r) = dl_attempts r + 1"
  "dl_next (marked st code err t r) = t" "dl_locked_by (marked st code err t r) = None"
  by (simp_all add: marked_def)

lemma mark_Inr:
  "mark k st code err t rows = Inr rows' \<Longrightarrow> rows' = update_where (\<lambda>r. dl_id r = k) (marked st code err t) rows"
  by (auto simp: mark_def split: if_splits)

lemma mark_ids: "mark k st code err t rows = Inr rows' \<Longrightarrow> map dl_id rows' = map dl_id rows"
  by (auto simp: map_update_where dest: mark_Inr)

lemma mark_other: "mark k st code err t rows = Inr rows' \<Longrightarrow> dl_id r \<noteq> k \<Longrightarrow> r \<in> set rows' \<longleftrightarrow> r \<in> set rows"
  by (auto simp: set_update_where dest!: mark_Inr split: if_splits)

lemma mark_row:
  assumes "mark (dl_id r) st code err t rows = Inr rows'" and "distinct (map dl_id rows)" and "r \<in> set rows"
  shows "x \<in> set rows' \<longleftrightarrow> x = marked st code err t r \<or> x \<in> set rows \<and> dl_id x \<noteq> dl_id r"
  using mark_Inr [OF assms(1)] distinct_key_inj [OF assms(2) _ assms(3)] assms(3)
  by (auto simp: set_update_where image_iff)

text \<open>Recording an outcome of a pending row: with a retry only while one is left, a debt is paid.\<close>

lemma mark_pays:
  assumes "queue_ok sch rows" and "r \<in> set rows" and "dl_status r = DeliveryPending"
    and "mark (dl_id r) st code err t rows = Inr rows'" and "st = DeliveryPending \<Longrightarrow> dl_attempts r + 1 < MaxAttempts sch"
    and "st \<in> {DeliveryPending, DeliveryDelivered, DeliveryFailed}"
  shows "queue_ok sch rows' \<and> owed sch rows' < owed sch rows"
proof -
  from assms(1) have d: "distinct (map dl_id rows)" by (simp add: queue_ok_def)
  have a: "0 \<le> dl_attempts r \<and> dl_attempts r < MaxAttempts sch" using assms(1-3) by (auto simp: queue_ok_def delivery_ok_def)
  have "delivery_ok sch (marked st code err t r)" using a assms(5,6) by (simp add: delivery_ok_def)
  then have "queue_ok sch rows'"
    using assms(1) mark_ids [OF assms(4)] by (auto simp: queue_ok_def mark_row [OF assms(4) d assms(2)])
  moreover have "owed_by sch (marked st code err t r) < owed_by sch r" using a assms(3,5) by (auto simp: owed_by_def)
  then have "owed sch rows' < owed sch rows"
    using owed_map [OF d assms(2), of sch "marked st code err t"] unfolding mark_Inr [OF assms(4)] by linarith
  ultimately show ?thesis by blast
qed

lemma next_wait_left: "0 \<le> a \<Longrightarrow> next_wait sch (a + 1) = Some w \<Longrightarrow> a + 1 < MaxAttempts sch"
  by (auto simp: next_wait_def MaxAttempts_def Let_def split: if_splits)

lemma settle_row_mark:
  assumes "settle_row sch r now out rows = Inr rows'" and "0 \<le> dl_attempts r"
  shows "\<exists>st code err t. mark (dl_id r) st code err t rows = Inr rows' \<and>
    (st = DeliveryPending \<longrightarrow> dl_attempts r + 1 < MaxAttempts sch) \<and> st \<in> {DeliveryPending, DeliveryDelivered, DeliveryFailed}"
  using assms next_wait_left [OF assms(2), of sch]
  by (auto simp: settle_row_def MarkDelivered_def MarkFailed_def NextAttemptAt_def statuses
      split: outcome.splits if_splits option.splits)

section \<open>Claiming\<close>

lemma set_by_due [simp]: "set (by_due rows) = set rows"
  by (simp add: by_due_def)

lemma map_by_due: "distinct (map dl_id rows) \<Longrightarrow> distinct (map dl_id (by_due rows))"
  by (auto simp: by_due_def distinct_map)

definition locked :: "string \<Rightarrow> time \<Rightarrow> delivery \<Rightarrow> delivery" where
  "locked owner until r = r\<lparr>dl_locked_by := Some owner, dl_locked_until := Some until\<rparr>"

lemma ClaimDeliveries_rows:
  assumes "ClaimDeliveries owner now until limit rows = (rows', claimed)"
  obtains "claimed = []" and "rows' = rows" and "\<forall>r\<in>set rows. \<not> claimable now r"
  | ids where "ids \<noteq> {}" and "ids \<subseteq> dl_id ` {r \<in> set rows. claimable now r}"
    and "rows' = update_where (\<lambda>r. dl_id r \<in> ids) (locked owner until) rows"
    and "claimed = by_due (filter (\<lambda>r. dl_locked_by r = Some owner \<and> dl_locked_until r = Some until) rows')"
proof -
  define due where "due = take (if limit \<le> 0 then DefaultPageLimit else nat limit) (by_due (filter (claimable now) rows))"
  define ids where "ids = dl_id ` set due"
  have split: "ClaimDeliveries owner now until limit rows = (if due = [] then (rows, []) else
      (update_where (\<lambda>r. dl_id r \<in> ids) (locked owner until) rows,
       by_due (filter (\<lambda>r. dl_locked_by r = Some owner \<and> dl_locked_until r = Some until)
         (update_where (\<lambda>r. dl_id r \<in> ids) (locked owner until) rows))))"
    unfolding ClaimDeliveries_def Let_def due_def ids_def locked_def [abs_def] map_is_Nil_conv set_map by (rule refl)
  have "set due \<subseteq> {r \<in> set rows. claimable now r}"
    using set_take_subset [of _ "by_due (filter (claimable now) rows)"] by (simp only: due_def) auto
  then have sub: "ids \<subseteq> dl_id ` {r \<in> set rows. claimable now r}" by (auto simp: ids_def)
  show ?thesis
  proof (cases "due = []")
    case True
    then have "by_due (filter (claimable now) rows) = []"
      by (simp add: due_def DefaultPageLimit_def split: if_splits)
    then have "filter (claimable now) rows = []" by (metis set_by_due set_empty)
    then show ?thesis using that(1) split assms True by (simp add: filter_empty_conv)
  next
    case False
    then show ?thesis using that(2) [of ids] sub split assms by (simp add: ids_def)
  qed
qed

lemma claimable_pending: "claimable now r \<Longrightarrow> dl_status r = DeliveryPending"
  by (simp add: claimable_def)

definition handed :: "schedule \<Rightarrow> delivery list \<Rightarrow> delivery list \<Rightarrow> bool" where
  "handed sch rows claimed \<longleftrightarrow> queue_ok sch rows \<and> set claimed \<subseteq> set rows \<and> distinct (map dl_id claimed) \<and>
     (\<forall>r\<in>set claimed. dl_status r = DeliveryPending)"

lemma locked_simps [simp]:
  "dl_id (locked owner until r) = dl_id r" "dl_status (locked owner until r) = dl_status r"
  "dl_attempts (locked owner until r) = dl_attempts r" "dl_locked_until (locked owner until r) = Some until"
  "dl_locked_by (locked owner until r) = Some owner" "owed_by sch (locked owner until r) = owed_by sch r"
  by (simp_all add: locked_def owed_by_def)

lemma owed_locked [simp]: "owed sch (update_where P (locked owner until) rows) = owed sch rows"
  by (simp add: owed_def update_where_def comp_def if_distrib cong: if_cong)

lemma claim_hands:
  assumes "queue_ok sch rows" and "ClaimDeliveries owner now until limit rows = (rows', claimed)"
  shows "handed sch rows' claimed \<and> owed sch rows' = owed sch rows \<and> (list_ex (claimable now) rows \<longrightarrow> claimed \<noteq> [])"
  using assms(2)
proof (rule ClaimDeliveries_rows)
  assume "claimed = []" "rows' = rows" "\<forall>r\<in>set rows. \<not> claimable now r"
  then show ?thesis using assms(1) by (auto simp: handed_def list_ex_iff)
next
  fix ids assume ids: "ids \<noteq> {}" "ids \<subseteq> dl_id ` {r \<in> set rows. claimable now r}"
    and rows': "rows' = update_where (\<lambda>r. dl_id r \<in> ids) (locked owner until) rows"
    and claimed: "claimed = by_due (filter (\<lambda>r. dl_locked_by r = Some owner \<and> dl_locked_until r = Some until) rows')"
  have d: "distinct (map dl_id rows)" using assms(1) by (simp add: queue_ok_def)
  have pend: "dl_status r = DeliveryPending" if "r \<in> set rows" "dl_id r \<in> ids" for r
  proof -
    from ids(2) that(2) obtain x where x: "x \<in> set rows" "claimable now x" "dl_id x = dl_id r" by auto
    have "x = r" by (rule distinct_key_inj [OF d x(1) that(1) x(3)])
    then show ?thesis using claimable_pending [OF x(2)] by simp
  qed
  have "distinct (map dl_id rows')" using d by (simp add: rows' map_update_where)
  moreover have "delivery_ok sch r" if "r \<in> set rows'" for r
  proof -
    from that obtain x where x: "x \<in> set rows" "r = (if dl_id x \<in> ids then locked owner until x else x)"
      by (auto simp: rows' set_update_where)
    have "delivery_ok sch x" using assms(1) x(1) by (simp add: queue_ok_def)
    then show ?thesis using x pend [OF x(1)] by (simp add: delivery_ok_def)
  qed
  ultimately have ok: "queue_ok sch rows'" by (simp add: queue_ok_def)
  then have "handed sch rows' claimed"
    unfolding handed_def claimed by (auto simp: queue_ok_def delivery_ok_def intro!: map_by_due distinct_map_filter)
  moreover have "claimed \<noteq> []"
  proof -
    from ids obtain r where r: "r \<in> set rows" "dl_id r \<in> ids" by auto
    then have "locked owner until r \<in> set rows'" by (force simp: rows' set_update_where)
    then have "locked owner until r \<in> set claimed" by (simp add: claimed)
    then show ?thesis by auto
  qed
  ultimately show ?thesis by (simp add: rows')
qed

lemma handed_ok: "handed sch rows claimed \<Longrightarrow> queue_ok sch rows"
  by (simp add: handed_def)

text \<open>Recording the outcome of the first row handed out leaves the rest handed out.\<close>

lemma handed_mark:
  assumes "handed sch rows (r # claimed)" and "mark (dl_id r) st code err t rows = Inr rows'"
    and "st = DeliveryPending \<Longrightarrow> dl_attempts r + 1 < MaxAttempts sch"
    and "st \<in> {DeliveryPending, DeliveryDelivered, DeliveryFailed}"
  shows "handed sch rows' claimed \<and> owed sch rows' < owed sch rows"
  using mark_pays [OF _ _ _ assms(2-4)] assms(1) mark_other [OF assms(2)] by (fastforce simp: handed_def image_iff)

lemma handed_mark_ok: "handed sch rows (r # claimed) \<Longrightarrow> \<exists>rows'. mark (dl_id r) st code err t rows = Inr rows'"
  by (auto simp: handed_def mark_def rows_matching_pos)

lemma load_all_hands:
  "handed sch rows claimed \<Longrightarrow> \<exists>rows' jobs. load_all reason now claimed rows = Inr (rows', jobs) \<and>
     handed sch rows' jobs \<and> owed sch rows' + length claimed \<le> owed sch rows + length jobs \<and> set jobs \<subseteq> set claimed \<and>
     (\<forall>x\<in>set rows. dl_id x \<notin> dl_id ` set claimed \<longrightarrow> x \<in> set rows')"
proof (induction claimed arbitrary: rows)
  case (Cons r claimed)
  show ?case
  proof (cases "reason r = []")
    case True
    have "handed sch rows claimed" using Cons.prems by (auto simp: handed_def)
    from Cons.IH [OF this] obtain rows' jobs where *: "load_all reason now claimed rows = Inr (rows', jobs)"
      "handed sch rows' jobs" "owed sch rows' + length claimed \<le> owed sch rows + length jobs" "set jobs \<subseteq> set claimed"
      "\<forall>x\<in>set rows. dl_id x \<notin> dl_id ` set claimed \<longrightarrow> x \<in> set rows'" by blast
    have "r \<in> set rows'" "dl_id r \<notin> dl_id ` set jobs" "dl_status r = DeliveryPending"
      using Cons.prems *(4,5) by (auto simp: handed_def)
    then have "handed sch rows' (r # jobs)" using *(2) by (auto simp: handed_def)
    with * True show ?thesis by (intro exI [of _ rows'] exI [of _ "r # jobs"]) auto
  next
    case False
    obtain rows1 where m: "MarkFailed (dl_id r) 0 (reason r) now True rows = Inr rows1"
      using handed_mark_ok [OF Cons.prems] by (fastforce simp: MarkFailed_def)
    then have h: "handed sch rows1 claimed" "owed sch rows1 < owed sch rows"
      using handed_mark [OF Cons.prems m [unfolded MarkFailed_def if_P [OF TrueI]]] by (simp_all add: statuses)
    have keep: "x \<in> set rows1" if "x \<in> set rows" "dl_id x \<noteq> dl_id r" for x
      using that mark_other m by (simp add: MarkFailed_def)
    from Cons.IH [OF h(1)] obtain rows' jobs where *: "load_all reason now claimed rows1 = Inr (rows', jobs)"
      "handed sch rows' jobs" "owed sch rows' + length claimed \<le> owed sch rows1 + length jobs" "set jobs \<subseteq> set claimed"
      "\<forall>x\<in>set rows1. dl_id x \<notin> dl_id ` set claimed \<longrightarrow> x \<in> set rows'" by blast
    with m False h(2) keep show ?thesis by (intro exI [of _ rows'] exI [of _ jobs]) auto
  qed
qed simp

section \<open>A pass\<close>

definition hooks_ok :: "schedule \<Rightarrow> hooks \<Rightarrow> bool" where
  "hooks_ok sch h \<longleftrightarrow> queue_ok sch (hk_rows h) \<and> queue_ok sch (hk_channel_rows h)"

definition owed_in :: "schedule \<Rightarrow> hooks \<Rightarrow> nat" where
  "owed_in sch h = owed sch (hk_rows h) + owed sch (hk_channel_rows h)"

definition busy :: "time \<Rightarrow> hooks \<Rightarrow> bool" where
  "busy now h \<longleftrightarrow> list_ex (claimable now) (hk_rows h) \<or> list_ex (claimable now) (hk_channel_rows h)"

fun hook_rows :: "job list \<Rightarrow> delivery list" where
  "hook_rows [] = []"
| "hook_rows (Hook_job r # jobs) = r # hook_rows jobs"
| "hook_rows (Channel_job r # jobs) = hook_rows jobs"

fun channel_rows :: "job list \<Rightarrow> delivery list" where
  "channel_rows [] = []"
| "channel_rows (Hook_job r # jobs) = channel_rows jobs"
| "channel_rows (Channel_job r # jobs) = r # channel_rows jobs"

definition jobs_ok :: "schedule \<Rightarrow> hooks \<Rightarrow> job list \<Rightarrow> bool" where
  "jobs_ok sch h jobs \<longleftrightarrow> handed sch (hk_rows h) (hook_rows jobs) \<and> handed sch (hk_channel_rows h) (channel_rows jobs)"

lemma jobs_of_claim [simp]:
  "hook_rows (map Hook_job rs @ map Channel_job cs) = rs" "channel_rows (map Hook_job rs @ map Channel_job cs) = cs"
  "hook_rows (map Hook_job rs) = rs" "channel_rows (map Hook_job rs) = []"
  by (induction rs; induction cs; simp)+

lemma handed_none: "queue_ok sch rows \<Longrightarrow> handed sch rows []"
  by (simp add: handed_def)

lemma claim_gives_jobs:
  assumes "hooks_ok sch h" and "0 < limit"
  shows "\<exists>h' jobs. claim_due d now limit h = (h', Inr jobs) \<and> jobs_ok sch h' jobs \<and>
    owed_in sch h' + of_bool (busy now h) \<le> owed_in sch h + length jobs"
proof -
  let ?until = "Add now (dp_lease d)"
  obtain rows claimed where c: "ClaimDeliveries (dp_owner d) now ?until limit (hk_rows h) = (rows, claimed)" by fastforce
  have k: "handed sch rows claimed" "owed sch rows = owed sch (hk_rows h)"
    "list_ex (claimable now) (hk_rows h) \<Longrightarrow> claimed \<noteq> []"
    using claim_hands [OF _ c] assms(1) by (auto simp: hooks_ok_def)
  obtain rows' hs where l: "load_all (load h) now claimed rows = Inr (rows', hs)" "handed sch rows' hs"
    "owed sch rows' + length claimed \<le> owed sch rows + length hs"
    using load_all_hands [OF k(1)] by blast
  show ?thesis
  proof (cases "limit \<le> int (length claimed)")
    case True
    then have "1 \<le> length claimed" using assms(2) by linarith
    then have "owed sch rows' + 1 \<le> owed sch (hk_rows h) + length hs" using l(3) k(2) by linarith
    then show ?thesis using True c l(1,2) assms(1) handed_none
      by (auto simp: claim_due_def claim_jobs_def jobs_ok_def hooks_ok_def owed_in_def)
  next
    case False
    let ?left = "limit - int (length claimed)"
    obtain crows cclaimed where cc: "ClaimDeliveries (dp_owner d) now ?until ?left (hk_channel_rows h) = (crows, cclaimed)"
      by fastforce
    have ck: "handed sch crows cclaimed" "owed sch crows = owed sch (hk_channel_rows h)"
      "list_ex (claimable now) (hk_channel_rows h) \<Longrightarrow> cclaimed \<noteq> []"
      using claim_hands [OF _ cc] assms(1) by (auto simp: hooks_ok_def)
    let ?h = "h\<lparr>hk_rows := rows'\<rparr>"
    obtain crows' cs where cl: "load_all (loadChannel ?h) now cclaimed crows = Inr (crows', cs)" "handed sch crows' cs"
      "owed sch crows' + length cclaimed \<le> owed sch crows + length cs"
      using load_all_hands [OF ck(1)] by blast
    have "of_bool (busy now h) \<le> length claimed + length cclaimed"
      using k(3) ck(3) by (auto simp: busy_def Suc_le_eq)
    then have "owed sch rows' + owed sch crows' + of_bool (busy now h)
        \<le> owed sch (hk_rows h) + owed sch (hk_channel_rows h) + (length hs + length cs)"
      using l(3) cl(3) k(2) ck(2) by linarith
    then show ?thesis using False c cc l(1,2) cl(1,2)
      by (simp add: claim_due_def claim_jobs_def jobs_ok_def owed_in_def)
  qed
qed

definition built :: "outcome \<Rightarrow> bool" where "built out \<longleftrightarrow> (case out of Unbuilt _ \<Rightarrow> False | _ \<Rightarrow> True)"

lemma settle_row_hands:
  assumes "handed sch rows (r # claimed)" and "built out"
  shows "\<exists>rows'. settle_row sch r now out rows = Inr rows' \<and> handed sch rows' claimed \<and> owed sch rows' < owed sch rows"
proof -
  have a: "0 \<le> dl_attempts r" using assms(1) by (auto simp: handed_def queue_ok_def delivery_ok_def)
  have "\<exists>rows'. mark (dl_id r) st code err t rows = Inr rows'" for st code err t by (rule handed_mark_ok [OF assms(1)])
  then obtain rows' where s: "settle_row sch r now out rows = Inr rows'"
    using assms(2) by (cases out) (fastforce simp: settle_row_def built_def MarkDelivered_def MarkFailed_def split: prod.splits)+
  show ?thesis using settle_row_mark [OF s a] handed_mark [OF assms(1)] s by blast
qed

lemma attempt_job_hands:
  assumes "jobs_ok (dp_schedule d) h (j # jobs)" and "built out"
  shows "\<exists>h'. attempt_job d j now out h = (h', Inr ()) \<and> jobs_ok (dp_schedule d) h' jobs \<and>
    owed_in (dp_schedule d) h' < owed_in (dp_schedule d) h"
proof (cases j)
  case (Hook_job r)
  with assms(1) have r: "handed (dp_schedule d) (hk_rows h) (r # hook_rows jobs)"
    "handed (dp_schedule d) (hk_channel_rows h) (channel_rows jobs)" by (simp_all add: jobs_ok_def)
  show ?thesis using settle_row_hands [OF r(1) assms(2), of now] r(2) Hook_job
    by (auto simp: attempt_job_def jobs_ok_def owed_in_def)
next
  case (Channel_job r)
  with assms(1) have r: "handed (dp_schedule d) (hk_rows h) (hook_rows jobs)"
    "handed (dp_schedule d) (hk_channel_rows h) (r # channel_rows jobs)" by (simp_all add: jobs_ok_def)
  show ?thesis using settle_row_hands [OF r(2) assms(2), of now] r(1) Channel_job
    by (auto simp: attempt_job_def jobs_ok_def owed_in_def)
qed

lemma jobs_ok_none: "jobs_ok sch h [] \<longleftrightarrow> hooks_ok sch h"
  by (auto simp: jobs_ok_def hooks_ok_def handed_def)

lemma attempt_all_pays:
  assumes "\<forall>i. built (snd (net i))" and "jobs_ok (dp_schedule d) h jobs"
  shows "\<exists>h' res. attempt_all d net i jobs h = (h', res, None) \<and> hooks_ok (dp_schedule d) h' \<and>
    owed_in (dp_schedule d) h' + length jobs \<le> owed_in (dp_schedule d) h \<and> Attempted res = length jobs"
  using assms(2)
proof (induction jobs arbitrary: i h)
  case (Cons j jobs)
  obtain now out where net: "net i = (now, out)" by fastforce
  with assms(1) have "built out" by (metis snd_conv)
  from attempt_job_hands [OF Cons.prems this] obtain h1 where h1: "attempt_job d j now out h = (h1, Inr ())"
    "jobs_ok (dp_schedule d) h1 jobs" "owed_in (dp_schedule d) h1 < owed_in (dp_schedule d) h" by blast
  from Cons.IH [OF h1(2), of "Suc i"] obtain h' res where "attempt_all d net (Suc i) jobs h1 = (h', res, None)"
    "hooks_ok (dp_schedule d) h'" "owed_in (dp_schedule d) h' + length jobs \<le> owed_in (dp_schedule d) h1"
    "Attempted res = length jobs" by blast
  with h1 net show ?case by (simp add: add_drained_def)
qed (simp add: jobs_ok_none nothing_drained_def)

lemma DrainOnce_pays:
  assumes "hooks_ok (dp_schedule d) h" and "0 < dp_batch d" and "\<forall>i. built (snd (net i))"
  shows "\<exists>h' res. DrainOnce d now net h = (h', res, None) \<and> hooks_ok (dp_schedule d) h' \<and>
    owed_in (dp_schedule d) h' + of_bool (busy now h) \<le> owed_in (dp_schedule d) h"
proof -
  from claim_gives_jobs [OF assms(1,2)] obtain h1 jobs where c: "claim_due d now (dp_batch d) h = (h1, Inr jobs)"
    "jobs_ok (dp_schedule d) h1 jobs"
    "owed_in (dp_schedule d) h1 + of_bool (busy now h) \<le> owed_in (dp_schedule d) h + length jobs" by blast
  from attempt_all_pays [OF assms(3) c(2)] obtain h' res where a: "attempt_all d net 0 jobs h1 = (h', res, None)"
    "hooks_ok (dp_schedule d) h'" "owed_in (dp_schedule d) h' + length jobs \<le> owed_in (dp_schedule d) h1" by blast
  have "owed_in (dp_schedule d) h' + of_bool (busy now h) \<le> owed_in (dp_schedule d) h" using a(3) c(3) by linarith
  then show ?thesis using c(1) a(1,2) by (simp add: DrainOnce_def pass_def)
qed

section \<open>Passes one after another\<close>

fun drain_passes :: "dispatcher \<Rightarrow> (time \<times> (nat \<Rightarrow> time \<times> outcome)) list \<Rightarrow> hooks \<Rightarrow> hooks" where
  "drain_passes d [] h = h"
| "drain_passes d ((now, net) # world) h = drain_passes d world (fst (DrainOnce d now net h))"

text \<open>Every pass starts when nothing has to wait any more: no retry is ahead and no lock is running.\<close>

definition waits_over :: "time \<Rightarrow> delivery list \<Rightarrow> bool" where
  "waits_over now rows \<longleftrightarrow> (\<forall>r\<in>set rows. dl_status r = DeliveryPending \<longrightarrow> claimable now r)"

fun all_waited :: "dispatcher \<Rightarrow> (time \<times> (nat \<Rightarrow> time \<times> outcome)) list \<Rightarrow> hooks \<Rightarrow> bool" where
  "all_waited d [] h = True"
| "all_waited d ((now, net) # world) h =
    (waits_over now (hk_rows h) \<and> waits_over now (hk_channel_rows h) \<and> all_waited d world (fst (DrainOnce d now net h)))"

definition sends :: "(time \<times> (nat \<Rightarrow> time \<times> outcome)) list \<Rightarrow> bool" where
  "sends world \<longleftrightarrow> (\<forall>(now, net)\<in>set world. \<forall>i. built (snd (net i)))"

lemma owed_zero_iff: "queue_ok sch rows \<Longrightarrow> owed sch rows = 0 \<longleftrightarrow> (\<forall>r\<in>set rows. dl_status r \<noteq> DeliveryPending)"
  unfolding queue_ok_def owed_def by (induction rows) (auto simp: owed_by_def delivery_ok_def)

lemma waits_over_claimable:
  "queue_ok sch rows \<Longrightarrow> waits_over now rows \<Longrightarrow> owed sch rows \<noteq> 0 \<Longrightarrow> list_ex (claimable now) rows"
  by (auto simp: owed_zero_iff waits_over_def list_ex_iff)

lemma drain_passes_pay:
  assumes "hooks_ok (dp_schedule d) h" and "0 < dp_batch d" and "sends world" and "all_waited d world h"
  shows "hooks_ok (dp_schedule d) (drain_passes d world h) \<and>
    owed_in (dp_schedule d) (drain_passes d world h) \<le> owed_in (dp_schedule d) h - length world"
  using assms(1,3,4)
proof (induction world arbitrary: h)
  case (Cons w world)
  obtain now net where w: "w = (now, net)" by fastforce
  with Cons.prems have "\<forall>i. built (snd (net i))" "sends world" by (auto simp: sends_def)
  from DrainOnce_pays [OF Cons.prems(1) assms(2) this(1)] obtain h' res where p: "DrainOnce d now net h = (h', res, None)"
    "hooks_ok (dp_schedule d) h'" "owed_in (dp_schedule d) h' + of_bool (busy now h) \<le> owed_in (dp_schedule d) h" by blast
  have "busy now h" if "owed_in (dp_schedule d) h \<noteq> 0"
    using that Cons.prems(1,3) w waits_over_claimable by (auto simp: owed_in_def hooks_ok_def busy_def)
  then have "owed_in (dp_schedule d) h' \<le> owed_in (dp_schedule d) h - 1" using p(3) by (cases "owed_in (dp_schedule d) h = 0") auto
  then show ?case using Cons.IH [OF p(2) \<open>sends world\<close>] Cons.prems(3) w p(1) by auto
qed simp

lemma owed_bound: "queue_ok sch rows \<Longrightarrow> owed sch rows \<le> length rows * nat (MaxAttempts sch)"
  unfolding queue_ok_def owed_def
  by (induction rows) (auto simp: owed_by_def delivery_ok_def add_mono nat_mono)

lemma nothing_owed:
  assumes "queue_ok sch rows" and "owed sch rows = 0" and "r \<in> set rows"
  shows "dl_status r \<in> {DeliveryDelivered, DeliveryFailed}"
  using assms owed_zero_iff [OF assms(1)] by (auto simp: queue_ok_def delivery_ok_def)

text \<open>
  C22: Deliveries are settled. However the network answers, a dispatcher that keeps draining, each pass no earlier
  than the retries and locks the one before it left behind, has after as many passes as there are rows times attempts
  delivered or given up every webhook and channel delivery.
\<close>

theorem deliveries_settle:
  assumes "hooks_ok (dp_schedule d) h" and "0 < dp_batch d" and "sends world" and "all_waited d world h"
    and "(length (hk_rows h) + length (hk_channel_rows h)) * nat (MaxAttempts (dp_schedule d)) \<le> length world"
  shows "\<forall>r \<in> set (hk_rows (drain_passes d world h)) \<union> set (hk_channel_rows (drain_passes d world h)).
    dl_status r \<in> {DeliveryDelivered, DeliveryFailed}"
proof -
  let ?h = "drain_passes d world h"
  have "owed_in (dp_schedule d) h \<le> (length (hk_rows h) + length (hk_channel_rows h)) * nat (MaxAttempts (dp_schedule d))"
    using owed_bound assms(1) by (simp add: owed_in_def hooks_ok_def distrib_right add_mono)
  then have "owed_in (dp_schedule d) ?h = 0" and ok: "hooks_ok (dp_schedule d) ?h"
    using drain_passes_pay [OF assms(1-4)] assms(5) by auto
  then show ?thesis using nothing_owed by (fastforce simp: owed_in_def hooks_ok_def)
qed

definition sample_dispatcher :: dispatcher where
  "sample_dispatcher = \<lparr>dp_owner = ''a'', dp_lease = 30 * Second, dp_batch = 16, dp_schedule = [Second]\<rparr>"

definition sample_hooks :: hooks where
  "sample_hooks = \<lparr>hk_endpoints = [\<lparr>ep_id = ''e'', ep_url = ''https://e'', ep_secret = ''k'', ep_types = [], ep_active = True, ep_created = 0\<rparr>], hk_events = [1],
     hk_channels = [], hk_items = [], hk_rows = [queued_delivery ''d'' ''e'' (Of_event 1) 0], hk_channel_rows = []\<rparr>"

definition sample_world :: "(time \<times> (nat \<Rightarrow> time \<times> outcome)) list" where
  "sample_world = [(0, \<lambda>_. (Second, Answered 500)), (2 * Second, \<lambda>_. (3 * Second, Answered 204))]"

lemmas sample_simps = sample_dispatcher_def sample_hooks_def sample_world_def queued_delivery_def statuses Second_def

lemma deliveries_settle_witness:
  "dl_status (hd (hk_rows (drain_passes sample_dispatcher sample_world sample_hooks))) \<in> {DeliveryDelivered, DeliveryFailed}"
proof -
  have "hooks_ok (dp_schedule sample_dispatcher) sample_hooks" "0 < dp_batch sample_dispatcher"
    by (simp_all add: hooks_ok_def queue_ok_def delivery_ok_def MaxAttempts_def sample_simps)
  moreover have "sends sample_world" by (simp add: sends_def built_def sample_world_def)
  moreover have "all_waited sample_dispatcher sample_world sample_hooks" "hk_rows (drain_passes sample_dispatcher sample_world sample_hooks) \<noteq> []"
    by code_simp+
  moreover have "(length (hk_rows sample_hooks) + length (hk_channel_rows sample_hooks)) * nat (MaxAttempts (dp_schedule sample_dispatcher))
      \<le> length sample_world"
    by (simp add: MaxAttempts_def sample_simps)
  ultimately show ?thesis using deliveries_settle [of sample_dispatcher sample_hooks sample_world] by simp
qed

text \<open>
  An outcome that arrives after its lock has run out clears the lock of whoever holds the delivery by then: here
  \<open>c\<close> claims at 33 seconds what \<open>b\<close> holds until 61.
\<close>

lemma late_outcome_frees_lock:
  "(let rows = [queued_delivery ''d'' ''e'' (Of_event 1) 0];
        (rows, by_a) = ClaimDeliveries ''a'' 0 (30 * Second) 16 rows;
        (rows, by_b) = ClaimDeliveries ''b'' (31 * Second) (61 * Second) 16 rows
    in case settle_row DefaultSchedule (hd by_a) (32 * Second) (Answered 500) rows of
         Inl _ \<Rightarrow> False
       | Inr rows \<Rightarrow> map dl_id by_b = [''d''] \<and> map dl_id (snd (ClaimDeliveries ''c'' (33 * Second) (63 * Second) 16 rows)) = [''d''])"
  by code_simp

text \<open>Redelivering counts as an attempt: one that was given up is pending again with more attempts than the schedule has.\<close>

lemma redelivery_spends_attempt:
  "(let r = (queued_delivery ''d'' ''e'' (Of_event 1) 0)\<lparr>dl_status := DeliveryFailed, dl_attempts := 2\<rparr>;
        h = sample_hooks\<lparr>hk_rows := [r]\<rparr>
    in case Redeliver ''d'' 0 h of (h', Inr r') \<Rightarrow> dl_attempts r' = 3 \<and> \<not> hooks_ok [Second] h' | (_, Inl _) \<Rightarrow> False)"
  by (simp add: Redeliver_def MarkFailed_def mark_def marked_def rows_matching_def update_where_def hooks_ok_def
      queue_ok_def delivery_ok_def MaxAttempts_def sample_simps)

end
