(* ===== verification/Target_Guard.thy ===== *)
theory Target_Guard
  imports Webhooks Encodings
begin

text \<open>
  Where a delivery may go (\<open>internal/webhook/guard.go\<close>, \<open>signature.go\<close>, the checks of
  \<open>internal/service/webhook.go\<close>): the predicates of \<open>net/netip\<close> the guard asks, the ranges it names
  itself, the checks of a target and of a dialled address, and the signature. An address is what \<open>netip.Addr\<close>
  holds: four bytes, or eight groups of sixteen bits with a zone. The parsers of addresses and urls, the resolver and the
  HMAC are arguments.
\<close>

unbundle bit_operations_syntax

section \<open>Addresses\<close>

datatype netaddr = No_addr | V4 octet octet octet octet | V6 "16 word list" string

definition Unmap :: "netaddr \<Rightarrow> netaddr" where
  "Unmap ip = (case ip of
     V6 g z \<Rightarrow> if take 6 g = [0, 0, 0, 0, 0, 0xffff]
       then V4 (ucast (drop_bit 8 (g ! 6))) (ucast (g ! 6)) (ucast (drop_bit 8 (g ! 7))) (ucast (g ! 7))
       else ip
   | _ \<Rightarrow> ip)"

definition IsValid :: "netaddr \<Rightarrow> bool" where "IsValid ip \<longleftrightarrow> ip \<noteq> No_addr"

definition IsLoopback :: "netaddr \<Rightarrow> bool" where
  "IsLoopback ip \<longleftrightarrow> (case ip of V4 a b c d \<Rightarrow> a = 127 | V6 g z \<Rightarrow> g = [0, 0, 0, 0, 0, 0, 0, 1] | No_addr \<Rightarrow> False)"

definition IsUnspecified :: "netaddr \<Rightarrow> bool" where
  "IsUnspecified ip \<longleftrightarrow> ip = V4 0 0 0 0 \<or> ip = V6 [0, 0, 0, 0, 0, 0, 0, 0] []"

definition IsPrivate :: "netaddr \<Rightarrow> bool" where
  "IsPrivate ip \<longleftrightarrow> (case ip of
     V4 a b c d \<Rightarrow> a = 10 \<or> a = 172 \<and> b AND 0xf0 = 16 \<or> a = 192 \<and> b = 168
   | V6 g z \<Rightarrow> drop_bit 8 (g ! 0) AND 0xfe = 0xfc
   | No_addr \<Rightarrow> False)"

definition IsLinkLocalUnicast :: "netaddr \<Rightarrow> bool" where
  "IsLinkLocalUnicast ip \<longleftrightarrow> (case ip of
     V4 a b c d \<Rightarrow> a = 169 \<and> b = 254 | V6 g z \<Rightarrow> g ! 0 AND 0xffc0 = 0xfe80 | No_addr \<Rightarrow> False)"

definition IsLinkLocalMulticast :: "netaddr \<Rightarrow> bool" where
  "IsLinkLocalMulticast ip \<longleftrightarrow> (case ip of
     V4 a b c d \<Rightarrow> a = 224 \<and> b = 0 \<and> c = 0 | V6 g z \<Rightarrow> g ! 0 AND 0xff0f = 0xff02 | No_addr \<Rightarrow> False)"

definition IsInterfaceLocalMulticast :: "netaddr \<Rightarrow> bool" where
  "IsInterfaceLocalMulticast ip \<longleftrightarrow> (case ip of V6 g z \<Rightarrow> g ! 0 AND 0xff0f = 0xff01 | _ \<Rightarrow> False)"

definition IsMulticast :: "netaddr \<Rightarrow> bool" where
  "IsMulticast ip \<longleftrightarrow> (case ip of
     V4 a b c d \<Rightarrow> a AND 0xf0 = 0xe0 | V6 g z \<Rightarrow> drop_bit 8 (g ! 0) = 0xff | No_addr \<Rightarrow> False)"

text \<open>The bits of an address, most significant first; a prefix contains no address with a zone.\<close>

definition leading_bits :: "'a::len word \<Rightarrow> bool list" where
  "leading_bits w = map (bit w) (rev [0..<LENGTH('a)])"

definition zone :: "netaddr \<Rightarrow> string" where
  "zone ip = (case ip of V6 g z \<Rightarrow> z | _ \<Rightarrow> [])"

definition addr_bits :: "netaddr \<Rightarrow> bool list" where
  "addr_bits ip = (case ip of
     V4 a b c d \<Rightarrow> leading_bits a @ leading_bits b @ leading_bits c @ leading_bits d
   | V6 g z \<Rightarrow> concat (map leading_bits g)
   | No_addr \<Rightarrow> [])"

datatype prefix = Prefix netaddr nat

definition Contains :: "prefix \<Rightarrow> netaddr \<Rightarrow> bool" where
  "Contains p ip \<longleftrightarrow> (case p of Prefix base n \<Rightarrow>
     zone ip = [] \<and> length (addr_bits ip) = length (addr_bits base) \<and> take n (addr_bits ip) = take n (addr_bits base))"

section \<open>The guard\<close>

record guard =
  AllowPrivate :: bool
  allowLoopback :: bool

definition blockedPrefixes :: "prefix list" where
  "blockedPrefixes = [Prefix (V4 100 64 0 0) 10, Prefix (V4 192 0 0 0) 24, Prefix (V4 198 18 0 0) 15,
     Prefix (V4 255 255 255 255) 32, Prefix (V6 [0x64, 0xff9b, 0, 0, 0, 0, 0, 0] []) 96, Prefix (V6 [0x64, 0xff9b, 1, 0, 0, 0, 0, 0] []) 48]"

definition isBlocked :: "netaddr \<Rightarrow> bool" where
  "isBlocked ip =
    (if IsLoopback ip \<or> IsUnspecified ip \<or> IsPrivate ip \<or> IsLinkLocalUnicast ip \<or> IsLinkLocalMulticast ip \<or>
        IsInterfaceLocalMulticast ip \<or> IsMulticast ip then True
     else list_ex (\<lambda>p. Contains p ip) blockedPrefixes)"

definition permits :: "guard \<Rightarrow> netaddr \<Rightarrow> bool" where
  "permits g ip =
    (let ip = Unmap ip in
     if \<not> IsValid ip then False
     else if AllowPrivate g then True
     else if IsLoopback ip then allowLoopback g
     else \<not> isBlocked ip)"

text \<open>A parsed url: its scheme, whether it embeds a user, its host with port, and its host name.\<close>

record url =
  u_scheme :: string
  u_user :: bool
  u_host :: string
  u_hostname :: string

record net =
  parse_url :: "string \<Rightarrow> url option"
  parse_addr :: "string \<Rightarrow> netaddr option"
  lookup :: "string \<Rightarrow> netaddr list option"
  hmac_sha256 :: "string \<Rightarrow> string \<Rightarrow> octet list"

definition TrimSuffix :: "string \<Rightarrow> string \<Rightarrow> string" where
  "TrimSuffix s suffix = (if HasSuffix s suffix then take (length s - length suffix) s else s)"

definition checkResolved :: "net \<Rightarrow> guard \<Rightarrow> string \<Rightarrow> unit res" where
  "checkResolved n g host =
    (if AllowPrivate g then Inr ()
     else case lookup n host of
       None \<Rightarrow> Inr ()
     | Some addrs \<Rightarrow> if list_all (permits g) addrs then Inr () else Inl (fail KindInvalid))"

definition CheckURL :: "net \<Rightarrow> guard \<Rightarrow> string \<Rightarrow> unit res" where
  "CheckURL n g raw = (case parse_url n (TrimSpace raw) of
     None \<Rightarrow> Inl (fail KindInvalid)
   | Some u \<Rightarrow>
       if u_scheme u = [] \<or> u_host u = [] \<or> u_scheme u \<notin> {''http'', ''https''} then Inl (fail KindInvalid)
       else if u_user u then Inl (fail KindInvalid)
       else let host = TrimSuffix (ToLower (u_hostname u)) ''.'' in
         if host = [] then Inl (fail KindInvalid)
         else if host = ''localhost'' \<or> HasSuffix host ''.localhost''
           then (if AllowPrivate g \<or> allowLoopback g then Inr () else Inl (fail KindInvalid))
         else (case parse_addr n host of
             Some ip \<Rightarrow> if permits g ip then Inr () else Inl (fail KindInvalid)
           | None \<Rightarrow> checkResolved n g host))"

text \<open>\<open>CheckAddr\<close>, at dial time: the host of the address about to be connected to, when it could be split off.\<close>

definition CheckAddr :: "net \<Rightarrow> guard \<Rightarrow> string option \<Rightarrow> bool" where
  "CheckAddr n g host = (case host of None \<Rightarrow> False | Some h \<Rightarrow>
     (case parse_addr n h of None \<Rightarrow> False | Some ip \<Rightarrow> permits g ip))"

text \<open>\<open>checkTransport\<close>: plaintext only where it is allowed or the host is this machine.\<close>

definition isLoopbackHost :: "net \<Rightarrow> string \<Rightarrow> bool" where
  "isLoopbackHost n host =
    (if ToLower (TrimSuffix host ''.'') = ''localhost'' then True
     else case parse_addr n host of None \<Rightarrow> False | Some ip \<Rightarrow> zone ip = [] \<and> IsLoopback (Unmap ip))"

definition checkTransport :: "net \<Rightarrow> string \<Rightarrow> bool \<Rightarrow> unit res" where
  "checkTransport n raw allowInsecure = (case parse_url n (TrimSpace raw) of
     None \<Rightarrow> Inl (fail KindInvalid)
   | Some u \<Rightarrow>
       if u_scheme u \<noteq> ''http'' \<or> allowInsecure then Inr ()
       else if isLoopbackHost n (u_hostname u) then Inr ()
       else Inl (fail KindInvalid))"

definition bad_pattern :: "string \<Rightarrow> bool" where
  "bad_pattern pattern =
    (let p = TrimSpace pattern
     in p = [] \<or> 1 < length (filter (\<lambda>c. c = CHR ''*'') p) \<or> CHR ''*'' \<in> set p \<and> \<not> HasSuffix p ''*'')"

definition ValidateEndpoint :: "net \<Rightarrow> guard \<Rightarrow> endpoint \<Rightarrow> unit res" where
  "ValidateEndpoint n g e = rbind (CheckURL n g (ep_url e)) (\<lambda>_.
     if TrimSpace (ep_secret e) = [] then Inl (fail KindInvalid)
     else if list_ex bad_pattern (ep_types e) then Inl (fail KindInvalid)
     else Inr ())"

text \<open>Registering an endpoint: the store's statement, and the service's transaction up to its audit entry.\<close>

definition put_endpoint :: "string \<Rightarrow> time \<Rightarrow> endpoint \<Rightarrow> endpoint list \<Rightarrow> endpoint list \<times> endpoint" where
  "put_endpoint k now e rows =
    (let e = (if ep_types e = [] then e\<lparr>ep_types := [''*'']\<rparr> else e) in
     if ep_id e \<noteq> [] \<and> 0 < rows_matching (\<lambda>r. ep_id r = ep_id e) rows
     then (update_where (\<lambda>r. ep_id r = ep_id e) (\<lambda>r. e\<lparr>ep_created := ep_created r\<rparr>) rows, e)
     else let e = (if ep_id e = [] then e\<lparr>ep_id := k, ep_created := now\<rparr> else e\<lparr>ep_created := now\<rparr>) in (rows @ [e], e))"

definition Redact :: "endpoint \<Rightarrow> endpoint" where "Redact e = e\<lparr>ep_secret := []\<rparr>"

definition newWebhookSecret :: "octet list \<Rightarrow> string" where "newWebhookSecret drawn = ToLower (base32 drawn)"

record endpoint_input =
  ei_id :: string
  ei_url :: string
  ei_secret :: string
  ei_types :: "string list"
  ei_active :: bool

definition put_webhook_tx :: "net \<Rightarrow> guard \<Rightarrow> bool \<Rightarrow> octet list \<Rightarrow> string \<Rightarrow> time \<Rightarrow> endpoint_input \<Rightarrow> endpoint list \<Rightarrow>
    (endpoint list \<times> endpoint) res" where
  "put_webhook_tx n g insecure drawn k now inp rows =
    (if ei_url inp = [] then Inl (fail KindInvalid)
     else rbind (if ei_id inp = [] then Inr []
         else case find (\<lambda>r. ep_id r = ei_id inp) rows of None \<Rightarrow> Inl (fail KindNotFound) | Some r \<Rightarrow> Inr (ep_secret r)) (\<lambda>kept.
       let given = TrimSpace (ei_secret inp);
           secret = (if given = [] then kept else given);
           generated = (secret = []);
           e = \<lparr>ep_id = ei_id inp, ep_url = TrimSpace (ei_url inp), ep_secret = (if generated then newWebhookSecret drawn else secret),
             ep_types = ei_types inp, ep_active = ei_active inp, ep_created = 0\<rparr>
       in rbind (ValidateEndpoint n g e) (\<lambda>_. rbind (checkTransport n (ep_url e) insecure) (\<lambda>_.
            case put_endpoint k now e rows of (rows, e) \<Rightarrow> Inr (rows, if generated then e else Redact e)))))"

section \<open>The signature\<close>

definition SignedMaterial :: "string \<Rightarrow> string \<Rightarrow> string" where
  "SignedMaterial timestamp body = timestamp @ ''.'' @ body"

definition hex_lower :: "nat \<Rightarrow> char" where "hex_lower n = ''0123456789abcdef'' ! n"

definition hex_string :: "octet list \<Rightarrow> string" where
  "hex_string bs = concat (map (\<lambda>b. [hex_lower (unat b div 16), hex_lower (unat b mod 16)]) bs)"

definition Sign :: "net \<Rightarrow> string \<Rightarrow> string \<Rightarrow> string \<Rightarrow> string" where
  "Sign n secret timestamp body = ''sha256='' @ hex_string (hmac_sha256 n secret (SignedMaterial timestamp body))"

definition VerifySignature :: "net \<Rightarrow> string \<Rightarrow> string \<Rightarrow> string \<Rightarrow> string \<Rightarrow> bool" where
  "VerifySignature n secret timestamp body signature \<longleftrightarrow> Sign n secret timestamp body = signature"

text \<open>The dot after a timestamp, which ends in its only \<open>Z\<close>, keeps timestamp and body apart.\<close>

lemma SignedMaterial_inject:
  "CHR ''Z'' \<notin> set a \<Longrightarrow> CHR ''Z'' \<notin> set b \<Longrightarrow>
    SignedMaterial (a @ ''Z'') x = SignedMaterial (b @ ''Z'') y \<longleftrightarrow> a = b \<and> x = y"
proof (induction a arbitrary: b)
  case Nil
  then show ?case by (cases b) (auto simp: SignedMaterial_def)
next
  case (Cons c a)
  then show ?case by (cases b) (auto simp: SignedMaterial_def)
qed

text \<open>Whatever is registered has passed the guard and the rule on plaintext, and has a secret.\<close>

lemma put_endpoint_new: "put_endpoint k now e rows = (rows', out) \<Longrightarrow> r \<in> set rows' \<Longrightarrow> r \<in> set rows \<or>
    ep_url r = ep_url e \<and> ep_secret r = ep_secret e"
  by (auto simp: put_endpoint_def Let_def set_update_where split: if_splits)

lemma put_webhook_tx_checked:
  assumes "put_webhook_tx n g insecure drawn k now inp rows = Inr (rows', out)" and "r \<in> set rows'" and "r \<notin> set rows"
  shows "CheckURL n g (ep_url r) = Inr () \<and> checkTransport n (ep_url r) insecure = Inr () \<and> TrimSpace (ep_secret r) \<noteq> []"
proof -
  from assms(1) obtain e out' where e: "ValidateEndpoint n g e = Inr ()" "checkTransport n (ep_url e) insecure = Inr ()"
    and p: "put_endpoint k now e rows = (rows', out')"
    by (auto simp: put_webhook_tx_def Let_def rbind_Inr_iff split: if_splits option.splits prod.splits)
  from e(1) have "CheckURL n g (ep_url e) = Inr ()" "TrimSpace (ep_secret e) \<noteq> []"
    by (auto simp: ValidateEndpoint_def rbind_Inr_iff split: if_splits)
  with put_endpoint_new [OF p assms(2)] assms(3) e(2) show ?thesis by simp
qed

section \<open>What the shipped policy lets through\<close>

definition shipped :: guard where "shipped = \<lparr>AllowPrivate = False, allowLoopback = False\<rparr>"

definition private_ranges :: "prefix list" where
  "private_ranges = [Prefix (V4 127 0 0 0) 8, Prefix (V4 0 0 0 0) 32, Prefix (V4 10 0 0 0) 8, Prefix (V4 172 16 0 0) 12,
     Prefix (V4 192 168 0 0) 16, Prefix (V4 169 254 0 0) 16, Prefix (V4 224 0 0 0) 4,
     Prefix (V6 [0, 0, 0, 0, 0, 0, 0, 1] []) 128, Prefix (V6 [0, 0, 0, 0, 0, 0, 0, 0] []) 128, Prefix (V6 [0xfc00, 0, 0, 0, 0, 0, 0, 0] []) 7,
     Prefix (V6 [0xfe80, 0, 0, 0, 0, 0, 0, 0] []) 10, Prefix (V6 [0xff00, 0, 0, 0, 0, 0, 0, 0] []) 8]"

definition addr_ok :: "netaddr \<Rightarrow> bool" where
  "addr_ok ip \<longleftrightarrow> (case ip of V6 g z \<Rightarrow> length g = 8 | _ \<Rightarrow> True)"

lemma length_leading_bits [simp]: "length (leading_bits (w :: 'a::len word)) = LENGTH('a)"
  by (simp add: leading_bits_def)

lemma nth_leading_bits: "i < LENGTH('a) \<Longrightarrow> leading_bits (w :: 'a::len word) ! i = bit w (LENGTH('a) - 1 - i)"
  by (simp add: leading_bits_def rev_nth)

lemma leading_bits_inject [simp]: "leading_bits v = leading_bits w \<longleftrightarrow> v = (w :: 'a::len word)"
proof
  assume e: "leading_bits v = leading_bits w"
  show "v = w"
  proof (rule bit_word_eqI)
    fix n assume n: "n < LENGTH('a)"
    then have "leading_bits v ! (LENGTH('a) - 1 - n) = leading_bits w ! (LENGTH('a) - 1 - n)" by (simp only: e)
    with n show "bit v n = bit w n" by (simp add: nth_leading_bits)
  qed
qed simp

lemma octet_eq: "(v :: octet) = w \<longleftrightarrow> (\<forall>n\<in>{0, 1, 2, 3, 4, 5, 6, 7}. bit v n = bit w n)"
  by (auto intro!: bit_word_eqI simp: less_Suc_eq numeral_eq_Suc)

lemma group_eq: "(v :: 16 word) = w \<longleftrightarrow> (\<forall>n\<in>{0, 1, 2, 3, 4, 5, 6, 7, 8, 9, 10, 11, 12, 13, 14, 15}. bit v n = bit w n)"
proof
  assume e: "\<forall>n\<in>{0, 1, 2, 3, 4, 5, 6, 7, 8, 9, 10, 11, 12, 13, 14, 15}. bit v n = bit w n"
  have below: "{..<16} = {0, 1, 2, 3, 4, 5, 6, 7, 8, 9, 10, 11, 12, 13, 14, 15 :: nat}"
    by (simp add: lessThan_nat_numeral lessThan_Suc insert_commute)
  show "v = w"
  proof (rule bit_word_eqI)
    fix n assume "n < LENGTH(16)"
    then have "n \<in> {..<16}" by simp
    with e show "bit v n = bit w n" unfolding below by blast
  qed
qed simp

lemma high_bits [simp]: "16 \<le> n \<Longrightarrow> \<not> bit (g :: 16 word) n"
  by (auto dest: bit_imp_le_length)

lemma octet_bits: "leading_bits (w :: octet) = [bit w 7, bit w 6, bit w 5, bit w 4, bit w 3, bit w 2, bit w 1, bit w 0]"
  by (simp add: leading_bits_def upt_rec numeral_eq_Suc)

lemma group_bits: "leading_bits (w :: 16 word) = [bit w 15, bit w 14, bit w 13, bit w 12, bit w 11, bit w 10, bit w 9, bit w 8,
    bit w 7, bit w 6, bit w 5, bit w 4, bit w 3, bit w 2, bit w 1, bit w 0]"
  by (simp add: leading_bits_def upt_rec numeral_eq_Suc)

text \<open>A mask on the leading bits asks what a prefix asks.\<close>

lemma octet_masks:
  "(b :: octet) AND 0xf0 = 16 \<longleftrightarrow> take 4 (leading_bits b) = take 4 (leading_bits (16 :: octet))"
  "b AND 0xf0 = 0xe0 \<longleftrightarrow> take 4 (leading_bits b) = take 4 (leading_bits (224 :: octet))"
  unfolding octet_eq octet_bits by (auto simp: bit_simps)

lemma group_masks:
  "drop_bit 8 (g :: 16 word) AND 0xfe = 0xfc \<longleftrightarrow> take 7 (leading_bits g) = take 7 (leading_bits (0xfc00 :: 16 word))"
  "g AND 0xffc0 = 0xfe80 \<longleftrightarrow> take 10 (leading_bits g) = take 10 (leading_bits (0xfe80 :: 16 word))"
  "drop_bit 8 g = 0xff \<longleftrightarrow> take 8 (leading_bits g) = take 8 (leading_bits (0xff00 :: 16 word))"
  "g AND 0xff0f = 0xff02 \<Longrightarrow> drop_bit 8 g = 0xff" "g AND 0xff0f = 0xff01 \<Longrightarrow> drop_bit 8 g = 0xff"
  unfolding group_eq group_bits by (auto simp: bit_simps)

lemma isBlocked_V4: "isBlocked (V4 a b c d) \<longleftrightarrow> list_ex (\<lambda>p. Contains p (V4 a b c d)) (private_ranges @ blockedPrefixes)"
  by (auto simp: isBlocked_def IsLoopback_def IsUnspecified_def IsPrivate_def IsLinkLocalUnicast_def IsLinkLocalMulticast_def
      IsInterfaceLocalMulticast_def IsMulticast_def private_ranges_def blockedPrefixes_def Contains_def addr_bits_def zone_def octet_masks)

lemma isBlocked_V6:
  "isBlocked (V6 [a, b, c, d, e, f, g, h] []) \<longleftrightarrow>
    list_ex (\<lambda>p. Contains p (V6 [a, b, c, d, e, f, g, h] [])) (private_ranges @ blockedPrefixes)"
  using group_masks(4,5) [of a]
  by (auto simp: isBlocked_def IsLoopback_def IsUnspecified_def IsPrivate_def IsLinkLocalUnicast_def IsLinkLocalMulticast_def
      IsInterfaceLocalMulticast_def IsMulticast_def private_ranges_def blockedPrefixes_def Contains_def addr_bits_def zone_def
      group_masks(1-3))

lemma groups_of_eight: "length (g :: 'a list) = 8 \<Longrightarrow> \<exists>a b c d e f h i. g = [a, b, c, d, e, f, h, i]"
  by (auto simp: numeral_eq_Suc length_Suc_conv)

lemma isBlocked_ranges:
  "addr_ok ip \<Longrightarrow> zone ip = [] \<Longrightarrow> isBlocked ip \<longleftrightarrow> list_ex (\<lambda>p. Contains p ip) (private_ranges @ blockedPrefixes)"
proof (cases ip)
  case No_addr
  then show "isBlocked ip = list_ex (\<lambda>p. Contains p ip) (private_ranges @ blockedPrefixes)"
    by (simp add: isBlocked_def IsLoopback_def IsUnspecified_def IsPrivate_def IsLinkLocalUnicast_def IsLinkLocalMulticast_def
        IsInterfaceLocalMulticast_def IsMulticast_def private_ranges_def Contains_def addr_bits_def)
next
  case (V4 a b c d)
  then show "isBlocked ip = list_ex (\<lambda>p. Contains p ip) (private_ranges @ blockedPrefixes)" by (simp only: isBlocked_V4)
next
  case (V6 g z)
  assume "addr_ok ip" "zone ip = []"
  with V6 have "length g = 8" "z = []" by (simp_all add: addr_ok_def zone_def)
  with V6 groups_of_eight [of g] show "isBlocked ip = list_ex (\<lambda>p. Contains p ip) (private_ranges @ blockedPrefixes)"
    using isBlocked_V6 by auto
qed

lemma Unmap_keeps: "addr_ok ip \<Longrightarrow> zone ip = [] \<Longrightarrow> addr_ok (Unmap ip) \<and> zone (Unmap ip) = []"
  by (cases ip) (auto simp: Unmap_def addr_ok_def zone_def)

text \<open>
  C23: The shipped guard lets through exactly the addresses outside the loopback, unspecified, private, link-local,
  multicast and reserved ranges, in four-byte, sixteen-byte and mapped form, where the address carries no zone.
\<close>

theorem permits_exactly:
  assumes "addr_ok ip" and "zone ip = []"
  shows "permits shipped ip \<longleftrightarrow> IsValid ip \<and> (\<forall>p\<in>set (private_ranges @ blockedPrefixes). \<not> Contains p (Unmap ip))"
proof -
  have "IsLoopback ip' \<Longrightarrow> isBlocked ip'" for ip' by (simp add: isBlocked_def)
  moreover have "IsValid (Unmap ip) \<longleftrightarrow> IsValid ip" by (cases ip) (auto simp: IsValid_def Unmap_def)
  moreover note isBlocked_ranges [OF Unmap_keeps [OF assms, THEN conjunct1] Unmap_keeps [OF assms, THEN conjunct2]]
  ultimately show ?thesis by (auto simp: permits_def shipped_def Let_def list_ex_iff)
qed

lemma permits_exactly_witness:
  "permits shipped (V4 8 8 8 8) \<and> \<not> permits shipped (V6 [0, 0, 0, 0, 0, 0xffff, 0xa9fe, 0xa9fe] [])"
proof -
  have m: "Unmap (V6 [0, 0, 0, 0, 0, 0xffff, 0xa9fe, 0xa9fe] []) = V4 169 254 169 254" by (simp add: Unmap_def)
  have "Contains (Prefix (V4 169 254 0 0) 16) (V4 169 254 169 254)" by (simp add: Contains_def zone_def addr_bits_def)
  then show ?thesis
    using permits_exactly [of "V4 8 8 8 8"] permits_exactly [of "V6 [0, 0, 0, 0, 0, 0xffff, 0xa9fe, 0xa9fe] []"] m
    by (simp add: addr_ok_def zone_def private_ranges_def blockedPrefixes_def IsValid_def Unmap_def) (simp add: Contains_def zone_def addr_bits_def octet_bits)
qed

text \<open>An address with a zone is in no prefix: the translated and the unspecified addresses get through with one.\<close>

lemma zone_escapes_guard:
  "permits shipped (V6 [0x64, 0xff9b, 0, 0, 0, 0, 0x7f00, 1] ''1'')" "permits shipped (V6 [0, 0, 0, 0, 0, 0, 0, 0] ''1'')"
  "\<not> permits shipped (V6 [0x64, 0xff9b, 0, 0, 0, 0, 0x7f00, 1] [])"
  by (simp_all add: permits_def shipped_def Unmap_def IsValid_def isBlocked_def IsLoopback_def IsUnspecified_def IsPrivate_def
      IsLinkLocalUnicast_def IsLinkLocalMulticast_def IsInterfaceLocalMulticast_def IsMulticast_def blockedPrefixes_def
      Contains_def zone_def addr_bits_def group_bits)

end
