(* ===== verification/Tokens.thy ===== *)
theory Tokens
  imports Sign_In Claims
begin

text \<open>
  API tokens and the credentials of a request (\<open>internal/auth/token.go\<close>, \<open>session.go\<close>,
  \<open>internal/service/token.go\<close>, \<open>internal/server/auth.go\<close>): minting a token, storing its hash, revoking it, and
  the actor a presented token or session stands for. A \<open>ring\<close> is the vault of the tenant with its tokens; the
  projects a token may be confined to are read from the task tables. The digest is the parameter of the vault.
\<close>

section \<open>Tokens\<close>

record token_row =
  kt_id :: string
  kt_actor :: string
  kt_name :: string
  kt_hash :: string
  kt_scopes :: "scope list"
  kt_project :: string
  kt_created :: time
  kt_expires :: "time option"
  kt_used :: "time option"
  kt_revoked :: "time option"

record ring =
  rg_vault :: vault
  rg_tokens :: "token_row list"

record token_input =
  ki_name :: string
  ki_actor :: string
  ki_scopes :: "scope list"
  ki_project :: string
  ki_expires :: "time option"

definition token_active :: "token_row \<Rightarrow> time \<Rightarrow> bool" where
  "token_active t now \<longleftrightarrow> (if kt_revoked t \<noteq> None then False else case kt_expires t of None \<Rightarrow> True | Some e \<Rightarrow> now < e)"

definition TokenPrefix :: string where "TokenPrefix = ''tix_pat_''"
definition tokenBytes :: nat where "tokenBytes = 32"

definition validate_token_input :: "token_input \<Rightarrow> unit res" where
  "validate_token_input inp =
    (if ki_name inp = [] then Inl (fail_with KindInvalid [(''field'', DStr ''name'')])
     else if ki_scopes inp = [] then Inl (fail_with KindInvalid [(''field'', DStr ''scopes'')])
     else Inr ())"

definition MintAPIToken :: "desk \<Rightarrow> string \<Rightarrow> token_input \<Rightarrow> (token_row \<times> string) res" where
  "MintAPIToken d tenant inp =
    (if TrimSpace tenant = [] then Inl (fail KindInvalid)
     else rbind (validate_token_input inp) (\<lambda>_.
       if list_ex (\<lambda>s. s \<noteq> ScopeAll \<and> s \<notin> set AllScopes) (ki_scopes inp) then Inl (fail KindInvalid)
       else let token = TokenPrefix @ ToLower (base32 (dk_token d))
            in Inr (\<lparr>kt_id = dk_ids d 0, kt_actor = ki_actor inp, kt_name = ki_name inp, kt_hash = HashToken d token,
                 kt_scopes = ki_scopes inp, kt_project = ki_project inp, kt_created = dk_clock d, kt_expires = ki_expires inp,
                 kt_used = None, kt_revoked = None\<rparr>, token)))"

definition ParseAPIToken :: "string \<Rightarrow> string res" where
  "ParseAPIToken s =
    (let secret = drop (length TokenPrefix) s in
     if take (length TokenPrefix) s \<noteq> TokenPrefix then Inl errInvalidCredentials
     else if length secret \<noteq> (tokenBytes * 8 + 4) div 5 then Inl errInvalidCredentials
     else if base32_decode (map upper_ascii secret) = None then Inl errInvalidCredentials
     else if ToLower secret \<noteq> secret then Inl errInvalidCredentials
     else Inr secret)"

section \<open>The rows\<close>

definition insert_token :: "string list \<Rightarrow> token_row \<Rightarrow> ring \<Rightarrow> ring res" where
  "insert_token project_ids t r =
    (if kt_id t \<in> kt_id ` set (rg_tokens r) \<or> kt_hash t \<in> kt_hash ` set (rg_tokens r) then Inl (fail KindConflict)
     else if kt_name t \<in> kt_name ` {x \<in> set (rg_tokens r). kt_revoked x = None} then Inl (fail KindConflict)
     else if kt_actor t \<notin> mb_actor ` set (v_members (rg_vault r)) then Inl (fail KindPrecondition)
     else if kt_project t \<noteq> [] \<and> kt_project t \<notin> set project_ids then Inl (fail KindPrecondition)
     else Inr (r\<lparr>rg_tokens := rg_tokens r @ [t]\<rparr>))"

definition TokenNameInUse :: "string \<Rightarrow> ring \<Rightarrow> bool" where
  "TokenNameInUse name r \<longleftrightarrow> 0 < rows_matching (\<lambda>t. kt_name t = name \<and> kt_revoked t = None) (rg_tokens r)"

definition GetToken :: "string \<Rightarrow> ring \<Rightarrow> token_row res" where
  "GetToken k r = found (find (\<lambda>t. kt_id t = k) (rg_tokens r))"

definition change_token :: "string \<Rightarrow> (token_row \<Rightarrow> token_row) \<Rightarrow> ring \<Rightarrow> ring res" where
  "change_token k f r =
    (if rows_matching (\<lambda>t. kt_id t = k) (rg_tokens r) = 0 then Inl (fail KindNotFound)
     else Inr (r\<lparr>rg_tokens := update_where (\<lambda>t. kt_id t = k) f (rg_tokens r)\<rparr>))"

definition revoke_row :: "string \<Rightarrow> time \<Rightarrow> ring \<Rightarrow> ring res" where
  "revoke_row k at_time = change_token k (\<lambda>t. t\<lparr>kt_revoked := Some at_time\<rparr>)"

definition TouchToken :: "string \<Rightarrow> time \<Rightarrow> ring \<Rightarrow> ring res" where
  "TouchToken k at_time = change_token k (\<lambda>t. t\<lparr>kt_used := Some at_time\<rparr>)"

definition record_token ::
  "desk \<Rightarrow> call_ctx \<Rightarrow> actor \<Rightarrow> string \<Rightarrow> string \<Rightarrow> string \<Rightarrow> string \<Rightarrow> (string \<times> detail) list \<Rightarrow> (string \<times> detail) list \<Rightarrow>
    ring \<Rightarrow> ring" where
  "record_token d ctx a action typ subject project after payload r =
    r\<lparr>rg_vault := (rg_vault r)\<lparr>v_audits := v_audits (rg_vault r) @ [\<lparr>au_action = action, au_subject_type = ''api_token'',
        au_subject = subject, au_actor = a_id a, au_before = None, au_after = Some (RowSnap after),
        au_source = SourceFrom ctx, au_at = dk_now d\<rparr>],
      v_events := v_events (rg_vault r) @ [\<lparr>ev_type = typ, ev_subject_type = ''api_token'', ev_subject = subject,
        ev_project = project, ev_actor = a_id a, ev_payload = withActor a payload, ev_at = dk_now d\<rparr>]\<rparr>\<rparr>"

section \<open>Minting through the service\<close>

definition checkScopeGrant :: "actor \<Rightarrow> scope list \<Rightarrow> unit res" where
  "checkScopeGrant a scopes = (case find (\<lambda>s. \<not> HasScope (Some a) s) scopes of
     None \<Rightarrow> Inr () | Some s \<Rightarrow> Inl (fail_with KindForbidden [(''scope'', DStr s)]))"

definition withoutScope :: "scope list \<Rightarrow> scope \<Rightarrow> scope list" where
  "withoutScope scopes drop_scope = filter (\<lambda>s. s \<noteq> drop_scope) scopes"

definition targetIsOwnPerson :: "actor \<Rightarrow> string \<Rightarrow> bool \<Rightarrow> vault \<Rightarrow> unit res" where
  "targetIsOwnPerson a target shell v =
    (let refused = fail_with KindForbidden [(''scope'', DStr ScopeAccountRead)] in
     if target \<noteq> a_id a \<and> \<not> shell then Inl refused
     else case accountOfActor target v of
       Inr _ \<Rightarrow> Inr ()
     | Inl err \<Rightarrow> if IsKind (Some err) KindNotFound then Inl refused else Inl err)"

definition targetIsGlobalAdmin :: "string \<Rightarrow> vault \<Rightarrow> unit res" where
  "targetIsGlobalAdmin target v =
    (let refused = fail_with KindForbidden [(''scope'', DStr ScopeGlobalAdmin)] in
     case accountOfActor target v of
       Inr u \<Rightarrow> if us_global u \<and> us_disabled u = None then Inr () else Inl refused
     | Inl err \<Rightarrow> if \<not> IsKind (Some err) KindNotFound then Inl err else Inl refused)"

definition tokenActor :: "actor \<Rightarrow> string \<Rightarrow> vault \<Rightarrow> string res" where
  "tokenActor a ref v =
    (let ref = TrimSpace ref in
     if ref = [] then rbind (GetMemberActor (a_id a) v) (\<lambda>m. Inr (mb_actor m))
     else case GetMemberActor ref v of
       Inr m \<Rightarrow> Inr (mb_actor m)
     | Inl err \<Rightarrow> if \<not> IsKind (Some err) KindNotFound then Inl err
         else rbind (found (find (\<lambda>m. mb_handle m = ToLower ref) (v_members v))) (\<lambda>m. Inr (mb_actor m)))"

definition create_token_tx ::
  "desk \<Rightarrow> call_ctx \<Rightarrow> store \<Rightarrow> actor \<Rightarrow> token_input \<Rightarrow> ring \<Rightarrow> (ring \<times> token_row \<times> string) res" where
  "create_token_tx d ctx s a inp r =
    rbind (tokenActor a (ki_actor inp) (rg_vault r)) (\<lambda>target.
    rbind (if ScopeGlobalAdmin \<in> set (ki_scopes inp) then targetIsGlobalAdmin target (rg_vault r) else Inr ()) (\<lambda>_.
    rbind (if ScopeAccountRead \<in> set (ki_scopes inp) then targetIsOwnPerson a target (c_direct_store ctx) (rg_vault r) else Inr ()) (\<lambda>_.
    rbind (if TrimSpace (ki_project inp) \<noteq> [] then rbind (lookupProject s (ki_project inp)) (\<lambda>p. Inr (pr_id p)) else Inr (ki_project inp)) (\<lambda>project.
    let inp = inp\<lparr>ki_actor := target, ki_project := project\<rparr> in
    if TokenNameInUse (ki_name inp) r then Inl (fail_with KindConflict [(''field'', DStr ''name'')])
    else rbind (MintAPIToken d (a_tenant a) inp) (\<lambda>(t, token).
      rbind (insert_token (map pr_id (projects s)) t r) (\<lambda>r.
        Inr (record_token d ctx a ''token.create'' ''token.created'' (kt_id t) (kt_project t)
            [(''name'', DStr (kt_name t)), (''actor_id'', DStr (kt_actor t))]
            [(''name'', DStr (kt_name t)), (''actor_id'', DStr (kt_actor t))] r, t, token)))))))"

definition CreateToken :: "desk \<Rightarrow> call_ctx \<Rightarrow> store \<Rightarrow> token_input \<Rightarrow> ring \<Rightarrow> ring \<times> (token_row \<times> string) res" where
  "CreateToken d ctx s inp r =
    (case rbind (authorize ctx ActionTokenAdmin (no_resource\<lparr>r_project := ki_project inp\<rparr>)) (\<lambda>a.
       rbind (validate_token_input inp) (\<lambda>_.
       rbind (if ScopeGlobalAdmin \<in> set (ki_scopes inp) then rbind (authorizeGlobal ctx (rg_vault r)) (\<lambda>_. Inr ()) else Inr ()) (\<lambda>_.
       if ScopeAccountRead \<in> set (ki_scopes inp) \<and> a_token a \<noteq> [] \<and> \<not> HasScope (Some a) ScopeAccountRead
         then Inl (fail_with KindForbidden [(''scope'', DStr ScopeAccountRead)])
       else rbind (checkScopeGrant a (withoutScope (withoutScope (ki_scopes inp) ScopeGlobalAdmin) ScopeAccountRead))
         (\<lambda>_. create_token_tx d ctx s a inp r)))) of
       Inl err \<Rightarrow> (r, Inl err)
     | Inr (r', x) \<Rightarrow> (r', Inr x))"

definition RevokeToken :: "desk \<Rightarrow> call_ctx \<Rightarrow> string \<Rightarrow> ring \<Rightarrow> ring \<times> unit res" where
  "RevokeToken d ctx k r =
    (case rbind (authorize ctx ActionTokenAdmin no_resource) (\<lambda>a.
       if TrimSpace k = [] then Inl (fail KindInvalid)
       else rbind (GetToken k r) (\<lambda>existing. rbind (revoke_row k (dk_now d) r) (\<lambda>r.
         let action = (if kt_actor existing \<noteq> a_id a then ''token.revoke_other'' else ''token.revoke'')
         in Inr (record_token d ctx a action ''token.revoked'' k []
             [(''id'', DStr k), (''revoked_at'', DInt (dk_now d))]
             [(''token_id'', DStr k), (''token_actor_id'', DStr (kt_actor existing)), (''name'', DStr (kt_name existing))] r)))) of
       Inl err \<Rightarrow> (r, Inl err)
     | Inr r' \<Rightarrow> (r', Inr ()))"

section \<open>The actor behind a request\<close>

definition StandingWithdrawn :: "string \<Rightarrow> vault \<Rightarrow> bool" where
  "StandingWithdrawn k v = (case GetMemberActor k v of
     Inl _ \<Rightarrow> True
   | Inr m \<Rightarrow>
       if mb_disabled m \<noteq> None then True
       else if mb_user m = [] then False
       else (case GetUser (mb_user m) v of Inl _ \<Rightarrow> False | Inr u \<Rightarrow> us_disabled u \<noteq> None))"

definition TokenByHash :: "call_ctx \<Rightarrow> string \<Rightarrow> ring \<Rightarrow> token_row option" where
  "TokenByHash rq h r = (if TenantFrom rq = None then None
     else case find (\<lambda>t. kt_hash t = h) (rg_tokens r) of
       None \<Rightarrow> None
     | Some t \<Rightarrow> if StandingWithdrawn (kt_actor t) (rg_vault r) then None else Some t)"

definition token_actor :: "ring \<Rightarrow> token_row \<Rightarrow> actor" where
  "token_actor r t = \<lparr>a_id = kt_actor t, a_tenant = tn_id (v_tenant (rg_vault r)), a_kind = ActorAgent, a_handle = kt_name t,
     a_scopes = kt_scopes t, a_role = [], a_token = kt_id t, a_project = kt_project t\<rparr>"

definition VerifyToken :: "desk \<Rightarrow> call_ctx \<Rightarrow> string \<Rightarrow> ring \<Rightarrow> ring \<times> actor res" where
  "VerifyToken d rq presented r = (case ParseAPIToken presented of
     Inl err \<Rightarrow> (r, Inl err)
   | Inr _ \<Rightarrow> (case TokenByHash rq (HashToken d presented) r of
       None \<Rightarrow> (r, Inl errInvalidCredentials)
     | Some t \<Rightarrow>
         if \<not> token_active t (dk_clock d) then (r, Inl errInvalidCredentials)
         else (case TouchToken (kt_id t) (dk_clock d) r of
             Inl err \<Rightarrow> (r, Inl (fail KindInternal))
           | Inr r' \<Rightarrow> (r', Inr (token_actor r t)))))"

record stored_session =
  ss_actor :: string
  ss_handle :: string
  ss_role :: string
  ss_hash :: string
  ss_expires :: time

definition SessionByHash :: "call_ctx \<Rightarrow> string \<Rightarrow> vault \<Rightarrow> stored_session option" where
  "SessionByHash rq h v = (if TenantFrom rq = None then None
     else case find (\<lambda>x. se_hash x = h) (v_sessions v) of
       None \<Rightarrow> None
     | Some x \<Rightarrow>
         if StandingWithdrawn (se_actor x) v then None
         else Some (case GetMemberActor (se_actor x) v of
             Inl _ \<Rightarrow> \<lparr>ss_actor = se_actor x, ss_handle = [], ss_role = [], ss_hash = h, ss_expires = se_expires x\<rparr>
           | Inr m \<Rightarrow> \<lparr>ss_actor = se_actor x, ss_handle = mb_handle m, ss_role = mb_role m, ss_hash = h, ss_expires = se_expires x\<rparr>))"

definition VerifySession :: "desk \<Rightarrow> call_ctx \<Rightarrow> string \<Rightarrow> vault \<Rightarrow> actor res" where
  "VerifySession d rq token v =
    (if token = [] then Inl errInvalidCredentials
     else case SessionByHash rq (HashToken d token) v of
       None \<Rightarrow> Inl errInvalidCredentials
     | Some x \<Rightarrow>
         if \<not> dk_clock d < ss_expires x then Inl errInvalidCredentials
         else if ss_role x \<noteq> [] \<and> \<not> valid_role (ss_role x) then Inl errInvalidCredentials
         else Inr \<lparr>a_id = ss_actor x, a_tenant = tn_id (v_tenant v), a_kind = ActorUser, a_handle = ss_handle x,
           a_scopes = [], a_role = ss_role x, a_token = [], a_project = []\<rparr>)"

section \<open>A token has no more authority than its creator\<close>

lemma find_appended: "\<forall>y\<in>set xs. \<not> P y \<Longrightarrow> P x \<Longrightarrow> find P (xs @ [x]) = Some x"
  by (induction xs) auto

lemma no_role: "role_scopes [] = []"
  by (simp add: role_scopes_def role_defs)

lemma HasScope_of_scopes:
  "a_role a = [] \<Longrightarrow> HasScope (Some a) s \<Longrightarrow> s \<in> set (a_scopes a) \<or>
    ScopeAll \<in> set (a_scopes a) \<and> s \<noteq> ScopeGlobalAdmin \<and> s \<noteq> ScopeAccountRead"
  by (auto simp: HasScope_def no_role split: if_splits)

lemma HasScope_all: "HasScope (Some a) ScopeAll \<Longrightarrow> s \<noteq> ScopeGlobalAdmin \<Longrightarrow> s \<noteq> ScopeAccountRead \<Longrightarrow> HasScope (Some a) s"
  by (auto simp: HasScope_def split: if_splits)

lemma checkScopeGrant_all: "checkScopeGrant a scopes = Inr u \<Longrightarrow> s \<in> set scopes \<Longrightarrow> HasScope (Some a) s"
  by (auto simp: checkScopeGrant_def find_None_iff split: option.splits)

lemma CreateToken_obtains:
  assumes "CreateToken d ctx s inp r = (r', Inr (t, token))"
  obtains a where "authorize ctx ActionTokenAdmin (no_resource\<lparr>r_project := ki_project inp\<rparr>) = Inr a"
    and "ScopeGlobalAdmin \<in> set (ki_scopes inp) \<Longrightarrow> \<exists>x. authorizeGlobal ctx (rg_vault r) = Inr x"
    and "ScopeAccountRead \<in> set (ki_scopes inp) \<Longrightarrow> a_token a = [] \<or> HasScope (Some a) ScopeAccountRead"
    and "checkScopeGrant a (withoutScope (withoutScope (ki_scopes inp) ScopeGlobalAdmin) ScopeAccountRead) = Inr ()"
    and "create_token_tx d ctx s a inp r = Inr (r', t, token)"
  using assms unfolding CreateToken_def
  by (auto simp: rbind_Inr_iff split: sum.splits if_splits)

lemma MintAPIToken_row:
  "MintAPIToken d tenant inp = Inr (t, token) \<Longrightarrow> kt_actor t = ki_actor inp \<and> kt_scopes t = ki_scopes inp \<and>
    kt_expires t = ki_expires inp \<and> kt_revoked t = None \<and> token = TokenPrefix @ ToLower (base32 (dk_token d)) \<and>
    kt_hash t = HashToken d token"
  by (auto simp: MintAPIToken_def rbind_Inr_iff Let_def split: if_splits)

lemma insert_token_row:
  "insert_token ids t r = Inr r' \<Longrightarrow> r' = r\<lparr>rg_tokens := rg_tokens r @ [t]\<rparr> \<and> kt_hash t \<notin> kt_hash ` set (rg_tokens r) \<and>
    kt_id t \<notin> kt_id ` set (rg_tokens r)"
  by (auto simp: insert_token_def split: if_splits)

lemma record_token_keeps [simp]:
  "rg_tokens (record_token d ctx a action typ k project after payload r) = rg_tokens r"
  "v_members (rg_vault (record_token d ctx a action typ k project after payload r)) = v_members (rg_vault r)"
  "v_users (rg_vault (record_token d ctx a action typ k project after payload r)) = v_users (rg_vault r)"
  "v_tenant (rg_vault (record_token d ctx a action typ k project after payload r)) = v_tenant (rg_vault r)"
  by (simp_all add: record_token_def)

lemma create_token_tx_obtains:
  assumes "create_token_tx d ctx s a inp r = Inr (r', t, token)"
  obtains target project r1 where "tokenActor a (ki_actor inp) (rg_vault r) = Inr target"
    and "ScopeGlobalAdmin \<in> set (ki_scopes inp) \<Longrightarrow> targetIsGlobalAdmin target (rg_vault r) = Inr ()"
    and "ScopeAccountRead \<in> set (ki_scopes inp) \<Longrightarrow> targetIsOwnPerson a target (c_direct_store ctx) (rg_vault r) = Inr ()"
    and "MintAPIToken d (a_tenant a) (inp\<lparr>ki_actor := target, ki_project := project\<rparr>) = Inr (t, token)"
    and "insert_token (map pr_id (projects s)) t r = Inr r1"
    and "r' = record_token d ctx a ''token.create'' ''token.created'' (kt_id t) (kt_project t)
            [(''name'', DStr (kt_name t)), (''actor_id'', DStr (kt_actor t))]
            [(''name'', DStr (kt_name t)), (''actor_id'', DStr (kt_actor t))] r1"
  using assms unfolding create_token_tx_def Let_def
  by (elim rbind_InrE) (auto elim!: rbind_InrE split: if_splits)

lemma create_token_tx_row:
  assumes "create_token_tx d ctx s a inp r = Inr (r', t, token)"
  shows "tokenActor a (ki_actor inp) (rg_vault r) = Inr (kt_actor t) \<and> kt_scopes t = ki_scopes inp \<and> kt_expires t = ki_expires inp \<and>
    kt_revoked t = None \<and> token = TokenPrefix @ ToLower (base32 (dk_token d)) \<and> kt_hash t = HashToken d token \<and>
    rg_tokens r' = rg_tokens r @ [t] \<and> kt_hash t \<notin> kt_hash ` set (rg_tokens r) \<and>
    v_members (rg_vault r') = v_members (rg_vault r) \<and> v_users (rg_vault r') = v_users (rg_vault r) \<and>
    v_tenant (rg_vault r') = v_tenant (rg_vault r) \<and>
    (ScopeGlobalAdmin \<in> set (ki_scopes inp) \<longrightarrow> targetIsGlobalAdmin (kt_actor t) (rg_vault r) = Inr ()) \<and>
    (ScopeAccountRead \<in> set (ki_scopes inp) \<longrightarrow> targetIsOwnPerson a (kt_actor t) (c_direct_store ctx) (rg_vault r) = Inr ())"
proof (rule create_token_tx_obtains [OF assms])
  fix target project r1
  assume "MintAPIToken d (a_tenant a) (inp\<lparr>ki_actor := target, ki_project := project\<rparr>) = Inr (t, token)"
    and "insert_token (map pr_id (projects s)) t r = Inr r1"
  note made = MintAPIToken_row [OF this(1)] insert_token_row [OF this(2)]
  assume "tokenActor a (ki_actor inp) (rg_vault r) = Inr target"
    and "ScopeGlobalAdmin \<in> set (ki_scopes inp) \<Longrightarrow> targetIsGlobalAdmin target (rg_vault r) = Inr ()"
    and "ScopeAccountRead \<in> set (ki_scopes inp) \<Longrightarrow> targetIsOwnPerson a target (c_direct_store ctx) (rg_vault r) = Inr ()"
    and "r' = record_token d ctx a ''token.create'' ''token.created'' (kt_id t) (kt_project t)
            [(''name'', DStr (kt_name t)), (''actor_id'', DStr (kt_actor t))]
            [(''name'', DStr (kt_name t)), (''actor_id'', DStr (kt_actor t))] r1"
  then show ?thesis using made by simp
qed

lemma StandingWithdrawn_cong:
  "v_members v' = v_members v \<Longrightarrow> v_users v' = v_users v \<Longrightarrow> StandingWithdrawn k v' = StandingWithdrawn k v"
  unfolding StandingWithdrawn_def GetMemberActor_def GetUser_def by (simp split: sum.split)

lemma VerifyToken_new:
  assumes "create_token_tx d ctx s a inp r = Inr (r', t, token)" and "VerifyToken e rq token r' = (r'', Inr b)"
    and "dk_crypto e = dk_crypto d"
  shows "b = token_actor r' t \<and> token_active t (dk_clock e) \<and> \<not> StandingWithdrawn (kt_actor t) (rg_vault r)"
proof -
  note row = create_token_tx_row [OF assms(1)]
  have h: "HashToken e token = kt_hash t" using row assms(3) by (simp add: HashToken_def)
  have f: "find (\<lambda>x. kt_hash x = kt_hash t) (rg_tokens r') = Some t"
    using row by (auto simp: image_iff intro!: find_appended)
  have "StandingWithdrawn (kt_actor t) (rg_vault r') = StandingWithdrawn (kt_actor t) (rg_vault r)"
    using row by (intro StandingWithdrawn_cong) auto
  with assms(2) show ?thesis
    by (auto simp: VerifyToken_def TokenByHash_def h f split: sum.splits option.splits if_splits)
qed

text \<open>Where each scope of a minted token comes from.\<close>

definition grantable :: "call_ctx \<Rightarrow> actor \<Rightarrow> string \<Rightarrow> vault \<Rightarrow> scope \<Rightarrow> bool" where
  "grantable ctx a target v s \<longleftrightarrow>
    (if s = ScopeGlobalAdmin then authorizeGlobal ctx v = Inr a \<and> (\<exists>u. accountOfActor target v = Inr u \<and> us_global u \<and> us_disabled u = None)
     else if s = ScopeAccountRead then (a_token a = [] \<or> HasScope (Some a) ScopeAccountRead) \<and> (target = a_id a \<or> c_direct_store ctx)
     else HasScope (Some a) s)"

lemma authorize_names_caller: "authorize ctx action res = Inr a \<Longrightarrow> c_actor ctx = Some a"
  by (auto simp: authorize_def RequireActor_def rbind_Inr_iff Let_def split: option.splits if_splits)

lemma authorizeGlobal_caller: "authorizeGlobal ctx v = Inr x \<Longrightarrow> c_actor ctx = Some x"
  by (auto simp: authorizeGlobal_def RequireActor_def rbind_Inr_iff split: option.splits)

lemma CreateToken_grantable:
  assumes "CreateToken d ctx s inp r = (r', Inr (t, token))" and "c_actor ctx = Some a" and "x \<in> set (ki_scopes inp)"
  shows "grantable ctx a (kt_actor t) (rg_vault r) x"
proof (rule CreateToken_obtains [OF assms(1)])
  fix a' assume auth: "authorize ctx ActionTokenAdmin (no_resource\<lparr>r_project := ki_project inp\<rparr>) = Inr a'"
    and glob: "ScopeGlobalAdmin \<in> set (ki_scopes inp) \<Longrightarrow> \<exists>x. authorizeGlobal ctx (rg_vault r) = Inr x"
    and acct: "ScopeAccountRead \<in> set (ki_scopes inp) \<Longrightarrow> a_token a' = [] \<or> HasScope (Some a') ScopeAccountRead"
    and rest: "checkScopeGrant a' (withoutScope (withoutScope (ki_scopes inp) ScopeGlobalAdmin) ScopeAccountRead) = Inr ()"
    and tx: "create_token_tx d ctx s a' inp r = Inr (r', t, token)"
  have a': "a' = a" using authorize_names_caller [OF auth] assms(2) by simp
  note row = create_token_tx_row [OF tx]
  consider "x = ScopeGlobalAdmin" | "x = ScopeAccountRead" "x \<noteq> ScopeGlobalAdmin" | "x \<noteq> ScopeGlobalAdmin" "x \<noteq> ScopeAccountRead" by blast
  then show ?thesis
  proof cases
    case 1
    then have "targetIsGlobalAdmin (kt_actor t) (rg_vault r) = Inr ()" using row assms(3) by blast
    moreover have "authorizeGlobal ctx (rg_vault r) = Inr a"
      using glob authorizeGlobal_caller [of ctx "rg_vault r"] assms(2,3) 1 by fastforce
    ultimately show ?thesis using 1
      by (auto simp: grantable_def targetIsGlobalAdmin_def Let_def split: sum.splits if_splits)
  next
    case 2
    then have "targetIsOwnPerson a' (kt_actor t) (c_direct_store ctx) (rg_vault r) = Inr ()" using row assms(3) by blast
    then have "kt_actor t = a_id a \<or> c_direct_store ctx"
      by (auto simp: targetIsOwnPerson_def Let_def a' split: if_splits)
    then show ?thesis using 2 acct assms(3) by (auto simp: grantable_def a')
  next
    case 3
    then have "x \<in> set (withoutScope (withoutScope (ki_scopes inp) ScopeGlobalAdmin) ScopeAccountRead)"
      using assms(3) by (simp add: withoutScope_def)
    from checkScopeGrant_all [OF rest this] show ?thesis using 3 by (simp add: grantable_def a')
  qed
qed

lemma grantable_all:
  assumes "grantable ctx a target v ScopeAll" and "x \<noteq> ScopeGlobalAdmin" and "x \<noteq> ScopeAccountRead"
  shows "grantable ctx a target v x"
proof -
  have "ScopeAll \<noteq> ScopeGlobalAdmin" "ScopeAll \<noteq> ScopeAccountRead" by code_simp+
  then show ?thesis using assms HasScope_all [of a x] by (simp add: grantable_def)
qed

section \<open>A minted token is accepted\<close>

lemma std32_case: "c \<in> set std32 \<Longrightarrow> upper_ascii (lower c) = c \<and> lower (lower c) = lower c"
proof -
  have "\<forall>c\<in>set std32. upper_ascii (lower c) = c \<and> lower (lower c) = lower c" by code_simp
  then show "c \<in> set std32 \<Longrightarrow> upper_ascii (lower c) = c \<and> lower (lower c) = lower c" by blast
qed

lemma base32_letters: "c \<in> set (base32 bs) \<Longrightarrow> c \<in> set std32"
  using b32.encode_letters by (auto simp: base32_def)

lemma ParseAPIToken_minted:
  assumes "length bs = tokenBytes"
  shows "ParseAPIToken (TokenPrefix @ ToLower (base32 bs)) = Inr (ToLower (base32 bs))"
proof -
  have "map upper_ascii (ToLower (base32 bs)) = base32 bs" "ToLower (ToLower (base32 bs)) = ToLower (base32 bs)"
    using base32_letters [of _ bs] std32_case by (auto simp: ToLower_def intro!: map_idI)
  moreover have "length (ToLower (base32 bs)) = (tokenBytes * 8 + 4) div 5"
    using assms by (simp add: ToLower_def base32_def encode_base_def group_count_def tokenBytes_def)
  ultimately show ?thesis by (simp add: ParseAPIToken_def)
qed

lemma VerifyToken_accepts:
  assumes "create_token_tx d ctx s a inp r = Inr (r', t, token)" and "dk_crypto e = dk_crypto d"
    and "length (dk_token d) = tokenBytes" and "TenantFrom rq \<noteq> None"
    and "token_active t (dk_clock e)" and "\<not> StandingWithdrawn (kt_actor t) (rg_vault r)"
  shows "\<exists>r''. VerifyToken e rq token r' = (r'', Inr (token_actor r' t))"
proof -
  note row = create_token_tx_row [OF assms(1)]
  have h: "HashToken e token = kt_hash t" using row assms(2) by (simp add: HashToken_def)
  have f: "find (\<lambda>x. kt_hash x = kt_hash t) (rg_tokens r') = Some t"
    using row by (auto simp: image_iff intro!: find_appended)
  have p: "\<exists>secret. ParseAPIToken token = Inr secret" using ParseAPIToken_minted [OF assms(3)] row by auto
  have w: "\<not> StandingWithdrawn (kt_actor t) (rg_vault r')"
    using row assms(6) StandingWithdrawn_cong [of "rg_vault r'" "rg_vault r"] by auto
  have "rows_matching (\<lambda>x. kt_id x = kt_id t) (rg_tokens r') \<noteq> 0" using row by (simp add: rows_matching_zero)
  then obtain r'' where "TouchToken (kt_id t) (dk_clock e) r' = Inr r''" by (auto simp: TouchToken_def change_token_def)
  then show ?thesis using p f w assms(4,5) by (auto simp: VerifyToken_def TokenByHash_def h)
qed

text \<open>
  C17: A token has the life and the authority it was minted with. Right after it was created, a token is accepted
  exactly while it has not expired and the actor it acts as stands; the actor it then stands for is that
  actor, and every scope that actor has is one the creator has, or global administration of a global
  administrator asked for by one, or a person's own account.
\<close>

theorem token_authority:
  assumes "CreateToken d ctx s inp r = (r', Inr (t, token))" and "c_actor ctx = Some a" and "dk_crypto e = dk_crypto d"
    and "length (dk_token d) = tokenBytes" and "TenantFrom rq \<noteq> None"
  shows "(is_ok (snd (VerifyToken e rq token r')) \<longleftrightarrow>
      token_active t (dk_clock e) \<and> \<not> StandingWithdrawn (kt_actor t) (rg_vault r)) \<and>
    (\<forall>r'' b. VerifyToken e rq token r' = (r'', Inr b) \<longrightarrow> a_id b = kt_actor t \<and> a_project b = kt_project t \<and>
      (\<forall>x. HasScope (Some b) x \<longrightarrow> grantable ctx a (kt_actor t) (rg_vault r) x))"
proof (rule CreateToken_obtains [OF assms(1)])
  fix a' assume tx: "create_token_tx d ctx s a' inp r = Inr (r', t, token)"
  have one: "b = token_actor r' t \<and> token_active t (dk_clock e) \<and> \<not> StandingWithdrawn (kt_actor t) (rg_vault r)"
    if "VerifyToken e rq token r' = (r'', Inr b)" for r'' b by (rule VerifyToken_new [OF tx that assms(3)])
  have scopes: "grantable ctx a (kt_actor t) (rg_vault r) x" if "HasScope (Some (token_actor r' t)) x" for x
    using HasScope_of_scopes [OF _ that] CreateToken_grantable [OF assms(1,2)] grantable_all create_token_tx_row [OF tx]
    by (auto simp: token_actor_def)
  have "is_ok (snd (VerifyToken e rq token r')) \<longleftrightarrow> (\<exists>r'' b. VerifyToken e rq token r' = (r'', Inr b))"
    by (cases "VerifyToken e rq token r'"; cases "snd (VerifyToken e rq token r')") auto
  then show ?thesis using one scopes VerifyToken_accepts [OF tx assms(3-5)] by (auto simp: token_actor_def)
qed

definition token_ring :: ring where
  "token_ring = \<lparr>rg_vault = \<lparr>v_tenant = \<lparr>tn_id = ''t1'', tn_key = ''t'', tn_name = ''T'', tn_web = False, tn_cli = False, tn_ssh = False\<rparr>,
     v_users = [], v_members = [\<lparr>mb_actor = ''a1'', mb_user = [], mb_handle = ''ann'', mb_role = RoleAdmin, mb_disabled = None\<rparr>],
     v_elsewhere = [], v_totps = [], v_codes = [], v_sessions = [], v_log = [], v_audits = [], v_events = []\<rparr>, rg_tokens = []\<rparr>"

definition token_desk :: "time \<Rightarrow> desk" where
  "token_desk t = \<lparr>dk_crypto = sample_crypto, dk_mac256 = sample_mac, dk_key = [], dk_derive = sample_derive,
     dk_params = DefaultParams, dk_busy = False, dk_start = t, dk_clock = t, dk_now = t, dk_db = t,
     dk_ids = (\<lambda>n. ''k''), dk_secret = [], dk_nonce = [], dk_codes = [], dk_token = replicate 32 7, dk_salt = [],
     dk_dummy = [], dk_standing = None\<rparr>"

definition token_admin :: actor where
  "token_admin = \<lparr>a_id = ''a1'', a_tenant = ''t1'', a_kind = ActorUser, a_handle = ''ann'', a_scopes = [],
     a_role = RoleAdmin, a_token = [], a_project = []\<rparr>"

definition token_caller :: call_ctx where
  "token_caller = \<lparr>c_actor = Some token_admin, c_tenant = Some ''t1'', c_source = ''web'', c_direct_store = False\<rparr>"

definition token_wish :: token_input where
  "token_wish = \<lparr>ki_name = ''n'', ki_actor = [], ki_scopes = [ScopeTaskRead], ki_project = [], ki_expires = Some 9\<rparr>"

lemma token_granted:
  "\<exists>r' t token. CreateToken (token_desk 1) token_caller sample_store token_wish token_ring = (r', Inr (t, token)) \<and>
    kt_actor t = ''a1'' \<and> kt_expires t = Some 9 \<and> kt_revoked t = None"
proof -
  have a: "authorize token_caller ActionTokenAdmin (no_resource\<lparr>r_project := ki_project token_wish\<rparr>) = Inr token_admin"
    by code_simp
  have scopes: "ScopeGlobalAdmin \<notin> set (ki_scopes token_wish)" "ScopeAccountRead \<notin> set (ki_scopes token_wish)"
    "checkScopeGrant token_admin (withoutScope (withoutScope (ki_scopes token_wish) ScopeGlobalAdmin) ScopeAccountRead) = Inr ()"
    "list_ex (\<lambda>s. s \<noteq> ScopeAll \<and> s \<notin> set AllScopes) (ki_scopes token_wish) = False" by code_simp+
  have blank: "TrimSpace [] = []" "TrimSpace ''t1'' = ''t1''" by code_simp+
  show ?thesis using a scopes blank
    by (simp add: CreateToken_def create_token_tx_def MintAPIToken_def insert_token_def validate_token_input_def tokenActor_def
        GetMemberActor_def found_def TokenNameInUse_def rows_matching_def Let_def token_ring_def token_wish_def token_admin_def record_token_def)
qed

lemma token_authority_witness:
  "\<exists>r' t token. CreateToken (token_desk 1) token_caller sample_store token_wish token_ring = (r', Inr (t, token)) \<and>
    is_ok (snd (VerifyToken (token_desk 5) token_caller token r')) \<and> \<not> is_ok (snd (VerifyToken (token_desk 9) token_caller token r'))"
proof -
  from token_granted obtain r' t token where c: "CreateToken (token_desk 1) token_caller sample_store token_wish token_ring = (r', Inr (t, token))"
    and t: "kt_actor t = ''a1''" "kt_expires t = Some 9" "kt_revoked t = None" by blast
  have facts: "c_actor token_caller = Some token_admin" "dk_crypto (token_desk n) = dk_crypto (token_desk m)"
    "length (dk_token (token_desk n)) = tokenBytes" "TenantFrom token_caller \<noteq> None"
    "\<not> StandingWithdrawn ''a1'' (rg_vault token_ring)" "dk_clock (token_desk n) = n" for n m
    by (simp_all add: token_caller_def token_desk_def tokenBytes_def TenantFrom_def blank_def StandingWithdrawn_def GetMemberActor_def
        found_def token_ring_def)
  then show ?thesis
    using token_authority [OF c facts(1) facts(2) [of 5 1] facts(3,4)]
      token_authority [OF c facts(1) facts(2) [of 9 1] facts(3,4)] c t
    by (auto simp: token_active_def)
qed

end
