(* ===== verification/Spec2Isabelle.thy ===== *)
theory Spec2Isabelle
  imports Lease_Results Task_Results Ulid Qr_Read Factor_Rules Delivery_Rules Target_Guard Tokens
begin

text \<open>
  \<^bold>\<open>tix\<close> keeps the tasks of a tenant in projects whose workflows say how a task may move, and lends tasks to people
  and agents under leases. Every surface (command line, HTTP, web pages, terminal, MCP) calls one service,
  \<open>internal/service\<close>. A call authorizes its actor, opens one transaction of the store
  (\<open>internal/store/sqlite\<close>), reads and writes rows, queues audit entries, events and inbox notes on the
  mutation, and commits; deliveries to webhooks and channels are attempted after the commit. The pure rules
  (workflows, routes, lease lengths, repeat rules, references, authorization) are in \<open>internal/core\<close>,
  \<open>lease\<close> and \<open>authz\<close>; credentials are in \<open>internal/auth\<close>, the QR code of an enrolment in
  \<open>internal/qr\<close>.

  \<^bold>\<open>How the code is represented.\<close> A struct is a record, an enumeration a datatype or the string the code
  compares, an identifier a string, a failure the left side of a sum: \<open>goerr\<close> holds the kind and the details
  callers look at, not the message. A \<open>time.Time\<close> is a count of nanoseconds since the epoch and a
  \<open>time.Duration\<close> an int64 count, with the wrap-around and saturation of its operations written out
  (\<open>Go_Time\<close>). A table is the list of its rows, an UPDATE is \<open>update_where\<close>, and its affected-row count is
  \<open>rows_matching\<close>. The record \<open>store\<close> of \<open>Tables\<close> is what one transaction sees of one tenant; the
  handlers are functions from a \<open>mutation\<close> (the tables and what is queued) to a mutation and an answer.
  What a call reads from outside is in \<open>env\<close>: the clock of the service, the clock of the store, minted
  identifiers and a minted token. \<open>write_tx\<close> commits by \<open>flush\<close> or leaves the tables alone.

  \<^bold>\<open>Theories, in the order of the code's layers.\<close>
  \<^item> \<open>Prelude\<close>: results and their bind, tables as lists, the collections of rewrite rules; \<open>Go_Time\<close>,
    \<open>Calendar\<close>: the parts of Go's \<open>time\<close> that are used; \<open>Errors\<close>: \<open>core/errors.go\<close>.
  \<^item> \<open>Workflow\<close>, \<open>Routes\<close> (\<open>core/types.go\<close>, \<open>input.go\<close>, \<open>reachability.go\<close>): the state machine
    a project authors and the search for routes through it. A resolved route is a shortest walk and the only
    one; a refusal has one of the stated reasons; writing and parsing a route are inverse.
  \<^item> \<open>Lease\<close> (\<open>lease/lease.go\<close>, \<open>service/leasescope.go\<close>): bounds, precedence and expiry of leases.
  \<^item> \<open>Authz\<close> (\<open>authz/policy.go\<close>, \<open>action.go\<close>, \<open>core/identity.go\<close>): scopes, roles and decisions; how
    far pinned actors, wildcards and roles reach.
  \<^item> \<open>Task_Ref\<close>, \<open>Ident\<close>, \<open>Ulid\<close> (\<open>core/ref.go\<close>, \<open>id/id.go\<close>): references and identifiers, their
    round trip and their order.
  \<^item> \<open>Recurrence\<close>, \<open>Occurrences\<close> (\<open>core/recurrence.go\<close>, \<open>service/recurrence.go\<close>): repeat rules, the least
    next occurrence, and the successor of a finished task.
  \<^item> \<open>Tables\<close>, \<open>Task_Store\<close>, \<open>Task_Writes\<close> (\<open>store/sqlite\<close>): the rows and the statements.
  \<^item> \<open>Mutation\<close> (\<open>service/tx.go\<close>, \<open>inbox.go\<close>, \<open>local.go\<close>): the transaction, audit entries, events,
    inbox notes and mentions.
  \<^item> \<open>Claims\<close>, \<open>Releases\<close>, \<open>Transitions\<close>, \<open>Task_Help\<close>, \<open>Task_Edits\<close>, \<open>Custom_Fields\<close>
    (\<open>service/claim.go\<close>, \<open>reclaim.go\<close>, \<open>task.go\<close>, \<open>bulk.go\<close>, \<open>dep.go\<close>, \<open>tag.go\<close>, \<open>snooze.go\<close>):
    the handlers, one definition \<open>service_X\<close> for each service method \<open>X\<close>.
  \<^item> \<open>Encodings\<close>, \<open>Passwords\<close>, \<open>Ticket\<close>, \<open>Second_Factor\<close> (\<open>internal/auth\<close>): base64 and base32 with
    the interface \<open>alphabet\<close>, password hashes, sign-in tickets, time-based and recovery codes.
  \<^item> \<open>Accounts\<close>, \<open>Sign_In\<close>, \<open>Factor_Rules\<close> (\<open>service/session.go\<close>, \<open>totp.go\<close>): signing in through a
    password, a ticket and a second factor, and what a session therefore implies; \<open>Tokens\<close>
    (\<open>auth/token.go\<close>, \<open>service/token.go\<close>, \<open>server/auth.go\<close>): minting tokens, and the actor behind a
    presented token or session.
  \<^item> \<open>Qr_Field\<close>, \<open>Qr_Words\<close>, \<open>Qr_Symbol\<close>, \<open>Qr_Patterns\<close>, \<open>Qr_Read\<close> (\<open>internal/qr\<close>): from bytes to
    modules, and a reader after the standard that gets the bytes back.
  \<^item> \<open>Webhooks\<close>, \<open>Delivery_Rules\<close>, \<open>Target_Guard\<close> (\<open>internal/webhook\<close>, \<open>service/webhook.go\<close>): the
    delivery queue and its dispatcher, that deliveries are settled, and which addresses a delivery may reach.

  \<^bold>\<open>Specifications and interfaces.\<close> \<open>Lease_Spec\<close> is an abstract protocol: leases, promises made to
  workers and a clock. Its locale \<open>lease_ops\<close> is what a store must offer; \<open>Lease_Board\<close> interprets it on
  the conditional updates of the tables, \<open>Lease_Handlers\<close> lifts that to the handlers, and \<open>Lease_System\<close>
  shows that the served calls refine the protocol, from which mutual exclusion follows. \<open>Service\<close> lists the
  calls as requests with one function \<open>serve\<close>. The locales \<open>quiet_writes\<close>, \<open>quiet_services\<close>,
  \<open>all_writes\<close> and \<open>all_services\<close> (\<open>Tx_Frame\<close>, \<open>Service\<close>) say that a relation kept by every statement is kept
  by every handler and by every call; they are interpreted on the lease columns (\<open>Tx_Frame\<close>, \<open>Lease_System\<close>),
  on the logs (\<open>Audit_Trail\<close>), on the keys of the schema (\<open>Schema\<close>) and on acyclic dependencies
  (\<open>Dep_Graph\<close>). \<open>Write_Shapes\<close> says which tables a statement touches. \<open>Lease_Results\<close> and
  \<open>Task_Results\<close> hold what single calls do.

  \<^bold>\<open>Bounds and loops.\<close> The searches the code bounds keep their bounds: \<open>MaxRouteSteps\<close> moves of a route,
  \<open>maxSubtreeSize\<close> tasks of a subtree, the limits of a sweep, the attempts of a claim. The recursive query behind
  \<open>DependencyPathExists\<close> is run for as many rounds as there are edges, which \<open>linkDependency_exact\<close> shows
  to be enough. Two loops of the code have no bound of their own, the search for the next occurrence and the
  reduction behind the QR code's format bits; they are partial functions, and \<open>Next_least\<close> and
  \<open>bch_terminates\<close> show that they end. \<open>drain_rounds\<close> runs as many rounds as the bound its caller sets;
  \<open>deliveries_settle\<close> bounds the passes a queue needs by its rows times the attempts of the schedule.

  \<^bold>\<open>Assumptions.\<close> Mutual exclusion assumes that clocks do not go back, that a transaction sees the store's
  clock no earlier than the service's, and that minted tokens are fresh. Statements within one transaction are
  atomic, as the store's isolation gives. Cryptographic functions, the resolver and the parsers of urls and
  addresses are arguments, with the length of a derived key as the only law asked of them.

  \<^bold>\<open>Not modelled.\<close> The surfaces (command line, HTTP API, web pages, terminal, MCP, SSH) and the client format,
  route and render what the service answers; the second storage engine repeats the statements of the first in another
  dialect; import, export, bundles and the sync adapters move whole snapshots through parsers of foreign
  formats; configuration, onboarding, logging, translation, output and self-update have no state of the tenant.
  Of the service itself, invitations, key sign-in, projects, tenants and users, saved filters and the
  query language, views and statistics, calendar feeds, templates, checklists, artifacts and housekeeping are left
  out: they are record keeping around the task engine, written with the same transaction as the handlers modelled
  here. Message texts of errors are left out throughout, and strings are sequences of bytes, so Unicode case
  folding is that of the ASCII letters.
\<close>

end
